(* ===== verification/Prelude.thy ===== *)
theory Prelude
  imports Complex_Main "HOL-Library.Word" "HOL-Library.List_Lexorder" "HOL-Library.Char_ord"
begin

text \<open>
  Shared vocabulary of the development: identifiers and their string form, the Python
  exceptions the modelled code raises, the error monad in which every operation is written,
  JSON-like metadata values, and the generic lemmas on table rows (lists of records) that the
  component theories use.
\<close>

subsection \<open>Collections of facts\<close>

named_theorems result_simps \<open>decomposition of successful and failing computations\<close>
named_theorems row_simps \<open>facts on lists of table rows\<close>

subsection \<open>Identifiers\<close>

text \<open>
  A UUID is a 128-bit value.  The code orders and prints UUIDs by \<open>str\<close>: 32 lower-case
  hexadecimal digits, most significant first, in groups of 8-4-4-4-12.
\<close>

type_synonym uuid = "128 word"

definition hex_char :: "nat \<Rightarrow> char" where
  "hex_char n = ''0123456789abcdef'' ! n"

definition nibble :: "uuid \<Rightarrow> nat \<Rightarrow> nat" where
  "nibble u i = unat (drop_bit (4 * i) u) mod 16"

definition uuid_hex :: "uuid \<Rightarrow> string" where
  "uuid_hex u = map (\<lambda>i. hex_char (nibble u i)) (rev [0..<32])"

definition uuid_str :: "uuid \<Rightarrow> string" where
  "uuid_str u = (let h = uuid_hex u in
     take 8 h @ ''-'' @ take 4 (drop 8 h) @ ''-'' @ take 4 (drop 12 h) @ ''-''
       @ take 4 (drop 16 h) @ ''-'' @ drop 20 h)"

lemma length_uuid_hex [simp]: "length (uuid_hex u) = 32"
  by (simp add: uuid_hex_def)

lemma length_uuid_str [simp]: "length (uuid_str u) = 36"
  by (simp add: uuid_str_def Let_def)

lemma hex_char_inj: "a < 16 \<Longrightarrow> b < 16 \<Longrightarrow> hex_char a = hex_char b \<longleftrightarrow> a = b"
  unfolding hex_char_def by (rule nth_eq_iff_index_eq) simp_all

lemma nibble_bit: "k < 4 \<Longrightarrow> bit u (4 * i + k) \<longleftrightarrow> bit (nibble u i) k"
proof -
  assume k: "k < 4"
  have "nibble u i = take_bit 4 (unat (drop_bit (4 * i) u))"
    by (simp add: nibble_def take_bit_eq_mod)
  then show ?thesis
    using k by (simp add: bit_take_bit_iff bit_unsigned_iff bit_drop_bit_eq add.commute)
qed

lemma uuid_hex_inj: "uuid_hex u = uuid_hex v \<Longrightarrow> u = v"
proof (rule bit_word_eqI)
  fix n assume eq: "uuid_hex u = uuid_hex v" and n: "n < LENGTH(128)"
  have "\<forall>i < 32. hex_char (nibble u i) = hex_char (nibble v i)"
    using eq by (auto simp: uuid_hex_def)
  moreover have "nibble u i < 16" "nibble v i < 16" for i
    by (simp_all add: nibble_def)
  moreover have "n div 4 < 32" using n by simp
  ultimately have "nibble u (n div 4) = nibble v (n div 4)"
    by (simp add: hex_char_inj)
  moreover have "bit w n \<longleftrightarrow> bit (nibble w (n div 4)) (n mod 4)" for w
    using nibble_bit [of "n mod 4" w "n div 4"] by simp
  ultimately show "bit u n \<longleftrightarrow> bit v n" by simp
qed

lemma uuid_str_inj: "uuid_str u = uuid_str v \<longleftrightarrow> u = v"
proof
  assume eq: "uuid_str u = uuid_str v"
  have parts: "take 8 (uuid_hex u) = take 8 (uuid_hex v)"
    "take 4 (drop 8 (uuid_hex u)) = take 4 (drop 8 (uuid_hex v))"
    "take 4 (drop 12 (uuid_hex u)) = take 4 (drop 12 (uuid_hex v))"
    "take 4 (drop 16 (uuid_hex u)) = take 4 (drop 16 (uuid_hex v))"
    "drop 20 (uuid_hex u) = drop 20 (uuid_hex v)"
    using eq by (simp_all add: uuid_str_def Let_def)
  have "take 8 h @ take 4 (drop 8 h) @ take 4 (drop 12 h) @ take 4 (drop 16 h) @ drop 20 h = h"
    for h :: string
    using append_take_drop_id [of 4 "drop 16 h"] append_take_drop_id [of 4 "drop 12 h"]
      append_take_drop_id [of 4 "drop 8 h"] by simp
  then have "uuid_hex u = uuid_hex v"
    using parts by metis
  then show "u = v" by (rule uuid_hex_inj)
qed simp

subsection \<open>Exceptions and the error monad\<close>

text \<open>
  Every operation that can raise returns \<open>exn + 'a\<close>: \<open>Inl\<close> carries the Python exception.
  \<open>IntegrityError\<close> carries the SQLSTATE the services inspect (\<open>23505\<close>, \<open>23514\<close>,
  \<open>23503\<close>); \<open>DataError\<close> is the numeric overflow \<open>22003\<close> of a \<open>NUMERIC\<close> column;
  \<open>InvalidOperation\<close> is the signal of Python's \<open>decimal\<close> module; \<open>HTTPStatusError\<close> and
  \<open>NetworkError\<close> (which stands for timeouts too) are raised by \<open>httpx\<close>.
\<close>

datatype sqlstate = UniqueViolation | CheckViolation | ForeignKeyViolation

datatype exn =
    ValueError string
  | NotImplementedError
  | KeyError
  | NoResultFound
  | MultipleResultsFound
  | IntegrityError sqlstate
  | DataError
  | UnboundLocalError
  | AssertionError
  | InvalidOperation
  | InsufficientBalance
  | MarketNotFound
  | MarketClosed
  | InvalidOutcome
  | StakeOutOfRange
  | BetNotFound
  | BetNotClosable
  | LiveBetsVerificationError
  | LiveBetsOwnershipError
  | RuntimeError
  | HTTPStatusError nat
  | NetworkError
  | HTTPException nat

type_synonym 'a result = "exn + 'a"

definition bindE :: "'e + 'a \<Rightarrow> ('a \<Rightarrow> 'e + 'b) \<Rightarrow> 'e + 'b" where
  "bindE r f = (case r of Inl e \<Rightarrow> Inl e | Inr x \<Rightarrow> f x)"

lemma bindE_Inr [simp]: "bindE (Inr x) f = f x"
  by (simp add: bindE_def)

lemma bindE_Inl [simp]: "bindE (Inl e) f = Inl e"
  by (simp add: bindE_def)

lemma bindE_eq_Inr [simp]: "bindE r f = Inr y \<longleftrightarrow> (\<exists>x. r = Inr x \<and> f x = Inr y)"
  by (cases r) auto

lemma bindE_eq_Inl: "bindE r f = Inl e \<longleftrightarrow> r = Inl e \<or> (\<exists>x. r = Inr x \<and> f x = Inl e)"
  by (cases r) auto

lemma bindE_assoc: "bindE (bindE r f) g = bindE r (\<lambda>x. bindE (f x) g)"
  by (cases r) auto

lemma bindE_cong [fundef_cong]:
  "r = r' \<Longrightarrow> (\<And>x. r' = Inr x \<Longrightarrow> f x = f' x) \<Longrightarrow> bindE r f = bindE r' f'"
  by (cases r') auto

lemma if_Inl_eq_Inr [simp]: "(if b then Inl e else r) = Inr y \<longleftrightarrow> \<not> b \<and> r = Inr y"
  by auto

lemma if_Inr_eq_Inr [simp]: "(if b then r else Inl e) = Inr y \<longleftrightarrow> b \<and> r = Inr y"
  by auto

text \<open>The computation succeeds with a result that satisfies \<open>P\<close>.\<close>

definition okE :: "('a \<Rightarrow> bool) \<Rightarrow> 'e + 'a \<Rightarrow> bool" where
  "okE P r = (case r of Inl e \<Rightarrow> False | Inr x \<Rightarrow> P x)"

lemma okE_iff: "okE P r \<longleftrightarrow> (\<exists>x. r = Inr x \<and> P x)"
  by (cases r) (auto simp: okE_def)

text \<open>A loop whose body may raise: it stops at the first exception.\<close>

fun foldE :: "('a \<Rightarrow> 's \<Rightarrow> 'e + 's) \<Rightarrow> 'a list \<Rightarrow> 's \<Rightarrow> 'e + 's" where
  "foldE f [] s = Inr s"
| "foldE f (x # xs) s = bindE (f x s) (foldE f xs)"

lemma foldE_append: "foldE f (xs @ ys) s = bindE (foldE f xs s) (foldE f ys)"
  by (induction xs arbitrary: s) (auto simp: bindE_assoc intro: bindE_cong)

lemma foldE_invariant:
  assumes "foldE f xs s = Inr t" and "P s"
    and "\<And>x u v. x \<in> set xs \<Longrightarrow> f x u = Inr v \<Longrightarrow> P u \<Longrightarrow> P v"
  shows "P t"
  using assms by (induction xs arbitrary: s) auto

text \<open>A comprehension whose element expression may raise.\<close>

fun mapE :: "('a \<Rightarrow> 'e + 'b) \<Rightarrow> 'a list \<Rightarrow> 'e + 'b list" where
  "mapE f [] = Inr []"
| "mapE f (x # xs) = bindE (f x) (\<lambda>y. bindE (mapE f xs) (\<lambda>ys. Inr (y # ys)))"

lemma mapE_Inr_length: "mapE f xs = Inr ys \<Longrightarrow> length ys = length xs"
  by (induction xs arbitrary: ys) auto

lemma mapE_Inr_nth: "mapE f xs = Inr ys \<Longrightarrow> i < length xs \<Longrightarrow> f (xs ! i) = Inr (ys ! i)"
  by (induction xs arbitrary: ys i) (auto simp: nth_Cons split: nat.split)

lemma mapE_eq_map: "(\<And>x. x \<in> set xs \<Longrightarrow> f x = Inr (g x)) \<Longrightarrow> mapE f xs = Inr (map g xs)"
  by (induction xs) auto

subsection \<open>Result sets and table rows\<close>

text \<open>
  A table is the list of its rows.  \<open>scalar_one\<close> and \<open>scalar_one_or_none\<close> are SQLAlchemy's
  result accessors; an \<open>UPDATE \<dots> WHERE\<close> maps over the rows.
\<close>

fun scalar_one :: "'a list \<Rightarrow> 'a result" where
  "scalar_one [] = Inl NoResultFound"
| "scalar_one [x] = Inr x"
| "scalar_one (x # y # zs) = Inl MultipleResultsFound"

fun scalar_one_or_none :: "'a list \<Rightarrow> 'a option result" where
  "scalar_one_or_none [] = Inr None"
| "scalar_one_or_none [x] = Inr (Some x)"
| "scalar_one_or_none (x # y # zs) = Inl MultipleResultsFound"

definition update_where :: "('r \<Rightarrow> bool) \<Rightarrow> ('r \<Rightarrow> 'r) \<Rightarrow> 'r list \<Rightarrow> 'r list" where
  "update_where p f = map (\<lambda>r. if p r then f r else r)"

lemma scalar_one_Inr [row_simps]: "scalar_one xs = Inr x \<longleftrightarrow> xs = [x]"
  by (cases xs rule: scalar_one.cases) auto

lemma scalar_one_or_none_Inr [row_simps]:
  "scalar_one_or_none xs = Inr r \<longleftrightarrow> (xs = [] \<and> r = None) \<or> (\<exists>x. xs = [x] \<and> r = Some x)"
  by (cases xs rule: scalar_one.cases) auto

lemma scalar_one_filter_mem:
  "scalar_one (filter p xs) = Inr x \<Longrightarrow> x \<in> set xs \<and> p x"
  using set_filter [of p xs] by (auto simp: scalar_one_Inr)

lemma length_update_where [simp]: "length (update_where p f xs) = length xs"
  by (simp add: update_where_def)

lemma update_where_Nil [simp]: "update_where p f [] = []"
  by (simp add: update_where_def)

lemma update_where_Cons [simp]:
  "update_where p f (x # xs) = (if p x then f x else x) # update_where p f xs"
  by (simp add: update_where_def)

lemma set_update_where: "set (update_where p f xs) = (\<lambda>r. if p r then f r else r) ` set xs"
  by (simp add: update_where_def)

lemma map_update_where_same: "(\<And>r. p r \<Longrightarrow> g (f r) = g r) \<Longrightarrow> map g (update_where p f xs) = map g xs"
  by (simp add: update_where_def)

lemma image_update_where_same:
  "(\<And>r. p r \<Longrightarrow> g (f r) = g r) \<Longrightarrow> g ` set (update_where p f xs) = g ` set xs"
  by (metis list.set_map map_update_where_same)

lemma key_fresh: "k \<notin> f ` A \<Longrightarrow> x \<in> A \<Longrightarrow> f x \<noteq> k"
  by (metis imageI)

lemma filter_key_distinct:
  "distinct (map key xs) \<Longrightarrow> x \<in> set xs \<Longrightarrow> filter (\<lambda>r. key r = key x) xs = [x]"
proof (induction xs)
  case (Cons y ys)
  then show ?case
    by (auto simp: filter_empty_conv) (metis image_eqI)+
qed simp

lemma filter_key_none: "k \<notin> key ` set xs \<Longrightarrow> filter (\<lambda>r. key r = k) xs = []"
  by (auto simp: filter_empty_conv)

lemma distinct_key_eq: "distinct (map key xs) \<Longrightarrow> x \<in> set xs \<Longrightarrow> y \<in> set xs \<Longrightarrow> key x = key y \<Longrightarrow> x = y"
  by (metis distinct_map inj_onD)

text \<open>The sum of a column changes by the change of the one row an update hits.\<close>

lemma sum_list_update_where:
  fixes g :: "'r \<Rightarrow> 'b::ab_group_add"
  assumes "distinct (map key xs)" and "x \<in> set xs"
  shows "sum_list (map g (update_where (\<lambda>r. key r = key x) f xs))
       = sum_list (map g xs) + (g (f x) - g x)"
  using assms
proof (induction xs)
  case (Cons y ys)
  show ?case
  proof (cases "y = x")
    case True
    with Cons.prems have "\<forall>r \<in> set ys. key r \<noteq> key x" by (metis distinct.simps(2) image_eqI list.map(2) list.set_map)
    then have "update_where (\<lambda>r. key r = key x) f ys = ys"
      by (induction ys) auto
    with True show ?thesis by (simp add: algebra_simps)
  next
    case False
    with Cons.prems have "x \<in> set ys" "key y \<noteq> key x" by auto
    with Cons show ?thesis by (simp add: algebra_simps)
  qed
qed simp

subsection \<open>JSON values\<close>

text \<open>
  The \<open>metadata\<close> and \<open>payload\<close> columns (JSONB).  \<open>JUuid u\<close> stands for \<open>str(u)\<close> and \<open>JDec d\<close>
  for \<open>str(d)\<close> of a Decimal, kept as the value that is printed.
\<close>

datatype json =
    JNull
  | JStr string
  | JUuid uuid
  | JDec rat
  | JInt int
  | JBool bool
  | JList "json list"

type_synonym json_object = "(string \<times> json) list"

abbreviation JOpt :: "('a \<Rightarrow> json) \<Rightarrow> 'a option \<Rightarrow> json" where
  "JOpt f x \<equiv> (case x of None \<Rightarrow> JNull | Some v \<Rightarrow> f v)"

end
