(* ===== verification/Money.thy ===== *)
theory Money
  imports Prelude
begin

text \<open>
  Decimal arithmetic.  A finite Python \<open>Decimal\<close> is its numeric value, a rational; the
  arithmetic operators round to the 28 significant digits of the default context
  (\<open>ROUND_HALF_EVEN\<close>).  \<open>quantize_money\<close> is \<open>settlement/payout.py\<close>; \<open>numeric_18_4\<close> and
  \<open>numeric_8_6\<close> are the \<open>Money\<close> and \<open>Odds\<close> columns of \<open>db/types.py\<close>: a bound value is cast to
  the column's scale (ties away from zero) and overflows past its precision.
\<close>

subsection \<open>Rounding to integers\<close>

definition round_half_up :: "rat \<Rightarrow> int" where
  "round_half_up q = (if 0 \<le> q then \<lfloor>q + 1/2\<rfloor> else - \<lfloor>- q + 1/2\<rfloor>)"

definition round_half_even :: "rat \<Rightarrow> int" where
  "round_half_even q = (let f = \<lfloor>q\<rfloor>; r = q - of_int f in
     if r < 1/2 then f else if 1/2 < r then f + 1 else if even f then f else f + 1)"

lemma round_half_up_of_int [simp]: "round_half_up (of_int n) = n"
proof -
  have "\<lfloor>(of_int m :: rat) + 1/2\<rfloor> = m" for m by (simp add: floor_eq_iff)
  from this [of n] this [of "- n"] show ?thesis by (simp add: round_half_up_def)
qed

lemma round_half_up_0 [simp]: "round_half_up 0 = 0"
  using round_half_up_of_int [of 0] by simp

lemma round_half_up_minus: "round_half_up (- q) = - round_half_up q"
proof -
  have "\<lfloor>(1::rat) / 2\<rfloor> = 0" by (simp add: floor_eq_iff)
  then show ?thesis by (auto simp: round_half_up_def)
qed

lemma floor_bounds: "of_int \<lfloor>q :: rat\<rfloor> \<le> q" "q < of_int \<lfloor>q\<rfloor> + 1"
  using floor_correct [of q] by simp_all

lemma round_half_up_error: "\<bar>of_int (round_half_up q) - q\<bar> \<le> 1/2"
proof (cases "0 \<le> q")
  case True
  have "\<bar>of_int \<lfloor>q + 1/2\<rfloor> - q\<bar> \<le> 1/2"
    using floor_bounds [of "q + 1/2"] by linarith
  with True show ?thesis by (simp only: round_half_up_def if_True)
next
  case False
  have "\<bar>of_int (- \<lfloor>- q + 1/2\<rfloor>) - q\<bar> \<le> 1/2"
    using floor_bounds [of "- q + 1/2"] unfolding of_int_minus by linarith
  with False show ?thesis by (simp only: round_half_up_def if_False)
qed

lemma round_half_up_mono: "p \<le> q \<Longrightarrow> round_half_up p \<le> round_half_up q"
proof -
  assume le: "p \<le> q"
  consider "0 \<le> p" | "q < 0" | "p < 0" "0 \<le> q" by linarith
  then show ?thesis
  proof cases
    case 1 with le show ?thesis by (simp add: round_half_up_def floor_mono)
  next
    case 2 with le show ?thesis by (simp add: round_half_up_def floor_mono)
  next
    case 3
    then have "0 \<le> \<lfloor>- p + 1/2\<rfloor>" "0 \<le> \<lfloor>q + 1/2\<rfloor>" by simp_all
    then have "- \<lfloor>- p + 1/2\<rfloor> \<le> \<lfloor>q + 1/2\<rfloor>" by linarith
    with 3 show ?thesis by (simp only: round_half_up_def) simp
  qed
qed

lemma round_half_even_of_int [simp]: "round_half_even (of_int n) = n"
  by (simp add: round_half_even_def Let_def)

lemma round_half_even_error: "\<bar>of_int (round_half_even q) - q\<bar> \<le> 1/2"
proof -
  define f where "f = \<lfloor>q\<rfloor>"
  have f: "of_int f \<le> q" "q < of_int f + 1"
    unfolding f_def by (rule floor_bounds)+
  have "(round_half_even q = f \<and> q - of_int f \<le> 1/2) \<or> (round_half_even q = f + 1 \<and> 1/2 \<le> q - of_int f)"
    unfolding round_half_even_def Let_def f_def [symmetric]
    by (cases "q - of_int f" "1/2 :: rat" rule: linorder_cases) auto
  then consider "round_half_even q = f" "q - of_int f \<le> 1/2"
    | "round_half_even q = f + 1" "1/2 \<le> q - of_int f" by blast
  then show ?thesis
  proof cases
    case 1 with f show ?thesis by (simp only: abs_le_iff) linarith
  next
    case 2 with f show ?thesis by (simp only: abs_le_iff of_int_add of_int_1) linarith
  qed
qed

subsection \<open>The decimal context: 28 significant digits\<close>

fun ndigits :: "nat \<Rightarrow> nat" where
  "ndigits n = (if n < 10 then 1 else Suc (ndigits (n div 10)))"

declare ndigits.simps [simp del]

lemma ndigits_pos: "0 < ndigits n"
  by (subst ndigits.simps) simp

lemma ndigits_upper: "n < 10 ^ ndigits n"
proof (induction n rule: ndigits.induct)
  case (1 n)
  show ?case
  proof (cases "n < 10")
    case True then show ?thesis by (simp add: ndigits.simps [of n])
  next
    case False
    with 1 have "n div 10 < 10 ^ ndigits (n div 10)" by simp
    then have "n < 10 * 10 ^ ndigits (n div 10)" by linarith
    with False show ?thesis by (simp add: ndigits.simps [of n])
  qed
qed

lemma ndigits_lower: "0 < n \<Longrightarrow> 10 ^ (ndigits n - 1) \<le> n"
proof (induction n rule: ndigits.induct)
  case (1 n)
  show ?case
  proof (cases "n < 10")
    case True with 1 show ?thesis by (simp add: ndigits.simps [of n])
  next
    case False
    with 1 have "10 ^ (ndigits (n div 10) - 1) \<le> n div 10" by simp
    then have "10 * 10 ^ (ndigits (n div 10) - 1) \<le> n" by linarith
    with False ndigits_pos [of "n div 10"] show ?thesis
      by (simp add: ndigits.simps [of n] flip: power_Suc)
  qed
qed

text \<open>The exponent \<open>e\<close> with \<open>10^27 \<le> |q| * 10^e < 10^28\<close>.\<close>

definition dec_exp :: "rat \<Rightarrow> int" where
  "dec_exp q = (if 1 \<le> \<bar>q\<bar> then 28 - int (ndigits (nat \<lfloor>\<bar>q\<bar>\<rfloor>))
     else 27 + int (ndigits (nat (\<lceil>1 / \<bar>q\<bar>\<rceil> - 1))))"

definition dec_round :: "rat \<Rightarrow> rat" where
  "dec_round q = (if q = 0 then 0
     else of_int (round_half_even (q * 10 powi dec_exp q)) / 10 powi dec_exp q)"

lemma dec_exp_large:
  assumes "1 \<le> \<bar>q\<bar>"
  shows "10 ^ 27 \<le> \<bar>q\<bar> * 10 powi dec_exp q \<and> \<bar>q\<bar> * 10 powi dec_exp q < 10 ^ 28"
proof -
  define n where "n = nat \<lfloor>\<bar>q\<bar>\<rfloor>"
  define d where "d = ndigits n"
  have n: "0 < n" "of_nat n \<le> \<bar>q\<bar>" "\<bar>q\<bar> < of_nat n + 1"
    using assms floor_correct [of "\<bar>q\<bar>"] by (auto simp: n_def le_floor_iff)
  have d: "0 < d" by (simp add: d_def ndigits_pos)
  have lo: "10 ^ (d - 1) \<le> \<bar>q\<bar>"
    using ndigits_lower [OF n(1)] n(2) unfolding d_def
    by (metis of_nat_le_iff of_nat_numeral of_nat_power order_trans)
  have "Suc n \<le> 10 ^ d" using ndigits_upper [of n] by (simp add: d_def Suc_le_eq)
  then have "of_nat (Suc n) \<le> (10 :: rat) ^ d"
    by (metis of_nat_le_iff of_nat_numeral of_nat_power)
  then have hi: "\<bar>q\<bar> < 10 ^ d" using n(3) by simp
  have e: "dec_exp q = 28 - int d" using assms by (simp add: dec_exp_def d_def n_def)
  have s: "(10 :: rat) powi dec_exp q = 10 ^ 28 / 10 ^ d"
    unfolding e by (subst power_int_diff) (simp_all)
  have "10 ^ 28 / 10 ^ d * (10 :: rat) ^ (d - 1) = 10 ^ 27"
    using d by (simp add: power_diff)
  then show ?thesis using lo hi d
    by (simp add: s pos_divide_less_eq mult.commute) (simp add: field_simps)
qed

lemma dec_exp_small:
  assumes "q \<noteq> 0" and "\<bar>q\<bar> < 1"
  shows "10 ^ 27 \<le> \<bar>q\<bar> * 10 powi dec_exp q \<and> \<bar>q\<bar> * 10 powi dec_exp q < 10 ^ 28"
proof -
  define a where "a = \<bar>q\<bar>"
  have a: "0 < a" "a < 1" using assms by (simp_all add: a_def)
  define m where "m = nat (\<lceil>1 / a\<rceil> - 1)"
  define d where "d = ndigits m"
  have "1 < 1 / a" using a by simp
  then have c: "1 < \<lceil>1 / a\<rceil>" by (simp add: less_ceiling_iff)
  have "0 \<le> \<lceil>1 / a\<rceil> - 1" using c by linarith
  then have mc: "(of_nat m :: rat) = of_int \<lceil>1 / a\<rceil> - 1"
    unfolding m_def by (simp only: of_nat_nat of_int_diff of_int_1)
  have m: "0 < m" "of_nat m < 1 / a" "1 / a \<le> of_nat m + 1"
    using ceiling_correct [of "1 / a"] c unfolding mc by (simp add: m_def, linarith, linarith)
  have d: "0 < d" by (simp add: d_def ndigits_pos)
  have "10 ^ (d - 1) < 1 / a"
    using ndigits_lower [OF m(1)] m(2) unfolding d_def
    by (metis of_nat_le_iff of_nat_numeral of_nat_power order_le_less_trans)
  then have hi: "a * 10 ^ (d - 1) < 1" using a by (simp add: field_simps)
  have "Suc m \<le> 10 ^ d" using ndigits_upper [of m] by (simp add: d_def Suc_le_eq)
  then have "of_nat (Suc m) \<le> (10 :: rat) ^ d"
    by (metis of_nat_le_iff of_nat_numeral of_nat_power)
  then have "1 / a \<le> 10 ^ d" using m(3) by simp
  then have lo: "1 \<le> a * 10 ^ d" using a by (simp add: field_simps)
  have e: "dec_exp q = int (27 + d)"
    using a(2) by (simp add: dec_exp_def d_def m_def flip: a_def)
  have s: "a * (10 :: rat) powi dec_exp q = 10 ^ 27 * (a * 10 ^ d)"
    unfolding e power_int_of_nat by (simp add: power_add)
  have "a * 10 ^ d = 10 * (a * 10 ^ (d - 1))"
    using d by (cases d) simp_all
  then have "a * 10 ^ d < 10" using hi by linarith
  with lo show ?thesis unfolding a_def [symmetric] s by simp
qed

lemma dec_exp_bounds:
  "q \<noteq> 0 \<Longrightarrow> 10 ^ 27 \<le> \<bar>q\<bar> * 10 powi dec_exp q \<and> \<bar>q\<bar> * 10 powi dec_exp q < 10 ^ 28"
  using dec_exp_large dec_exp_small by (cases "1 \<le> \<bar>q\<bar>") auto

text \<open>The context rounding is within five units of the 28th digit.\<close>

lemma dec_round_error: "\<bar>dec_round q - q\<bar> \<le> \<bar>q\<bar> * 5 / 10 ^ 28"
proof (cases "q = 0")
  case False
  define s :: rat where "s = 10 powi dec_exp q"
  have s: "0 < s" by (simp add: s_def)
  have "dec_round q - q = (of_int (round_half_even (q * s)) - q * s) / s"
    using s unfolding dec_round_def if_not_P [OF False] s_def [symmetric] diff_divide_distrib by simp
  then have "\<bar>dec_round q - q\<bar> = \<bar>of_int (round_half_even (q * s)) - q * s\<bar> / s"
    by (simp only: abs_divide abs_of_pos [OF s])
  also have "\<dots> \<le> (1/2) / s"
    using round_half_even_error s by (rule divide_right_mono [OF _ less_imp_le])
  also have "\<dots> \<le> \<bar>q\<bar> * 5 / 10 ^ 28"
  proof -
    have "10 ^ 27 \<le> \<bar>q\<bar> * s" using dec_exp_bounds [OF False] by (simp add: s_def)
    then have "1/2 \<le> (\<bar>q\<bar> * s) * (5 / 10 ^ 28)" by simp
    then have "1/2 \<le> (\<bar>q\<bar> * 5 / 10 ^ 28) * s" by (simp only: mult_ac times_divide_eq_right)
    with s show ?thesis by (simp only: pos_divide_le_eq)
  qed
  finally show ?thesis .
qed (simp add: dec_round_def)

text \<open>A value of at most 28 significant digits is kept.\<close>

lemma dec_round_exact:
  assumes "q * 10 ^ k = of_int n" and "\<bar>n\<bar> < 10 ^ 28"
  shows "dec_round q = q"
proof (cases "q = 0")
  case False
  have "\<bar>q\<bar> * 10 ^ k = of_int \<bar>n\<bar>"
    using arg_cong [OF assms(1), of abs] by (simp add: abs_mult)
  also have "\<dots> < of_int (10 ^ 28)"
    using assms(2) by (simp only: of_int_less_iff)
  finally have ab: "\<bar>q\<bar> * 10 ^ k < 10 ^ 28" by simp
  have "int k \<le> dec_exp q"
  proof (rule ccontr)
    assume "\<not> int k \<le> dec_exp q"
    then have "(10 :: rat) powi (dec_exp q + 1) \<le> 10 powi int k"
      by (intro power_int_increasing) auto
    then have "10 * 10 powi dec_exp q \<le> (10 :: rat) ^ k"
      by (simp add: power_int_add)
    then have "\<bar>q\<bar> * (10 * 10 powi dec_exp q) \<le> \<bar>q\<bar> * 10 ^ k"
      by (rule mult_left_mono) simp
    with ab dec_exp_bounds [OF False] show False by simp
  qed
  then obtain j where j: "dec_exp q = int k + int j"
    using zle_iff_zadd by auto
  have "q * 10 powi dec_exp q = of_int (n * 10 ^ j)"
    unfolding j by (simp add: power_int_add mult.assoc [symmetric] assms(1))
  with False show ?thesis
    by (simp only: dec_round_def if_False round_half_even_of_int) (simp add: divide_eq_eq)
qed (simp add: dec_round_def)

lemma dec_round_0 [simp]: "dec_round 0 = 0"
  by (simp add: dec_round_def)

definition dec_add :: "rat \<Rightarrow> rat \<Rightarrow> rat" where
  "dec_add a b = dec_round (a + b)"

definition dec_sub :: "rat \<Rightarrow> rat \<Rightarrow> rat" where
  "dec_sub a b = dec_round (a - b)"

definition dec_mul :: "rat \<Rightarrow> rat \<Rightarrow> rat" where
  "dec_mul a b = dec_round (a * b)"

definition dec_div :: "rat \<Rightarrow> rat \<Rightarrow> rat" where
  "dec_div a b = dec_round (a / b)"

subsection \<open>The money and odds columns\<close>

text \<open>\<open>quantize_money\<close>: the ledger's 4-dp scale; \<open>quantize\<close> signals past 28 digits.\<close>

definition quantize_money :: "rat \<Rightarrow> rat result" where
  "quantize_money v = (let n = round_half_up (v * 10000) in
     if 10 ^ 28 \<le> \<bar>n\<bar> then Inl InvalidOperation else Inr (of_int n / 10000))"

text \<open>A value bound to a \<open>NUMERIC(18, 4)\<close> (\<open>Money\<close>) or \<open>NUMERIC(8, 6)\<close> (\<open>Odds\<close>) column.\<close>

definition numeric_18_4 :: "rat \<Rightarrow> rat result" where
  "numeric_18_4 v = (let n = round_half_up (v * 10000) in
     if 10 ^ 18 \<le> \<bar>n\<bar> then Inl DataError else Inr (of_int n / 10000))"

definition numeric_8_6 :: "rat \<Rightarrow> rat result" where
  "numeric_8_6 v = (let n = round_half_up (v * 1000000) in
     if 10 ^ 8 \<le> \<bar>n\<bar> then Inl DataError else Inr (of_int n / 1000000))"

text \<open>The values those columns hold.\<close>

definition is_money :: "rat \<Rightarrow> bool" where
  "is_money v \<longleftrightarrow> of_int \<lfloor>v * 10000\<rfloor> = v * 10000 \<and> \<bar>v\<bar> < 10 ^ 14"

definition is_odds :: "rat \<Rightarrow> bool" where
  "is_odds v \<longleftrightarrow> of_int \<lfloor>v * 1000000\<rfloor> = v * 1000000 \<and> \<bar>v\<bar> < 100"

lemma is_money_iff: "is_money v \<longleftrightarrow> (\<exists>n. v * 10000 = of_int n) \<and> \<bar>v\<bar> < 10 ^ 14"
  by (metis floor_of_int is_money_def)

lemma is_odds_iff: "is_odds v \<longleftrightarrow> (\<exists>n. v * 1000000 = of_int n) \<and> \<bar>v\<bar> < 100"
  by (metis floor_of_int is_odds_def)

lemma numeric_18_4_is_money: "numeric_18_4 v = Inr w \<Longrightarrow> is_money w"
proof -
  assume "numeric_18_4 v = Inr w"
  then have n: "\<bar>round_half_up (v * 10000)\<bar> < 10 ^ 18"
    and w: "w = of_int (round_half_up (v * 10000)) / 10000"
    by (auto simp: numeric_18_4_def Let_def split: if_splits)
  from n have "(of_int \<bar>round_half_up (v * 10000)\<bar> :: rat) < of_int (10 ^ 18)"
    by (simp only: of_int_less_iff)
  then have "\<bar>w\<bar> < 10 ^ 14" unfolding w abs_divide of_int_abs by simp
  with w show "is_money w" unfolding is_money_iff by auto
qed

lemma numeric_18_4_id: "is_money v \<Longrightarrow> numeric_18_4 v = Inr v"
proof -
  assume "is_money v"
  then obtain n where n: "v * 10000 = of_int n" and b: "\<bar>v\<bar> < 10 ^ 14"
    unfolding is_money_iff by blast
  have "(of_int \<bar>n\<bar> :: rat) = \<bar>v\<bar> * 10000" using n by (simp flip: abs_mult add: abs_mult_pos)
  then have "(of_int \<bar>n\<bar> :: rat) < of_int (10 ^ 18)" using b by simp
  then have "\<bar>n\<bar> < 10 ^ 18" by (simp only: of_int_less_iff)
  moreover have "v = of_int n / 10000" using n by simp
  ultimately show ?thesis
    unfolding numeric_18_4_def n round_half_up_of_int Let_def by simp
qed

lemma numeric_8_6_is_odds: "numeric_8_6 v = Inr w \<Longrightarrow> is_odds w"
proof -
  assume "numeric_8_6 v = Inr w"
  then have n: "\<bar>round_half_up (v * 1000000)\<bar> < 10 ^ 8"
    and w: "w = of_int (round_half_up (v * 1000000)) / 1000000"
    by (auto simp: numeric_8_6_def Let_def split: if_splits)
  from n have "(of_int \<bar>round_half_up (v * 1000000)\<bar> :: rat) < of_int (10 ^ 8)"
    by (simp only: of_int_less_iff)
  then have "\<bar>w\<bar> < 100" unfolding w abs_divide of_int_abs by simp
  with w show "is_odds w" unfolding is_odds_iff by auto
qed

lemma numeric_8_6_id: "is_odds v \<Longrightarrow> numeric_8_6 v = Inr v"
proof -
  assume "is_odds v"
  then obtain n where n: "v * 1000000 = of_int n" and b: "\<bar>v\<bar> < 100"
    unfolding is_odds_iff by blast
  have "(of_int \<bar>n\<bar> :: rat) = \<bar>v\<bar> * 1000000" using n by (simp flip: abs_mult add: abs_mult_pos)
  then have "(of_int \<bar>n\<bar> :: rat) < of_int (10 ^ 8)" using b by simp
  then have "\<bar>n\<bar> < 10 ^ 8" by (simp only: of_int_less_iff)
  moreover have "v = of_int n / 1000000" using n by simp
  ultimately show ?thesis
    unfolding numeric_8_6_def n round_half_up_of_int Let_def by simp
qed

lemma is_money_0 [simp]: "is_money 0"
  by (simp add: is_money_def)

lemma is_money_add: "is_money a \<Longrightarrow> is_money b \<Longrightarrow> \<bar>a + b\<bar> < 10 ^ 14 \<Longrightarrow> is_money (a + b)"
  unfolding is_money_iff by (auto simp: distrib_right simp flip: of_int_add)

lemma is_money_diff: "is_money a \<Longrightarrow> is_money b \<Longrightarrow> \<bar>a - b\<bar> < 10 ^ 14 \<Longrightarrow> is_money (a - b)"
  unfolding is_money_iff by (auto simp: left_diff_distrib simp flip: of_int_diff)

text \<open>A guard on the unrounded amount also bounds the stored one.\<close>

lemma numeric_18_4_le:
  assumes "numeric_18_4 v = Inr w" and "v \<le> b" and "is_money b"
  shows "w \<le> b"
proof -
  obtain n where n: "b * 10000 = of_int n" using assms(3) unfolding is_money_iff by blast
  have w: "w = of_int (round_half_up (v * 10000)) / 10000"
    using assms(1) by (auto simp: numeric_18_4_def Let_def split: if_splits)
  have "round_half_up (v * 10000) \<le> round_half_up (b * 10000)"
    using assms(2) by (intro round_half_up_mono) simp
  then have "of_int (round_half_up (v * 10000)) \<le> b * 10000"
    unfolding n round_half_up_of_int by simp
  with w show ?thesis by simp
qed

lemma dec_sub_money:
  assumes "is_money a" and "is_money b"
  shows "dec_sub a b = a - b"
proof -
  obtain m where m: "a * 10000 = of_int m" and a: "\<bar>a\<bar> < 10 ^ 14"
    using assms(1) unfolding is_money_iff by blast
  obtain n where n: "b * 10000 = of_int n" and b: "\<bar>b\<bar> < 10 ^ 14"
    using assms(2) unfolding is_money_iff by blast
  have eq: "(a - b) * 10 ^ 4 = of_int (m - n)" using m n by (simp add: left_diff_distrib)
  have "\<bar>(a - b) * 10 ^ 4\<bar> < 10 ^ 28" using a b by (simp add: abs_mult)
  then have "(of_int \<bar>m - n\<bar> :: rat) < of_int (10 ^ 28)" unfolding eq by simp
  then have "\<bar>m - n\<bar> < 10 ^ 28" by (simp only: of_int_less_iff)
  with eq show ?thesis unfolding dec_sub_def by (rule dec_round_exact)
qed

subsection \<open>The context rounding never changes a quantised quotient\<close>

text \<open>
  Python divides with 28 significant digits and then quantises, so a quotient is rounded twice.
  For the quotients the code forms (a numerator below \<open>10^24\<close> ten-thousandths over the odds),
  the first rounding moves the value by less than its distance to the next rounding boundary,
  so the result is the half-up rounding of the exact quotient.
\<close>

lemma round_half_up_eq_floor: "0 \<le> q \<Longrightarrow> round_half_up q = \<lfloor>q + 1/2\<rfloor>"
  by (simp add: round_half_up_def)

lemma floor_half_between:
  fixes N p F :: int
  assumes "0 < p" and F: "F = \<lfloor>of_int N / of_int p + (1/2 :: rat)\<rfloor>"
  shows "2 * p * F \<le> 2 * N + p" and "2 * N + p < 2 * p * (F + 1)"
proof -
  have p: "(0 :: rat) < of_int p" using assms(1) by simp
  have lo: "of_int F \<le> of_int N / of_int p + (1/2 :: rat)"
    and hi: "of_int N / of_int p + (1/2 :: rat) < of_int F + 1"
    unfolding F by (rule floor_bounds)+
  have "(of_int (2 * p * F) :: rat) \<le> of_int (2 * N + p)"
    using lo p by (simp add: field_simps)
  then show "2 * p * F \<le> 2 * N + p" by (simp only: of_int_le_iff)
  have "(of_int (2 * N + p) :: rat) < of_int (2 * p * (F + 1))"
    using hi p by (simp add: field_simps)
  then show "2 * N + p < 2 * p * (F + 1)" by (simp only: of_int_less_iff)
qed

lemma quotient_rounding_stable:
  fixes N p :: int
  assumes N: "0 \<le> N" "N \<le> 10 ^ 24" and p: "0 < p"
  shows "round_half_up (dec_round (of_int N / (10000 * of_int p)) * 10000)
       = round_half_up (of_int N / of_int p)"
proof -
  define r :: rat where "r = of_int p"
  define y where "y = of_int N / r"
  define z where "z = dec_round (y / 10000) * 10000"
  define F where "F = \<lfloor>y + 1/2\<rfloor>"
  have r: "0 < r" using p by (simp add: r_def)
  have NQ: "(of_int N :: rat) \<le> 10 ^ 24" using N(2) by (metis of_int_le_iff of_int_numeral of_int_power)
  have y0: "0 \<le> y" using N r by (simp add: y_def)
  have y1: "y * r \<le> 10 ^ 24" using r NQ by (simp add: y_def)
  have bounds: "2 * p * F \<le> 2 * N + p" "2 * N + p < 2 * p * (F + 1)"
    using floor_half_between [OF p, of F N] by (simp_all add: F_def y_def r_def)
  have err: "\<bar>z - y\<bar> \<le> y * 5 / 10 ^ 28"
  proof -
    have "z - y = (dec_round (y / 10000) - y / 10000) * 10000" by (simp add: z_def left_diff_distrib)
    then have "\<bar>z - y\<bar> = \<bar>dec_round (y / 10000) - y / 10000\<bar> * 10000" by (simp only: abs_mult abs_numeral)
    with dec_round_error [of "y / 10000"] y0 show ?thesis by simp
  qed
  have z0: "0 \<le> z" using err y0 unfolding abs_le_iff by simp
  have "round_half_up z = F"
  proof (cases "2 * N + p = 2 * p * F")
    case True
    then have "(of_int (2 * N + p) :: rat) = of_int (2 * p * F)" by simp
    then have "2 * of_int N + r = 2 * r * of_int F" by (simp add: r_def)
    then have yF: "y = of_int F - 1/2" using r unfolding y_def by (simp add: field_simps)
    have ex: "y / 10000 * 10 ^ 5 = of_int (10 * F - 5)" unfolding yF by simp
    have "0 \<le> 10 * F - 5" using y0 unfolding yF by linarith
    moreover have "10 * F - 5 < 10 ^ 28"
    proof -
      have "1 \<le> r" using p by (simp add: r_def)
      then have "y \<le> y * r" using y0 by (simp add: mult_le_cancel_left1)
      then have "y \<le> 10 ^ 24" using y1 by simp
      then have "(of_int (10 * F - 5) :: rat) < of_int (10 ^ 28)" unfolding yF by simp
      then show ?thesis by (simp only: of_int_less_iff)
    qed
    ultimately have "dec_round (y / 10000) = y / 10000"
      using dec_round_exact [OF ex] by simp
    then have "z = y" by (simp add: z_def)
    with y0 show ?thesis by (simp add: round_half_up_eq_floor F_def)
  next
    case False
    with bounds have i: "2 * p * F + 1 \<le> 2 * N + p" "2 * N + p + 1 \<le> 2 * p * (F + 1)" by simp_all
    have Ny: "of_int N = y * r" using r by (simp add: y_def)
    have "(of_int (2 * p * F + 1) :: rat) \<le> of_int (2 * N + p)"
      "(of_int (2 * N + p + 1) :: rat) \<le> of_int (2 * p * (F + 1))"
      using i by (simp_all only: of_int_le_iff)
    then have q: "2 * r * of_int F + 1 \<le> 2 * (y * r) + r" "2 * (y * r) + r + 1 \<le> 2 * r * (of_int F + 1)"
      by (simp_all add: Ny flip: r_def)
    have "\<bar>z - y\<bar> * r \<le> (y * r) * (5 / 10 ^ 28)"
      using mult_right_mono [OF err, of r] r by (simp add: mult_ac)
    also have "\<dots> \<le> 10 ^ 24 * (5 / 10 ^ 28)" using y1 by (rule mult_right_mono) simp
    finally have e: "\<bar>z - y\<bar> * r < 1/2" by simp
    have "(z - y) * r \<le> \<bar>z - y\<bar> * r" "(y - z) * r \<le> \<bar>z - y\<bar> * r"
      using r by (simp_all add: mult_right_mono)
    with e q have "r * of_int F < r * (z + 1/2)" "r * (z + 1/2) < r * (of_int F + 1)"
      by (simp_all add: algebra_simps)
    with r have "of_int F \<le> z + 1/2" "z + 1/2 < of_int F + 1"
      by (simp_all only: mult_less_cancel_left_pos less_imp_le)
    then have "\<lfloor>z + 1/2\<rfloor> = F" by (simp only: floor_eq_iff)
    with z0 show ?thesis by (simp add: round_half_up_eq_floor)
  qed
  moreover have "round_half_up y = F" using y0 by (simp add: round_half_up_eq_floor F_def)
  ultimately show ?thesis by (simp add: z_def y_def r_def mult.commute)
qed

end
