(* ===== verification/Ledger.thy ===== *)
theory Ledger
  imports Money
begin

text \<open>
  The double-entry ledger: the rows of \<open>wallet/models.py\<close>, their database constraints, and
  \<open>WalletService\<close> of \<open>wallet/service.py\<close>.  The state \<open>ledger\<close> holds the three tables and the row
  locks the running transaction has taken, in order.  A service call that owns its
  transaction is a function from the state to an exception (the transaction rolled back, the
  caller keeps the old state) or to a result and the committed state.  Identifiers drawn with
  \<open>uuid4()\<close> and the transaction time are arguments.
\<close>

subsection \<open>Constants (\<open>wallet/constants.py\<close>)\<close>

abbreviation "PLAY_USD \<equiv> ''PLAY_USD''"
abbreviation "OWNER_SYSTEM \<equiv> ''system''"
abbreviation "OWNER_USER \<equiv> ''user''"
abbreviation "OWNER_MARKET \<equiv> ''market''"
abbreviation "KIND_USER_WALLET \<equiv> ''user_wallet''"
abbreviation "KIND_HOUSE_PROMO \<equiv> ''house_promo''"
abbreviation "KIND_HOUSE_REVENUE \<equiv> ''house_revenue''"
abbreviation "TRANSFER_RECHARGE \<equiv> ''recharge''"
abbreviation "TRANSFER_SIGNUP_BONUS \<equiv> ''signup_bonus''"
abbreviation "PROVIDER_HOUSE \<equiv> ''house''"
abbreviation "PROVIDER_STRIPE \<equiv> ''stripe''"

definition HOUSE_PROMO_ACCOUNT_ID :: uuid where
  "HOUSE_PROMO_ACCOUNT_ID = 0xa1"

definition HOUSE_REVENUE_ACCOUNT_ID :: uuid where
  "HOUSE_REVENUE_ACCOUNT_ID = 0xa2"

subsection \<open>Rows (\<open>wallet/models.py\<close>)\<close>

record account =
  acc_id :: uuid
  owner_type :: string
  owner_id :: "uuid option"
  acc_kind :: string
  currency :: string
  balance :: rat
  version :: int

datatype direction = Debit | Credit

record transfer =
  tr_id :: uuid
  tr_kind :: string
  idempotency_key :: "string option"
  actor_user_id :: "uuid option"
  tr_metadata :: json_object
  tr_created_at :: int

record entry =
  en_id :: uuid
  en_transfer :: uuid
  en_account :: uuid
  direction :: direction
  amount :: rat
  en_created_at :: int

text \<open>Row locks held by the current transaction (\<open>FOR UPDATE\<close>, or taken by an \<open>UPDATE\<close>).\<close>

datatype row_lock = BetRow uuid | AccountRow uuid

record ledger =
  accounts :: "account list"
  transfers :: "transfer list"
  entries :: "entry list"
  row_locks :: "row_lock list"

subsection \<open>Database operations and their constraints\<close>

definition begin_tx :: "'a ledger_scheme \<Rightarrow> 'a ledger_scheme" where
  "begin_tx s = s\<lparr>row_locks := []\<rparr>"

definition lock_row :: "row_lock \<Rightarrow> 'a ledger_scheme \<Rightarrow> 'a ledger_scheme" where
  "lock_row l s = (if l \<in> set (row_locks s) then s else s\<lparr>row_locks := row_locks s @ [l]\<rparr>)"

definition lock_account :: "uuid \<Rightarrow> 'a ledger_scheme \<Rightarrow> 'a ledger_scheme" where
  "lock_account u s = (if u \<in> acc_id ` set (accounts s) then lock_row (AccountRow u) s else s)"

definition insert_account :: "account \<Rightarrow> 'a ledger_scheme \<Rightarrow> 'a ledger_scheme result" where
  "insert_account a s =
     (if balance a < 0 then Inl (IntegrityError CheckViolation)
      else if acc_id a \<in> acc_id ` set (accounts s) then Inl (IntegrityError UniqueViolation)
      else if \<exists>b \<in> set (accounts s). owner_id a \<noteq> None \<and> owner_type b = owner_type a
            \<and> owner_id b = owner_id a \<and> acc_kind b = acc_kind a \<and> currency b = currency a
        then Inl (IntegrityError UniqueViolation)
      else Inr (s\<lparr>accounts := accounts s @ [a]\<rparr>))"

definition insert_transfer :: "transfer \<Rightarrow> 'a ledger_scheme \<Rightarrow> 'a ledger_scheme result" where
  "insert_transfer t s =
     (if tr_id t \<in> tr_id ` set (transfers s) then Inl (IntegrityError UniqueViolation)
      else if idempotency_key t \<noteq> None \<and> idempotency_key t \<in> idempotency_key ` set (transfers s)
        then Inl (IntegrityError UniqueViolation)
      else Inr (s\<lparr>transfers := transfers s @ [t]\<rparr>))"

definition insert_entry :: "entry \<Rightarrow> 'a ledger_scheme \<Rightarrow> 'a ledger_scheme result" where
  "insert_entry e s = bindE (numeric_18_4 (amount e)) (\<lambda>amt.
     if amt \<le> 0 then Inl (IntegrityError CheckViolation)
     else if en_id e \<in> en_id ` set (entries s) then Inl (IntegrityError UniqueViolation)
     else if en_transfer e \<notin> tr_id ` set (transfers s) then Inl (IntegrityError ForeignKeyViolation)
     else if en_account e \<notin> acc_id ` set (accounts s) then Inl (IntegrityError ForeignKeyViolation)
     else Inr (s\<lparr>entries := entries s @ [e\<lparr>amount := amt\<rparr>]\<rparr>))"

text \<open>
  \<open>UPDATE accounts SET balance = balance + delta, version = version + bump WHERE id = u\<close>: the
  row is locked, the bound delta is cast to the column's scale, and the new balance is checked
  for overflow and against \<open>CHECK (balance >= 0)\<close>.
\<close>

definition update_balance :: "uuid \<Rightarrow> rat \<Rightarrow> int \<Rightarrow> 'a ledger_scheme \<Rightarrow> 'a ledger_scheme result" where
  "update_balance u delta bump s = bindE (numeric_18_4 delta) (\<lambda>d.
     let rows = update_where (\<lambda>a. acc_id a = u)
           (\<lambda>a. a\<lparr>balance := balance a + d, version := version a + bump\<rparr>) (accounts s)
     in if \<exists>a \<in> set rows. acc_id a = u \<and> 10 ^ 14 \<le> \<bar>balance a\<bar> then Inl DataError
        else if \<exists>a \<in> set rows. acc_id a = u \<and> balance a < 0 then Inl (IntegrityError CheckViolation)
        else Inr ((lock_account u s)\<lparr>accounts := rows\<rparr>))"

subsection \<open>\<open>WalletService\<close>\<close>

text \<open>The three identifiers drawn by one posting: the transfer and its two entries.\<close>

type_synonym post_ids = "uuid \<times> uuid \<times> uuid"

definition create_wallet :: "uuid \<Rightarrow> uuid \<Rightarrow> 'a ledger_scheme \<Rightarrow> (account \<times> 'a ledger_scheme) result" where
  "create_wallet new_id user_id s =
     (let a = \<lparr>acc_id = new_id, owner_type = OWNER_USER, owner_id = Some user_id,
               acc_kind = KIND_USER_WALLET, currency = PLAY_USD, balance = 0, version = 0\<rparr>
      in bindE (insert_account a s) (\<lambda>s'. Inr (a, s')))"

definition post_transfer ::
  "post_ids \<Rightarrow> int \<Rightarrow> string \<Rightarrow> string option \<Rightarrow> uuid option \<Rightarrow> uuid \<Rightarrow> uuid \<Rightarrow> rat
    \<Rightarrow> json_object option \<Rightarrow> 'a ledger_scheme \<Rightarrow> (transfer \<times> 'a ledger_scheme) result" where
  "post_transfer ids now kind key actor debit_account credit_account amt metadata s =
     (case ids of (transfer_id, debit_id, credit_id) \<Rightarrow>
      let t = \<lparr>tr_id = transfer_id, tr_kind = kind, idempotency_key = key, actor_user_id = actor,
               tr_metadata = (case metadata of None \<Rightarrow> [] | Some m \<Rightarrow> m), tr_created_at = now\<rparr>
      in bindE (insert_transfer t s) (\<lambda>s.
         bindE (insert_entry \<lparr>en_id = debit_id, en_transfer = transfer_id,
                  en_account = debit_account, direction = Debit, amount = amt,
                  en_created_at = now\<rparr> s) (\<lambda>s.
         bindE (insert_entry \<lparr>en_id = credit_id, en_transfer = transfer_id,
                  en_account = credit_account, direction = Credit, amount = amt,
                  en_created_at = now\<rparr> s) (\<lambda>s.
         bindE (update_balance debit_account (- amt) 1 s) (\<lambda>s.
         bindE (update_balance credit_account amt 0 s) (\<lambda>s. Inr (t, s)))))))"

definition resolve_user_wallet_id :: "uuid \<Rightarrow> 'a ledger_scheme \<Rightarrow> uuid result" where
  "resolve_user_wallet_id user_id s = bindE (scalar_one (filter (\<lambda>a. owner_type a = OWNER_USER
      \<and> owner_id a = Some user_id \<and> acc_kind a = KIND_USER_WALLET \<and> currency a = PLAY_USD)
      (accounts s))) (\<lambda>a. Inr (acc_id a))"

definition balance_of :: "uuid \<Rightarrow> 'a ledger_scheme \<Rightarrow> rat result" where
  "balance_of u s = bindE (scalar_one (filter (\<lambda>a. acc_id a = u) (accounts s))) (\<lambda>a. Inr (balance a))"

text \<open>\<open>FOR UPDATE\<close> on each account, in the order of the string forms of the ids.\<close>

definition lock_accounts :: "uuid list \<Rightarrow> 'a ledger_scheme \<Rightarrow> 'a ledger_scheme" where
  "lock_accounts ids s = fold lock_account (sort_key uuid_str (remdups ids)) s"

text \<open>The body shared by \<open>recharge\<close> and \<open>grant_signup_bonus\<close>: a house-funded credit.\<close>

definition fund_from_house ::
  "post_ids \<Rightarrow> int \<Rightarrow> string \<Rightarrow> string \<Rightarrow> uuid \<Rightarrow> rat \<Rightarrow> string \<Rightarrow> 'a ledger_scheme
    \<Rightarrow> (transfer \<times> 'a ledger_scheme) result" where
  "fund_from_house ids now kind key user_id amt reason s =
     (let s = begin_tx s; src = HOUSE_PROMO_ACCOUNT_ID in
      bindE (resolve_user_wallet_id user_id s) (\<lambda>dst.
      post_transfer ids now kind (Some key) None src dst amt (Some [(''reason'', JStr reason)])
        (lock_accounts [src, dst] s)))"

text \<open>
  The \<open>except IntegrityError\<close> handler: a unique violation re-reads the winner's transfer on the
  rolled-back state; every other exception propagates.
\<close>

definition or_existing ::
  "string \<Rightarrow> 'a ledger_scheme \<Rightarrow> (transfer \<times> 'a ledger_scheme) result
    \<Rightarrow> (transfer \<times> 'a ledger_scheme) result" where
  "or_existing key s r = (case r of
     Inl (IntegrityError UniqueViolation) \<Rightarrow>
       bindE (scalar_one (filter (\<lambda>t. idempotency_key t = Some key) (transfers s))) (\<lambda>t. Inr (t, s))
   | _ \<Rightarrow> r)"

definition recharge ::
  "post_ids \<Rightarrow> int \<Rightarrow> uuid \<Rightarrow> rat \<Rightarrow> string \<Rightarrow> string \<Rightarrow> string \<Rightarrow> 'a ledger_scheme
    \<Rightarrow> (transfer \<times> 'a ledger_scheme) result" where
  "recharge ids now user_id amt reason key payment_provider s =
     (if payment_provider = PROVIDER_STRIPE then Inl NotImplementedError
      else if payment_provider \<noteq> PROVIDER_HOUSE then Inl (ValueError ''unknown payment_provider'')
      else if amt \<le> 0 then Inl (ValueError ''recharge amount must be > 0'')
      else or_existing key s (fund_from_house ids now TRANSFER_RECHARGE key user_id amt reason s))"

definition signup_bonus_key :: "uuid \<Rightarrow> string" where
  "signup_bonus_key user_id = ''bonus:'' @ uuid_str user_id"

definition grant_signup_bonus ::
  "post_ids \<Rightarrow> int \<Rightarrow> uuid \<Rightarrow> rat \<Rightarrow> 'a ledger_scheme \<Rightarrow> (transfer \<times> 'a ledger_scheme) result" where
  "grant_signup_bonus ids now user_id amt s =
     (if amt \<le> 0 then Inl (ValueError ''signup bonus amount must be > 0'')
      else or_existing (signup_bonus_key user_id) s
        (fund_from_house ids now TRANSFER_SIGNUP_BONUS (signup_bonus_key user_id) user_id amt
           ''signup_bonus'' s))"

definition transfer_funds ::
  "post_ids \<Rightarrow> int \<Rightarrow> string \<Rightarrow> uuid \<Rightarrow> uuid \<Rightarrow> rat \<Rightarrow> uuid option \<Rightarrow> string option \<Rightarrow> string option
    \<Rightarrow> 'a ledger_scheme \<Rightarrow> (transfer \<times> 'a ledger_scheme) result" where
  "transfer_funds ids now kind debit_account credit_account amt actor key reason s =
     (if amt \<le> 0 then Inl (ValueError ''transfer amount must be > 0'')
      else let s = lock_accounts [debit_account, credit_account] (begin_tx s) in
        bindE (balance_of debit_account s) (\<lambda>debit_balance.
        if debit_balance < amt then Inl InsufficientBalance
        else post_transfer ids now kind key actor debit_account credit_account amt
               (map_option (\<lambda>r. [(''reason'', JStr r)]) reason) s))"

definition get_balance :: "uuid \<Rightarrow> 'a ledger_scheme \<Rightarrow> rat result" where
  "get_balance user_id s = bindE (resolve_user_wallet_id user_id s) (\<lambda>w. balance_of w s)"

text \<open>
  One page of the wallet history.  \<open>ORDER BY created_at DESC, id DESC\<close> is the reverse of a stable
  sort by id and then by time; page numbers start at one.
\<close>

definition wallet_history :: "uuid \<Rightarrow> 'a ledger_scheme \<Rightarrow> (transfer \<times> entry) list" where
  "wallet_history w s = rev (sort_key (\<lambda>(t, e). en_created_at e) (sort_key (\<lambda>(t, e). en_id e)
     (concat (map (\<lambda>e. map (\<lambda>t. (t, e)) (filter (\<lambda>t. tr_id t = en_transfer e) (transfers s)))
        (filter (\<lambda>e. en_account e = w) (entries s))))))"

definition get_transactions ::
  "uuid \<Rightarrow> nat \<Rightarrow> nat \<Rightarrow> 'a ledger_scheme \<Rightarrow> ((transfer \<times> entry) list \<times> nat) result" where
  "get_transactions user_id page page_size s =
     bindE (resolve_user_wallet_id user_id s) (\<lambda>w.
     if page = 0 \<and> 0 < page_size then Inl DataError
     else Inr (take page_size (drop ((page - 1) * page_size) (wallet_history w s)),
          length (filter (\<lambda>e. en_account e = w) (entries s))))"

subsection \<open>The effect of one posting\<close>

text \<open>\<open>move da ca m\<close> is the effect on the account rows of one balanced transfer.\<close>

definition move :: "uuid \<Rightarrow> uuid \<Rightarrow> rat \<Rightarrow> account list \<Rightarrow> account list" where
  "move da ca m rows =
     update_where (\<lambda>a. acc_id a = ca) (\<lambda>a. a\<lparr>balance := balance a + m, version := version a + 0\<rparr>)
      (update_where (\<lambda>a. acc_id a = da) (\<lambda>a. a\<lparr>balance := balance a - m, version := version a + 1\<rparr>) rows)"

definition in_range :: "uuid \<Rightarrow> account list \<Rightarrow> bool" where
  "in_range u rows \<longleftrightarrow> (\<forall>a \<in> set rows. acc_id a = u \<longrightarrow> 0 \<le> balance a \<and> balance a < 10 ^ 14)"

lemma numeric_18_4_minus:
  "numeric_18_4 (- v) = (case numeric_18_4 v of Inl e \<Rightarrow> Inl e | Inr w \<Rightarrow> Inr (- w))"
  by (simp add: numeric_18_4_def Let_def round_half_up_minus)

lemma accounts_lock_row [simp]: "accounts (lock_row l s) = accounts s"
  "transfers (lock_row l s) = transfers s" "entries (lock_row l s) = entries s"
  "ledger.more (lock_row l s) = ledger.more s"
  by (simp_all add: lock_row_def)

lemma accounts_lock_account [simp]: "accounts (lock_account u s) = accounts s"
  "transfers (lock_account u s) = transfers s" "entries (lock_account u s) = entries s"
  "ledger.more (lock_account u s) = ledger.more s"
  by (simp_all add: lock_account_def)

lemma accounts_fold_lock [simp]: "accounts (fold lock_account us s) = accounts s"
  "transfers (fold lock_account us s) = transfers s" "entries (fold lock_account us s) = entries s"
  "ledger.more (fold lock_account us s) = ledger.more s"
  by (induction us arbitrary: s) simp_all

lemma accounts_lock_accounts [simp]: "accounts (lock_accounts us s) = accounts s"
  "transfers (lock_accounts us s) = transfers s" "entries (lock_accounts us s) = entries s"
  "ledger.more (lock_accounts us s) = ledger.more s"
  by (simp_all add: lock_accounts_def)

lemma accounts_begin_tx [simp]: "accounts (begin_tx s) = accounts s"
  "transfers (begin_tx s) = transfers s" "entries (begin_tx s) = entries s"
  "ledger.more (begin_tx s) = ledger.more s" "row_locks (begin_tx s) = []"
  by (simp_all add: begin_tx_def)

lemma update_balance_Inr [result_simps]:
  "update_balance u delta bump s = Inr s' \<longleftrightarrow> (\<exists>d. numeric_18_4 delta = Inr d \<and>
     (let rows = update_where (\<lambda>a. acc_id a = u)
           (\<lambda>a. a\<lparr>balance := balance a + d, version := version a + bump\<rparr>) (accounts s)
      in in_range u rows \<and> s' = (lock_account u s)\<lparr>accounts := rows\<rparr>))"
  unfolding update_balance_def in_range_def Let_def by (fastforce simp: not_le not_less abs_if split: if_splits)

lemma insert_entry_Inr [result_simps]:
  "insert_entry e s = Inr s' \<longleftrightarrow> (\<exists>m. numeric_18_4 (amount e) = Inr m \<and> 0 < m
     \<and> en_id e \<notin> en_id ` set (entries s) \<and> en_transfer e \<in> tr_id ` set (transfers s)
     \<and> en_account e \<in> acc_id ` set (accounts s) \<and> s' = s\<lparr>entries := entries s @ [e\<lparr>amount := m\<rparr>]\<rparr>)"
  by (auto simp: insert_entry_def)

lemma insert_transfer_Inr [result_simps]:
  "insert_transfer t s = Inr s' \<longleftrightarrow> tr_id t \<notin> tr_id ` set (transfers s)
     \<and> (idempotency_key t = None \<or> idempotency_key t \<notin> idempotency_key ` set (transfers s))
     \<and> s' = s\<lparr>transfers := transfers s @ [t]\<rparr>"
  by (auto simp: insert_transfer_def)

text \<open>What a successful posting does to the tables, as a relation between the states.\<close>

definition posts :: "transfer \<Rightarrow> entry \<Rightarrow> entry \<Rightarrow> 'a ledger_scheme \<Rightarrow> 'b ledger_scheme \<Rightarrow> bool" where
  "posts t d c s s' \<longleftrightarrow>
     tr_id t \<notin> tr_id ` set (transfers s)
   \<and> (idempotency_key t = None \<or> idempotency_key t \<notin> idempotency_key ` set (transfers s))
   \<and> en_id d \<notin> en_id ` set (entries s) \<and> en_id c \<notin> insert (en_id d) (en_id ` set (entries s))
   \<and> en_transfer d = tr_id t \<and> en_transfer c = tr_id t
   \<and> direction d = Debit \<and> direction c = Credit
   \<and> amount c = amount d \<and> is_money (amount d) \<and> 0 < amount d
   \<and> en_account d \<in> acc_id ` set (accounts s) \<and> en_account c \<in> acc_id ` set (accounts s)
   \<and> accounts s' = move (en_account d) (en_account c) (amount d) (accounts s)
   \<and> in_range (en_account d) (accounts s') \<and> in_range (en_account c) (accounts s')
   \<and> transfers s' = transfers s @ [t] \<and> entries s' = entries s @ [d, c]"

lemma in_range_other:
  assumes "in_range u rows" "u \<noteq> v" "\<And>a. acc_id (f a) = acc_id a"
  shows "in_range u (update_where (\<lambda>a. acc_id a = v) f rows)"
  using assms by (auto simp: in_range_def set_update_where)

lemma acc_id_move [simp]: "map acc_id (move da ca m rows) = map acc_id rows"
  "acc_id ` set (move da ca m rows) = acc_id ` set rows"
proof -
  show "map acc_id (move da ca m rows) = map acc_id rows" by (simp add: move_def map_update_where_same)
  then show "acc_id ` set (move da ca m rows) = acc_id ` set rows" by (metis list.set_map)
qed

lemma post_transfer_Inr:
  assumes "post_transfer (ti, di, ci) now kind key actor da ca amt md s = Inr (t, s')"
  shows "\<exists>m. numeric_18_4 amt = Inr m
    \<and> t = \<lparr>tr_id = ti, tr_kind = kind, idempotency_key = key, actor_user_id = actor,
           tr_metadata = (case md of None \<Rightarrow> [] | Some x \<Rightarrow> x), tr_created_at = now\<rparr>
    \<and> posts t \<lparr>en_id = di, en_transfer = ti, en_account = da, direction = Debit, amount = m, en_created_at = now\<rparr>
        \<lparr>en_id = ci, en_transfer = ti, en_account = ca, direction = Credit, amount = m, en_created_at = now\<rparr> s s'
    \<and> row_locks s' = row_locks (lock_account ca (lock_account da s))
    \<and> ledger.more s' = ledger.more s"
proof -
  let ?t = "\<lparr>tr_id = ti, tr_kind = kind, idempotency_key = key, actor_user_id = actor,
           tr_metadata = (case md of None \<Rightarrow> [] | Some x \<Rightarrow> x), tr_created_at = now\<rparr>"
  let ?d = "\<lambda>m. \<lparr>en_id = di, en_transfer = ti, en_account = da, direction = Debit, amount = m, en_created_at = now\<rparr>"
  let ?c = "\<lambda>m. \<lparr>en_id = ci, en_transfer = ti, en_account = ca, direction = Credit, amount = m, en_created_at = now\<rparr>"
  from assms obtain s1 s2 s3 s4 where steps:
    "insert_transfer ?t s = Inr s1" "insert_entry (?d amt) s1 = Inr s2"
    "insert_entry (?c amt) s2 = Inr s3" "update_balance da (- amt) 1 s3 = Inr s4"
    "update_balance ca amt 0 s4 = Inr s'" and t: "t = ?t"
    by (auto simp: post_transfer_def Let_def)
  from steps(2) obtain m where m: "numeric_18_4 amt = Inr m" "0 < m"
    by (auto simp: insert_entry_Inr)
  let ?rows = "update_where (\<lambda>a. acc_id a = da) (\<lambda>a. a\<lparr>balance := balance a - m, version := version a + 1\<rparr>) (accounts s)"
  have ids: "acc_id ` set ?rows = acc_id ` set (accounts s)" by (simp add: image_update_where_same)
  have s1: "tr_id ?t \<notin> tr_id ` set (transfers s)"
    "key = None \<or> key \<notin> idempotency_key ` set (transfers s)" "s1 = s\<lparr>transfers := transfers s @ [?t]\<rparr>"
    using steps(1) by (simp_all add: insert_transfer_Inr)
  have s2: "di \<notin> en_id ` set (entries s)" "da \<in> acc_id ` set (accounts s)"
    "s2 = s1\<lparr>entries := entries s @ [?d m]\<rparr>"
    using steps(2) m by (simp_all add: insert_entry_Inr s1(3))
  have s3: "ci \<notin> insert di (en_id ` set (entries s))" "ca \<in> acc_id ` set (accounts s)"
    "s3 = s2\<lparr>entries := entries s @ [?d m, ?c m]\<rparr>"
    using steps(3) m by (simp_all add: insert_entry_Inr s1(3) s2(3))
  have s4: "in_range da ?rows" "s4 = (lock_account da s3)\<lparr>accounts := ?rows\<rparr>"
    using steps(4) m by (simp_all add: update_balance_Inr Let_def numeric_18_4_minus s1(3) s2(3) s3(3))
  have s5: "in_range ca (move da ca m (accounts s))"
    "s' = (lock_account ca s4)\<lparr>accounts := move da ca m (accounts s)\<rparr>"
    using steps(5) m by (simp_all add: update_balance_Inr Let_def s4(2) move_def)
  have rng: "in_range da (move da ca m (accounts s))"
    using s4(1) s5(1) by (cases "da = ca") (simp_all add: move_def in_range_other)
  have rows: "accounts s' = move da ca m (accounts s)" "transfers s' = transfers s @ [?t]"
    "entries s' = entries s @ [?d m, ?c m]" "ledger.more s' = ledger.more s"
    by (simp_all add: s5(2) s4(2) s3(3) s2(3) s1(3))
  have "row_locks s' = row_locks (lock_account ca (lock_account da s))"
    using s2(2) s3(2) by (simp add: s5(2) s4(2) s3(3) s2(3) s1(3) lock_account_def lock_row_def ids)
  moreover have "posts ?t (?d m) (?c m) s s'"
    unfolding posts_def using s1(1,2) s2(1,2) s3(1,2) s5(1) rng m numeric_18_4_is_money [OF m(1)]
    by (simp add: rows)
  ultimately show ?thesis using m t rows(4) by blast
qed

end
