(* ===== verification/Books.thy ===== *)
theory Books
  imports Ledger
begin

text \<open>
  What the ledger promises over any history.  \<open>ledger_step\<close> is the only ways the code changes the
  three ledger tables: one balanced posting, one account opened at balance zero, or a change
  elsewhere (row locks and the tables of other components).  \<open>ledger_invariant\<close> is the contract of
  a property that survives every step; its interpretations are well-formedness, double entry,
  conservation of money, reconciliation of balances with the entries, and append-only history.
  The nightly reconciliation of \<open>wallet/reconcile.py\<close> is modelled and shown to find nothing.
\<close>

subsection \<open>Steps\<close>

definition opens :: "account \<Rightarrow> 'a ledger_scheme \<Rightarrow> 'b ledger_scheme \<Rightarrow> bool" where
  "opens a s s' \<longleftrightarrow> balance a = 0 \<and> acc_id a \<notin> acc_id ` set (accounts s)
     \<and> accounts s' = accounts s @ [a] \<and> transfers s' = transfers s \<and> entries s' = entries s"

definition same_books :: "'a ledger_scheme \<Rightarrow> 'b ledger_scheme \<Rightarrow> bool" where
  "same_books s s' \<longleftrightarrow>
     accounts s' = accounts s \<and> transfers s' = transfers s \<and> entries s' = entries s"

inductive ledger_step :: "'a ledger_scheme \<Rightarrow> 'a ledger_scheme \<Rightarrow> bool" where
  posting: "posts t d c s s' \<Longrightarrow> ledger_step s s'"
| open_account: "opens a s s' \<Longrightarrow> ledger_step s s'"
| frame: "same_books s s' \<Longrightarrow> ledger_step s s'"

inductive_cases ledger_stepE: "ledger_step s s'"

abbreviation ledger_steps :: "'a ledger_scheme \<Rightarrow> 'a ledger_scheme \<Rightarrow> bool" where
  "ledger_steps \<equiv> ledger_step\<^sup>*\<^sup>*"

lemma ledger_steps_frame: "same_books s s' \<Longrightarrow> ledger_steps s s'"
  by (rule r_into_rtranclp) (rule ledger_step.frame)

lemma ledger_steps_trans [trans]: "ledger_steps s t \<Longrightarrow> ledger_steps t u \<Longrightarrow> ledger_steps s u"
  by (rule rtranclp_trans)

lemma same_books_refl [simp]: "same_books s s"
  by (simp add: same_books_def)

lemma foldE_steps:
  assumes "foldE f xs s = Inr s'" and "\<And>x u v. x \<in> set xs \<Longrightarrow> f x u = Inr v \<Longrightarrow> ledger_steps u v"
  shows "ledger_steps s s'"
  using assms(1) by (rule foldE_invariant [where P = "ledger_steps s"])
    (auto intro: rtranclp_trans dest: assms(2))

subsection \<open>Well-formed books and the observables\<close>

definition ledger_wf :: "'a ledger_scheme \<Rightarrow> bool" where
  "ledger_wf s \<longleftrightarrow>
     distinct (map acc_id (accounts s)) \<and> distinct (map tr_id (transfers s))
   \<and> distinct (map en_id (entries s))
   \<and> distinct (filter (\<lambda>k. k \<noteq> None) (map idempotency_key (transfers s)))
   \<and> (\<forall>a \<in> set (accounts s). is_money (balance a) \<and> 0 \<le> balance a)
   \<and> (\<forall>e \<in> set (entries s). is_money (amount e) \<and> 0 < amount e
        \<and> en_account e \<in> acc_id ` set (accounts s) \<and> en_transfer e \<in> tr_id ` set (transfers s))"

definition signed :: "entry \<Rightarrow> rat" where
  "signed e = (case direction e of Credit \<Rightarrow> amount e | Debit \<Rightarrow> - amount e)"

text \<open>\<open>SUM(credit) - SUM(debit)\<close> of one account.\<close>

definition ledger_sum :: "uuid \<Rightarrow> entry list \<Rightarrow> rat" where
  "ledger_sum u es = sum_list (map signed (filter (\<lambda>e. en_account e = u) es))"

definition drift :: "entry list \<Rightarrow> account \<Rightarrow> rat" where
  "drift es a = balance a - ledger_sum (acc_id a) es"

definition total_balance :: "'a ledger_scheme \<Rightarrow> rat" where
  "total_balance s = sum_list (map balance (accounts s))"

text \<open>Double entry: the entries of every transfer are one debit and one credit of equal amount.\<close>

definition double_entry :: "'a ledger_scheme \<Rightarrow> bool" where
  "double_entry s \<longleftrightarrow> (\<forall>t \<in> set (transfers s). \<exists>d c.
     filter (\<lambda>e. en_transfer e = tr_id t) (entries s) = [d, c]
     \<and> direction d = Debit \<and> direction c = Credit \<and> amount c = amount d)"

text \<open>Every account outside \<open>ex\<close> has a balance equal to the signed sum of its entries.\<close>

definition reconciled_except :: "uuid set \<Rightarrow> 'a ledger_scheme \<Rightarrow> bool" where
  "reconciled_except ex s \<longleftrightarrow> (\<forall>a \<in> set (accounts s). acc_id a \<notin> ex \<longrightarrow> drift (entries s) a = 0)"

lemma ledger_sum_append: "ledger_sum u (xs @ ys) = ledger_sum u xs + ledger_sum u ys"
  by (simp add: ledger_sum_def)

lemma ledger_sum_pair:
  "direction d = Debit \<Longrightarrow> direction c = Credit \<Longrightarrow> amount c = amount d \<Longrightarrow> ledger_sum u [d, c] =
     (if en_account c = u then amount d else 0) - (if en_account d = u then amount d else 0)"
  by (simp add: ledger_sum_def signed_def)

lemma ledger_sum_none: "(\<forall>e \<in> set es. en_account e \<noteq> u) \<Longrightarrow> ledger_sum u es = 0"
proof -
  assume "\<forall>e \<in> set es. en_account e \<noteq> u"
  then have "filter (\<lambda>e. en_account e = u) es = []" by (simp add: filter_empty_conv)
  then show ?thesis by (simp add: ledger_sum_def)
qed

text \<open>A row after a move: the same row with the debit and the credit applied.\<close>

definition moved :: "uuid \<Rightarrow> uuid \<Rightarrow> rat \<Rightarrow> account \<Rightarrow> account" where
  "moved da ca m a = a\<lparr>
     balance := balance a - (if acc_id a = da then m else 0) + (if acc_id a = ca then m else 0),
     version := version a + (if acc_id a = da then 1 else 0)\<rparr>"

lemma move_eq_map: "move da ca m rows = map (moved da ca m) rows"
  by (simp add: move_def update_where_def moved_def)

lemma acc_id_moved [simp]: "acc_id (moved da ca m a) = acc_id a" "owner_type (moved da ca m a) = owner_type a"
  "owner_id (moved da ca m a) = owner_id a" "acc_kind (moved da ca m a) = acc_kind a"
  "currency (moved da ca m a) = currency a"
  by (simp_all add: moved_def)

lemma sum_indicator:
  fixes m :: rat
  shows "distinct (map acc_id rows) \<Longrightarrow> u \<in> acc_id ` set rows \<Longrightarrow>
    (\<Sum>a\<leftarrow>rows. if acc_id a = u then m else 0) = m"
proof (induction rows)
  case (Cons a rows)
  show ?case
  proof (cases "acc_id a = u")
    case True
    with Cons.prems(1) have "\<forall>b \<in> set rows. acc_id b \<noteq> u" by (auto simp: image_iff)
    then have "(\<Sum>a\<leftarrow>rows. if acc_id a = u then m else 0) = 0" by (induction rows) auto
    with True show ?thesis by simp
  next
    case False
    with Cons.prems have "u \<in> acc_id ` set rows" by auto
    with False Cons show ?thesis by simp
  qed
qed simp

lemma sum_balance_move:
  assumes "distinct (map acc_id rows)" "da \<in> acc_id ` set rows" "ca \<in> acc_id ` set rows"
  shows "sum_list (map balance (move da ca m rows)) = sum_list (map balance rows)"
proof -
  have "sum_list (map balance (move da ca m rows)) = sum_list (map balance rows)
      - (\<Sum>a\<leftarrow>rows. if acc_id a = da then m else 0) + (\<Sum>a\<leftarrow>rows. if acc_id a = ca then m else 0)"
    unfolding move_eq_map by (induction rows) (simp_all add: moved_def algebra_simps)
  then show ?thesis by (simp only: sum_indicator [OF assms(1,2)] sum_indicator [OF assms(1,3)] diff_add_cancel)
qed

lemma drift_moved:
  "direction d = Debit \<Longrightarrow> direction c = Credit \<Longrightarrow> amount c = amount d \<Longrightarrow>
   drift (es @ [d, c]) (moved (en_account d) (en_account c) (amount d) a) = drift es a"
  by (simp add: drift_def ledger_sum_append ledger_sum_pair) (simp add: moved_def)

subsection \<open>Well-formedness is preserved\<close>

lemma is_money_moved:
  assumes "is_money m" "is_money (balance a)" "in_range da (map (moved da ca m) rows)"
    "in_range ca (map (moved da ca m) rows)" "a \<in> set rows" "0 \<le> balance a"
  shows "is_money (balance (moved da ca m a)) \<and> 0 \<le> balance (moved da ca m a)"
proof (cases "acc_id a = da \<or> acc_id a = ca")
  case True
  then have b: "0 \<le> balance (moved da ca m a)" "balance (moved da ca m a) < 10 ^ 14"
    using assms(3-5) by (auto simp: in_range_def)
  obtain i where i: "m * 10000 = of_int i" using assms(1) unfolding is_money_iff by blast
  obtain j where j: "balance a * 10000 = of_int j" using assms(2) unfolding is_money_iff by blast
  have "balance (moved da ca m a) * 10000 = of_int (j - (if acc_id a = da then i else 0) + (if acc_id a = ca then i else 0))"
    using i j by (simp add: moved_def algebra_simps)
  with b show ?thesis unfolding is_money_iff by (metis abs_of_nonneg)
next
  case False
  then show ?thesis using assms(2,6) by (simp add: moved_def)
qed

lemma posts_wf:
  assumes "posts t d c s s'" and "ledger_wf s"
  shows "ledger_wf s'"
proof -
  note p = assms(1) [unfolded posts_def] and w = assms(2) [unfolded ledger_wf_def]
  let ?rows = "map (moved (en_account d) (en_account c) (amount d)) (accounts s)"
  have acc: "accounts s' = ?rows" and tr: "transfers s' = transfers s @ [t]"
    and en: "entries s' = entries s @ [d, c]"
    using p by (simp_all add: move_eq_map)
  have ids: "map acc_id ?rows = map acc_id (accounts s)" by simp
  have "\<forall>a \<in> set ?rows. is_money (balance a) \<and> 0 \<le> balance a"
  proof
    fix b assume "b \<in> set ?rows"
    then obtain a where a: "a \<in> set (accounts s)" and b: "b = moved (en_account d) (en_account c) (amount d) a"
      by auto
    have "in_range (en_account d) (accounts s')" "in_range (en_account c) (accounts s')" "is_money (amount d)"
      using p by blast+
    then have "in_range (en_account d) ?rows" "in_range (en_account c) ?rows" "is_money (amount d)"
      unfolding acc .
    moreover have "is_money (balance a)" "0 \<le> balance a" using w a by blast+
    ultimately show "is_money (balance b) \<and> 0 \<le> balance b"
      unfolding b using a by (intro is_money_moved)
  qed
  moreover have "acc_id ` set ?rows = acc_id ` set (accounts s)"
    using ids by (metis list.set_map)
  moreover have "distinct (filter (\<lambda>k. k \<noteq> None) (map idempotency_key (transfers s @ [t])))"
    using p w by auto
  ultimately show ?thesis
    unfolding ledger_wf_def acc tr en ids using p w by (auto simp: image_Un)
qed

lemma opens_wf: "opens a s s' \<Longrightarrow> ledger_wf s \<Longrightarrow> ledger_wf s'"
  by (auto simp: opens_def ledger_wf_def)

lemma same_books_wf: "same_books s s' \<Longrightarrow> ledger_wf s \<longleftrightarrow> ledger_wf s'"
  by (simp add: same_books_def ledger_wf_def)

lemma step_wf: "ledger_step s s' \<Longrightarrow> ledger_wf s \<Longrightarrow> ledger_wf s'"
  by (auto elim!: ledger_stepE dest: posts_wf opens_wf simp: same_books_wf)

lemma steps_wf: "ledger_steps s s' \<Longrightarrow> ledger_wf s \<Longrightarrow> ledger_wf s'"
  by (induction rule: rtranclp_induct) (auto dest: step_wf)

subsection \<open>Properties of every history\<close>

text \<open>
  A property of the books that a posting, an opening and a frame step keep on well-formed books
  holds after any history that starts where it holds.
\<close>

locale ledger_invariant =
  fixes I :: "'a ledger_scheme \<Rightarrow> bool"
  assumes posting_keeps: "posts t d c s s' \<Longrightarrow> ledger_wf s \<Longrightarrow> I s \<Longrightarrow> I s'"
    and opening_keeps: "opens a s s' \<Longrightarrow> ledger_wf s \<Longrightarrow> I s \<Longrightarrow> I s'"
    and frame_keeps: "same_books s s' \<Longrightarrow> I s \<Longrightarrow> I s'"
begin

lemma step_keeps: "ledger_step s s' \<Longrightarrow> ledger_wf s \<Longrightarrow> I s \<Longrightarrow> I s'"
  by (auto elim!: ledger_stepE dest: posting_keeps opening_keeps frame_keeps)

lemma steps_keep: "ledger_steps s s' \<Longrightarrow> ledger_wf s \<Longrightarrow> I s \<Longrightarrow> I s'"
proof (induction rule: rtranclp_induct)
  case (step y z)
  have "ledger_wf y" using step.hyps(1) step.prems(1) by (rule steps_wf)
  with step show ?case by (blast intro: step_keeps)
qed

end

lemma double_entry_posts: "posts t d c s s' \<Longrightarrow> ledger_wf s \<Longrightarrow> double_entry s \<Longrightarrow> double_entry s'"
proof -
  assume p: "posts t d c s s'" and w: "ledger_wf s" and i: "double_entry s"
  note p = p [unfolded posts_def]
  have old: "\<forall>e \<in> set (entries s). en_transfer e \<noteq> tr_id t"
  proof
    fix e assume "e \<in> set (entries s)"
    then have "en_transfer e \<in> tr_id ` set (transfers s)" using w by (simp add: ledger_wf_def)
    then show "en_transfer e \<noteq> tr_id t" using p by metis
  qed
  have "\<exists>d' c'. filter (\<lambda>e. en_transfer e = tr_id u) (entries s') = [d', c']
     \<and> direction d' = Debit \<and> direction c' = Credit \<and> amount c' = amount d'"
    if u: "u \<in> set (transfers s')" for u
  proof (cases "u = t")
    case True
    have "filter (\<lambda>e. en_transfer e = tr_id t) (entries s') = [d, c]"
      using p old by (simp add: filter_empty_conv)
    with p True show ?thesis by simp
  next
    case False
    then have m: "u \<in> set (transfers s)" using u p by simp
    then have "tr_id u \<noteq> tr_id t" using p key_fresh by metis
    then have "filter (\<lambda>e. en_transfer e = tr_id u) (entries s') = filter (\<lambda>e. en_transfer e = tr_id u) (entries s)"
      using p by simp
    with m i show ?thesis by (simp add: double_entry_def)
  qed
  then show ?thesis by (simp add: double_entry_def)
qed

interpretation double_entry: ledger_invariant double_entry
proof unfold_locales
  show "opens a s s' \<Longrightarrow> ledger_wf s \<Longrightarrow> double_entry s \<Longrightarrow> double_entry s'" for a and s s' :: "'b ledger_scheme"
    by (simp add: opens_def double_entry_def)
  show "same_books s s' \<Longrightarrow> double_entry s \<Longrightarrow> double_entry s'" for s s' :: "'b ledger_scheme"
    by (simp add: same_books_def double_entry_def)
qed (rule double_entry_posts)

text \<open>No drift outside an excepted set of accounts.\<close>

lemma reconciled_posts: "posts t d c s s' \<Longrightarrow> reconciled_except ex s \<Longrightarrow> reconciled_except ex s'"
  unfolding posts_def reconciled_except_def move_eq_map by (elim conjE) (simp add: drift_moved)

lemma reconciled_opens:
  assumes "opens a s s'" "ledger_wf s" "reconciled_except ex s"
  shows "reconciled_except ex s'"
proof -
  have "\<forall>e \<in> set (entries s). en_account e \<noteq> acc_id a"
    using assms(1,2) unfolding opens_def ledger_wf_def by metis
  then have "drift (entries s) a = 0"
    using assms(1) by (simp add: drift_def ledger_sum_none opens_def)
  with assms(1,3) show ?thesis by (auto simp: reconciled_except_def opens_def)
qed

interpretation reconciled: ledger_invariant "reconciled_except ex" for ex
proof unfold_locales
  show "same_books s s' \<Longrightarrow> reconciled_except ex s \<Longrightarrow> reconciled_except ex s'" for s s' :: "'b ledger_scheme"
    by (simp add: same_books_def reconciled_except_def)
qed (blast intro: reconciled_posts reconciled_opens)+

text \<open>The money supply is constant: no operation creates or destroys balance.\<close>

lemma total_posts: "posts t d c s s' \<Longrightarrow> ledger_wf s \<Longrightarrow> total_balance s' = total_balance s"
  by (auto simp: posts_def ledger_wf_def total_balance_def sum_balance_move)

interpretation money_supply: ledger_invariant "\<lambda>s. total_balance s = m" for m
proof unfold_locales
  show "opens a s s' \<Longrightarrow> ledger_wf s \<Longrightarrow> total_balance s = m \<Longrightarrow> total_balance s' = m" for a and s s' :: "'b ledger_scheme"
    by (simp add: opens_def total_balance_def)
  show "same_books s s' \<Longrightarrow> total_balance s = m \<Longrightarrow> total_balance s' = m" for s s' :: "'b ledger_scheme"
    by (simp add: same_books_def total_balance_def)
qed (simp add: total_posts)

text \<open>History is append-only: the transfers and entries of an earlier state are a prefix.\<close>

definition extends_books :: "transfer list \<Rightarrow> entry list \<Rightarrow> 'a ledger_scheme \<Rightarrow> bool" where
  "extends_books ts es s \<longleftrightarrow> take (length ts) (transfers s) = ts \<and> take (length es) (entries s) = es"

interpretation append_only: ledger_invariant "extends_books ts es" for ts es
  by unfold_locales (auto simp: extends_books_def posts_def opens_def same_books_def take_append
      dest: arg_cong [where f = length])

text \<open>The four promises together, as the operations use them.\<close>

definition books_ok :: "'a ledger_scheme \<Rightarrow> bool" where
  "books_ok s \<longleftrightarrow> ledger_wf s \<and> double_entry s \<and> reconciled_except {HOUSE_PROMO_ACCOUNT_ID} s"

lemma steps_books_ok: "ledger_steps s s' \<Longrightarrow> books_ok s \<Longrightarrow> books_ok s'"
  unfolding books_ok_def
  by (blast dest: steps_wf double_entry.steps_keep reconciled.steps_keep)

lemma steps_total: "ledger_steps s s' \<Longrightarrow> ledger_wf s \<Longrightarrow> total_balance s' = total_balance s"
  by (rule money_supply.steps_keep) simp_all

lemma steps_append_only:
  "ledger_steps s s' \<Longrightarrow> ledger_wf s \<Longrightarrow> extends_books (transfers s) (entries s) s'"
  by (erule append_only.steps_keep) (simp_all add: extends_books_def)

subsection \<open>Every wallet operation is a history of steps\<close>

lemma post_transfer_steps: "post_transfer ids now kind key actor da ca amt md s = Inr (t, s') \<Longrightarrow> ledger_step s s'"
  by (cases ids) (auto dest!: post_transfer_Inr intro: ledger_step.posting)

lemma same_books_locks [simp]: "same_books s (lock_accounts us (begin_tx s))" "same_books s (begin_tx s)"
  "same_books s (lock_accounts us s)" "same_books s (lock_row l s)"
  by (simp_all add: same_books_def)

lemma fund_from_house_steps:
  assumes "fund_from_house ids now kind key user_id amt reason s = Inr (t, s')"
  shows "ledger_steps s s'"
proof -
  obtain w where "post_transfer ids now kind (Some key) None HOUSE_PROMO_ACCOUNT_ID w amt
      (Some [(''reason'', JStr reason)]) (lock_accounts [HOUSE_PROMO_ACCOUNT_ID, w] (begin_tx s)) = Inr (t, s')"
    using assms by (auto simp: fund_from_house_def Let_def)
  then show ?thesis
    by (meson post_transfer_steps r_into_rtranclp rtranclp_trans ledger_steps_frame same_books_locks(1))
qed

lemma or_existing_Inr:
  "or_existing key s r = Inr (t, s') \<Longrightarrow> r = Inr (t, s') \<or>
     r = Inl (IntegrityError UniqueViolation) \<and> s' = s \<and> t \<in> set (transfers s) \<and> idempotency_key t = Some key"
  by (auto simp: or_existing_def dest!: scalar_one_filter_mem split: sum.splits exn.splits sqlstate.splits)

lemma recharge_steps: "recharge ids now user_id amt reason key prov s = Inr (t, s') \<Longrightarrow> ledger_steps s s'"
  by (auto simp: recharge_def dest!: or_existing_Inr fund_from_house_steps split: if_splits)

lemma grant_signup_bonus_steps: "grant_signup_bonus ids now user_id amt s = Inr (t, s') \<Longrightarrow> ledger_steps s s'"
  by (auto simp: grant_signup_bonus_def dest!: or_existing_Inr fund_from_house_steps split: if_splits)

lemma transfer_funds_steps:
  assumes "transfer_funds ids now kind da ca amt actor key reason s = Inr (t, s')"
  shows "ledger_steps s s'"
proof -
  have "ledger_step (lock_accounts [da, ca] (begin_tx s)) s'"
    using assms by (auto simp: transfer_funds_def Let_def dest: post_transfer_steps split: if_splits)
  then show ?thesis
    by (meson r_into_rtranclp rtranclp_trans ledger_steps_frame same_books_locks(1))
qed

lemma create_wallet_opens: "create_wallet i u s = Inr (a, s') \<Longrightarrow> opens a s s'"
  by (auto simp: create_wallet_def insert_account_def opens_def Let_def split: if_splits)

lemma create_wallet_steps: "create_wallet i u s = Inr (a, s') \<Longrightarrow> ledger_steps s s'"
  by (blast dest: create_wallet_opens intro: r_into_rtranclp ledger_step.open_account)

end
