(* ===== verification/Wallet.thy ===== *)
theory Wallet
  imports Books "HOL-Library.Multiset"
begin

text \<open>
  The wallet service's contract: what each operation of \<open>wallet/service.py\<close> does to balances on
  its success, error and replay paths, the paginated history, and the nightly reconciliation of
  \<open>wallet/reconcile.py\<close>.
\<close>

subsection \<open>Balances\<close>

definition bal :: "'a ledger_scheme \<Rightarrow> uuid \<Rightarrow> rat" where
  "bal s u = sum_list (map balance (filter (\<lambda>a. acc_id a = u) (accounts s)))"

lemma bal_row: "ledger_wf s \<Longrightarrow> a \<in> set (accounts s) \<Longrightarrow> bal s (acc_id a) = balance a"
  by (simp add: bal_def filter_key_distinct ledger_wf_def)

lemma bal_none: "u \<notin> acc_id ` set (accounts s) \<Longrightarrow> bal s u = 0"
  by (simp add: bal_def filter_key_none)

lemma balance_of_bal: "balance_of u s = Inr b \<Longrightarrow> b = bal s u"
  by (auto simp: balance_of_def bal_def scalar_one_Inr)

lemma balance_of_exists:
  "ledger_wf s \<Longrightarrow> u \<in> acc_id ` set (accounts s) \<Longrightarrow> balance_of u s = Inr (bal s u)"
  by (auto simp: balance_of_def bal_def filter_key_distinct ledger_wf_def)

lemma bal_same_books: "same_books s s' \<Longrightarrow> bal s' u = bal s u"
  by (simp add: bal_def same_books_def)

lemma bal_lock [simp]: "bal (lock_accounts us s) = bal s" "bal (begin_tx s) = bal s" "bal (lock_row l s) = bal s"
  by (simp_all add: bal_def fun_eq_iff)

lemma bal_nonneg: "ledger_wf s \<Longrightarrow> 0 \<le> bal s u"
  by (auto simp: bal_def ledger_wf_def intro!: sum_list_nonneg)

lemma bal_is_money: "ledger_wf s \<Longrightarrow> is_money (bal s u)"
proof (cases "u \<in> acc_id ` set (accounts s)")
  case True
  then obtain a where "a \<in> set (accounts s)" "u = acc_id a" by blast
  moreover assume "ledger_wf s"
  ultimately show ?thesis by (simp add: bal_row ledger_wf_def)
qed (simp add: bal_none)

lemma bal_posts:
  assumes "posts t d c s s'" and "ledger_wf s"
  shows "bal s' u = bal s u - (if u = en_account d then amount d else 0)
           + (if u = en_account c then amount d else 0)"
proof (cases "u \<in> acc_id ` set (accounts s)")
  case True
  then obtain a where a: "a \<in> set (accounts s)" "u = acc_id a" by blast
  let ?a = "moved (en_account d) (en_account c) (amount d) a"
  have "?a \<in> set (accounts s')" using assms(1) a(1) by (simp add: posts_def move_eq_map)
  then have "bal s' (acc_id ?a) = balance ?a"
    using posts_wf [OF assms] by (rule bal_row [rotated])
  then show ?thesis using bal_row [OF assms(2) a(1)] by (simp add: moved_def a(2))
next
  case False
  then have "u \<noteq> en_account d" "u \<noteq> en_account c" "u \<notin> acc_id ` set (accounts s')"
    using assms(1) by (auto simp: posts_def)
  with False show ?thesis by (simp add: bal_none)
qed

lemma posts_accounts: "posts t d c s s' \<Longrightarrow> map acc_id (accounts s') = map acc_id (accounts s)"
  "posts t d c s s' \<Longrightarrow> acc_id ` set (accounts s') = acc_id ` set (accounts s)"
  by (auto simp: posts_def)

subsection \<open>A sample ledger\<close>

text \<open>The seeded house accounts and one user with a granted bonus; the witnesses run on it.\<close>

definition demo_account :: "uuid \<Rightarrow> string \<Rightarrow> uuid option \<Rightarrow> string \<Rightarrow> rat \<Rightarrow> account" where
  "demo_account i ot oi k b = \<lparr>acc_id = i, owner_type = ot, owner_id = oi, acc_kind = k,
     currency = PLAY_USD, balance = b, version = 0\<rparr>"

definition demo_ledger :: ledger where
  "demo_ledger = \<lparr>
     accounts = [demo_account HOUSE_PROMO_ACCOUNT_ID OWNER_SYSTEM None KIND_HOUSE_PROMO 999999900,
       demo_account HOUSE_REVENUE_ACCOUNT_ID OWNER_SYSTEM None KIND_HOUSE_REVENUE 0,
       demo_account 1 OWNER_USER (Some 5) KIND_USER_WALLET 100],
     transfers = [\<lparr>tr_id = 0x10, tr_kind = TRANSFER_SIGNUP_BONUS, idempotency_key = Some ''k0'',
       actor_user_id = None, tr_metadata = [], tr_created_at = 0\<rparr>],
     entries = [\<lparr>en_id = 0x11, en_transfer = 0x10, en_account = HOUSE_PROMO_ACCOUNT_ID,
         direction = Debit, amount = 100, en_created_at = 0\<rparr>,
       \<lparr>en_id = 0x12, en_transfer = 0x10, en_account = 1, direction = Credit, amount = 100, en_created_at = 0\<rparr>],
     row_locks = []\<rparr>"

lemma demo_ledger_wf: "ledger_wf demo_ledger"
  by code_simp

subsection \<open>Account identities\<close>

text \<open>What no operation changes of an account row: everything but balance and version.\<close>

definition acct_key :: "account \<Rightarrow> uuid \<times> string \<times> uuid option \<times> string \<times> string" where
  "acct_key a = (acc_id a, owner_type a, owner_id a, acc_kind a, currency a)"

lemma posts_keys: "posts t d c s s' \<Longrightarrow> map acct_key (accounts s') = map acct_key (accounts s)"
  by (simp add: posts_def move_eq_map acct_key_def comp_def)

lemma acct_key_ids: "map acct_key r' = map acct_key r \<Longrightarrow> map acc_id r' = map acc_id r"
proof -
  assume "map acct_key r' = map acct_key r"
  then have "map fst (map acct_key r') = map fst (map acct_key r)" by simp
  then show ?thesis by (simp add: acct_key_def comp_def)
qed

text \<open>A selection on the identity columns finds the same ids.\<close>

lemma acct_key_filter:
  assumes "map acct_key r' = map acct_key r" "\<And>a b. acct_key a = acct_key b \<Longrightarrow> P a = P b"
  shows "map acc_id (filter P r') = map acc_id (filter P r)"
  using assms(1)
proof (induction r' arbitrary: r)
  case (Cons a r')
  then obtain b rs where r: "r = b # rs" "acct_key a = acct_key b" "map acct_key r' = map acct_key rs"
    by (cases r) auto
  have P: "P a = P b" using r(2) by (rule assms(2))
  have "acc_id a = acc_id b" using r(2) by (simp add: acct_key_def)
  with r(1) P Cons.IH [OF r(3)] show ?case by simp
qed simp

lemma scalar_one_map: "bindE (scalar_one xs) (\<lambda>a. Inr (f a)) = scalar_one (map f xs)"
  by (cases xs rule: scalar_one.cases) simp_all

lemma resolve_user_wallet_key:
  "map acct_key (accounts s') = map acct_key (accounts s) \<Longrightarrow>
    resolve_user_wallet_id u s' = resolve_user_wallet_id u s"
  unfolding resolve_user_wallet_id_def scalar_one_map
  by (rule arg_cong [where f = scalar_one], rule acct_key_filter, assumption) (simp add: acct_key_def)

subsection \<open>When a posting succeeds\<close>

text \<open>The identifiers drawn for a posting are unused and distinct.\<close>

definition fresh_ids :: "post_ids \<Rightarrow> 'a ledger_scheme \<Rightarrow> bool" where
  "fresh_ids ids s \<longleftrightarrow> (case ids of (t, d, c) \<Rightarrow>
     t \<notin> tr_id ` set (transfers s) \<and> d \<notin> en_id ` set (entries s) \<and> c \<notin> en_id ` set (entries s) \<and> d \<noteq> c)"

lemma in_range_map:
  assumes "\<And>a. a \<in> set rows \<Longrightarrow> acc_id a = u \<Longrightarrow> 0 \<le> balance (f a) \<and> balance (f a) < 10 ^ 14"
    and "\<And>a. acc_id (f a) = acc_id a"
  shows "in_range u (update_where (\<lambda>a. acc_id a = u) f rows)"
proof (unfold in_range_def, intro ballI impI)
  fix b assume b: "b \<in> set (update_where (\<lambda>a. acc_id a = u) f rows)" "acc_id b = u"
  from b(1) obtain a where a: "a \<in> set rows" "b = (if acc_id a = u then f a else a)"
    by (auto simp only: set_update_where)
  show "0 \<le> balance b \<and> balance b < 10 ^ 14"
  proof (cases "acc_id a = u")
    case True then show ?thesis using assms(1) [OF a(1)] a(2) by simp
  next
    case False then show ?thesis using a(2) b(2) by simp
  qed
qed

lemma in_range_debit:
  assumes "ledger_wf s" "is_money m" "0 < m" "m \<le> bal s da"
  shows "in_range da (update_where (\<lambda>a. acc_id a = da)
           (\<lambda>a. a\<lparr>balance := balance a - m, version := version a + 1\<rparr>) (accounts s))"
proof -
  have lt: "bal s da < 10 ^ 14" using bal_is_money [OF assms(1), of da] by (simp add: is_money_def abs_less_iff)
  have "0 \<le> balance a - m \<and> balance a - m < 10 ^ 14" if a: "a \<in> set (accounts s)" "acc_id a = da" for a
  proof -
    have "balance a = bal s da" using bal_row [OF assms(1) a(1)] a(2) by simp
    then show ?thesis using assms(3,4) lt by (intro conjI) linarith+
  qed
  then show ?thesis
    by (intro in_range_map) auto
qed

lemma in_range_credit:
  assumes "ledger_wf s" "m \<le> bal s da" "0 < m" "bal s ca + m < 10 ^ 14"
  shows "in_range ca (move da ca m (accounts s))"
proof -
  have "0 \<le> balance (moved da ca m a) \<and> balance (moved da ca m a) < 10 ^ 14"
    if a: "a \<in> set (accounts s)" "acc_id a = ca" for a
  proof -
    have "balance a = bal s ca" using bal_row [OF assms(1) a(1)] a(2) by simp
    with assms(2-4) a(2) bal_nonneg [OF assms(1), of ca] show ?thesis
      by (cases "da = ca") (simp_all add: moved_def)
  qed
  then show ?thesis by (auto simp: in_range_def move_eq_map)
qed

lemma post_transfer_succeeds:
  assumes wf: "ledger_wf s" and fresh: "fresh_ids ids s"
    and key: "key = None \<or> key \<notin> idempotency_key ` set (transfers s)"
    and acc: "da \<in> acc_id ` set (accounts s)" "ca \<in> acc_id ` set (accounts s)"
    and m: "numeric_18_4 amt = Inr m" "0 < m" "m \<le> bal s da" "bal s ca + m < 10 ^ 14"
  shows "\<exists>t s'. post_transfer ids now kind key actor da ca amt md s = Inr (t, s')"
proof -
  obtain ti di ci where ids: "ids = (ti, di, ci)" by (cases ids)
  have "is_money m" using m(1) by (rule numeric_18_4_is_money)
  note rng = in_range_debit [OF wf this m(2,3)] in_range_credit [OF wf m(3,2,4), unfolded move_def]
  show ?thesis
    using fresh key acc m(1,2) rng
    unfolding ids post_transfer_def fresh_ids_def
    by (auto simp: result_simps Let_def numeric_18_4_minus image_update_where_same)
qed

subsection \<open>Transfers\<close>

lemma posts_frame: "same_books s u \<Longrightarrow> posts t d c u s' \<longleftrightarrow> posts t d c s s'"
  by (simp add: posts_def same_books_def)

lemma fresh_ids_lock [simp]: "fresh_ids ids (lock_accounts us (begin_tx s)) = fresh_ids ids s"
  by (simp add: fresh_ids_def)

lemma ledger_wf_lock [simp]: "ledger_wf (lock_accounts us s) = ledger_wf s" "ledger_wf (begin_tx s) = ledger_wf s"
  by (simp_all add: ledger_wf_def)

text \<open>The effect on the books of a successful posting, in one existential.\<close>

definition posted ::
  "string \<Rightarrow> string option \<Rightarrow> uuid \<Rightarrow> uuid \<Rightarrow> rat \<Rightarrow> transfer \<Rightarrow> 'a ledger_scheme \<Rightarrow> 'b ledger_scheme \<Rightarrow> bool" where
  "posted kind key da ca m t s s' \<longleftrightarrow> (\<exists>d c. posts t d c s s'
     \<and> en_account d = da \<and> en_account c = ca \<and> amount d = m \<and> tr_kind t = kind \<and> idempotency_key t = key)"

lemma posted_frame: "same_books s u \<Longrightarrow> posted kind key da ca m t u s' \<longleftrightarrow> posted kind key da ca m t s s'"
  by (simp add: posted_def posts_frame)

lemma post_transfer_posted:
  "post_transfer ids now kind key actor da ca amt md s = Inr (t, s') \<Longrightarrow>
    \<exists>m. numeric_18_4 amt = Inr m \<and> posted kind key da ca m t s s'"
  by (cases ids) (fastforce dest!: post_transfer_Inr simp: posted_def)

lemma posted_step: "posted kind key da ca m t s s' \<Longrightarrow> ledger_step s s'"
  by (auto simp: posted_def intro: ledger_step.posting)

lemma posted_bal:
  "posted kind key da ca m t s s' \<Longrightarrow> ledger_wf s \<Longrightarrow>
     bal s' u = bal s u - (if u = da then m else 0) + (if u = ca then m else 0)"
  by (auto simp: posted_def bal_posts)

lemma posted_transfers: "posted kind key da ca m t s s' \<Longrightarrow> transfers s' = transfers s @ [t]"
  "posted kind key da ca m t s s' \<Longrightarrow> map acct_key (accounts s') = map acct_key (accounts s)"
  "posted kind key da ca m t s s' \<Longrightarrow> tr_kind t = kind \<and> idempotency_key t = key"
  by (auto simp: posted_def posts_keys) (auto simp: posts_def)

lemma posted_wf: "posted kind key da ca m t s s' \<Longrightarrow> ledger_wf s \<Longrightarrow> ledger_wf s'"
  by (auto simp: posted_def posts_wf)

text \<open>
  C25: \<open>WalletService.transfer\<close> either moves exactly the amount from the debit to the credit account
  and leaves every other balance alone, or, when the locked balance does not cover the amount,
  raises \<open>InsufficientBalance\<close> (and the transaction rolls back).
\<close>

theorem transfer_funds_moves_or_rejects:
  assumes "ledger_wf s" "fresh_ids ids s" "key = None \<or> key \<notin> idempotency_key ` set (transfers s)"
    and "da \<in> acc_id ` set (accounts s)" "ca \<in> acc_id ` set (accounts s)"
    and "is_money amt" "0 < amt" "bal s ca + amt < 10 ^ 14"
  shows "(if amt \<le> bal s da
     then \<exists>t s'. transfer_funds ids now kind da ca amt actor key reason s = Inr (t, s')
        \<and> (\<forall>u. bal s' u = bal s u - (if u = da then amt else 0) + (if u = ca then amt else 0))
        \<and> transfers s' = transfers s @ [t] \<and> ledger_wf s'
     else transfer_funds ids now kind da ca amt actor key reason s = Inl InsufficientBalance)"
proof -
  let ?s = "lock_accounts [da, ca] (begin_tx s)"
  have b: "balance_of da ?s = Inr (bal s da)" using balance_of_exists [of ?s da] assms by simp
  have num: "numeric_18_4 amt = Inr amt" using assms(6) by (rule numeric_18_4_id)
  show ?thesis
  proof (cases "amt \<le> bal s da")
    case True
    define md where "md = map_option (\<lambda>r. [(''reason'', JStr r)]) reason"
    have "\<exists>t s'. post_transfer ids now kind key actor da ca amt md ?s = Inr (t, s')"
      using assms True num by (intro post_transfer_succeeds) simp_all
    then obtain t s' where post: "post_transfer ids now kind key actor da ca amt md ?s = Inr (t, s')" by blast
    then have p: "posted kind key da ca amt t s s'"
      using num by (auto dest!: post_transfer_posted simp: posted_frame [OF same_books_locks(1)])
    have "transfer_funds ids now kind da ca amt actor key reason s = Inr (t, s')"
      using b post True assms(7) by (simp add: transfer_funds_def Let_def md_def)
    with p True posted_bal [OF p assms(1)] posted_transfers [OF p] posted_wf [OF p assms(1)]
    show ?thesis by auto
  qed (use b assms(7) in \<open>simp add: transfer_funds_def Let_def\<close>)
qed

lemma transfer_funds_moves_or_rejects_witness:
  "(\<exists>t s'. transfer_funds (0x20, 0x21, 0x22) 0 ''fee'' 1 HOUSE_REVENUE_ACCOUNT_ID 30 None None None demo_ledger = Inr (t, s')
      \<and> bal s' 1 = 70 \<and> bal s' HOUSE_REVENUE_ACCOUNT_ID = 30)
   \<and> transfer_funds (0x20, 0x21, 0x22) 0 ''fee'' 1 HOUSE_REVENUE_ACCOUNT_ID 130 None None None demo_ledger = Inl InsufficientBalance"
proof -
  have f: "fresh_ids (0x20, 0x21, 0x22) demo_ledger" "1 \<in> acc_id ` set (accounts demo_ledger)"
    "HOUSE_REVENUE_ACCOUNT_ID \<in> acc_id ` set (accounts demo_ledger)" by code_simp+
  have m: "is_money 30" "is_money 130" by code_simp+
  have b: "bal demo_ledger 1 = 100" "bal demo_ledger HOUSE_REVENUE_ACCOUNT_ID = 0"
    "HOUSE_REVENUE_ACCOUNT_ID \<noteq> 1" by code_simp+
  note T = transfer_funds_moves_or_rejects [OF demo_ledger_wf f(1) disjI1 f(2,3)]
  show ?thesis
    using T [OF refl m(1), where now = 0 and kind = "''fee''" and actor = None and reason = None]
      T [OF refl m(2), where now = 0 and kind = "''fee''" and actor = None and reason = None] b
    by auto
qed

subsection \<open>House-funded credits and their idempotency\<close>

lemma fund_from_house_Inr:
  assumes "fund_from_house ids now kind key user_id amt reason s = Inr (t, s')"
  shows "\<exists>w m. resolve_user_wallet_id user_id s = Inr w \<and> numeric_18_4 amt = Inr m
     \<and> posted kind (Some key) HOUSE_PROMO_ACCOUNT_ID w m t s s'"
  using assms by (fastforce simp: fund_from_house_def Let_def resolve_user_wallet_id_def
      posted_frame [OF same_books_locks(1)] dest!: post_transfer_posted)

lemma key_row_unique:
  assumes "ledger_wf s" "t \<in> set (transfers s)" "idempotency_key t = Some k"
  shows "filter (\<lambda>t. idempotency_key t = Some k) (transfers s) = [t]"
proof -
  have "distinct (filter (\<lambda>k. k \<noteq> None) (map idempotency_key ts)) \<Longrightarrow> t \<in> set ts \<Longrightarrow>
    filter (\<lambda>t. idempotency_key t = Some k) ts = [t]" for ts
  proof (induction ts)
    case (Cons x xs)
    show ?case
    proof (cases "idempotency_key x = Some k")
      case True
      with Cons.prems(1) have "\<forall>y \<in> set xs. idempotency_key y \<noteq> Some k" by (auto simp: image_iff)
      with True Cons.prems(2) assms(3) show ?thesis by (auto simp: filter_empty_conv)
    next
      case False
      with Cons assms(3) show ?thesis by (auto split: if_splits)
    qed
  qed simp
  with assms(1,2) show ?thesis by (simp add: ledger_wf_def)
qed

text \<open>A key that is taken makes the funding collide, whatever the other arguments.\<close>

lemma resolve_frame: "accounts s' = accounts s \<Longrightarrow> resolve_user_wallet_id u s' = resolve_user_wallet_id u s"
  by (simp add: resolve_user_wallet_id_def)

lemma post_transfer_replay:
  "Some key \<in> idempotency_key ` set (transfers s) \<Longrightarrow>
    post_transfer ids now kind (Some key) actor da ca amt md s = Inl (IntegrityError UniqueViolation)"
  by (cases ids) (simp add: post_transfer_def insert_transfer_def Let_def)

lemma fund_from_house_replay:
  assumes "resolve_user_wallet_id u s = Inr w" "t \<in> set (transfers s)" "idempotency_key t = Some key"
  shows "fund_from_house ids now kind key u amt reason s = Inl (IntegrityError UniqueViolation)"
proof -
  have "Some key \<in> idempotency_key ` set (transfers s)" using assms(2,3) by (metis imageI)
  moreover have "resolve_user_wallet_id u (begin_tx s) = Inr w"
    using assms(1) by (simp add: resolve_frame [of "begin_tx s" s])
  ultimately show ?thesis
    by (simp add: fund_from_house_def post_transfer_replay Let_def)
qed

lemma or_existing_replay:
  "ledger_wf s \<Longrightarrow> t \<in> set (transfers s) \<Longrightarrow> idempotency_key t = Some key \<Longrightarrow>
    or_existing key s (Inl (IntegrityError UniqueViolation)) = Inr (t, s)"
  by (simp add: or_existing_def key_row_unique)

lemma steps_keep_transfers: "ledger_steps s s' \<Longrightarrow> ledger_wf s \<Longrightarrow> t \<in> set (transfers s) \<Longrightarrow> t \<in> set (transfers s')"
  using steps_append_only [of s s'] unfolding extends_books_def by (metis in_set_takeD)

lemma or_existing_new: "or_existing key s (fund_from_house ids now kind key u amt r s) = Inr (t, s') \<Longrightarrow>
    t \<in> set (transfers s') \<and> idempotency_key t = Some key"
  using posted_transfers(1,3) by (fastforce dest!: or_existing_Inr fund_from_house_Inr)

text \<open>
  A recharge is idempotent.  Once a recharge with a key has gone through, any later recharge with
  that key (after any further activity, with any amount) returns the first transfer and changes
  nothing.
\<close>

theorem recharge_replay_is_noop:
  assumes "recharge ids now u amt reason key PROVIDER_HOUSE s = Inr (t, s1)" "ledger_wf s"
    and "ledger_steps s1 s2" "resolve_user_wallet_id u' s2 = Inr w" "0 < amt'"
  shows "recharge ids' now' u' amt' reason' key PROVIDER_HOUSE s2 = Inr (t, s2)"
proof -
  have "t \<in> set (transfers s1)" "idempotency_key t = Some key"
    using assms(1) by (auto simp: recharge_def dest!: or_existing_new split: if_splits)
  moreover have "ledger_wf s1" using recharge_steps [OF assms(1)] assms(2) by (rule steps_wf)
  ultimately have "t \<in> set (transfers s2)" "idempotency_key t = Some key" "ledger_wf s2"
    using assms(3) by (auto intro: steps_keep_transfers steps_wf)
  then show ?thesis
    using fund_from_house_replay [OF assms(4)] or_existing_replay assms(5) by (simp add: recharge_def)
qed

lemma recharge_replay_is_noop_witness:
  "okE (\<lambda>(t, s1). recharge (0x30, 0x31, 0x32) 9 5 70 ''y'' ''k'' PROVIDER_HOUSE s1 = Inr (t, s1))
     (recharge (0x20, 0x21, 0x22) 0 5 50 ''x'' ''k'' PROVIDER_HOUSE demo_ledger)"
proof -
  have "okE (\<lambda>(t, s1). resolve_user_wallet_id 5 s1 = Inr 1)
     (recharge (0x20, 0x21, 0x22) 0 5 50 ''x'' ''k'' PROVIDER_HOUSE demo_ledger)" by code_simp
  then obtain t s1 where r: "recharge (0x20, 0x21, 0x22) 0 5 50 ''x'' ''k'' PROVIDER_HOUSE demo_ledger = Inr (t, s1)"
    "resolve_user_wallet_id 5 s1 = Inr 1" by (auto simp: okE_iff)
  show ?thesis
    using recharge_replay_is_noop [OF r(1) demo_ledger_wf rtranclp.rtrancl_refl r(2), of 70]
    by (simp add: okE_iff r(1))
qed

text \<open>
  The sign-up bonus is granted at most once per user: after a successful grant any later grant
  for the user returns the same transfer and leaves every balance and table as it is.
\<close>

theorem signup_bonus_granted_once:
  assumes "grant_signup_bonus ids now u amt s = Inr (t, s1)" "ledger_wf s"
    and "ledger_steps s1 s2" "resolve_user_wallet_id u s2 = Inr w" "0 < amt'"
  shows "grant_signup_bonus ids' now' u amt' s2 = Inr (t, s2)"
proof -
  have "t \<in> set (transfers s1)" "idempotency_key t = Some (signup_bonus_key u)"
    using assms(1) by (auto simp: grant_signup_bonus_def dest!: or_existing_new split: if_splits)
  moreover have "ledger_wf s1" using grant_signup_bonus_steps [OF assms(1)] assms(2) by (rule steps_wf)
  ultimately have "t \<in> set (transfers s2)" "idempotency_key t = Some (signup_bonus_key u)" "ledger_wf s2"
    using assms(3) by (auto intro: steps_keep_transfers steps_wf)
  then show ?thesis
    using fund_from_house_replay [OF assms(4)] or_existing_replay assms(5) by (simp add: grant_signup_bonus_def)
qed

lemma signup_bonus_granted_once_witness:
  "okE (\<lambda>(t, s1). grant_signup_bonus (0x30, 0x31, 0x32) 9 5 70 s1 = Inr (t, s1))
     (grant_signup_bonus (0x20, 0x21, 0x22) 0 5 50 demo_ledger)"
proof -
  have "okE (\<lambda>(t, s1). resolve_user_wallet_id 5 s1 = Inr 1)
     (grant_signup_bonus (0x20, 0x21, 0x22) 0 5 50 demo_ledger)" by code_simp
  then obtain t s1 where r: "grant_signup_bonus (0x20, 0x21, 0x22) 0 5 50 demo_ledger = Inr (t, s1)"
    "resolve_user_wallet_id 5 s1 = Inr 1" by (auto simp: okE_iff)
  show ?thesis
    using signup_bonus_granted_once [OF r(1) demo_ledger_wf rtranclp.rtrancl_refl r(2), of 70]
    by (simp add: okE_iff r(1))
qed

text \<open>
  A recharge that is not a replay moves exactly the quantised amount from the house promo account
  to the wallet and records one transfer under the caller's key; nothing else changes.
\<close>

theorem recharge_credits_wallet:
  assumes "recharge ids now u amt reason key prov s = Inr (t, s')" "ledger_wf s"
    and "Some key \<notin> idempotency_key ` set (transfers s)"
  shows "\<exists>w m. resolve_user_wallet_id u s = Inr w \<and> numeric_18_4 amt = Inr m
     \<and> tr_kind t = TRANSFER_RECHARGE \<and> idempotency_key t = Some key \<and> transfers s' = transfers s @ [t]
     \<and> (\<forall>a. bal s' a = bal s a - (if a = HOUSE_PROMO_ACCOUNT_ID then m else 0) + (if a = w then m else 0))"
proof -
  have "t \<in> set (transfers s) \<Longrightarrow> idempotency_key t \<noteq> Some key"
    using assms(3) by (metis imageI)
  then have "fund_from_house ids now TRANSFER_RECHARGE key u amt reason s = Inr (t, s')"
    using assms(1) by (auto simp: recharge_def dest!: or_existing_Inr split: if_splits)
  then obtain w m where w: "resolve_user_wallet_id u s = Inr w" "numeric_18_4 amt = Inr m"
    and p: "posted TRANSFER_RECHARGE (Some key) HOUSE_PROMO_ACCOUNT_ID w m t s s'"
    using fund_from_house_Inr by blast
  show ?thesis
    using w posted_transfers [OF p] posted_bal [OF p assms(2)] by blast
qed

lemma recharge_credits_wallet_witness:
  "okE (\<lambda>(t, s1). bal s1 1 = 150) (recharge (0x20, 0x21, 0x22) 0 5 50 ''x'' ''k'' PROVIDER_HOUSE demo_ledger)"
proof -
  have "okE (\<lambda>_. True) (recharge (0x20, 0x21, 0x22) 0 5 50 ''x'' ''k'' PROVIDER_HOUSE demo_ledger)"
    "Some ''k'' \<notin> idempotency_key ` set (transfers demo_ledger)" by code_simp+
  then obtain t s1 where r: "recharge (0x20, 0x21, 0x22) 0 5 50 ''x'' ''k'' PROVIDER_HOUSE demo_ledger = Inr (t, s1)"
    by (auto simp: okE_iff)
  have "resolve_user_wallet_id 5 demo_ledger = Inr 1" "numeric_18_4 50 = Inr 50"
    "bal demo_ledger 1 = 100" "HOUSE_PROMO_ACCOUNT_ID \<noteq> 1" by code_simp+
  then show ?thesis
    using recharge_credits_wallet [OF r demo_ledger_wf \<open>Some ''k'' \<notin> _\<close>] by (auto simp: okE_iff r)
qed

subsection \<open>The history a user reads\<close>

lemma mset_wallet_history: "mset (wallet_history w s) =
    mset (concat (map (\<lambda>e. map (\<lambda>t. (t, e)) (filter (\<lambda>t. tr_id t = en_transfer e) (transfers s)))
        (filter (\<lambda>e. en_account e = w) (entries s))))"
  by (simp add: wallet_history_def)

lemma history_joins:
  assumes "ledger_wf s"
  shows "mset (map snd (wallet_history w s)) = mset (filter (\<lambda>e. en_account e = w) (entries s))"
proof -
  have one: "\<exists>t. filter (\<lambda>t. tr_id t = en_transfer e) (transfers s) = [t]" if "e \<in> set (entries s)" for e
  proof -
    from that assms obtain t where "t \<in> set (transfers s)" "en_transfer e = tr_id t"
      by (auto simp: ledger_wf_def)
    with assms show ?thesis by (auto simp: ledger_wf_def filter_key_distinct)
  qed
  have "map snd (concat (map (\<lambda>e. map (\<lambda>t. (t, e)) (filter (\<lambda>t. tr_id t = en_transfer e) (transfers s))) es)) = es"
    if "set es \<subseteq> set (entries s)" for es
    using that by (induction es) (use one in fastforce)+
  then have "map snd (concat (map (\<lambda>e. map (\<lambda>t. (t, e)) (filter (\<lambda>t. tr_id t = en_transfer e) (transfers s)))
      (filter (\<lambda>e. en_account e = w) (entries s)))) = filter (\<lambda>e. en_account e = w) (entries s)" by simp
  then show ?thesis by (simp only: mset_map [of snd "wallet_history w s"] mset_wallet_history flip: mset_map)
qed

lemma sorted_wallet_history: "sorted (rev (map (\<lambda>x. en_created_at (snd x)) (wallet_history w s)))"
proof -
  have "sorted (map (\<lambda>x. en_created_at (snd x)) (sort_key (\<lambda>(t, e). en_created_at e) xs))"
    for xs :: "(transfer \<times> entry) list"
    using sorted_sort_key [of "\<lambda>(t, e). en_created_at e" xs] by (simp add: case_prod_beta')
  then show ?thesis unfolding wallet_history_def rev_map by simp
qed

lemma length_wallet_history:
  "ledger_wf s \<Longrightarrow> length (wallet_history w s) = length (filter (\<lambda>e. en_account e = w) (entries s))"
  using history_joins [of s w] by (metis length_map size_mset)

lemma concat_pages: "concat (map (\<lambda>p. take k (drop (p * k) xs)) [0..<n]) = take (n * k) xs"
proof (induction n)
  case (Suc n)
  then have "concat (map (\<lambda>p. take k (drop (p * k) xs)) [0..<Suc n]) = take (n * k + k) xs"
    by (simp add: take_add)
  then show ?case by (simp only: mult_Suc add.commute)
qed simp

text \<open>
  C31: paging through the transaction history returns every entry of the caller's wallet exactly
  once, newest first: the first \<open>n\<close> pages concatenated are the whole history once they hold
  \<open>total\<close> rows, and its rows are the wallet's entries.
\<close>

theorem transactions_paged:
  assumes "ledger_wf s" "resolve_user_wallet_id u s = Inr w"
  shows "get_transactions u (Suc p) k s =
           Inr (take k (drop (p * k) (wallet_history w s)), length (wallet_history w s))
     \<and> (length (wallet_history w s) \<le> n * k \<longrightarrow>
           concat (map (\<lambda>p. take k (drop (p * k) (wallet_history w s))) [0..<n]) = wallet_history w s)
     \<and> mset (map snd (wallet_history w s)) = mset (filter (\<lambda>e. en_account e = w) (entries s))
     \<and> sorted (rev (map (\<lambda>x. en_created_at (snd x)) (wallet_history w s)))"
  using assms history_joins [OF assms(1)] sorted_wallet_history
  by (simp add: get_transactions_def length_wallet_history concat_pages)

lemma transactions_paged_witness:
  "get_transactions 5 1 10 demo_ledger = Inr (take 10 (wallet_history 1 demo_ledger), 1)"
proof -
  have "resolve_user_wallet_id 5 demo_ledger = Inr 1" "length (wallet_history 1 demo_ledger) = 1"
    by code_simp+
  then show ?thesis
    using transactions_paged [OF demo_ledger_wf, of 5 1 0 10 0] by simp
qed

text \<open>
  C26: the balance a user is shown is the signed sum of the entries of the wallet: whatever history of
  operations leads from consistent books to \<open>s'\<close>, \<open>get_balance\<close> returns \<open>SUM(credit) - SUM(debit)\<close>.
\<close>

theorem balance_is_signed_history:
  assumes "books_ok s" "ledger_steps s s'" "resolve_user_wallet_id u s' = Inr w"
    and "w \<noteq> HOUSE_PROMO_ACCOUNT_ID"
  shows "get_balance u s' = Inr (ledger_sum w (entries s'))"
proof -
  have ok: "ledger_wf s'" "reconciled_except {HOUSE_PROMO_ACCOUNT_ID} s'"
    using steps_books_ok [OF assms(2,1)] by (simp_all add: books_ok_def)
  obtain a where a: "a \<in> set (accounts s')" "acc_id a = w"
    using assms(3) by (auto simp: resolve_user_wallet_id_def dest!: scalar_one_filter_mem)
  then have "balance_of w s' = Inr (balance a)"
    using balance_of_exists [of s' w] bal_row [of s' a] ok(1) by (metis imageI)
  moreover have "drift (entries s') a = 0" using ok(2) a assms(4) by (auto simp: reconciled_except_def)
  ultimately show ?thesis using assms(3) a(2) by (simp add: get_balance_def drift_def)
qed

lemma balance_is_signed_history_witness: "get_balance 5 demo_ledger = Inr (ledger_sum 1 (entries demo_ledger))"
proof -
  have "reconciled_except {HOUSE_PROMO_ACCOUNT_ID} demo_ledger" by code_simp
  moreover have "double_entry demo_ledger"
    by (simp add: double_entry_def demo_ledger_def)
  ultimately have "books_ok demo_ledger" using demo_ledger_wf by (simp add: books_ok_def)
  moreover have "resolve_user_wallet_id 5 demo_ledger = Inr 1" "1 \<noteq> HOUSE_PROMO_ACCOUNT_ID" by code_simp+
  ultimately show ?thesis by (intro balance_is_signed_history) auto
qed

subsection \<open>Reconciliation (\<open>wallet/reconcile.py\<close>)\<close>

definition RECONCILE_EXCLUDED_ACCOUNT_IDS :: "uuid set" where
  "RECONCILE_EXCLUDED_ACCOUNT_IDS = {HOUSE_PROMO_ACCOUNT_ID}"

text \<open>
  The aggregate query (one row per account, \<open>COALESCE\<close> zero where it has no entries) and the loop
  over its rows; the summary is \<open>(accounts_checked, drift_count)\<close>.
\<close>

definition reconcile_rows :: "'a ledger_scheme \<Rightarrow> (uuid \<times> rat \<times> rat) list" where
  "reconcile_rows s = map (\<lambda>a. (acc_id a, balance a, ledger_sum (acc_id a) (entries s)))
     (filter (\<lambda>a. acc_id a \<notin> RECONCILE_EXCLUDED_ACCOUNT_IDS) (accounts s))"

fun collect_drifts :: "(uuid \<times> rat \<times> rat) list \<Rightarrow> (uuid \<times> rat \<times> rat \<times> rat) list" where
  "collect_drifts [] = []"
| "collect_drifts ((u, b, l) # rows) =
     (let d = dec_sub b l in if d \<noteq> 0 then (u, b, l, d) # collect_drifts rows else collect_drifts rows)"

definition reconcile_with_session :: "'a ledger_scheme \<Rightarrow> nat \<times> nat" where
  "reconcile_with_session s = (let rows = reconcile_rows s; drifts = collect_drifts rows in
     if drifts = [] then (length rows, 0) else (length rows, length drifts))"

lemma dec_round_eq_0 [simp]: "dec_round q = 0 \<longleftrightarrow> q = 0"
proof
  assume "dec_round q = 0"
  then have "\<bar>q\<bar> \<le> \<bar>q\<bar> * 5 / 10 ^ 28" using dec_round_error [of q] by simp
  then have "\<bar>q\<bar> * (1 - 5 / 10 ^ 28) \<le> 0" by (simp add: right_diff_distrib)
  then show "q = 0" by (simp add: mult_le_0_iff)
qed simp

lemma length_collect_drifts:
  "length (collect_drifts (map (\<lambda>a. (acc_id a, balance a, ledger_sum (acc_id a) es)) rows)) =
     length (filter (\<lambda>a. drift es a \<noteq> 0) rows)"
  by (induction rows) (simp_all add: dec_sub_def drift_def Let_def)

text \<open>
  C32: the nightly reconciliation counts exactly the accounts, other than the seeded house promo
  account, whose balance differs from the signed sum of their entries; the context rounding of
  \<open>balance - ledger_sum\<close> neither hides nor invents a drift.
\<close>

theorem reconcile_counts_drifts:
  "reconcile_with_session s =
     (length (filter (\<lambda>a. acc_id a \<noteq> HOUSE_PROMO_ACCOUNT_ID) (accounts s)),
      length (filter (\<lambda>a. acc_id a \<noteq> HOUSE_PROMO_ACCOUNT_ID \<and> drift (entries s) a \<noteq> 0) (accounts s)))"
proof -
  have "length (collect_drifts (reconcile_rows s)) =
      length (filter (\<lambda>a. acc_id a \<noteq> HOUSE_PROMO_ACCOUNT_ID \<and> drift (entries s) a \<noteq> 0) (accounts s))"
    unfolding reconcile_rows_def length_collect_drifts
    by (simp add: RECONCILE_EXCLUDED_ACCOUNT_IDS_def conj_commute)
  then show ?thesis
    by (auto simp: reconcile_with_session_def Let_def reconcile_rows_def RECONCILE_EXCLUDED_ACCOUNT_IDS_def)
qed

end
