(* ===== verification/Payout.thy ===== *)
theory Payout
  imports Money
begin

text \<open>
  The pure money rules: payouts, profit and loss and cash-out values of
  \<open>settlement/payout.py\<close>, the settlement plan of \<open>settlement/plan.py\<close>, and the portfolio read
  model of \<open>bets/portfolio.py\<close>.  The lemmas show that the two roundings the code performs (28
  digits, then 4 decimals) amount to one half-up rounding of the exact value for every stake and
  price the ledger can hold.
\<close>

subsection \<open>\<open>settlement/payout.py\<close>\<close>

definition compute_payout :: "rat \<Rightarrow> rat \<Rightarrow> rat result" where
  "compute_payout stake price =
     (if stake \<le> 0 then Inl (ValueError ''stake must be > 0'')
      else if \<not> (0 < price \<and> price \<le> 1) then Inl (ValueError ''price must be in (0, 1]'')
      else quantize_money (dec_div stake price))"

definition profit_or_loss :: "rat \<Rightarrow> rat \<Rightarrow> rat result" where
  "profit_or_loss stake payout = quantize_money (dec_sub payout stake)"

definition cashout_value :: "rat \<Rightarrow> rat \<Rightarrow> rat \<Rightarrow> rat result" where
  "cashout_value stake entry_price current_price =
     (if stake \<le> 0 then Inl (ValueError ''stake must be > 0'')
      else if \<not> (0 < entry_price \<and> entry_price \<le> 1) then Inl (ValueError ''entry_price must be in (0, 1]'')
      else if \<not> (0 \<le> current_price \<and> current_price \<le> 1)
        then Inl (ValueError ''current_price must be in [0, 1]'')
      else quantize_money (dec_div (dec_mul stake current_price) entry_price))"

subsection \<open>Exactness\<close>

text \<open>Half-up rounding to the ledger's four decimals, in one step.\<close>

definition to_cents :: "rat \<Rightarrow> rat" where
  "to_cents v = of_int (round_half_up (v * 10000)) / 10000"

text \<open>A multiple of the money quantum, below \<open>10^21\<close>: every sum or payout the code forms.\<close>

definition is_quantum :: "rat \<Rightarrow> bool" where
  "is_quantum v \<longleftrightarrow> of_int \<lfloor>v * 10000\<rfloor> = v * 10000 \<and> \<bar>v\<bar> < 10 ^ 21"

lemma is_quantum_iff: "is_quantum v \<longleftrightarrow> (\<exists>n. v * 10000 = of_int n) \<and> \<bar>v\<bar> < 10 ^ 21"
  by (metis floor_of_int is_quantum_def)

lemma is_quantum_0 [simp]: "is_quantum 0"
  by (simp add: is_quantum_def)

lemma is_money_quantum: "is_money v \<Longrightarrow> is_quantum v"
  by (auto simp: is_money_iff is_quantum_iff)

lemma to_cents_quantum: "is_quantum v \<Longrightarrow> to_cents v = v"
  unfolding is_quantum_iff to_cents_def by (metis nonzero_mult_div_cancel_right round_half_up_of_int zero_neq_numeral)

lemma to_cents_mono: "u \<le> v \<Longrightarrow> to_cents u \<le> to_cents v"
  unfolding to_cents_def by (intro divide_right_mono) (simp_all add: round_half_up_mono)

lemma to_cents_0 [simp]: "to_cents 0 = 0"
  by (simp add: to_cents_def)

lemma to_cents_error: "\<bar>to_cents v - v\<bar> \<le> 1 / 20000"
proof -
  have "to_cents v - v = (of_int (round_half_up (v * 10000)) - v * 10000) / 10000"
    by (simp add: to_cents_def diff_divide_distrib)
  then have "\<bar>to_cents v - v\<bar> = \<bar>of_int (round_half_up (v * 10000)) - v * 10000\<bar> / 10000"
    by (simp only: abs_divide abs_numeral)
  with round_half_up_error [of "v * 10000"] show ?thesis by simp
qed

lemma is_quantum_to_cents: "0 \<le> v \<Longrightarrow> v \<le> 10 ^ 20 \<Longrightarrow> is_quantum (to_cents v)"
proof -
  assume "0 \<le> v" "v \<le> 10 ^ 20"
  moreover have "\<bar>to_cents v - v\<bar> \<le> 1" using to_cents_error [of v] by (rule order_trans) simp
  ultimately have "\<bar>to_cents v\<bar> < 10 ^ 21" by (simp add: abs_le_iff abs_less_iff)
  then show ?thesis unfolding is_quantum_iff by (auto simp: to_cents_def)
qed

lemma quantize_money_quantum: "is_quantum v \<Longrightarrow> quantize_money v = Inr v"
proof -
  assume "is_quantum v"
  then obtain n where n: "v * 10000 = of_int n" and b: "\<bar>v\<bar> < 10 ^ 21"
    unfolding is_quantum_iff by blast
  have "(of_int \<bar>n\<bar> :: rat) = \<bar>v\<bar> * 10000" using n by (simp flip: abs_mult add: abs_mult_pos)
  then have "(of_int \<bar>n\<bar> :: rat) < of_int (10 ^ 28)" using b by simp
  then have "\<bar>n\<bar> < 10 ^ 28" by (simp only: of_int_less_iff)
  moreover have "v = of_int n / 10000" using n by simp
  ultimately show ?thesis unfolding quantize_money_def n round_half_up_of_int Let_def by simp
qed

lemma dec_round_quantum: "v * 10000 = of_int n \<Longrightarrow> \<bar>v\<bar> < 10 ^ 22 \<Longrightarrow> dec_round v = v"
proof -
  assume n: "v * 10000 = of_int n" and b: "\<bar>v\<bar> < 10 ^ 22"
  have "(of_int \<bar>n\<bar> :: rat) = \<bar>v\<bar> * 10000" using n by (simp flip: abs_mult add: abs_mult_pos)
  then have "(of_int \<bar>n\<bar> :: rat) < of_int (10 ^ 28)" using b by simp
  then have "\<bar>n\<bar> < 10 ^ 28" by (simp only: of_int_less_iff)
  with n show ?thesis using dec_round_exact [of v 4 n] by simp
qed

lemma profit_or_loss_exact:
  assumes "is_quantum payout" "is_quantum stake" "\<bar>payout - stake\<bar> < 10 ^ 21"
  shows "profit_or_loss stake payout = Inr (payout - stake)"
proof -
  have q: "is_quantum (payout - stake)"
    using assms unfolding is_quantum_iff by (auto simp: left_diff_distrib simp flip: of_int_diff)
  then have "dec_sub payout stake = payout - stake"
    unfolding dec_sub_def is_quantum_iff using dec_round_quantum by fastforce
  with q show ?thesis by (simp add: profit_or_loss_def quantize_money_quantum)
qed

lemma dec_add_exact:
  assumes "is_quantum a" "is_quantum b" "\<bar>a + b\<bar> < 10 ^ 21"
  shows "dec_add a b = a + b" "is_quantum (a + b)"
proof -
  show q: "is_quantum (a + b)"
    using assms unfolding is_quantum_iff by (auto simp: distrib_right simp flip: of_int_add)
  then show "dec_add a b = a + b"
    unfolding dec_add_def is_quantum_iff using dec_round_quantum by fastforce
qed

text \<open>The stakes and prices the ledger's columns hold.\<close>

definition valid_position :: "rat \<Rightarrow> rat \<Rightarrow> bool" where
  "valid_position stake price \<longleftrightarrow> is_money stake \<and> 0 < stake \<and> is_odds price \<and> 0 < price \<and> price \<le> 1"

lemma valid_position_ints:
  assumes "valid_position stake price"
  obtains S P :: int where "stake = of_int S / 10000" "0 < S" "S < 10 ^ 18"
    "price = of_int P / 1000000" "0 < P" "P \<le> 1000000"
proof -
  obtain S P where S: "stake * 10000 = of_int S" and P: "price * 1000000 = of_int P"
    and b: "\<bar>stake\<bar> < 10 ^ 14" "0 < stake" "0 < price" "price \<le> 1"
    using assms unfolding valid_position_def is_money_iff is_odds_iff by blast
  have "(0 :: rat) < of_int S" "(of_int S :: rat) < of_int (10 ^ 18)" "(0 :: rat) < of_int P"
    "(of_int P :: rat) \<le> of_int 1000000"
    using b by (simp_all add: S [symmetric] P [symmetric])
  then have "0 < S" "S < 10 ^ 18" "0 < P" "P \<le> 1000000"
    by (simp_all only: of_int_0_less_iff of_int_less_iff of_int_le_iff)
  moreover have "stake = of_int S / 10000" "price = of_int P / 1000000" using S P by simp_all
  ultimately show thesis using that by blast
qed

lemma quotient_quantised:
  fixes N P :: int
  assumes "0 \<le> N" "N \<le> 10 ^ 24" "0 < P" and v: "v = of_int N / (10000 * of_int P)"
  shows "quantize_money (dec_round v) = Inr (to_cents v)"
proof -
  have eq: "round_half_up (dec_round v * 10000) = round_half_up (v * 10000)"
    using quotient_rounding_stable [OF assms(1-3)] by (simp add: v)
  have "of_int N / (of_int P :: rat) \<le> of_int N"
    using assms by (simp add: pos_divide_le_eq mult_le_cancel_left1)
  then have "round_half_up (v * 10000) \<le> round_half_up (of_int N)"
    unfolding v by (intro round_half_up_mono) simp
  moreover have "round_half_up 0 \<le> round_half_up (v * 10000)"
    unfolding v using assms(1,3) by (intro round_half_up_mono) simp
  ultimately have "\<bar>round_half_up (v * 10000)\<bar> < 10 ^ 28"
    using assms(2) by simp
  then show ?thesis by (simp add: quantize_money_def eq to_cents_def Let_def)
qed

lemma compute_payout_quotient:
  assumes "valid_position stake price"
  shows "compute_payout stake price = Inr (to_cents (stake / price)) \<and> stake \<le> to_cents (stake / price)"
proof -
  obtain S P where sp: "stake = of_int S / 10000" "0 < S" "S < 10 ^ 18"
    "price = of_int P / 1000000" "0 < P" "P \<le> 1000000"
    using assms by (rule valid_position_ints)
  have "quantize_money (dec_round (stake / price)) = Inr (to_cents (stake / price))"
  proof (rule quotient_quantised [of "S * 1000000" P])
    show "stake / price = of_int (S * 1000000) / (10000 * of_int P)"
      using sp(5) unfolding sp(1,4) by simp
  qed (use sp in simp_all)
  moreover have "stake \<le> stake / price"
    using assms by (simp add: valid_position_def pos_le_divide_eq mult_le_cancel_left1)
  then have "to_cents stake \<le> to_cents (stake / price)" by (rule to_cents_mono)
  moreover have "to_cents stake = stake"
    using assms by (simp add: valid_position_def to_cents_quantum is_money_quantum)
  ultimately show ?thesis
    using assms by (simp add: compute_payout_def dec_div_def valid_position_def)
qed

text \<open>
  C30: the payout of a winning bet is the exact quotient \<open>stake / price\<close> rounded half-up once to the
  ledger's four decimals, and never less than the stake, for every stake and price the columns
  can hold.
\<close>

theorem compute_payout_exact:
  assumes "valid_position stake price"
  shows "compute_payout stake price = Inr (to_cents (stake / price)) \<and> stake \<le> to_cents (stake / price)"
  using assms by (rule compute_payout_quotient)

lemma compute_payout_exact_witness: "compute_payout 100 (3/10) = Inr (3333333/10000)"
proof -
  have "valid_position 100 (3/10)" "to_cents (100 / (3/10)) = 3333333/10000" by code_simp+
  then show ?thesis using compute_payout_exact [of 100 "3/10"] by simp
qed

lemma cashout_value_quotient:
  assumes "valid_position stake entry" "is_odds current" "0 \<le> current" "current \<le> 1"
  shows "cashout_value stake entry current = Inr (to_cents (stake * current / entry))
     \<and> 0 \<le> to_cents (stake * current / entry)
     \<and> to_cents (stake * current / entry) \<le> to_cents (stake / entry)
     \<and> (current = entry \<longrightarrow> cashout_value stake entry current = Inr stake)"
proof -
  obtain S P where sp: "stake = of_int S / 10000" "0 < S" "S < 10 ^ 18"
    "entry = of_int P / 1000000" "0 < P" "P \<le> 1000000"
    using assms(1) by (rule valid_position_ints)
  obtain C where C: "current * 1000000 = of_int C" using assms(2) unfolding is_odds_iff by blast
  have "(0 :: rat) \<le> of_int C" "(of_int C :: rat) \<le> of_int 1000000"
    using assms(3,4) by (simp_all flip: C)
  then have C': "0 \<le> C" "C \<le> 1000000" "current = of_int C / 1000000"
    using C by (simp_all only: of_int_0_le_iff of_int_le_iff)
  have SC: "0 \<le> S * C" "S * C \<le> 10 ^ 18 * 1000000"
    using sp(2,3) C' by (simp, intro mult_mono) simp_all
  have ex: "stake * current * 10 ^ 10 = of_int (S * C)" by (simp add: sp C')
  have "dec_mul stake current = stake * current"
    unfolding dec_mul_def using SC by (intro dec_round_exact [OF ex]) simp
  moreover have "quantize_money (dec_round (stake * current / entry)) = Inr (to_cents (stake * current / entry))"
  proof (rule quotient_quantised [of "S * C" P])
    show "stake * current / entry = of_int (S * C) / (10000 * of_int P)"
      using sp(5) unfolding sp(1,4) C'(3) by simp
  qed (use sp SC in simp_all)
  ultimately have eq: "cashout_value stake entry current = Inr (to_cents (stake * current / entry))"
    using assms by (simp add: cashout_value_def dec_div_def valid_position_def)
  have e: "0 < entry" "0 < stake" using assms(1) by (simp_all add: valid_position_def)
  have "to_cents 0 \<le> to_cents (stake * current / entry)"
    using e assms(3) by (intro to_cents_mono) simp
  moreover have "to_cents (stake * current / entry) \<le> to_cents (stake / entry)"
    using e assms(4) by (intro to_cents_mono divide_right_mono) (simp_all add: mult_le_cancel_left1)
  moreover have "to_cents stake = stake"
    using assms(1) by (simp add: valid_position_def to_cents_quantum is_money_quantum)
  ultimately show ?thesis using eq e by auto
qed

text \<open>
  C28: the cash-out value is the exact \<open>stake * current / entry\<close> rounded half-up once; it lies between
  zero and the payout of a win, and equals the stake when the price has not moved.
\<close>

theorem cashout_value_exact:
  assumes "valid_position stake entry" "is_odds current" "0 \<le> current" "current \<le> 1"
  shows "cashout_value stake entry current = Inr (to_cents (stake * current / entry))
     \<and> 0 \<le> to_cents (stake * current / entry)
     \<and> to_cents (stake * current / entry) \<le> to_cents (stake / entry)
     \<and> (current = entry \<longrightarrow> cashout_value stake entry current = Inr stake)"
  using assms by (rule cashout_value_quotient)

lemma cashout_value_exact_witness: "cashout_value 100 (3/10) (7/10) = Inr (2333333/10000)"
proof -
  have "valid_position 100 (3/10)" "is_odds (7/10)" "to_cents (100 * (7/10) / (3/10)) = 2333333/10000" by code_simp+
  then show ?thesis using cashout_value_exact [of 100 "3/10" "7/10"] by simp
qed

subsection \<open>The settlement plan (\<open>settlement/plan.py\<close>)\<close>

text \<open>Bet statuses of \<open>bets/constants.py\<close>.\<close>

abbreviation "BET_PENDING \<equiv> ''PENDING''"
abbreviation "BET_SETTLED_WON \<equiv> ''SETTLED_WON''"
abbreviation "BET_SETTLED_LOST \<equiv> ''SETTLED_LOST''"
abbreviation "BET_CLOSED \<equiv> ''CLOSED''"

record bet_to_settle =
  bts_bet_id :: uuid
  bts_outcome_id :: uuid
  bts_stake :: rat
  bts_price :: rat

record settled_bet =
  sb_bet_id :: uuid
  sb_won :: bool
  sb_payout :: rat
  sb_pnl :: rat
  sb_status :: string

record settlement_plan =
  plan_winning_outcome :: uuid
  plan_settled :: "settled_bet list"
  plan_total_payout :: rat
  plan_total_loser_stake :: rat

text \<open>One turn of the loop: the accumulators are the settled list and the two running totals.\<close>

definition plan_step ::
  "uuid \<Rightarrow> bet_to_settle \<Rightarrow> settled_bet list \<times> rat \<times> rat \<Rightarrow> (settled_bet list \<times> rat \<times> rat) result" where
  "plan_step winning_outcome_id bet acc = (case acc of (settled, total_payout, total_loser_stake) \<Rightarrow>
     if bts_outcome_id bet = winning_outcome_id then
       bindE (compute_payout (bts_stake bet) (bts_price bet)) (\<lambda>payout.
       bindE (profit_or_loss (bts_stake bet) payout) (\<lambda>pnl.
       Inr (settled @ [\<lparr>sb_bet_id = bts_bet_id bet, sb_won = True, sb_payout = payout, sb_pnl = pnl,
                        sb_status = BET_SETTLED_WON\<rparr>],
            dec_add total_payout payout, total_loser_stake)))
     else
       bindE (quantize_money 0) (\<lambda>zero.
       bindE (profit_or_loss (bts_stake bet) 0) (\<lambda>pnl.
       Inr (settled @ [\<lparr>sb_bet_id = bts_bet_id bet, sb_won = False, sb_payout = zero, sb_pnl = pnl,
                        sb_status = BET_SETTLED_LOST\<rparr>],
            total_payout, dec_add total_loser_stake (bts_stake bet)))))"

definition build_settlement_plan :: "bet_to_settle list \<Rightarrow> uuid \<Rightarrow> settlement_plan result" where
  "build_settlement_plan bets winning_outcome_id =
     bindE (foldE (plan_step winning_outcome_id) bets ([], 0, 0))
       (\<lambda>(settled, total_payout, total_loser_stake).
     bindE (quantize_money total_payout) (\<lambda>tp.
     bindE (quantize_money total_loser_stake) (\<lambda>tloss.
     Inr \<lparr>plan_winning_outcome = winning_outcome_id, plan_settled = settled,
          plan_total_payout = tp, plan_total_loser_stake = tloss\<rparr>)))"

text \<open>The specification: the settled form of one bet, with exact arithmetic.\<close>

definition payout_of :: "uuid \<Rightarrow> bet_to_settle \<Rightarrow> rat" where
  "payout_of w bet = (if bts_outcome_id bet = w then to_cents (bts_stake bet / bts_price bet) else 0)"

definition settled_of :: "uuid \<Rightarrow> bet_to_settle \<Rightarrow> settled_bet" where
  "settled_of w bet = \<lparr>sb_bet_id = bts_bet_id bet, sb_won = (bts_outcome_id bet = w),
     sb_payout = payout_of w bet, sb_pnl = payout_of w bet - bts_stake bet,
     sb_status = (if bts_outcome_id bet = w then BET_SETTLED_WON else BET_SETTLED_LOST)\<rparr>"

definition lost_stake :: "uuid \<Rightarrow> bet_to_settle \<Rightarrow> rat" where
  "lost_stake w bet = (if bts_outcome_id bet = w then 0 else bts_stake bet)"

text \<open>What settling bet \<open>b\<close> with winner \<open>w\<close> needs: a positive money stake and, for a winner, a price.\<close>

definition settleable :: "uuid \<Rightarrow> bet_to_settle \<Rightarrow> bool" where
  "settleable w b \<longleftrightarrow> is_money (bts_stake b) \<and> 0 < bts_stake b
     \<and> (bts_outcome_id b = w \<longrightarrow> valid_position (bts_stake b) (bts_price b))"

lemma stake_quantum: "settleable w b \<Longrightarrow> is_quantum (bts_stake b)"
  by (simp add: settleable_def is_money_quantum)

lemma payout_bound:
  assumes "valid_position st pr"
  shows "0 \<le> st / pr \<and> st / pr \<le> 10 ^ 20"
proof -
  obtain S P where sp: "st = of_int S / 10000" "0 < S" "S < 10 ^ 18"
    "pr = of_int P / 1000000" "0 < P" "P \<le> 1000000"
    using assms by (rule valid_position_ints)
  have v: "0 < st" "st < 10 ^ 14" "0 < pr"
    using assms by (auto simp: valid_position_def is_money_def abs_less_iff)
  have "1 \<le> P" using sp by simp
  then have "(1 :: rat) \<le> of_int P" by (simp only: of_int_1_le_iff)
  then have p: "1 / 1000000 \<le> pr" unfolding sp(4) by simp
  have "st \<le> 10 ^ 20 * (1 / 1000000)" using v by simp
  also have "\<dots> \<le> 10 ^ 20 * pr" using p by (intro mult_left_mono) simp_all
  finally show ?thesis using v by (simp add: pos_divide_le_eq)
qed

lemma payout_of_bounds:
  assumes "settleable w b"
  shows "0 \<le> payout_of w b" "is_quantum (payout_of w b)" "\<bar>payout_of w b - bts_stake b\<bar> < 10 ^ 21"
proof -
  have "0 \<le> payout_of w b \<and> is_quantum (payout_of w b)"
  proof (cases "bts_outcome_id b = w")
    case True
    then have q: "0 \<le> bts_stake b / bts_price b" "bts_stake b / bts_price b \<le> 10 ^ 20"
      using assms payout_bound by (auto simp: settleable_def)
    from True show ?thesis
      using is_quantum_to_cents [OF q] to_cents_mono [OF q(1)] by (simp add: payout_of_def)
  qed (simp add: payout_of_def)
  then show 1: "0 \<le> payout_of w b" "is_quantum (payout_of w b)" by simp_all
  have "0 < bts_stake b" "bts_stake b < 10 ^ 14"
    using assms by (auto simp: settleable_def is_money_def abs_less_iff)
  then show "\<bar>payout_of w b - bts_stake b\<bar> < 10 ^ 21"
    using 1 by (simp add: is_quantum_def abs_if)
qed

lemma plan_step_settleable:
  assumes "settleable w b"
  shows "plan_step w b (xs, tp, tloss) = Inr (xs @ [settled_of w b],
     (if bts_outcome_id b = w then dec_add tp (payout_of w b) else tp),
     (if bts_outcome_id b = w then tloss else dec_add tloss (bts_stake b)))"
proof (cases "bts_outcome_id b = w")
  case True
  then have pay: "payout_of w b = to_cents (bts_stake b / bts_price b)" by (simp add: payout_of_def)
  have "compute_payout (bts_stake b) (bts_price b) = Inr (payout_of w b)"
    using compute_payout_quotient True assms pay by (simp add: settleable_def)
  with True payout_of_bounds [OF assms] stake_quantum [OF assms] show ?thesis
    by (simp add: plan_step_def profit_or_loss_exact settled_of_def)
next
  case False
  then have "payout_of w b = 0" by (simp add: payout_of_def)
  with False payout_of_bounds [OF assms] stake_quantum [OF assms] show ?thesis
    by (simp add: plan_step_def profit_or_loss_exact settled_of_def quantize_money_quantum)
qed

text \<open>The settled bets of a successful plan do not depend on the running totals.\<close>

lemma plan_loop_settled:
  assumes "\<forall>b \<in> set bets. settleable w b"
  shows "\<exists>tp' tl'. foldE (plan_step w) bets (xs, tp, tloss) = Inr (xs @ map (settled_of w) bets, tp', tl')"
  using assms
proof (induction bets arbitrary: xs tp tloss)
  case (Cons b bets)
  then have b: "settleable w b" "\<forall>b \<in> set bets. settleable w b" by simp_all
  obtain tp1 tl1 where "plan_step w b (xs, tp, tloss) = Inr (xs @ [settled_of w b], tp1, tl1)"
    using plan_step_settleable [OF b(1)] by blast
  then show ?case using Cons.IH [OF b(2), of "xs @ [settled_of w b]" tp1 tl1] by simp
qed simp

lemma plan_settled:
  assumes "build_settlement_plan bets w = Inr p" "\<forall>b \<in> set bets. settleable w b"
  shows "plan_settled p = map (settled_of w) bets" "plan_winning_outcome p = w"
  using assms(1) plan_loop_settled [OF assms(2), of "[]" 0 0]
  by (auto simp: build_settlement_plan_def)

text \<open>A winner without a positive price makes the whole plan raise.\<close>

lemma plan_step_unpriced:
  "bts_outcome_id b = w \<Longrightarrow> \<not> (0 < bts_price b \<and> bts_price b \<le> 1) \<Longrightarrow>
    \<exists>e. plan_step w b acc = Inl (ValueError e)"
  by (cases acc) (simp add: plan_step_def compute_payout_def)

lemma plan_success_prices:
  assumes "build_settlement_plan bets w = Inr p" "b \<in> set bets" "bts_outcome_id b = w"
  shows "0 < bts_price b \<and> bts_price b \<le> 1"
proof -
  have "foldE (plan_step w) bets acc = Inr r \<Longrightarrow> 0 < bts_price b \<and> bts_price b \<le> 1" for acc r
    using assms(2)
  proof (induction bets arbitrary: acc)
    case (Cons x xs)
    from Cons.prems(1) obtain acc' where a: "plan_step w x acc = Inr acc'" "foldE (plan_step w) xs acc' = Inr r"
      by auto
    show ?case
    proof (cases "x = b")
      case True
      with a(1) plan_step_unpriced [OF assms(3), of acc] show ?thesis by auto
    next
      case False
      with Cons.prems(2) have "b \<in> set xs" by simp
      with a(2) show ?thesis by (rule Cons.IH)
    qed
  qed simp
  then show ?thesis using assms(1) by (auto simp: build_settlement_plan_def)
qed

text \<open>The loop computes the specification exactly as long as the totals stay below \<open>10^21\<close>.\<close>

lemma lost_stake_bounds: "settleable w b \<Longrightarrow> 0 \<le> lost_stake w b \<and> is_quantum (lost_stake w b)"
  by (auto simp: lost_stake_def settleable_def is_money_quantum)

lemma plan_step_exact:
  assumes "settleable w b" "is_quantum tp" "is_quantum tloss"
    and "\<bar>tp + payout_of w b\<bar> < 10 ^ 21" "\<bar>tloss + lost_stake w b\<bar> < 10 ^ 21"
  shows "plan_step w b (xs, tp, tloss) = Inr (xs @ [settled_of w b], tp + payout_of w b, tloss + lost_stake w b)"
  using assms payout_of_bounds [OF assms(1)] stake_quantum [OF assms(1)]
  by (auto simp: plan_step_settleable dec_add_exact lost_stake_def payout_of_def)

lemma plan_loop_exact:
  assumes "\<forall>b \<in> set bets. settleable w b" "is_quantum tp" "is_quantum tloss" "0 \<le> tp" "0 \<le> tloss"
    and "tp + sum_list (map (payout_of w) bets) < 10 ^ 21" "tloss + sum_list (map (lost_stake w) bets) < 10 ^ 21"
  shows "foldE (plan_step w) bets (xs, tp, tloss) =
     Inr (xs @ map (settled_of w) bets, tp + sum_list (map (payout_of w) bets),
          tloss + sum_list (map (lost_stake w) bets))
   \<and> is_quantum (tp + sum_list (map (payout_of w) bets)) \<and> is_quantum (tloss + sum_list (map (lost_stake w) bets))"
  using assms
proof (induction bets arbitrary: xs tp tloss)
  case (Cons b bets)
  have v: "settleable w b" using Cons.prems(1) by simp
  note q = payout_of_bounds [OF v] and l = lost_stake_bounds [OF v]
  have nn: "0 \<le> sum_list (map (payout_of w) bets)" "0 \<le> sum_list (map (lost_stake w) bets)"
    using Cons.prems(1) payout_of_bounds(1) lost_stake_bounds by (auto intro!: sum_list_nonneg)
  have small: "\<bar>tp + payout_of w b\<bar> < 10 ^ 21" "\<bar>tloss + lost_stake w b\<bar> < 10 ^ 21"
    using Cons.prems(4-7) nn q(1) l by (simp_all add: abs_if)
  have quant: "is_quantum (tp + payout_of w b)" "is_quantum (tloss + lost_stake w b)"
    using dec_add_exact(2) [OF Cons.prems(2) q(2) small(1)] dec_add_exact(2) [OF Cons.prems(3) conjunct2 [OF l] small(2)] by simp_all
  have "foldE (plan_step w) bets (xs @ [settled_of w b], tp + payout_of w b, tloss + lost_stake w b) =
     Inr ((xs @ [settled_of w b]) @ map (settled_of w) bets, tp + payout_of w b + sum_list (map (payout_of w) bets),
          tloss + lost_stake w b + sum_list (map (lost_stake w) bets))
   \<and> is_quantum (tp + payout_of w b + sum_list (map (payout_of w) bets))
   \<and> is_quantum (tloss + lost_stake w b + sum_list (map (lost_stake w) bets))"
    using Cons.prems q(1) l by (intro Cons.IH quant) (simp_all add: add.assoc)
  then show ?case
    using plan_step_exact [OF v Cons.prems(2,3) small, of xs] by (simp add: add.assoc)
qed simp

text \<open>
  C28: for bets with a positive stake (and a price in \<open>(0, 1]\<close> where they win) the settlement plan is total and exact: it settles the bets in their order, a
  bet on the winning outcome for its rounded quotient and every other bet for nothing, each with
  P\<and>L \<open>payout - stake\<close>, and its two flows are the exact sums of the payouts and of the losing
  stakes (the bound on the sums is what the 28-digit accumulators hold without rounding).
\<close>

theorem settlement_plan_exact:
  assumes "\<forall>b \<in> set bets. settleable w b"
    and "sum_list (map (payout_of w) bets) < 10 ^ 21" "sum_list (map (lost_stake w) bets) < 10 ^ 21"
  shows "build_settlement_plan bets w = Inr \<lparr>plan_winning_outcome = w,
     plan_settled = map (settled_of w) bets,
     plan_total_payout = sum_list (map (payout_of w) bets),
     plan_total_loser_stake = sum_list (map (lost_stake w) bets)\<rparr>"
proof -
  have "foldE (plan_step w) bets ([], 0, 0) =
     Inr ([] @ map (settled_of w) bets, 0 + sum_list (map (payout_of w) bets), 0 + sum_list (map (lost_stake w) bets))
   \<and> is_quantum (0 + sum_list (map (payout_of w) bets)) \<and> is_quantum (0 + sum_list (map (lost_stake w) bets))"
    using assms by (intro plan_loop_exact) simp_all
  then show ?thesis by (simp add: build_settlement_plan_def quantize_money_quantum)
qed

lemma settlement_plan_exact_witness:
  "okE (\<lambda>p. plan_total_payout p = 3333333/10000 \<and> plan_total_loser_stake p = 40
       \<and> map sb_pnl (plan_settled p) = [2333333/10000, - 40])
     (build_settlement_plan [\<lparr>bts_bet_id = 1, bts_outcome_id = 8, bts_stake = 100, bts_price = 3/10\<rparr>,
        \<lparr>bts_bet_id = 2, bts_outcome_id = 9, bts_stake = 40, bts_price = 7/10\<rparr>] 8)"
proof -
  let ?bets = "[\<lparr>bts_bet_id = 1, bts_outcome_id = 8, bts_stake = 100, bts_price = 3/10\<rparr>,
        \<lparr>bts_bet_id = 2, bts_outcome_id = 9, bts_stake = 40, bts_price = 7/10\<rparr>]"
  have c: "to_cents (100 / (3/10)) = 3333333/10000" by code_simp
  have "\<forall>b \<in> set ?bets. settleable 8 b" by code_simp
  moreover have "sum_list (map (payout_of 8) ?bets) < 10 ^ 21" "sum_list (map (lost_stake 8) ?bets) < 10 ^ 21"
    using c by (simp_all add: payout_of_def lost_stake_def)
  ultimately show ?thesis
    unfolding settlement_plan_exact [OF \<open>\<forall>b \<in> set ?bets. _\<close>] using c
    by (simp add: okE_iff payout_of_def lost_stake_def settled_of_def settlement_plan_exact)
qed

end
