(* ===== verification/Database.thy ===== *)
theory Database
  imports Wallet Payout
begin

text \<open>
  The rows of the remaining tables and the state the services share: \<open>markets/models.py\<close>,
  \<open>bets/models.py\<close>, \<open>core/audit/models.py\<close>, with the constraints their inserts meet, and the
  audit writer.  \<open>db\<close> extends the ledger, so every ledger operation and invariant applies to it.
  The \<open>tenant_id\<close> and \<open>updated_at\<close> columns and the length limits of text columns are left out.
\<close>

subsection \<open>Rows\<close>

datatype market_status = DRAFT | OPEN | CLOSED | RESOLVED | CANCELLED

datatype market_source = HOUSE | POLYMARKET

record market =
  mk_id :: uuid
  question :: string
  mk_slug :: string
  resolution_criteria :: string
  mk_category :: "string option"
  mk_source :: market_source
  source_market_id :: "string option"
  condition_id :: "string option"
  polymarket_slug :: "string option"
  volume :: rat
  volume_24hr :: rat
  mk_status :: market_status
  deadline :: int
  bet_count :: int
  mk_created_at :: int
  mk_closed_at :: "int option"
  resolved_at :: "int option"
  uma_resolved_at :: "int option"
  winning_outcome_id :: "uuid option"
  resolution_source :: "string option"
  resolution_justification :: "string option"
  min_stake :: "rat option"
  max_stake :: "rat option"
  group_id :: "uuid option"
  group_item_title :: "string option"

record market_group =
  mg_id :: uuid
  mg_title :: string
  mg_source :: market_source
  source_event_id :: "string option"
  mg_category :: "string option"
  mg_slug :: string
  mg_created_at :: int

record outcome =
  oc_id :: uuid
  oc_market_id :: uuid
  label :: string
  initial_odds :: rat
  current_odds :: rat

record odds_snapshot =
  os_id :: uuid
  os_market_id :: uuid
  os_outcome_id :: uuid
  probability :: rat
  snapshot_at :: int

record bet =
  bet_id :: uuid
  bet_user_id :: uuid
  bet_market_id :: uuid
  bet_outcome_id :: uuid
  stake :: rat
  odds_at_placement :: rat
  bet_status :: string
  bet_closed_at :: "int option"
  exit_odds :: "rat option"
  bet_created_at :: int

record audit_row =
  au_id :: uuid
  occurred_at :: int
  au_actor :: string
  event_type :: string
  payload :: json_object
  au_ip :: "string option"

record db = ledger +
  audit_log :: "audit_row list"
  markets :: "market list"
  market_groups :: "market_group list"
  outcomes :: "outcome list"
  odds_snapshots :: "odds_snapshot list"
  bets :: "bet list"

subsection \<open>Inserts and their constraints\<close>

abbreviation unique_violation :: "'a result" where
  "unique_violation \<equiv> Inl (IntegrityError UniqueViolation)"

definition bet_status_check :: "string \<Rightarrow> bool" where
  "bet_status_check st \<longleftrightarrow> st \<in> {BET_PENDING, BET_SETTLED_WON, BET_SETTLED_LOST, BET_CLOSED}"

definition opt_money :: "rat option \<Rightarrow> rat option result" where
  "opt_money v = (case v of None \<Rightarrow> Inr None | Some x \<Rightarrow> bindE (numeric_18_4 x) (\<lambda>y. Inr (Some y)))"

text \<open>\<open>NUMERIC(8, 6)\<close> with \<open>CHECK (0 <= v AND v <= 1)\<close>.\<close>

definition probability_column :: "rat \<Rightarrow> rat result" where
  "probability_column v = bindE (numeric_8_6 v) (\<lambda>p.
     if 0 \<le> p \<and> p \<le> 1 then Inr p else Inl (IntegrityError CheckViolation))"

definition insert_market :: "market \<Rightarrow> 'a db_scheme \<Rightarrow> (market \<times> 'a db_scheme) result" where
  "insert_market m s =
     bindE (numeric_18_4 (volume m)) (\<lambda>v. bindE (numeric_18_4 (volume_24hr m)) (\<lambda>v24.
     bindE (opt_money (min_stake m)) (\<lambda>lo. bindE (opt_money (max_stake m)) (\<lambda>hi.
     let m' = m\<lparr>volume := v, volume_24hr := v24, min_stake := lo, max_stake := hi\<rparr> in
     if mk_id m \<in> mk_id ` set (markets s) \<or> mk_slug m \<in> mk_slug ` set (markets s)
        \<or> (\<exists>n \<in> set (markets s). source_market_id m \<noteq> None \<and> mk_source n = mk_source m
             \<and> source_market_id n = source_market_id m) then unique_violation
     else if group_id m \<noteq> None \<and> group_id m \<notin> Some ` mg_id ` set (market_groups s)
       then Inl (IntegrityError ForeignKeyViolation)
     else Inr (m', s\<lparr>markets := markets s @ [m']\<rparr>)))))"

definition insert_group :: "market_group \<Rightarrow> 'a db_scheme \<Rightarrow> 'a db_scheme result" where
  "insert_group g s =
     (if mg_id g \<in> mg_id ` set (market_groups s) \<or> mg_slug g \<in> mg_slug ` set (market_groups s)
        \<or> (\<exists>h \<in> set (market_groups s). source_event_id g \<noteq> None \<and> mg_source h = mg_source g
             \<and> source_event_id h = source_event_id g) then unique_violation
      else Inr (s\<lparr>market_groups := market_groups s @ [g]\<rparr>))"

text \<open>The trigger \<open>trg_binary_outcomes_only\<close> of migration 0003 runs before each insert of an outcome.\<close>

definition check_binary_outcomes :: "uuid \<Rightarrow> 'a db_scheme \<Rightarrow> unit result" where
  "check_binary_outcomes mid s = (if 2 \<le> length (filter (\<lambda>x. oc_market_id x = mid) (outcomes s))
     then Inl (IntegrityError CheckViolation) else Inr ())"

definition insert_outcome :: "outcome \<Rightarrow> 'a db_scheme \<Rightarrow> (outcome \<times> 'a db_scheme) result" where
  "insert_outcome oc s =
     bindE (numeric_8_6 (initial_odds oc)) (\<lambda>_. bindE (numeric_8_6 (current_odds oc)) (\<lambda>_.
     bindE (check_binary_outcomes (oc_market_id oc) s) (\<lambda>_. bindE (probability_column (initial_odds oc)) (\<lambda>i. bindE (probability_column (current_odds oc)) (\<lambda>c.
       let oc' = oc\<lparr>initial_odds := i, current_odds := c\<rparr> in
       if oc_id oc \<in> oc_id ` set (outcomes s) then unique_violation
       else if oc_market_id oc \<notin> mk_id ` set (markets s) then Inl (IntegrityError ForeignKeyViolation)
       else Inr (oc', s\<lparr>outcomes := outcomes s @ [oc']\<rparr>))))))"

definition insert_snapshot :: "odds_snapshot \<Rightarrow> 'a db_scheme \<Rightarrow> 'a db_scheme result" where
  "insert_snapshot os s = bindE (probability_column (probability os)) (\<lambda>p.
     if os_id os \<in> os_id ` set (odds_snapshots s) then unique_violation
     else if os_market_id os \<notin> mk_id ` set (markets s) \<or> os_outcome_id os \<notin> oc_id ` set (outcomes s)
       then Inl (IntegrityError ForeignKeyViolation)
     else Inr (s\<lparr>odds_snapshots := odds_snapshots s @ [os\<lparr>probability := p\<rparr>]\<rparr>))"

definition insert_bet :: "bet \<Rightarrow> 'a db_scheme \<Rightarrow> 'a db_scheme result" where
  "insert_bet b s = bindE (numeric_18_4 (stake b)) (\<lambda>st. bindE (numeric_8_6 (odds_at_placement b)) (\<lambda>od.
     if st \<le> 0 \<or> \<not> bet_status_check (bet_status b)
       then Inl (IntegrityError CheckViolation)
     else if bet_id b \<in> bet_id ` set (bets s) then unique_violation
     else Inr (s\<lparr>bets := bets s @ [b\<lparr>stake := st, odds_at_placement := od\<rparr>]\<rparr>)))"

text \<open>An \<open>UPDATE\<close> of the rows with a given key.\<close>

definition update_market_row :: "uuid \<Rightarrow> (market \<Rightarrow> market) \<Rightarrow> 'a db_scheme \<Rightarrow> 'a db_scheme" where
  "update_market_row u f s = s\<lparr>markets := update_where (\<lambda>m. mk_id m = u) f (markets s)\<rparr>"

definition update_bet_row :: "uuid \<Rightarrow> (bet \<Rightarrow> bet) \<Rightarrow> 'a db_scheme \<Rightarrow> 'a db_scheme" where
  "update_bet_row u f s = s\<lparr>bets := update_where (\<lambda>b. bet_id b = u) f (bets s)\<rparr>"

definition update_outcome_row :: "uuid \<Rightarrow> (outcome \<Rightarrow> outcome) \<Rightarrow> 'a db_scheme \<Rightarrow> 'a db_scheme" where
  "update_outcome_row u f s = s\<lparr>outcomes := update_where (\<lambda>oc. oc_id oc = u) f (outcomes s)\<rparr>"

definition get_market_row :: "uuid \<Rightarrow> 'a db_scheme \<Rightarrow> market option" where
  "get_market_row u s = List.find (\<lambda>m. mk_id m = u) (markets s)"

definition market_outcomes :: "uuid \<Rightarrow> 'a db_scheme \<Rightarrow> outcome list" where
  "market_outcomes u s = filter (\<lambda>oc. oc_market_id oc = u) (outcomes s)"

subsection \<open>\<open>AuditService.record\<close> (\<open>core/audit/service.py\<close>)\<close>

definition audit_record ::
  "uuid \<Rightarrow> int \<Rightarrow> string \<Rightarrow> string \<Rightarrow> json_object \<Rightarrow> string option \<Rightarrow> 'a db_scheme \<Rightarrow> 'a db_scheme result" where
  "audit_record new_id now actor event_ty body ip s =
     (if new_id \<in> au_id ` set (audit_log s) then unique_violation
      else Inr (s\<lparr>audit_log := audit_log s @ [\<lparr>au_id = new_id, occurred_at = now, au_actor = actor,
          event_type = event_ty, payload = body, au_ip = ip\<rparr>]\<rparr>))"

text \<open>The actor string of a request by \<open>u\<close>, or of a system task.\<close>

definition actor_string :: "uuid option \<Rightarrow> string" where
  "actor_string actor = (case actor of None \<Rightarrow> ''system'' | Some u \<Rightarrow> ''user:'' @ uuid_str u)"

subsection \<open>Frame facts\<close>

named_theorems books_frame \<open>operations that leave the ledger tables alone\<close>

lemma same_books_updates [books_frame, simp]:
  "same_books s (s\<lparr>audit_log := a\<rparr>)" "same_books s (s\<lparr>markets := m\<rparr>)" "same_books s (s\<lparr>market_groups := g\<rparr>)"
  "same_books s (s\<lparr>outcomes := oc\<rparr>)" "same_books s (s\<lparr>odds_snapshots := os\<rparr>)" "same_books s (s\<lparr>bets := b\<rparr>)"
  "same_books s (update_market_row u f s)" "same_books s (update_bet_row u h s)"
  "same_books s (update_outcome_row u k s)"
  by (simp_all add: same_books_def update_market_row_def update_bet_row_def update_outcome_row_def)

lemma same_books_trans: "same_books s t \<Longrightarrow> same_books t u \<Longrightarrow> same_books s u"
  by (simp add: same_books_def)

lemma audit_record_Inr [result_simps]:
  "audit_record i now ac ev body ip s = Inr s' \<longleftrightarrow> i \<notin> au_id ` set (audit_log s) \<and>
     s' = s\<lparr>audit_log := audit_log s @ [\<lparr>au_id = i, occurred_at = now, au_actor = ac,
          event_type = ev, payload = body, au_ip = ip\<rparr>]\<rparr>"
  by (auto simp: audit_record_def)

lemma insert_bet_Inr [result_simps]:
  "insert_bet b s = Inr s' \<longleftrightarrow> (\<exists>st od. numeric_18_4 (stake b) = Inr st \<and> numeric_8_6 (odds_at_placement b) = Inr od
     \<and> 0 < st \<and> bet_status_check (bet_status b)
     \<and> bet_id b \<notin> bet_id ` set (bets s) \<and> s' = s\<lparr>bets := bets s @ [b\<lparr>stake := st, odds_at_placement := od\<rparr>]\<rparr>)"
  by (auto simp: insert_bet_def not_le)

lemma insert_snapshot_books [books_frame]: "insert_snapshot os s = Inr s' \<Longrightarrow> same_books s s'"
  by (auto simp: insert_snapshot_def)

lemma insert_outcome_books [books_frame]: "insert_outcome oc s = Inr (oc', s') \<Longrightarrow> same_books s s'"
  by (auto simp: insert_outcome_def check_binary_outcomes_def Let_def)

lemma insert_market_books [books_frame]: "insert_market m s = Inr (m', s') \<Longrightarrow> same_books s s'"
  by (auto simp: insert_market_def Let_def)

end
