(* ===== verification/Specs.thy ===== *)
theory Specs
  imports Database
begin

text \<open>
  The transfer specifications that the early close, the settlement and the reversal derive before
  they move money: a list of \<open>(kind, leg, bet_id, debit, credit, amount)\<close>, the canonical locking of
  the touched accounts, and the posting loop with one deterministic idempotency key per leg.
\<close>

type_synonym transfer_spec = "string \<times> string \<times> uuid \<times> uuid \<times> uuid \<times> rat"

definition spec_debit :: "transfer_spec \<Rightarrow> uuid" where
  "spec_debit sp = (case sp of (_, _, _, d, _, _) \<Rightarrow> d)"

definition spec_credit :: "transfer_spec \<Rightarrow> uuid" where
  "spec_credit sp = (case sp of (_, _, _, _, c, _) \<Rightarrow> c)"

definition spec_amount :: "transfer_spec \<Rightarrow> rat" where
  "spec_amount sp = (case sp of (_, _, _, _, _, a) \<Rightarrow> a)"

definition spec_key :: "(uuid \<Rightarrow> string \<Rightarrow> string) \<Rightarrow> transfer_spec \<Rightarrow> string" where
  "spec_key key sp = (case sp of (_, leg, b, _, _, _) \<Rightarrow> key b leg)"

lemma spec_simps [simp]:
  "spec_debit (k, l, b, d, c, a) = d" "spec_credit (k, l, b, d, c, a) = c"
  "spec_amount (k, l, b, d, c, a) = a" "spec_key key (k, l, b, d, c, a) = key b l"
  by (simp_all add: spec_debit_def spec_credit_def spec_amount_def spec_key_def)

text \<open>\<open>for account_id in sorted(touched, key=str)\<close>.\<close>

definition lock_touched :: "transfer_spec list \<Rightarrow> 'a ledger_scheme \<Rightarrow> 'a ledger_scheme" where
  "lock_touched specs s = lock_accounts (map spec_debit specs @ map spec_credit specs) s"

text \<open>The metadata of a leg: its bet, and the market where the caller records one.\<close>

definition leg_metadata :: "uuid option \<Rightarrow> uuid \<Rightarrow> json_object" where
  "leg_metadata market_id b = (''bet_id'', JUuid b) #
     (case market_id of None \<Rightarrow> [] | Some m \<Rightarrow> [(''market_id'', JUuid m)])"

text \<open>The posting loop; the \<open>i\<close>-th posting draws the identifiers \<open>gen i\<close>.\<close>

definition post_spec ::
  "(uuid \<Rightarrow> string \<Rightarrow> string) \<Rightarrow> (nat \<Rightarrow> post_ids) \<Rightarrow> int \<Rightarrow> uuid option \<Rightarrow> uuid option
    \<Rightarrow> nat \<times> transfer_spec \<Rightarrow> 'a ledger_scheme \<Rightarrow> 'a ledger_scheme result" where
  "post_spec key gen now actor market_id isp s =
     (case isp of (i, kind, leg, b, debit, credit, amt) \<Rightarrow>
      bindE (post_transfer (gen i) now kind (Some (key b leg)) actor debit credit amt
        (Some (leg_metadata market_id b)) s) (\<lambda>(t, s). Inr s))"

definition post_specs ::
  "(uuid \<Rightarrow> string \<Rightarrow> string) \<Rightarrow> (nat \<Rightarrow> post_ids) \<Rightarrow> int \<Rightarrow> uuid option \<Rightarrow> uuid option
    \<Rightarrow> transfer_spec list \<Rightarrow> 'a ledger_scheme \<Rightarrow> 'a ledger_scheme result" where
  "post_specs key gen now actor market_id specs s =
     foldE (post_spec key gen now actor market_id) (enumerate 0 specs) s"

subsection \<open>The effect of the loop\<close>

text \<open>The net change of account \<open>u\<close>.\<close>

definition spec_net :: "uuid \<Rightarrow> transfer_spec \<Rightarrow> rat" where
  "spec_net u sp = (if u = spec_credit sp then spec_amount sp else 0)
     - (if u = spec_debit sp then spec_amount sp else 0)"

definition net :: "uuid \<Rightarrow> transfer_spec list \<Rightarrow> rat" where
  "net u specs = sum_list (map (spec_net u) specs)"

lemma net_simps [simp]: "net u [] = 0" "net u (sp # sps) = spec_net u sp + net u sps"
  "net u (xs @ ys) = net u xs + net u ys"
  by (simp_all add: net_def)

lemma numeric_18_4_quantum: "is_quantum v \<Longrightarrow> numeric_18_4 v = Inr w \<Longrightarrow> w = v"
  unfolding is_quantum_iff by (auto simp: numeric_18_4_def Let_def split: if_splits)

text \<open>The amount as the column holds it.\<close>

definition cast_amount :: "rat \<Rightarrow> rat" where
  "cast_amount a = (case numeric_18_4 a of Inl _ \<Rightarrow> a | Inr m \<Rightarrow> m)"

definition cast_spec :: "transfer_spec \<Rightarrow> transfer_spec" where
  "cast_spec sp = (case sp of (k, l, b, d, c, a) \<Rightarrow> (k, l, b, d, c, cast_amount a))"

lemma cast_spec_simps [simp]: "fst (cast_spec sp) = fst sp" "spec_key key (cast_spec sp) = spec_key key sp"
  "spec_debit (cast_spec sp) = spec_debit sp" "spec_credit (cast_spec sp) = spec_credit sp"
  "spec_amount (cast_spec sp) = cast_amount (spec_amount sp)"
  by (cases sp; simp add: cast_spec_def)+

lemma cast_amount_quantum: "is_quantum a \<Longrightarrow> cast_amount a = a"
  by (auto simp: cast_amount_def split: sum.splits dest: numeric_18_4_quantum)

lemma cast_specs_quantum: "\<forall>sp \<in> set specs. is_quantum (spec_amount sp) \<Longrightarrow> map cast_spec specs = specs"
  by (induction specs) (auto simp: cast_spec_def cast_amount_quantum split: prod.splits)

lemma post_spec_posted:
  "post_spec key gen now actor mid (i, sp) s = Inr s' \<Longrightarrow> \<exists>t m. numeric_18_4 (spec_amount sp) = Inr m
     \<and> posted (fst sp) (Some (spec_key key sp)) (spec_debit sp) (spec_credit sp) m t s s'
     \<and> ledger.more s' = ledger.more s"
proof -
  obtain k l b d c a where sp: "sp = (k, l, b, d, c, a)" by (cases sp) auto
  obtain ti di ci where g: "gen i = (ti, di, ci)" by (cases "gen i") auto
  assume "post_spec key gen now actor mid (i, sp) s = Inr s'"
  then obtain t where p: "post_transfer (ti, di, ci) now k (Some (key b l)) actor d c a
        (Some (leg_metadata mid b)) s = Inr (t, s')"
    by (auto simp: post_spec_def sp g)
  from post_transfer_Inr [OF p] post_transfer_posted [OF p] show ?thesis by (auto simp: sp)
qed

lemma post_specs_loop:
  assumes "foldE (post_spec key gen now actor mid) (enumerate n specs) s = Inr s'" "ledger_wf s"
  shows "ledger_steps s s' \<and> ledger.more s' = ledger.more s
     \<and> (\<forall>u. bal s' u = bal s u + net u (map cast_spec specs))
     \<and> map acct_key (accounts s') = map acct_key (accounts s)
     \<and> (\<exists>ts. transfers s' = transfers s @ ts \<and> map idempotency_key ts = map (\<lambda>sp. Some (spec_key key sp)) specs
          \<and> map tr_kind ts = map fst specs)"
  using assms
proof (induction specs arbitrary: n s)
  case (Cons sp specs)
  obtain s1 where s1: "post_spec key gen now actor mid (n, sp) s = Inr s1"
    "foldE (post_spec key gen now actor mid) (enumerate (Suc n) specs) s1 = Inr s'"
    using Cons.prems(1) by auto
  obtain t m where m: "numeric_18_4 (spec_amount sp) = Inr m"
    and p: "posted (fst sp) (Some (spec_key key sp)) (spec_debit sp) (spec_credit sp) m t s s1"
    and more: "ledger.more s1 = ledger.more s"
    using post_spec_posted [OF s1(1)] by blast
  have m': "m = cast_amount (spec_amount sp)" using m by (simp add: cast_amount_def)
  have "ledger_steps s s1" using posted_step [OF p] by blast
  moreover have "bal s1 u = bal s u + spec_net u (cast_spec sp)" for u
    using posted_bal [OF p Cons.prems(2), of u] by (simp add: spec_net_def m')
  moreover note Cons.IH [OF s1(2) posted_wf [OF p Cons.prems(2)]] posted_transfers [OF p] more
  ultimately show ?case by (auto intro: rtranclp_trans)
qed simp

lemma same_books_lock_touched [simp]: "same_books s (lock_touched specs (begin_tx s))"
  "same_books s (lock_touched specs s)"
  by (simp_all add: lock_touched_def)

lemma same_books_eq:
  "same_books s u \<Longrightarrow> accounts u = accounts s" "same_books s u \<Longrightarrow> transfers u = transfers s"
  "same_books s u \<Longrightarrow> entries u = entries s"
  by (simp_all add: same_books_def)

lemma more_lock_touched [simp]: "ledger.more (lock_touched specs s) = ledger.more s"
  by (simp add: lock_touched_def)

lemma post_specs_cast_effect:
  assumes "post_specs key gen now actor mid specs u = Inr s'" "same_books s u" "ledger_wf s"
  shows "ledger_steps s s'" "ledger.more s' = ledger.more u" "\<And>a. bal s' a = bal s a + net a (map cast_spec specs)"
    "map acct_key (accounts s') = map acct_key (accounts s)"
    "\<exists>ts. transfers s' = transfers s @ ts \<and> map idempotency_key ts = map (\<lambda>sp. Some (spec_key key sp)) specs
          \<and> map tr_kind ts = map fst specs"
proof -
  have "ledger_wf u" using assms(2,3) by (simp add: same_books_wf)
  from post_specs_loop [OF assms(1) [unfolded post_specs_def] this]
  have e: "ledger_steps u s'" "ledger.more s' = ledger.more u" "\<And>a. bal s' a = bal u a + net a (map cast_spec specs)"
    "map acct_key (accounts s') = map acct_key (accounts u)"
    "\<exists>ts. transfers s' = transfers u @ ts \<and> map idempotency_key ts = map (\<lambda>sp. Some (spec_key key sp)) specs
          \<and> map tr_kind ts = map fst specs" by blast+
  show "ledger_steps s s'" using ledger_steps_trans [OF ledger_steps_frame [OF assms(2)] e(1)] .
  show "ledger.more s' = ledger.more u" by (rule e(2))
  show "\<And>a. bal s' a = bal s a + net a (map cast_spec specs)" using e(3) bal_same_books [OF assms(2)] by simp
  show "map acct_key (accounts s') = map acct_key (accounts s)" using e(4) same_books_eq [OF assms(2)] by simp
  show "\<exists>ts. transfers s' = transfers s @ ts \<and> map idempotency_key ts = map (\<lambda>sp. Some (spec_key key sp)) specs
          \<and> map tr_kind ts = map fst specs" using e(5) same_books_eq [OF assms(2)] by simp
qed

lemma post_specs_effect:
  assumes "post_specs key gen now actor mid specs u = Inr s'" "same_books s u" "ledger_wf s"
    and "\<forall>sp \<in> set specs. is_quantum (spec_amount sp)"
  shows "ledger_steps s s'" "ledger.more s' = ledger.more u" "\<And>a. bal s' a = bal s a + net a specs"
    "map acct_key (accounts s') = map acct_key (accounts s)"
    "\<exists>ts. transfers s' = transfers s @ ts \<and> map idempotency_key ts = map (\<lambda>sp. Some (spec_key key sp)) specs
          \<and> map tr_kind ts = map fst specs"
  using post_specs_cast_effect [OF assms(1-3)] cast_specs_quantum [OF assms(4)] by simp_all

text \<open>A taken key makes the loop collide.\<close>

lemma post_specs_collision:
  assumes "sp \<in> set specs" "Some (spec_key key sp) \<in> idempotency_key ` set (transfers s)"
  shows "\<exists>e. post_specs key gen now actor mid specs s = Inl e"
proof (rule ccontr)
  assume "\<not> ?thesis"
  then obtain s' where ok: "post_specs key gen now actor mid specs s = Inr s'"
    by (cases "post_specs key gen now actor mid specs s") auto
  have "foldE (post_spec key gen now actor mid) (enumerate n xs) u = Inr s' \<Longrightarrow> sp \<in> set xs \<Longrightarrow>
    Some (spec_key key sp) \<notin> idempotency_key ` set (transfers u)" for n xs u
  proof (induction xs arbitrary: n u)
    case (Cons x xs)
    then obtain s1 where s1: "post_spec key gen now actor mid (n, x) u = Inr s1"
      "foldE (post_spec key gen now actor mid) (enumerate (Suc n) xs) s1 = Inr s'" by auto
    obtain t m where p: "posted (fst x) (Some (spec_key key x)) (spec_debit x) (spec_credit x) m t u s1"
      using post_spec_posted [OF s1(1)] by blast
    show ?case
    proof (cases "x = sp")
      case True
      with p show ?thesis by (auto simp: posted_def posts_def)
    next
      case False
      then have "Some (spec_key key sp) \<notin> idempotency_key ` set (transfers s1)"
        using Cons.IH [OF s1(2)] Cons.prems(2) by auto
      then show ?thesis using posted_transfers(1) [OF p] by auto
    qed
  qed simp
  from this [OF ok [unfolded post_specs_def] assms(1)] assms(2) show False by simp
qed

end
