(* ===== verification/Portfolio.thy ===== *)
theory Portfolio
  imports Payout
begin

text \<open>
  The portfolio read model of \<open>bets/portfolio.py\<close>: bets are partitioned into open positions
  (valued at the live price, or neutrally without one) and settled positions (valued at what was
  paid).
\<close>

record position_input =
  pi_bet_id :: uuid
  pi_market_id :: uuid
  pi_outcome_id :: uuid
  pi_stake :: rat
  pi_odds_at_placement :: rat
  pi_status :: string
  pi_current_odds :: "rat option"
  pi_exit_odds :: "rat option"
  pi_market_question :: "string option"
  pi_market_slug :: "string option"
  pi_outcome_label :: "string option"

record open_position =
  op_bet_id :: uuid
  op_market_id :: uuid
  op_outcome_id :: uuid
  op_stake :: rat
  op_odds_at_placement :: rat
  potential_payout :: rat
  potential_pnl :: rat
  op_current_odds :: "rat option"
  current_value :: rat
  unrealized_pnl :: rat
  priced :: bool
  op_market_question :: "string option"
  op_market_slug :: "string option"
  op_outcome_label :: "string option"

record settled_position =
  sp_bet_id :: uuid
  sp_market_id :: uuid
  sp_outcome_id :: uuid
  sp_stake :: rat
  sp_odds_at_placement :: rat
  sp_status :: string
  sp_won :: bool
  sp_payout :: rat
  realized_pnl :: rat
  sp_exit_odds :: "rat option"
  sp_market_question :: "string option"
  sp_market_slug :: "string option"
  sp_outcome_label :: "string option"

record portfolio =
  open_positions :: "open_position list"
  settled_positions :: "settled_position list"

definition open_of :: "position_input \<Rightarrow> open_position result" where
  "open_of p =
     bindE (compute_payout (pi_stake p) (pi_odds_at_placement p)) (\<lambda>potential.
     bindE (case pi_current_odds p of
         Some cur \<Rightarrow> bindE (cashout_value (pi_stake p) (pi_odds_at_placement p) cur) (\<lambda>v. Inr (v, True))
       | None \<Rightarrow> bindE (quantize_money (pi_stake p)) (\<lambda>v. Inr (v, False))) (\<lambda>(value, is_priced).
     bindE (profit_or_loss (pi_stake p) potential) (\<lambda>ppnl.
     bindE (profit_or_loss (pi_stake p) value) (\<lambda>upnl.
     Inr \<lparr>op_bet_id = pi_bet_id p, op_market_id = pi_market_id p, op_outcome_id = pi_outcome_id p,
          op_stake = pi_stake p, op_odds_at_placement = pi_odds_at_placement p,
          potential_payout = potential, potential_pnl = ppnl, op_current_odds = pi_current_odds p,
          current_value = value, unrealized_pnl = upnl, priced = is_priced,
          op_market_question = pi_market_question p, op_market_slug = pi_market_slug p,
          op_outcome_label = pi_outcome_label p\<rparr>))))"

definition settled_position_of ::
  "position_input \<Rightarrow> bool \<Rightarrow> rat \<Rightarrow> rat \<Rightarrow> rat option \<Rightarrow> settled_position" where
  "settled_position_of p won payout realized exit_odds =
     \<lparr>sp_bet_id = pi_bet_id p, sp_market_id = pi_market_id p, sp_outcome_id = pi_outcome_id p,
      sp_stake = pi_stake p, sp_odds_at_placement = pi_odds_at_placement p,
      sp_status = pi_status p, sp_won = won, sp_payout = payout, realized_pnl = realized,
      sp_exit_odds = exit_odds, sp_market_question = pi_market_question p,
      sp_market_slug = pi_market_slug p, sp_outcome_label = pi_outcome_label p\<rparr>"

definition closed_of :: "position_input \<Rightarrow> settled_position result" where
  "closed_of p = (case pi_exit_odds p of
     None \<Rightarrow> Inl (ValueError ''CLOSED bet has NULL exit_odds'')
   | Some exit_price \<Rightarrow>
       bindE (cashout_value (pi_stake p) (pi_odds_at_placement p) exit_price) (\<lambda>payout.
       bindE (profit_or_loss (pi_stake p) payout) (\<lambda>realized.
       Inr (settled_position_of p (realized > 0) payout realized (pi_exit_odds p)))))"

definition resolved_of :: "position_input \<Rightarrow> settled_position result" where
  "resolved_of p = (let won = (pi_status p = BET_SETTLED_WON) in
     bindE (if won then compute_payout (pi_stake p) (pi_odds_at_placement p) else quantize_money 0) (\<lambda>payout.
     bindE (profit_or_loss (pi_stake p) payout) (\<lambda>realized.
     Inr (settled_position_of p won payout realized None))))"

definition portfolio_step :: "position_input \<Rightarrow> portfolio \<Rightarrow> portfolio result" where
  "portfolio_step p acc =
     (if pi_status p = BET_PENDING then
        bindE (open_of p) (\<lambda>x. Inr (acc\<lparr>open_positions := open_positions acc @ [x]\<rparr>))
      else bindE (if pi_status p = BET_CLOSED then closed_of p else resolved_of p)
        (\<lambda>x. Inr (acc\<lparr>settled_positions := settled_positions acc @ [x]\<rparr>)))"

definition build_portfolio :: "position_input list \<Rightarrow> portfolio result" where
  "build_portfolio positions = foldE portfolio_step positions \<lparr>open_positions = [], settled_positions = []\<rparr>"

subsection \<open>The partition\<close>

definition terminal_of :: "position_input \<Rightarrow> settled_position result" where
  "terminal_of p = (if pi_status p = BET_CLOSED then closed_of p else resolved_of p)"

lemma portfolio_step_cases:
  "pi_status p = BET_PENDING \<Longrightarrow>
    portfolio_step p acc = bindE (open_of p) (\<lambda>x. Inr (acc\<lparr>open_positions := open_positions acc @ [x]\<rparr>))"
  "pi_status p \<noteq> BET_PENDING \<Longrightarrow>
    portfolio_step p acc = bindE (terminal_of p) (\<lambda>x. Inr (acc\<lparr>settled_positions := settled_positions acc @ [x]\<rparr>))"
  by (simp_all add: portfolio_step_def terminal_of_def)

lemma portfolio_loop:
  "foldE portfolio_step ps acc = Inr pf \<longleftrightarrow>
    (\<exists>os ts. mapE open_of (filter (\<lambda>p. pi_status p = BET_PENDING) ps) = Inr os
       \<and> mapE terminal_of (filter (\<lambda>p. pi_status p \<noteq> BET_PENDING) ps) = Inr ts
       \<and> pf = acc\<lparr>open_positions := open_positions acc @ os, settled_positions := settled_positions acc @ ts\<rparr>)"
proof (induction ps arbitrary: acc)
  case (Cons p ps)
  show ?case
    by (cases "pi_status p = BET_PENDING") (auto simp: portfolio_step_cases Cons.IH)
qed auto

lemma open_of_valid:
  assumes v: "valid_position (pi_stake p) (pi_odds_at_placement p)"
    and cur: "\<forall>c. pi_current_odds p = Some c \<longrightarrow> is_odds c \<and> 0 \<le> c \<and> c \<le> 1"
  shows "\<exists>x. open_of p = Inr x \<and> op_bet_id x = pi_bet_id p
    \<and> potential_payout x = to_cents (pi_stake p / pi_odds_at_placement p)
    \<and> current_value x = (case pi_current_odds p of None \<Rightarrow> pi_stake p
        | Some c \<Rightarrow> to_cents (pi_stake p * c / pi_odds_at_placement p))
    \<and> unrealized_pnl x = current_value x - pi_stake p \<and> 0 \<le> current_value x
    \<and> current_value x \<le> potential_payout x"
proof -
  let ?b = "\<lparr>bts_bet_id = 0, bts_outcome_id = 0, bts_stake = pi_stake p, bts_price = pi_odds_at_placement p\<rparr>"
  have b: "settleable 0 ?b" using v by (simp add: settleable_def valid_position_def)
  let ?pay = "to_cents (pi_stake p / pi_odds_at_placement p)"
  have pay: "payout_of 0 ?b = ?pay" by (simp add: payout_of_def)
  note q = payout_of_bounds [OF b, unfolded pay] and st = stake_quantum [OF b]
  have s0: "0 < pi_stake p" "pi_stake p \<le> ?pay" using v compute_payout_quotient [OF v] by (simp_all add: valid_position_def)
  define val where "val = (case pi_current_odds p of None \<Rightarrow> pi_stake p
        | Some c \<Rightarrow> to_cents (pi_stake p * c / pi_odds_at_placement p))"
  have val: "0 \<le> val" "val \<le> ?pay" "is_quantum val"
  proof -
    have "0 \<le> val \<and> val \<le> ?pay \<and> (\<exists>n. val * 10000 = of_int n)"
    proof (cases "pi_current_odds p")
      case None
      with s0 st show ?thesis by (simp add: val_def is_quantum_iff)
    next
      case (Some c)
      with cur have c: "is_odds c" "0 \<le> c" "c \<le> 1" by simp_all
      show ?thesis using cashout_value_quotient [OF v c] Some by (simp add: val_def) (simp add: to_cents_def)
    qed
    with q(2) show "0 \<le> val" "val \<le> ?pay" "is_quantum val" by (auto simp: is_quantum_iff abs_less_iff)
  qed
  have sm: "\<bar>val - pi_stake p\<bar> < 10 ^ 21" using val s0 q(2) by (simp add: is_quantum_def abs_less_iff)
  have cash: "cashout_value (pi_stake p) (pi_odds_at_placement p) c = Inr val" if "pi_current_odds p = Some c" for c
    using that cur cashout_value_quotient [OF v, of c] by (simp add: val_def)
  have "open_of p = Inr \<lparr>op_bet_id = pi_bet_id p, op_market_id = pi_market_id p, op_outcome_id = pi_outcome_id p,
          op_stake = pi_stake p, op_odds_at_placement = pi_odds_at_placement p,
          potential_payout = ?pay, potential_pnl = ?pay - pi_stake p, op_current_odds = pi_current_odds p,
          current_value = val, unrealized_pnl = val - pi_stake p, priced = (pi_current_odds p \<noteq> None),
          op_market_question = pi_market_question p, op_market_slug = pi_market_slug p,
          op_outcome_label = pi_outcome_label p\<rparr>"
    using compute_payout_quotient [OF v] q st val sm cash
    by (cases "pi_current_odds p")
      (simp_all add: open_of_def profit_or_loss_exact quantize_money_quantum, simp_all add: val_def)
  with val show ?thesis by (simp add: val_def)
qed

lemma resolved_of_valid:
  assumes "valid_position (pi_stake p) (pi_odds_at_placement p)"
    and "(pi_status p = BET_SETTLED_WON) = (pi_outcome_id p = w)"
    and "b = \<lparr>bts_bet_id = pi_bet_id p, bts_outcome_id = pi_outcome_id p, bts_stake = pi_stake p,
              bts_price = pi_odds_at_placement p\<rparr>"
  shows "resolved_of p = Inr (settled_position_of p (sb_won (settled_of w b)) (sb_payout (settled_of w b))
           (sb_pnl (settled_of w b)) None)"
proof -
  have v: "settleable w b" using assms by (simp add: settleable_def valid_position_def)
  note q = payout_of_bounds [OF v] stake_quantum [OF v]
  have "(if pi_status p = BET_SETTLED_WON then compute_payout (pi_stake p) (pi_odds_at_placement p)
     else quantize_money 0) = Inr (payout_of w b)"
    using assms(2,3) compute_payout_quotient [OF assms(1)] by (simp add: payout_of_def quantize_money_quantum)
  moreover have "profit_or_loss (pi_stake p) (payout_of w b) = Inr (payout_of w b - pi_stake p)"
    using q assms(3) by (simp add: profit_or_loss_exact)
  ultimately show ?thesis using assms(2,3) by (simp add: resolved_of_def settled_of_def Let_def)
qed


definition demo_position :: "uuid \<Rightarrow> uuid \<Rightarrow> string \<Rightarrow> rat option \<Rightarrow> position_input" where
  "demo_position b oc st cur = \<lparr>pi_bet_id = b, pi_market_id = 3, pi_outcome_id = oc, pi_stake = 100,
     pi_odds_at_placement = 3/10, pi_status = st, pi_current_odds = cur, pi_exit_odds = None,
     pi_market_question = None, pi_market_slug = None, pi_outcome_label = None\<rparr>"


end
