(* ===== verification/Bets.thy ===== *)
theory Bets
  imports Specs Portfolio
begin

text \<open>
  \<open>BetService\<close> (\<open>bets/service.py\<close>): placing a bet, closing it early and reading the portfolio,
  over the market-read port of \<open>bets/market_port.py\<close> and its adapter \<open>bets/adapters.py\<close>.
  \<open>place_bet\<close> commits twice (the liability account, then the bet), so it returns its outcome
  together with the state left behind.
\<close>

subsection \<open>Constants (\<open>bets/constants.py\<close>)\<close>

abbreviation "KIND_MARKET_LIABILITY \<equiv> ''market_liability''"
abbreviation "TRANSFER_BET_PLACED \<equiv> ''bet_placed''"
abbreviation "TRANSFER_CLOSE_STAKE_RETURN \<equiv> ''close_stake_return''"
abbreviation "TRANSFER_CLOSE_WINNINGS \<equiv> ''close_winnings''"
abbreviation "TRANSFER_CLOSE_LOSS \<equiv> ''close_loss''"
abbreviation "LEG_STAKE \<equiv> ''stake''"
abbreviation "LEG_WIN \<equiv> ''win''"
abbreviation "LEG_LOSS \<equiv> ''loss''"

definition close_idempotency_key :: "uuid \<Rightarrow> string \<Rightarrow> string" where
  "close_idempotency_key b leg = ''close:'' @ uuid_str b @ '':'' @ leg"

subsection \<open>The market-read port (\<open>bets/market_port.py\<close>)\<close>

record outcome_view =
  ov_id :: uuid
  ov_label :: string
  ov_price :: rat

record market_view =
  mv_id :: uuid
  mv_status :: market_status
  mv_deadline :: int
  mv_outcomes :: "outcome_view list"
  mv_min_stake :: "rat option"
  mv_max_stake :: "rat option"
  mv_question :: "string option"
  mv_slug :: "string option"

definition is_open :: "market_view \<Rightarrow> int \<Rightarrow> bool" where
  "is_open m now \<longleftrightarrow> mv_status m = OPEN \<and> now < mv_deadline m"

definition view_outcome :: "market_view \<Rightarrow> uuid \<Rightarrow> outcome_view option" where
  "view_outcome m u = List.find (\<lambda>oc. ov_id oc = u) (mv_outcomes m)"

text \<open>\<open>HouseMarketReadAdapter.get_market\<close>: a read of the committed rows.\<close>

definition house_get_market :: "'a db_scheme \<Rightarrow> uuid \<Rightarrow> market_view option" where
  "house_get_market s u = map_option (\<lambda>m. \<lparr>mv_id = mk_id m, mv_status = mk_status m,
       mv_deadline = deadline m,
       mv_outcomes = map (\<lambda>oc. \<lparr>ov_id = oc_id oc, ov_label = label oc, ov_price = current_odds oc\<rparr>)
         (market_outcomes (mk_id m) s),
       mv_min_stake = min_stake m, mv_max_stake = max_stake m,
       mv_question = Some (question m), mv_slug = Some (mk_slug m)\<rparr>) (get_market_row u s)"

type_synonym 's market_read_port = "'s \<Rightarrow> uuid \<Rightarrow> market_view option"

subsection \<open>The per-market liability account\<close>

definition is_liability_of :: "uuid \<Rightarrow> account \<Rightarrow> bool" where
  "is_liability_of mid a \<longleftrightarrow> owner_type a = OWNER_MARKET \<and> owner_id a = Some mid
     \<and> acc_kind a = KIND_MARKET_LIABILITY \<and> currency a = PLAY_USD"

definition resolve_market_liability_id :: "uuid \<Rightarrow> 'a ledger_scheme \<Rightarrow> uuid result" where
  "resolve_market_liability_id mid s =
     bindE (scalar_one (filter (is_liability_of mid) (accounts s))) (\<lambda>a. Inr (acc_id a))"

text \<open>
  \<open>INSERT \<dots> ON CONFLICT (owner key) DO UPDATE \<dots> RETURNING id\<close> in a transaction of its own: the
  existing row is locked and returned, otherwise a row with balance zero is inserted.
\<close>

definition ensure_market_liability_account ::
  "uuid \<Rightarrow> uuid \<Rightarrow> 'a ledger_scheme \<Rightarrow> (uuid \<times> 'a ledger_scheme) result" where
  "ensure_market_liability_account new_id mid s =
     (let s = begin_tx s in
      case List.find (is_liability_of mid) (accounts s) of
        Some a \<Rightarrow> Inr (acc_id a, lock_account (acc_id a) s)
      | None \<Rightarrow> bindE (insert_account \<lparr>acc_id = new_id, owner_type = OWNER_MARKET, owner_id = Some mid,
            acc_kind = KIND_MARKET_LIABILITY, currency = PLAY_USD, balance = 0, version = 0\<rparr> s)
          (\<lambda>s. Inr (new_id, s)))"

subsection \<open>Placing a bet\<close>

text \<open>The transaction of step 3: lock, check the balance, insert the bet, post the stake.\<close>

definition place_bet_tx ::
  "uuid \<Rightarrow> post_ids \<Rightarrow> int \<Rightarrow> uuid \<Rightarrow> uuid \<Rightarrow> outcome_view \<Rightarrow> rat \<Rightarrow> uuid \<Rightarrow> 'a db_scheme
    \<Rightarrow> (bet \<times> 'a db_scheme) result" where
  "place_bet_tx new_bet ids now user_id mid chosen stk liability_id s =
     (let s = begin_tx s in
      bindE (resolve_user_wallet_id user_id s) (\<lambda>wallet_id.
      let s = lock_accounts [wallet_id, liability_id] s in
      bindE (balance_of wallet_id s) (\<lambda>wallet_balance.
      if wallet_balance < stk then Inl InsufficientBalance
      else
        let b = \<lparr>bet_id = new_bet, bet_user_id = user_id, bet_market_id = mid,
                 bet_outcome_id = ov_id chosen, stake = stk, odds_at_placement = ov_price chosen,
                 bet_status = BET_PENDING, bet_closed_at = None, exit_odds = None,
                 bet_created_at = now\<rparr> in
        bindE (insert_bet b s) (\<lambda>s.
        bindE (post_transfer ids now TRANSFER_BET_PLACED None (Some user_id) wallet_id liability_id stk
            (Some [(''bet_id'', JUuid new_bet), (''market_id'', JUuid mid),
                   (''outcome_id'', JUuid (ov_id chosen))]) s) (\<lambda>(t, s).
        Inr (b, s))))))"

text \<open>
  \<open>limits\<close> is \<open>(BET_MIN_STAKE, BET_MAX_STAKE)\<close> of the settings; \<open>new_account\<close>, \<open>new_bet\<close> and \<open>ids\<close>
  are the identifiers drawn.
\<close>

definition place_bet ::
  "rat \<times> rat \<Rightarrow> 'a db_scheme market_read_port \<Rightarrow> uuid \<Rightarrow> uuid \<Rightarrow> post_ids \<Rightarrow> int
    \<Rightarrow> uuid \<Rightarrow> uuid \<Rightarrow> uuid \<Rightarrow> rat \<Rightarrow> 'a db_scheme \<Rightarrow> bet result \<times> 'a db_scheme" where
  "place_bet limits get_market new_account new_bet ids now user_id mid outcome_id stk s =
     (if stk \<le> 0 then (Inl (ValueError ''stake must be > 0''), s)
      else case get_market s mid of
        None \<Rightarrow> (Inl MarketNotFound, s)
      | Some m \<Rightarrow>
        if \<not> is_open m now then (Inl MarketClosed, s)
        else case view_outcome m outcome_id of
          None \<Rightarrow> (Inl InvalidOutcome, s)
        | Some chosen \<Rightarrow>
          let lo = (case mv_min_stake m of Some x \<Rightarrow> x | None \<Rightarrow> fst limits);
              hi = (case mv_max_stake m of Some x \<Rightarrow> x | None \<Rightarrow> snd limits)
          in if \<not> (lo \<le> stk \<and> stk \<le> hi) then (Inl StakeOutOfRange, s)
          else case ensure_market_liability_account new_account mid s of
            Inl e \<Rightarrow> (Inl e, s)
          | Inr (liability_id, s1) \<Rightarrow>
            (case place_bet_tx new_bet ids now user_id mid chosen stk liability_id s1 of
               Inl e \<Rightarrow> (Inl e, s1)
             | Inr (b, s2) \<Rightarrow> (Inr b, s2)))"

subsection \<open>Early close\<close>

text \<open>The legs of a close; a zero leg is skipped.\<close>

definition close_specs :: "uuid \<Rightarrow> uuid \<Rightarrow> uuid \<Rightarrow> rat \<Rightarrow> rat \<Rightarrow> transfer_spec list" where
  "close_specs b liability_id wallet_id stk payout =
     (if stk \<le> payout then
        [(TRANSFER_CLOSE_STAKE_RETURN, LEG_STAKE, b, liability_id, wallet_id, stk)] @
        (let gain = dec_sub payout stk in
         if gain > 0 then [(TRANSFER_CLOSE_WINNINGS, LEG_WIN, b, HOUSE_PROMO_ACCOUNT_ID, wallet_id, gain)]
         else [])
      else
        (if payout > 0 then [(TRANSFER_CLOSE_STAKE_RETURN, LEG_STAKE, b, liability_id, wallet_id, payout)]
         else []) @
        [(TRANSFER_CLOSE_LOSS, LEG_LOSS, b, liability_id, HOUSE_REVENUE_ACCOUNT_ID, dec_sub stk payout)])"

record close_result =
  cr_bet_id :: uuid
  cr_payout :: rat
  cr_pnl :: rat
  cr_exit_odds :: rat
  cr_new_balance :: rat

definition sell_position ::
  "'a db_scheme market_read_port \<Rightarrow> (nat \<Rightarrow> post_ids) \<Rightarrow> int \<Rightarrow> uuid \<Rightarrow> uuid \<Rightarrow> 'a db_scheme
    \<Rightarrow> (close_result \<times> 'a db_scheme) result" where
  "sell_position get_market gen now b_id user_id s =
     bindE (scalar_one_or_none (filter (\<lambda>b. bet_id b = b_id) (bets s))) (\<lambda>found.
     case found of
       None \<Rightarrow> Inl BetNotFound
     | Some b0 \<Rightarrow>
       if bet_user_id b0 \<noteq> user_id then Inl BetNotFound
       else if bet_status b0 \<noteq> BET_PENDING then Inl BetNotClosable
       else
         bindE (scalar_one (filter (\<lambda>b. bet_id b = b_id) (bets s))) (\<lambda>locked.
         let s = lock_row (BetRow b_id) (begin_tx s) in
         if bet_status locked \<noteq> BET_PENDING then Inl BetNotClosable
         else case get_market s (bet_market_id locked) of
           None \<Rightarrow> Inl MarketNotFound
         | Some m \<Rightarrow>
           if \<not> is_open m now then Inl MarketClosed
           else case view_outcome m (bet_outcome_id locked) of
             None \<Rightarrow> Inl InvalidOutcome
           | Some chosen \<Rightarrow>
             bindE (cashout_value (stake locked) (odds_at_placement locked) (ov_price chosen)) (\<lambda>payout.
             bindE (profit_or_loss (stake locked) payout) (\<lambda>pnl.
             bindE (resolve_user_wallet_id user_id s) (\<lambda>wallet_id.
             bindE (resolve_market_liability_id (bet_market_id locked) s) (\<lambda>liability_id.
             let specs = close_specs b_id liability_id wallet_id (stake locked) payout;
                 s = lock_touched specs s in
             bindE (post_specs close_idempotency_key gen now (Some user_id) (Some (bet_market_id locked)) specs s) (\<lambda>s.
             bindE (numeric_8_6 (ov_price chosen)) (\<lambda>exit.
             let s = update_bet_row b_id (\<lambda>b. b\<lparr>bet_status := BET_CLOSED, bet_closed_at := Some now,
                       exit_odds := Some exit\<rparr>) s in
             bindE (balance_of wallet_id s) (\<lambda>new_balance.
             Inr (\<lparr>cr_bet_id = b_id, cr_payout = payout, cr_pnl = pnl,
                   cr_exit_odds = ov_price chosen, cr_new_balance = new_balance\<rparr>, s))))))))))"

subsection \<open>The portfolio read\<close>

text \<open>
  Newest bets first; one read of the port per distinct market supplies the live prices and the
  display metadata.
\<close>

definition position_input_of :: "(uuid \<Rightarrow> market_view option) \<Rightarrow> bet \<Rightarrow> position_input" where
  "position_input_of view b =
     (let m = view (bet_market_id b);
          oc = Option.bind m (\<lambda>m. List.find (\<lambda>x. ov_id x = bet_outcome_id b) (rev (mv_outcomes m)))
      in \<lparr>pi_bet_id = bet_id b, pi_market_id = bet_market_id b, pi_outcome_id = bet_outcome_id b,
          pi_stake = stake b, pi_odds_at_placement = odds_at_placement b, pi_status = bet_status b,
          pi_current_odds = map_option ov_price oc, pi_exit_odds = exit_odds b,
          pi_market_question = Option.bind m mv_question, pi_market_slug = Option.bind m mv_slug,
          pi_outcome_label = map_option ov_label oc\<rparr>)"

definition get_portfolio ::
  "'a db_scheme market_read_port \<Rightarrow> uuid \<Rightarrow> 'a db_scheme \<Rightarrow> portfolio result" where
  "get_portfolio get_market user_id s =
     build_portfolio (map (position_input_of (get_market s))
       (rev (sort_key bet_created_at (rev (filter (\<lambda>b. bet_user_id b = user_id) (bets s))))))"

end
