(* ===== verification/Pool.thy ===== *)
theory Pool
  imports Bets
begin

text \<open>
  The solvency of the per-market pools: the liability account of a market holds exactly the stakes
  of its pending bets.  This theory states the platform invariant, shows that placing a bet and
  closing one keep it, and what both do to balances and bets.
\<close>

subsection \<open>The invariant\<close>

definition house_seeded :: "'a ledger_scheme \<Rightarrow> bool" where
  "house_seeded s \<longleftrightarrow> (\<forall>h \<in> {HOUSE_PROMO_ACCOUNT_ID, HOUSE_REVENUE_ACCOUNT_ID}.
     \<exists>a \<in> set (accounts s). acc_id a = h \<and> owner_type a = OWNER_SYSTEM)"

definition liability_ids :: "uuid \<Rightarrow> 'a ledger_scheme \<Rightarrow> uuid list" where
  "liability_ids mid s = map acc_id (filter (is_liability_of mid) (accounts s))"

definition liability_balance :: "uuid \<Rightarrow> 'a ledger_scheme \<Rightarrow> rat" where
  "liability_balance mid s = sum_list (map (bal s) (liability_ids mid s))"

definition pending_bets :: "uuid \<Rightarrow> 'a db_scheme \<Rightarrow> bet list" where
  "pending_bets mid s = filter (\<lambda>b. bet_market_id b = mid \<and> bet_status b = BET_PENDING) (bets s)"

definition pool_ok :: "'a db_scheme \<Rightarrow> bool" where
  "pool_ok s \<longleftrightarrow> (\<forall>mid. liability_balance mid s = sum_list (map stake (pending_bets mid s)))"

definition bets_ok :: "'a db_scheme \<Rightarrow> bool" where
  "bets_ok s \<longleftrightarrow> distinct (map bet_id (bets s)) \<and> (\<forall>b \<in> set (bets s).
     is_money (stake b) \<and> 0 < stake b \<and> is_odds (odds_at_placement b) \<and> bet_status_check (bet_status b))"

definition platform_ok :: "'a db_scheme \<Rightarrow> bool" where
  "platform_ok s \<longleftrightarrow> books_ok s \<and> house_seeded s \<and> (\<forall>mid. length (liability_ids mid s) \<le> 1)
     \<and> bets_ok s \<and> pool_ok s"

lemma platform_wf: "platform_ok s \<Longrightarrow> ledger_wf s"
  by (simp add: platform_ok_def books_ok_def)

lemma more_fields:
  fixes s s' :: "'a db_scheme"
  assumes "ledger.more s' = ledger.more s"
  shows "bets s' = bets s" "markets s' = markets s" "audit_log s' = audit_log s"
    "outcomes s' = outcomes s" "odds_snapshots s' = odds_snapshots s" "market_groups s' = market_groups s"
  using assms by (cases s; cases s'; simp)+

subsection \<open>Identity columns\<close>

lemma liability_ids_key:
  "map acct_key (accounts s') = map acct_key (accounts s) \<Longrightarrow> liability_ids mid s' = liability_ids mid s"
  unfolding liability_ids_def by (rule acct_key_filter, assumption) (simp add: acct_key_def is_liability_of_def)

lemma house_seeded_key:
  assumes "map acct_key (accounts s') = map acct_key (accounts s)" "house_seeded s"
  shows "house_seeded s'"
proof -
  have "acct_key ` set (accounts s') = acct_key ` set (accounts s)"
    using arg_cong [OF assms(1), of set] by simp
  then have "\<exists>b \<in> set (accounts s'). acct_key b = acct_key a" if "a \<in> set (accounts s)" for a
    using that by (metis (no_types) imageE imageI)
  then have "\<exists>b \<in> set (accounts s'). acc_id b = acc_id a \<and> owner_type b = owner_type a" if "a \<in> set (accounts s)" for a
    using that by (auto simp: acct_key_def)
  then show ?thesis using assms(2) unfolding house_seeded_def by metis
qed

lemma resolve_liability_ids:
  "resolve_market_liability_id mid s = Inr l \<longleftrightarrow> liability_ids mid s = [l]"
  unfolding resolve_market_liability_id_def liability_ids_def scalar_one_map by (rule scalar_one_Inr)

lemma not_liability:
  assumes "ledger_wf s" "a \<in> set (accounts s)" "owner_type a \<noteq> OWNER_MARKET"
  shows "acc_id a \<notin> set (liability_ids mid s)"
proof
  assume "acc_id a \<in> set (liability_ids mid s)"
  then obtain b where b: "b \<in> set (accounts s)" "is_liability_of mid b" "acc_id a = acc_id b"
    by (auto simp: liability_ids_def)
  then have "a = b" using assms(1,2) by (auto simp: ledger_wf_def dest: distinct_key_eq)
  with b(2) assms(3) show False by (simp add: is_liability_of_def)
qed

lemma liability_ids_disjoint:
  assumes "ledger_wf s" "u \<in> set (liability_ids m1 s)" "u \<in> set (liability_ids m2 s)"
  shows "m1 = m2"
proof -
  obtain a b where a: "a \<in> set (accounts s)" "is_liability_of m1 a" "u = acc_id a"
    and b: "b \<in> set (accounts s)" "is_liability_of m2 b" "u = acc_id b"
    using assms(2,3) by (auto simp: liability_ids_def)
  then have "a = b" using assms(1) by (auto simp: ledger_wf_def dest: distinct_key_eq)
  with a b show ?thesis by (simp add: is_liability_of_def)
qed

lemma wallet_not_liability:
  "ledger_wf s \<Longrightarrow> resolve_user_wallet_id u s = Inr w \<Longrightarrow> w \<notin> set (liability_ids mid s)"
  by (auto simp: resolve_user_wallet_id_def dest!: scalar_one_filter_mem dest: not_liability)

lemma house_not_liability:
  "ledger_wf s \<Longrightarrow> house_seeded s \<Longrightarrow> HOUSE_PROMO_ACCOUNT_ID \<notin> set (liability_ids mid s)"
  "ledger_wf s \<Longrightarrow> house_seeded s \<Longrightarrow> HOUSE_REVENUE_ACCOUNT_ID \<notin> set (liability_ids mid s)"
  unfolding house_seeded_def by (fastforce dest: not_liability [where mid = mid])+

lemma liability_exists: "u \<in> set (liability_ids mid s) \<Longrightarrow> u \<in> acc_id ` set (accounts s)"
  by (auto simp: liability_ids_def)

text \<open>The pools after a change that touches no liability account but \<open>l\<close>.\<close>

lemma pool_change:
  assumes "map acct_key (accounts s') = map acct_key (accounts s)" "ledger_wf s"
    and "liability_ids mid s = [l]" "\<And>u. bal s' u = bal s u + f u"
    and "\<And>u m. u \<noteq> l \<Longrightarrow> u \<in> set (liability_ids m s) \<Longrightarrow> f u = 0"
  shows "liability_balance m s' = liability_balance m s + (if m = mid then f l else 0)"
proof (cases "m = mid")
  case True
  then show ?thesis using assms(3,4) liability_ids_key [OF assms(1)] by (simp add: liability_balance_def)
next
  case False
  have "f u = 0" if u: "u \<in> set (liability_ids m s)" for u
  proof (rule assms(5) [OF _ u])
    show "u \<noteq> l" using False u assms(3) liability_ids_disjoint [OF assms(2) u, of mid] by auto
  qed
  then have "map (bal s') (liability_ids m s) = map (bal s) (liability_ids m s)" using assms(4) by simp
  with False show ?thesis
    by (simp only: liability_balance_def liability_ids_key [OF assms(1)] if_False add_0_right)
qed

subsection \<open>Ensuring the liability account\<close>

lemma find_filter: "List.find P xs = (case filter P xs of [] \<Rightarrow> None | x # _ \<Rightarrow> Some x)"
  by (induction xs) auto

lemma bal_opens: "opens a s s' \<Longrightarrow> bal s' u = bal s u"
  by (simp add: opens_def bal_def)

lemma ensure_effect:
  assumes "ensure_market_liability_account new_id mid s = Inr (l, s1)" "\<forall>m. length (liability_ids m s) \<le> 1"
  shows "ledger_steps s s1" "liability_ids mid s1 = [l]" "bal s1 u = bal s u"
    "ledger.more s1 = ledger.more s" "\<forall>m. length (liability_ids m s1) \<le> 1"
    "house_seeded s \<Longrightarrow> house_seeded s1"
    "\<forall>m. liability_balance m s1 = liability_balance m s"
    "transfers s1 = transfers s" "entries s1 = entries s"
proof -
  have "same_books s s1 \<and> liability_ids mid s = [l] \<and> ledger.more s1 = ledger.more s \<or>
    (\<exists>a. opens a s s1 \<and> liability_ids mid s = [] \<and> acc_id a = l \<and> is_liability_of mid a \<and> ledger.more s1 = ledger.more s)"
  proof (cases "filter (is_liability_of mid) (accounts s)")
    case Nil
    with assms(1) show ?thesis
      by (auto simp: ensure_market_liability_account_def find_filter Let_def insert_account_def opens_def
          liability_ids_def is_liability_of_def split: if_splits)
  next
    case (Cons a as)
    then have "as = []" using assms(2) [rule_format, of mid] by (simp add: liability_ids_def)
    with Cons assms(1) show ?thesis
      by (auto simp: ensure_market_liability_account_def find_filter Let_def same_books_def liability_ids_def)
  qed
  then consider (old) "same_books s s1" "liability_ids mid s = [l]" "ledger.more s1 = ledger.more s"
    | (new) a where "opens a s s1" "liability_ids mid s = []" "acc_id a = l" "is_liability_of mid a"
        "ledger.more s1 = ledger.more s" by blast
  then have "ledger_steps s s1 \<and> liability_ids mid s1 = [l] \<and> bal s1 u = bal s u
    \<and> ledger.more s1 = ledger.more s \<and> (\<forall>m. length (liability_ids m s1) \<le> 1)
    \<and> (house_seeded s \<longrightarrow> house_seeded s1) \<and> (\<forall>m. liability_balance m s1 = liability_balance m s)
    \<and> transfers s1 = transfers s \<and> entries s1 = entries s"
  proof cases
    case old
    then have "accounts s1 = accounts s" by (simp add: same_books_def)
    moreover from this have "liability_ids m s1 = liability_ids m s" "bal s1 = bal s" for m
      by (simp_all add: liability_ids_def bal_def fun_eq_iff)
    ultimately show ?thesis using old assms(2) ledger_steps_frame [OF old(1)]
      by (simp add: liability_balance_def house_seeded_def same_books_def)
  next
    case new
    have acc: "accounts s1 = accounts s @ [a]" using new(1) by (simp add: opens_def)
    have ids: "liability_ids m s1 = liability_ids m s @ (if m = mid then [l] else [])" for m
      using acc new(3,4) by (simp add: liability_ids_def is_liability_of_def)
    have b: "bal s1 v = bal s v" for v using bal_opens [OF new(1)] .
    have "acc_id a \<notin> acc_id ` set (accounts s)" using new(1) by (simp add: opens_def)
    then have "bal s l = 0" using new(3) by (simp add: bal_none)
    then have "liability_balance m s1 = liability_balance m s" for m
      using ext [of "bal s1" "bal s", OF b] by (simp add: liability_balance_def ids)
    moreover have "ledger_steps s s1" using ledger_step.open_account [OF new(1)] by blast
    ultimately show ?thesis
      using new(1,2,5) ids b assms(2) acc by (auto simp: house_seeded_def opens_def)
  qed
  then show "ledger_steps s s1" "liability_ids mid s1 = [l]" "bal s1 u = bal s u"
    "ledger.more s1 = ledger.more s" "\<forall>m. length (liability_ids m s1) \<le> 1"
    "house_seeded s \<Longrightarrow> house_seeded s1" "\<forall>m. liability_balance m s1 = liability_balance m s"
    "transfers s1 = transfers s" "entries s1 = entries s" by auto
qed

lemma ensure_platform:
  assumes "ensure_market_liability_account new_id mid s = Inr (l, s1)" "platform_ok s"
  shows "platform_ok s1"
proof -
  note p = assms(2) [unfolded platform_ok_def]
  note e = ensure_effect [OF assms(1)]
  have u: "\<forall>m. length (liability_ids m s) \<le> 1" using p by blast
  show ?thesis
    using p e(1) [OF u] e(4-7) [OF u] steps_books_ok [OF e(1) [OF u]] more_fields(1) [OF e(4) [OF u]]
    by (simp add: platform_ok_def pool_ok_def bets_ok_def pending_bets_def)
qed

subsection \<open>Placing a bet\<close>

lemma post_transfer_more: "post_transfer ids now kind key actor da ca amt md s = Inr (t, s') \<Longrightarrow> ledger.more s' = ledger.more s"
  by (cases ids) (auto dest!: post_transfer_Inr)

text \<open>The row a placement inserts.\<close>

definition placed_row :: "uuid \<Rightarrow> int \<Rightarrow> uuid \<Rightarrow> uuid \<Rightarrow> uuid \<Rightarrow> rat \<Rightarrow> rat \<Rightarrow> bet" where
  "placed_row b now u mid oc st od = \<lparr>bet_id = b, bet_user_id = u, bet_market_id = mid,
     bet_outcome_id = oc, stake = st, odds_at_placement = od, bet_status = BET_PENDING,
     bet_closed_at = None, exit_odds = None, bet_created_at = now\<rparr>"

lemma place_bet_tx_effect:
  assumes "place_bet_tx new_bet ids now u mid chosen stk l s = Inr (b, s')"
  shows "\<exists>w m od t. resolve_user_wallet_id u s = Inr w \<and> numeric_18_4 stk = Inr m
     \<and> numeric_8_6 (ov_price chosen) = Inr od \<and> 0 < m \<and> new_bet \<notin> bet_id ` set (bets s)
     \<and> b = placed_row new_bet now u mid (ov_id chosen) stk (ov_price chosen)
     \<and> posted TRANSFER_BET_PLACED None w l m t s s'
     \<and> bets s' = bets s @ [placed_row new_bet now u mid (ov_id chosen) m od]
     \<and> markets s' = markets s \<and> outcomes s' = outcomes s \<and> audit_log s' = audit_log s"
proof -
  let ?b = "placed_row new_bet now u mid (ov_id chosen) stk (ov_price chosen)"
  let ?s = "\<lambda>w. lock_accounts [w, l] (begin_tx s)"
  obtain w u1 t where w: "resolve_user_wallet_id u (begin_tx s) = Inr w"
    and ins: "insert_bet ?b (?s w) = Inr u1" and b: "b = ?b"
    and post: "post_transfer ids now TRANSFER_BET_PLACED None (Some u) w l stk
            (Some [(''bet_id'', JUuid new_bet), (''market_id'', JUuid mid),
                   (''outcome_id'', JUuid (ov_id chosen))]) u1 = Inr (t, s')"
    using assms by (auto simp: place_bet_tx_def Let_def placed_row_def split: if_splits)
  obtain m od where m: "numeric_18_4 stk = Inr m" "numeric_8_6 (ov_price chosen) = Inr od" "0 < m"
    and fresh: "new_bet \<notin> bet_id ` set (bets (?s w))"
    and u1: "u1 = (?s w)\<lparr>bets := bets (?s w) @ [placed_row new_bet now u mid (ov_id chosen) m od]\<rparr>"
    using ins by (auto simp: insert_bet_Inr placed_row_def)
  note f = more_fields [of "?s w" s, simplified] and g = more_fields [OF post_transfer_more [OF post]]
  have "same_books s u1" by (simp add: u1 same_books_def)
  then obtain m' where "numeric_18_4 stk = Inr m'" "posted TRANSFER_BET_PLACED None w l m' t s s'"
    using post_transfer_posted [OF post] posted_frame by blast
  with m(1) have p: "posted TRANSFER_BET_PLACED None w l m t s s'" by simp
  have "resolve_user_wallet_id u s = Inr w" using w by (simp add: resolve_frame [of "begin_tx s" s])
  with m fresh b p show ?thesis using f g by (auto simp: u1)
qed

lemma pending_bets_append:
  "bets s' = bets s @ [r] \<Longrightarrow> bet_status r = BET_PENDING \<Longrightarrow>
     sum_list (map stake (pending_bets m s')) = sum_list (map stake (pending_bets m s))
       + (if m = bet_market_id r then stake r else 0)"
  by (simp add: pending_bets_def)

lemma place_bet_tx_platform:
  assumes tx: "place_bet_tx new_bet ids now u mid chosen stk l s = Inr (b, s')"
    and ok: "platform_ok s" and l: "liability_ids mid s = [l]"
  shows "platform_ok s'"
proof -
  note p = ok [unfolded platform_ok_def] and wf = platform_wf [OF ok]
  obtain w m od t where e: "resolve_user_wallet_id u s = Inr w" "numeric_18_4 stk = Inr m"
     "numeric_8_6 (ov_price chosen) = Inr od" "0 < m" "new_bet \<notin> bet_id ` set (bets s)"
     "posted TRANSFER_BET_PLACED None w l m t s s'"
     "bets s' = bets s @ [placed_row new_bet now u mid (ov_id chosen) m od]"
    using place_bet_tx_effect [OF tx] by blast
  note keys = posted_transfers(2) [OF e(6)]
  have ids: "liability_ids k s' = liability_ids k s" for k by (rule liability_ids_key [OF keys])
  have wl: "w \<notin> set (liability_ids k s)" for k using wallet_not_liability [OF wf e(1)] .
  have "w \<noteq> l" using wl [of mid] l by auto
  have bal': "bal s' v = bal s v + ((if v = l then m else 0) - (if v = w then m else 0))" for v
    using posted_bal [OF e(6) wf, of v] by simp
  have "liability_balance k s' = liability_balance k s + (if k = mid then m else 0)" for k
  proof -
    have "liability_balance k s' = liability_balance k s
        + (if k = mid then (if l = l then m else 0) - (if l = w then m else 0) else 0)"
      by (rule pool_change [OF keys wf l bal']) (use wl in auto)
    then show ?thesis using \<open>w \<noteq> l\<close> by simp
  qed
  then have "pool_ok s'"
    using p pending_bets_append [OF e(7)] by (simp add: pool_ok_def placed_row_def)
  moreover have "bets_ok s'"
    using p e(2-5) numeric_18_4_is_money [OF e(2)] numeric_8_6_is_odds [OF e(3)]
    by (auto simp: bets_ok_def e(7) placed_row_def bet_status_check_def)
  moreover have "books_ok s'" using p posted_step [OF e(6)] by (blast intro: steps_books_ok)
  ultimately show ?thesis
    using p house_seeded_key [OF keys] ids by (simp add: platform_ok_def)
qed

text \<open>The ways a placement ends, by where it stopped.\<close>

lemma place_bet_cases:
  assumes "place_bet limits get_market na nb ids now u mid oc stk s = (r, s')"
  obtains (rejected) e where "r = Inl e" "s' = s"
  | (tx) m chosen l s1 where "get_market s mid = Some m" "is_open m now" "view_outcome m oc = Some chosen"
      "0 < stk" "ensure_market_liability_account na mid s = Inr (l, s1)"
      "(case mv_min_stake m of Some x \<Rightarrow> x | None \<Rightarrow> fst limits) \<le> stk"
      "stk \<le> (case mv_max_stake m of Some x \<Rightarrow> x | None \<Rightarrow> snd limits)"
      "(case place_bet_tx nb ids now u mid chosen stk l s1 of Inl e \<Rightarrow> (Inl e, s1) | Inr (b, s2) \<Rightarrow> (Inr b, s2)) = (r, s')"
  using assms unfolding place_bet_def Let_def
  by (auto simp: not_le split: if_splits option.splits sum.splits prod.splits)

lemma place_bet_platform:
  assumes "place_bet limits get_market na nb ids now u mid oc stk s = (r, s')" "platform_ok s"
  shows "platform_ok s'"
  using assms(1)
proof (cases rule: place_bet_cases)
  case (tx m chosen l s1)
  have u1: "\<forall>k. length (liability_ids k s) \<le> 1" using assms(2) by (simp add: platform_ok_def)
  have ok1: "platform_ok s1" by (rule ensure_platform [OF tx(5) assms(2)])
  note l = ensure_effect(2) [OF tx(5) u1]
  show ?thesis
  proof (cases "place_bet_tx nb ids now u mid chosen stk l s1")
    case (Inl e) then show ?thesis using tx(8) ok1 by simp
  next
    case (Inr bs)
    obtain b s2 where bs: "bs = (b, s2)" by (cases bs)
    then have "place_bet_tx nb ids now u mid chosen stk l s1 = Inr (b, s2)" "s' = s2"
      using Inr tx(8) by simp_all
    then show ?thesis using place_bet_tx_platform [OF _ ok1 l] by blast
  qed
qed (simp add: assms(2))

text \<open>
  C3: placing a bet is atomic.  On success exactly one pending bet is recorded, with the stake and
  the chosen outcome's current price in the columns' precision, the market was open and the stake
  within the limits and the balance, and exactly that stake moved from the player's wallet to the
  market's liability account; on any error no bet is recorded and no balance, transfer or entry
  changes.  The platform invariant holds in both cases.
\<close>

theorem place_bet_atomic:
  assumes "place_bet limits get_market na nb ids now u mid oc stk s = (r, s')" "platform_ok s"
  shows "platform_ok s' \<and> (case r of
     Inl e \<Rightarrow> bets s' = bets s \<and> transfers s' = transfers s \<and> entries s' = entries s \<and> bal s' = bal s
   | Inr b \<Rightarrow> (\<exists>m chosen w l st od t.
       get_market s mid = Some m \<and> is_open m now \<and> view_outcome m oc = Some chosen
     \<and> (case mv_min_stake m of Some x \<Rightarrow> x | None \<Rightarrow> fst limits) \<le> stk
     \<and> stk \<le> (case mv_max_stake m of Some x \<Rightarrow> x | None \<Rightarrow> snd limits)
     \<and> numeric_18_4 stk = Inr st \<and> 0 < st \<and> numeric_8_6 (ov_price chosen) = Inr od
     \<and> bets s' = bets s @ [placed_row nb now u mid (ov_id chosen) st od]
     \<and> resolve_user_wallet_id u s' = Inr w \<and> resolve_market_liability_id mid s' = Inr l \<and> w \<noteq> l
     \<and> transfers s' = transfers s @ [t] \<and> tr_kind t = TRANSFER_BET_PLACED
     \<and> (\<forall>a. bal s' a = bal s a - (if a = w then st else 0) + (if a = l then st else 0))))"
  using assms(1)
proof (cases rule: place_bet_cases)
  case rejected
  with assms(2) show ?thesis by simp
next
  case (tx m chosen l s1)
  have "\<forall>k. length (liability_ids k s) \<le> 1" using assms(2) by (simp add: platform_ok_def)
  note e = ensure_effect [OF tx(5) this]
  have ok1: "platform_ok s1" by (rule ensure_platform [OF tx(5) assms(2)])
  note f = more_fields [OF e(4)]
  have b1: "bal s1 = bal s" using e(3) by (rule ext)
  show ?thesis
  proof (cases "place_bet_tx nb ids now u mid chosen stk l s1")
    case (Inl err)
    then have "r = Inl err" "s' = s1" using tx(8) by simp_all
    with ok1 f b1 e(8,9) show ?thesis by simp
  next
    case (Inr bs)
    then obtain b where b: "place_bet_tx nb ids now u mid chosen stk l s1 = Inr (b, s')" "r = Inr b"
      using tx(8) by (cases bs) simp
    obtain w st od t where t: "resolve_user_wallet_id u s1 = Inr w" "numeric_18_4 stk = Inr st"
     "numeric_8_6 (ov_price chosen) = Inr od" "0 < st" "posted TRANSFER_BET_PLACED None w l st t s1 s'"
     "bets s' = bets s1 @ [placed_row nb now u mid (ov_id chosen) st od]"
      using place_bet_tx_effect [OF b(1)] by blast
    note k = posted_transfers [OF t(5)]
    have "resolve_user_wallet_id u s' = Inr w" using resolve_user_wallet_key [OF k(2)] t(1) by simp
    moreover have "resolve_market_liability_id mid s' = Inr l"
      using liability_ids_key [OF k(2), of mid] e(2) by (simp add: resolve_liability_ids)
    moreover have "w \<noteq> l" using wallet_not_liability [OF platform_wf [OF ok1] t(1), of mid] e(2) by auto
    moreover have "platform_ok s'" by (rule place_bet_tx_platform [OF b(1) ok1 e(2)])
    ultimately show ?thesis
      using tx t f k b(2) e(8) b1 posted_bal [OF t(5) platform_wf [OF ok1]] by auto
  qed
qed

subsection \<open>A sample platform\<close>

definition demo_db :: db where
  "demo_db = \<lparr>accounts = accounts demo_ledger, transfers = transfers demo_ledger,
     entries = entries demo_ledger, row_locks = [], audit_log = [],
     markets = [\<lparr>mk_id = 3, question = ''q'', mk_slug = ''q-000000'', resolution_criteria = ''c'',
       mk_category = None, mk_source = HOUSE, source_market_id = None, condition_id = None,
       polymarket_slug = None, volume = 0, volume_24hr = 0, mk_status = OPEN, deadline = 1000,
       bet_count = 0, mk_created_at = 0, mk_closed_at = None, resolved_at = None,
       uma_resolved_at = None, winning_outcome_id = None, resolution_source = None,
       resolution_justification = None, min_stake = None, max_stake = None, group_id = None,
       group_item_title = None\<rparr>],
     market_groups = [],
     outcomes = [\<lparr>oc_id = 8, oc_market_id = 3, label = ''YES'', initial_odds = 3/10, current_odds = 3/10\<rparr>,
       \<lparr>oc_id = 9, oc_market_id = 3, label = ''NO'', initial_odds = 7/10, current_odds = 7/10\<rparr>],
     odds_snapshots = [], bets = []\<rparr>"

definition demo_gen :: "uuid \<Rightarrow> nat \<Rightarrow> post_ids" where
  "demo_gen base n = (base + of_nat (3 * n), base + of_nat (3 * n + 1), base + of_nat (3 * n + 2))"

abbreviation "demo_limits \<equiv> (1 :: rat, 100000 :: rat)"

lemma demo_db_ok: "platform_ok demo_db"
proof -
  have "ledger_wf demo_db" "reconciled_except {HOUSE_PROMO_ACCOUNT_ID} demo_db" "house_seeded demo_db" by code_simp+
  moreover have "double_entry demo_db"
    by (simp add: double_entry_def demo_db_def demo_ledger_def)
  moreover have "liability_ids m demo_db = []" for m
    by (simp add: liability_ids_def demo_db_def demo_ledger_def demo_account_def is_liability_of_def)
  ultimately show ?thesis
    by (simp add: platform_ok_def books_ok_def pool_ok_def liability_balance_def pending_bets_def bets_ok_def)
      (simp add: demo_db_def)
qed

definition demo_transfer :: "uuid \<Rightarrow> string \<Rightarrow> string option \<Rightarrow> uuid option \<Rightarrow> json_object \<Rightarrow> int \<Rightarrow> transfer" where
  "demo_transfer i k key actor md t = \<lparr>tr_id = i, tr_kind = k, idempotency_key = key,
     actor_user_id = actor, tr_metadata = md, tr_created_at = t\<rparr>"

text \<open>The two entries of a transfer whose entry ids follow its own.\<close>

definition demo_entries :: "uuid \<Rightarrow> uuid \<Rightarrow> uuid \<Rightarrow> rat \<Rightarrow> int \<Rightarrow> entry list" where
  "demo_entries i d c m t =
     [\<lparr>en_id = i + 1, en_transfer = i, en_account = d, direction = Debit, amount = m, en_created_at = t\<rparr>,
      \<lparr>en_id = i + 2, en_transfer = i, en_account = c, direction = Credit, amount = m, en_created_at = t\<rparr>]"

definition demo_bet :: "string \<Rightarrow> bet" where
  "demo_bet st = \<lparr>bet_id = 0x50, bet_user_id = 5, bet_market_id = 3, bet_outcome_id = 8, stake = 40,
     odds_at_placement = 3/10, bet_status = st, bet_closed_at = None, exit_odds = None, bet_created_at = 10\<rparr>"

text \<open>The state after a bet of 40 at 3/10.\<close>

definition demo_bet_db :: db where
  "demo_bet_db = demo_db\<lparr>
     accounts := [demo_account HOUSE_PROMO_ACCOUNT_ID OWNER_SYSTEM None KIND_HOUSE_PROMO 999999900,
       demo_account HOUSE_REVENUE_ACCOUNT_ID OWNER_SYSTEM None KIND_HOUSE_REVENUE 0,
       (demo_account 1 OWNER_USER (Some 5) KIND_USER_WALLET 60)\<lparr>version := 1\<rparr>,
       demo_account 0x60 OWNER_MARKET (Some 3) KIND_MARKET_LIABILITY 40],
     transfers := transfers demo_ledger @ [demo_transfer 0x20 TRANSFER_BET_PLACED None (Some 5)
       [(''bet_id'', JUuid 0x50), (''market_id'', JUuid 3), (''outcome_id'', JUuid 8)] 10],
     entries := entries demo_ledger @ demo_entries 0x20 1 0x60 40 10,
     row_locks := [AccountRow 1, AccountRow 0x60],
     bets := [demo_bet BET_PENDING]\<rparr>"

lemma demo_placed: "place_bet demo_limits house_get_market 0x60 0x50 (0x20, 0x21, 0x22) 10 5 3 8 40 demo_db
    = (Inr (demo_bet BET_PENDING), demo_bet_db)"
  by code_simp

lemma demo_bet_db_ok: "platform_ok demo_bet_db"
  by (rule place_bet_platform [OF demo_placed demo_db_ok])

lemma place_bet_atomic_witness:
  "length (bets demo_bet_db) = 1
   \<and> (\<exists>w l. resolve_user_wallet_id 5 demo_bet_db = Inr w \<and> resolve_market_liability_id 3 demo_bet_db = Inr l \<and> w \<noteq> l)"
proof -
  from place_bet_atomic [OF demo_placed demo_db_ok] have "length (bets demo_bet_db) = Suc (length (bets demo_db))"
    "\<exists>w l. resolve_user_wallet_id 5 demo_bet_db = Inr w \<and> resolve_market_liability_id 3 demo_bet_db = Inr l \<and> w \<noteq> l"
    by auto
  then show ?thesis by (simp add: demo_db_def)
qed

end
