(* ===== verification/Close.thy ===== *)
theory Close
  imports Pool
begin

text \<open>
  The early close of a position (\<open>BetService.sell_position\<close>): what it pays, which balances it moves,
  and that the pool of the market and the books stay consistent.
\<close>

subsection \<open>Pending stakes and row updates\<close>

definition pend :: "uuid \<Rightarrow> bet \<Rightarrow> rat" where
  "pend m b = (if bet_market_id b = m \<and> bet_status b = BET_PENDING then stake b else 0)"

lemma pending_sum: "sum_list (map stake (pending_bets m s)) = sum_list (map (pend m) (bets s))"
proof -
  have "sum_list (map stake (filter (\<lambda>b. bet_market_id b = m \<and> bet_status b = BET_PENDING) bs))
      = sum_list (map (pend m) bs)" for bs
    by (induction bs) (simp_all add: pend_def)
  then show ?thesis by (simp add: pending_bets_def)
qed

lemma pending_sum_update:
  assumes "distinct (map bet_id (bets s))" "b \<in> set (bets s)"
  shows "sum_list (map stake (pending_bets m (update_bet_row (bet_id b) f s)))
       = sum_list (map stake (pending_bets m s)) + (pend m (f b) - pend m b)"
  using sum_list_update_where [OF assms, of "pend m" f]
  by (simp add: pending_sum update_bet_row_def)

lemma scalar_bet: "bets_ok s \<Longrightarrow> scalar_one_or_none (filter (\<lambda>b. bet_id b = i) (bets s)) = Inr (Some b) \<Longrightarrow>
    b \<in> set (bets s) \<and> bet_id b = i"
  using set_filter [of "\<lambda>b. bet_id b = i" "bets s"] by (auto simp: scalar_one_or_none_Inr)

subsection \<open>The cash-out amount\<close>

lemma dec_round_abs: "\<bar>dec_round q\<bar> \<le> 2 * \<bar>q\<bar>"
proof -
  have "\<bar>dec_round q - q\<bar> \<le> \<bar>q\<bar> * 5 / 10 ^ 28" by (rule dec_round_error)
  also have "\<dots> \<le> \<bar>q\<bar>" by (simp add: mult_left_le)
  finally show ?thesis by linarith
qed

lemma dec_round_nonneg: "0 \<le> q \<Longrightarrow> 0 \<le> dec_round q"
proof -
  assume q: "0 \<le> q"
  have "\<bar>dec_round q - q\<bar> \<le> \<bar>q\<bar> * 5 / 10 ^ 28" by (rule dec_round_error)
  also have "\<dots> \<le> \<bar>q\<bar>" by (simp add: mult_left_le)
  finally show ?thesis using q by linarith
qed

text \<open>Whatever price a port reports, a successful cash-out value is a non-negative money amount.\<close>

lemma cashout_quantum:
  assumes "cashout_value st en cur = Inr p" "is_money st" "is_odds en"
  shows "is_quantum p" "0 \<le> p"
proof -
  have g: "0 < st" "0 < en" "en \<le> 1" "0 \<le> cur" "cur \<le> 1"
    and q: "quantize_money (dec_div (dec_mul st cur) en) = Inr p"
    using assms(1) by (simp_all add: cashout_value_def not_le split: if_splits)
  define v where "v = dec_div (dec_mul st cur) en"
  have "valid_position st en" using assms g by (simp add: valid_position_def)
  then have b: "st / en \<le> 10 ^ 20" using payout_bound by blast
  have m: "0 \<le> dec_mul st cur" unfolding dec_mul_def using g by (intro dec_round_nonneg) simp
  have v0: "0 \<le> v" unfolding v_def dec_div_def using m g by (intro dec_round_nonneg) simp
  have "st * cur \<le> st" using g by (simp add: mult_left_le)
  moreover have "dec_mul st cur \<le> 2 * (st * cur)"
    using dec_round_abs [of "st * cur"] g m by (simp add: dec_mul_def abs_mult)
  ultimately have "dec_mul st cur \<le> 2 * st" by linarith
  then have "dec_mul st cur / en \<le> 2 * (st / en)" using g by (simp add: divide_right_mono)
  then have "v \<le> 4 * 10 ^ 20"
    using dec_round_abs [of "dec_mul st cur / en"] m g b v0 by (simp add: v_def dec_div_def)
  moreover have p: "p = to_cents v"
    using q by (auto simp: quantize_money_def to_cents_def v_def Let_def split: if_splits)
  moreover have "\<bar>to_cents v - v\<bar> \<le> 1" using to_cents_error [of v] by (rule order_trans) simp
  moreover show "0 \<le> p" using to_cents_mono [OF v0] p by simp
  ultimately have "\<bar>p\<bar> < 10 ^ 21" by simp
  then show "is_quantum p" unfolding is_quantum_iff by (auto simp: p to_cents_def)
qed

lemma close_specs_net:
  assumes "is_quantum payout" "0 \<le> payout" "is_quantum st" "0 < st" "st < 10 ^ 14"
  shows "\<forall>sp \<in> set (close_specs b l w st payout). is_quantum (spec_amount sp)
       \<and> spec_debit sp \<in> {l, HOUSE_PROMO_ACCOUNT_ID} \<and> spec_credit sp \<in> {w, HOUSE_REVENUE_ACCOUNT_ID}"
    and "net a (close_specs b l w st payout) =
       (if a = w then payout else 0) - (if a = l then st else 0)
       - (if a = HOUSE_PROMO_ACCOUNT_ID then max 0 (payout - st) else 0)
       + (if a = HOUSE_REVENUE_ACCOUNT_ID then max 0 (st - payout) else 0)"
proof -
  have sm: "\<bar>payout - st\<bar> < 10 ^ 21" using assms by (auto simp: is_quantum_def abs_if)
  have m: "is_quantum (- x)" if "is_quantum x" for x
  proof -
    obtain n where "x * 10000 = of_int n" "\<bar>x\<bar> < 10 ^ 21" using \<open>is_quantum x\<close> unfolding is_quantum_iff by blast
    then have "- x * 10000 = of_int (- n)" "\<bar>- x\<bar> < 10 ^ 21" by simp_all
    then show ?thesis unfolding is_quantum_iff by blast
  qed
  have d: "dec_sub payout st = payout - st" "is_quantum (payout - st)"
    using dec_add_exact [OF assms(1) m [OF assms(3)]] sm by (simp_all add: dec_add_def dec_sub_def)
  have d': "dec_sub st payout = st - payout" "is_quantum (st - payout)"
    using dec_add_exact [OF assms(3) m [OF assms(1)]] sm by (simp_all add: dec_add_def dec_sub_def abs_minus_commute)
  show "\<forall>sp \<in> set (close_specs b l w st payout). is_quantum (spec_amount sp)
       \<and> spec_debit sp \<in> {l, HOUSE_PROMO_ACCOUNT_ID} \<and> spec_credit sp \<in> {w, HOUSE_REVENUE_ACCOUNT_ID}"
    using assms d d' by (auto simp: close_specs_def Let_def)
  show "net a (close_specs b l w st payout) =
       (if a = w then payout else 0) - (if a = l then st else 0)
       - (if a = HOUSE_PROMO_ACCOUNT_ID then max 0 (payout - st) else 0)
       + (if a = HOUSE_REVENUE_ACCOUNT_ID then max 0 (st - payout) else 0)"
    using assms d d' by (auto simp: close_specs_def Let_def spec_net_def max_def)
qed

subsection \<open>The effect of a close\<close>

lemma sell_position_effect:
  assumes "sell_position get_market gen now i u s = Inr (cr, s')" "bets_ok s"
  shows "\<exists>b m chosen w l u1. b \<in> set (bets s) \<and> bet_id b = i \<and> bet_user_id b = u \<and> bet_status b = BET_PENDING
     \<and> get_market (lock_row (BetRow i) (begin_tx s)) (bet_market_id b) = Some m \<and> is_open m now
     \<and> view_outcome m (bet_outcome_id b) = Some chosen
     \<and> cashout_value (stake b) (odds_at_placement b) (ov_price chosen) = Inr (cr_payout cr)
     \<and> profit_or_loss (stake b) (cr_payout cr) = Inr (cr_pnl cr)
     \<and> resolve_user_wallet_id u s = Inr w \<and> liability_ids (bet_market_id b) s = [l]
     \<and> post_specs close_idempotency_key gen now (Some u) (Some (bet_market_id b))
         (close_specs i l w (stake b) (cr_payout cr))
         (lock_touched (close_specs i l w (stake b) (cr_payout cr)) (lock_row (BetRow i) (begin_tx s))) = Inr u1
     \<and> (\<exists>x. numeric_8_6 (ov_price chosen) = Inr x
         \<and> s' = update_bet_row i (\<lambda>b. b\<lparr>bet_status := BET_CLOSED, bet_closed_at := Some now, exit_odds := Some x\<rparr>) u1)
     \<and> cr_exit_odds cr = ov_price chosen \<and> balance_of w s' = Inr (cr_new_balance cr)"
proof -
  obtain b0 where f: "scalar_one_or_none (filter (\<lambda>b. bet_id b = i) (bets s)) = Inr (Some b0)"
    using assms(1) by (auto simp: sell_position_def split: option.splits)
  then have one: "filter (\<lambda>b. bet_id b = i) (bets s) = [b0]" by (auto simp: scalar_one_or_none_Inr)
  have mem: "b0 \<in> set (bets s)" "bet_id b0 = i" using scalar_bet [OF assms(2) f] by auto
  have res: "resolve_user_wallet_id u (lock_row (BetRow i) (begin_tx s)) = resolve_user_wallet_id u s"
    "resolve_market_liability_id m (lock_row (BetRow i) (begin_tx s)) = resolve_market_liability_id m s" for m
    by (rule resolve_frame) (simp_all add: resolve_market_liability_id_def)
  show ?thesis
    using assms(1) mem unfolding sell_position_def one
    by (auto simp: Let_def res resolve_liability_ids split: option.splits if_splits)
qed

lemma wallet_not_house:
  assumes "ledger_wf s" "house_seeded s" "resolve_user_wallet_id u s = Inr w"
  shows "w \<noteq> HOUSE_PROMO_ACCOUNT_ID" "w \<noteq> HOUSE_REVENUE_ACCOUNT_ID"
proof -
  obtain a where a: "a \<in> set (accounts s)" "acc_id a = w" "owner_type a = OWNER_USER"
    using assms(3) by (auto simp: resolve_user_wallet_id_def dest!: scalar_one_filter_mem)
  have "acc_id b = w \<Longrightarrow> b = a" if "b \<in> set (accounts s)" for b
    using assms(1) a that by (auto simp: ledger_wf_def dest: distinct_key_eq)
  with a(3) assms(2) show "w \<noteq> HOUSE_PROMO_ACCOUNT_ID" "w \<noteq> HOUSE_REVENUE_ACCOUNT_ID"
    unfolding house_seeded_def by auto
qed

lemma house_ids_differ [simp]: "HOUSE_PROMO_ACCOUNT_ID \<noteq> HOUSE_REVENUE_ACCOUNT_ID"
  by (simp add: HOUSE_PROMO_ACCOUNT_ID_def HOUSE_REVENUE_ACCOUNT_ID_def)

lemma bets_ok_update:
  assumes "bets_ok s" "\<And>b. bet_id (f b) = bet_id b \<and> stake (f b) = stake b
     \<and> odds_at_placement (f b) = odds_at_placement b" "\<And>b. bet_status_check (bet_status (f b))"
  shows "bets_ok (update_bet_row i f s)"
  using assms by (auto simp: bets_ok_def update_bet_row_def map_update_where_same set_update_where)

text \<open>The exact balances after a close, and the invariant.\<close>

lemma sell_position_posted:
  assumes "sell_position get_market gen now i u s = Inr (cr, s')" "platform_ok s"
  shows "\<exists>b w l x. b \<in> set (bets s) \<and> bet_id b = i \<and> bet_user_id b = u \<and> bet_status b = BET_PENDING
     \<and> resolve_user_wallet_id u s = Inr w \<and> resolve_market_liability_id (bet_market_id b) s = Inr l
     \<and> bets s' = update_where (\<lambda>b. bet_id b = i)
         (\<lambda>b. b\<lparr>bet_status := BET_CLOSED, bet_closed_at := Some now, exit_odds := Some x\<rparr>) (bets s)
     \<and> cr_pnl cr = cr_payout cr - stake b \<and> 0 \<le> cr_payout cr \<and> cr_new_balance cr = bal s' w
     \<and> cashout_value (stake b) (odds_at_placement b) (cr_exit_odds cr) = Inr (cr_payout cr)
     \<and> (\<forall>a. bal s' a = bal s a + (if a = w then cr_payout cr else 0) - (if a = l then stake b else 0)
           - (if a = HOUSE_PROMO_ACCOUNT_ID then max 0 (cr_payout cr - stake b) else 0)
           + (if a = HOUSE_REVENUE_ACCOUNT_ID then max 0 (stake b - cr_payout cr) else 0))
     \<and> platform_ok s'"
proof -
  note P = assms(2) [unfolded platform_ok_def] and wf = platform_wf [OF assms(2)]
  have bok: "bets_ok s" using P by blast
  obtain b and chosen :: outcome_view and w l u1 x where b: "b \<in> set (bets s)" "bet_id b = i" "bet_user_id b = u" "bet_status b = BET_PENDING"
    and cash: "cashout_value (stake b) (odds_at_placement b) (ov_price chosen) = Inr (cr_payout cr)"
    and pnl: "profit_or_loss (stake b) (cr_payout cr) = Inr (cr_pnl cr)"
    and w: "resolve_user_wallet_id u s = Inr w" and l: "liability_ids (bet_market_id b) s = [l]"
    and post: "post_specs close_idempotency_key gen now (Some u) (Some (bet_market_id b))
         (close_specs i l w (stake b) (cr_payout cr))
         (lock_touched (close_specs i l w (stake b) (cr_payout cr)) (lock_row (BetRow i) (begin_tx s))) = Inr u1"
    and s': "s' = update_bet_row i (\<lambda>b. b\<lparr>bet_status := BET_CLOSED, bet_closed_at := Some now, exit_odds := Some x\<rparr>) u1"
    and cr: "cr_exit_odds cr = ov_price chosen" "balance_of w s' = Inr (cr_new_balance cr)"
    using sell_position_effect [OF assms(1) bok] by blast
  have st: "is_money (stake b)" "0 < stake b" "is_odds (odds_at_placement b)"
    using bok b(1) by (auto simp: bets_ok_def)
  have st': "is_quantum (stake b)" "stake b < 10 ^ 14"
    using st by (auto simp: is_money_quantum is_money_def abs_less_iff)
  note pay = cashout_quantum [OF cash st(1,3)]
  have "\<bar>cr_payout cr - stake b\<bar> < 10 ^ 21" using pay st st' by (auto simp: is_quantum_def abs_if)
  then have pl: "cr_pnl cr = cr_payout cr - stake b" using pnl profit_or_loss_exact [OF pay(1) st'(1)] by simp
  note cs = close_specs_net [OF pay st'(1) st(2) st'(2)]
  let ?specs = "close_specs i l w (stake b) (cr_payout cr)"
  let ?v = "lock_touched ?specs (lock_row (BetRow i) (begin_tx s))"
  have frame: "same_books s ?v" "ledger.more ?v = ledger.more s" by (simp_all add: same_books_def lock_touched_def)
  have q: "\<forall>sp \<in> set ?specs. is_quantum (spec_amount sp)" using cs(1) by blast
  note e = post_specs_effect [OF post frame(1) wf q]
  have bu: "bets u1 = bets s" using more_fields(1) [of u1 s] e(2) frame(2) by simp
  have sb: "same_books u1 s'" by (simp add: s')
  have keys: "map acct_key (accounts s') = map acct_key (accounts s)"
    using e(4) by (simp add: s' update_bet_row_def)
  have bl: "bal s' a = bal s a + net a ?specs" for a
    using e(3) bal_same_books [OF sb] by simp
  have house: "HOUSE_PROMO_ACCOUNT_ID \<notin> set (liability_ids k s)" "HOUSE_REVENUE_ACCOUNT_ID \<notin> set (liability_ids k s)"
    "w \<notin> set (liability_ids k s)" for k
    using house_not_liability [OF wf] wallet_not_liability [OF wf w] P by blast+
  have ne: "l \<noteq> w" "l \<noteq> HOUSE_PROMO_ACCOUNT_ID" "l \<noteq> HOUSE_REVENUE_ACCOUNT_ID"
    using house [of "bet_market_id b"] l by auto
  have "liability_balance k s' = liability_balance k s + (if k = bet_market_id b then net l ?specs else 0)" for k
  proof (rule pool_change [OF keys wf l bl])
    fix v j assume v: "v \<noteq> l" "v \<in> set (liability_ids j s)"
    then have "v \<noteq> w" "v \<noteq> HOUSE_PROMO_ACCOUNT_ID" "v \<noteq> HOUSE_REVENUE_ACCOUNT_ID" using house by auto
    with v(1) show "net v ?specs = 0" by (simp add: cs(2))
  qed
  moreover have "net l ?specs = - stake b" using ne by (simp add: cs(2))
  moreover have "sum_list (map stake (pending_bets k s')) = sum_list (map stake (pending_bets k s))
      + (if k = bet_market_id b then - stake b else 0)" for k
    using pending_sum_update [of u1 b k "\<lambda>b. b\<lparr>bet_status := BET_CLOSED, bet_closed_at := Some now, exit_odds := Some x\<rparr>"]
      bok b by (simp add: s' bu bets_ok_def pend_def pending_bets_def)
  ultimately have "pool_ok s'" using P by (simp add: pool_ok_def)
  moreover have "bets_ok s'" unfolding s'
    using bok by (intro bets_ok_update) (simp_all add: bets_ok_def bu bet_status_check_def)
  moreover have "books_ok s'"
    using P ledger_steps_trans [OF e(1) ledger_steps_frame [OF sb]] by (blast intro: steps_books_ok)
  ultimately have ok: "platform_ok s'"
    using P house_seeded_key [OF keys] liability_ids_key [OF keys] by (simp add: platform_ok_def)
  have nb: "cr_new_balance cr = bal s' w" using cr(2) balance_of_bal by blast
  have bals: "\<forall>a. bal s' a = bal s a + (if a = w then cr_payout cr else 0) - (if a = l then stake b else 0)
           - (if a = HOUSE_PROMO_ACCOUNT_ID then max 0 (cr_payout cr - stake b) else 0)
           + (if a = HOUSE_REVENUE_ACCOUNT_ID then max 0 (stake b - cr_payout cr) else 0)"
    unfolding bl cs(2) by simp
  have bs: "bets s' = update_where (\<lambda>b. bet_id b = i)
         (\<lambda>b. b\<lparr>bet_status := BET_CLOSED, bet_closed_at := Some now, exit_odds := Some x\<rparr>) (bets s)"
    by (simp add: s' update_bet_row_def bu)
  have lr: "resolve_market_liability_id (bet_market_id b) s = Inr l" using l by (simp add: resolve_liability_ids)
  have "cashout_value (stake b) (odds_at_placement b) (cr_exit_odds cr) = Inr (cr_payout cr)" using cash cr(1) by simp
  with b w lr bs pl pay(2) nb bals ok show ?thesis by blast
qed

lemma sell_position_platform:
  "sell_position get_market gen now i u s = Inr (cr, s') \<Longrightarrow> platform_ok s \<Longrightarrow> platform_ok s'"
  using sell_position_posted by blast



end
