(* ===== verification/Settlement.thy ===== *)
theory Settlement
  imports Close
begin

text \<open>
  \<open>SettlementService\<close> (\<open>settlement/service.py\<close>): resolving a market and reversing a settlement,
  over the market-resolve port of \<open>settlement/market_port.py\<close>, with the adapter of
  \<open>settlement/adapters.py\<close> as its implementation.
\<close>

subsection \<open>Constants (\<open>settlement/constants.py\<close>)\<close>

abbreviation "TRANSFER_SETTLE_STAKE_RETURN \<equiv> ''settle_stake_return''"
abbreviation "TRANSFER_SETTLE_WINNINGS \<equiv> ''settle_winnings''"
abbreviation "TRANSFER_SETTLE_LOSS \<equiv> ''settle_loss''"
abbreviation "TRANSFER_REVERSE_STAKE_RETURN \<equiv> ''reverse_stake_return''"
abbreviation "TRANSFER_REVERSE_WINNINGS \<equiv> ''reverse_winnings''"
abbreviation "TRANSFER_REVERSE_LOSS \<equiv> ''reverse_loss''"

definition settle_idempotency_key :: "uuid \<Rightarrow> string \<Rightarrow> string" where
  "settle_idempotency_key b leg = ''settle:'' @ uuid_str b @ '':'' @ leg"

definition reverse_idempotency_key :: "uuid \<Rightarrow> string \<Rightarrow> string" where
  "reverse_idempotency_key b leg = ''reverse:'' @ uuid_str b @ '':'' @ leg"

subsection \<open>The resolve port and its house adapter\<close>

record 's resolve_port =
  mark_resolved :: "uuid \<Rightarrow> uuid \<Rightarrow> string \<Rightarrow> string \<Rightarrow> 's \<Rightarrow> 's result"
  mark_unresolved :: "uuid \<Rightarrow> 's \<Rightarrow> 's result"

definition house_mark_resolved ::
  "int \<Rightarrow> uuid \<Rightarrow> uuid \<Rightarrow> string \<Rightarrow> string \<Rightarrow> 'a db_scheme \<Rightarrow> 'a db_scheme result" where
  "house_mark_resolved now mid winner src justification s = (case get_market_row mid s of
     None \<Rightarrow> Inl NoResultFound
   | Some m \<Rightarrow>
       if mk_status m = CANCELLED then Inl (ValueError ''cannot resolve CANCELLED market'')
       else if mk_status m = RESOLVED then Inr s
       else Inr (update_market_row mid (\<lambda>m. m\<lparr>mk_status := RESOLVED, resolved_at := Some now,
              winning_outcome_id := Some winner, resolution_source := Some src,
              resolution_justification := Some justification\<rparr>) s))"

definition house_mark_unresolved :: "uuid \<Rightarrow> 'a db_scheme \<Rightarrow> 'a db_scheme result" where
  "house_mark_unresolved mid s = (case get_market_row mid s of
     None \<Rightarrow> Inl NoResultFound
   | Some m \<Rightarrow> Inr (update_market_row mid (\<lambda>m. m\<lparr>mk_status := CLOSED, resolved_at := None\<rparr>) s))"

definition house_resolver :: "int \<Rightarrow> 'a db_scheme resolve_port" where
  "house_resolver now = \<lparr>mark_resolved = house_mark_resolved now, mark_unresolved = house_mark_unresolved\<rparr>"

subsection \<open>Deriving the transfers\<close>

definition bet_to_settle_of :: "bet \<Rightarrow> bet_to_settle" where
  "bet_to_settle_of b = \<lparr>bts_bet_id = bet_id b, bts_outcome_id = bet_outcome_id b,
     bts_stake = stake b, bts_price = odds_at_placement b\<rparr>"

definition lock_bets :: "bet list \<Rightarrow> 'a ledger_scheme \<Rightarrow> 'a ledger_scheme" where
  "lock_bets bs s = fold (\<lambda>b. lock_row (BetRow (bet_id b))) bs s"

text \<open>\<open>winner_wallets\<close>: each distinct winner's wallet is resolved once.\<close>

definition wallet_step ::
  "'a ledger_scheme \<Rightarrow> uuid \<Rightarrow> (uuid \<rightharpoonup> uuid) \<Rightarrow> (uuid \<rightharpoonup> uuid) result" where
  "wallet_step s uid wallets =
     (case wallets uid of
        Some _ \<Rightarrow> Inr wallets
      | None \<Rightarrow> bindE (resolve_user_wallet_id uid s) (\<lambda>w. Inr (wallets(uid \<mapsto> w))))"

definition bet_by_id :: "bet list \<Rightarrow> uuid \<rightharpoonup> bet" where
  "bet_by_id bs = map_of (rev (map (\<lambda>b. (bet_id b, b)) bs))"

definition lookupE :: "('k \<rightharpoonup> 'v) \<Rightarrow> 'k \<Rightarrow> 'v result" where
  "lookupE m k = (case m k of None \<Rightarrow> Inl KeyError | Some v \<Rightarrow> Inr v)"

definition settle_spec ::
  "uuid \<Rightarrow> (uuid \<rightharpoonup> bet) \<Rightarrow> (uuid \<rightharpoonup> uuid) \<Rightarrow> settled_bet \<Rightarrow> transfer_spec list result" where
  "settle_spec liability_id by_id wallets sb = bindE (lookupE by_id (sb_bet_id sb)) (\<lambda>b.
     if sb_won sb then bindE (lookupE wallets (bet_user_id b)) (\<lambda>wallet_id.
       Inr ((TRANSFER_SETTLE_STAKE_RETURN, LEG_STAKE, bet_id b, liability_id, wallet_id, stake b) #
         (if sb_pnl sb > 0
          then [(TRANSFER_SETTLE_WINNINGS, LEG_WIN, bet_id b, HOUSE_PROMO_ACCOUNT_ID, wallet_id, sb_pnl sb)]
          else [])))
     else Inr [(TRANSFER_SETTLE_LOSS, LEG_LOSS, bet_id b, liability_id, HOUSE_REVENUE_ACCOUNT_ID, stake b)])"

definition set_statuses :: "settled_bet list \<Rightarrow> 'a db_scheme \<Rightarrow> 'a db_scheme" where
  "set_statuses sbs s = fold (\<lambda>sb. update_bet_row (sb_bet_id sb) (\<lambda>b. b\<lparr>bet_status := sb_status sb\<rparr>)) sbs s"

subsection \<open>\<open>resolve_market\<close>\<close>

definition settle_bets ::
  "(nat \<Rightarrow> post_ids) \<Rightarrow> int \<Rightarrow> uuid option \<Rightarrow> uuid \<Rightarrow> bet list \<Rightarrow> settlement_plan \<Rightarrow> 'a db_scheme
    \<Rightarrow> 'a db_scheme result" where
  "settle_bets gen now actor mid bs plan s =
     (let by_id = bet_by_id bs in
      bindE (resolve_market_liability_id mid s) (\<lambda>liability_id.
      bindE (foldE (\<lambda>sb wallets. if sb_won sb
               then bindE (lookupE by_id (sb_bet_id sb)) (\<lambda>b. wallet_step s (bet_user_id b) wallets)
               else Inr wallets) (plan_settled plan) Map.empty) (\<lambda>wallets.
      bindE (mapE (settle_spec liability_id by_id wallets) (plan_settled plan)) (\<lambda>specss.
      let specs = concat specss;
          s = lock_touched specs (set_statuses (plan_settled plan) s) in
      post_specs settle_idempotency_key gen now actor (Some mid) specs s))))"

definition resolve_market ::
  "'a db_scheme resolve_port \<Rightarrow> (nat \<Rightarrow> post_ids) \<Rightarrow> uuid \<Rightarrow> int \<Rightarrow> uuid \<Rightarrow> uuid \<Rightarrow> string \<Rightarrow> uuid option
    \<Rightarrow> 'a db_scheme \<Rightarrow> (settlement_plan \<times> 'a db_scheme) result" where
  "resolve_market resolver gen audit_id now mid winner justification actor s =
     (let bs = pending_bets mid s;
          s = lock_bets bs (begin_tx s) in
      bindE (build_settlement_plan (map bet_to_settle_of bs) winner) (\<lambda>plan.
      bindE (if bs = [] then Inr s else settle_bets gen now actor mid bs plan s) (\<lambda>s.
      bindE (mark_resolved resolver mid winner
          (if actor = None then ''POLYMARKET_UMA'' else ''HOUSE'') justification s) (\<lambda>s.
      bindE (audit_record audit_id now (actor_string actor) ''settlement.resolved''
          [(''market_id'', JUuid mid), (''winning_outcome'', JUuid winner),
           (''resolver'', case actor of None \<Rightarrow> JStr ''system'' | Some a \<Rightarrow> JUuid a),
           (''justification'', JStr justification), (''total_payout'', JDec (plan_total_payout plan)),
           (''total_loser_stake'', JDec (plan_total_loser_stake plan)),
           (''bets_settled'', JInt (int (length (plan_settled plan))))] None s) (\<lambda>s.
      Inr (plan, s))))))"

subsection \<open>\<open>reverse_settlement\<close>\<close>

definition settled_bets :: "uuid \<Rightarrow> 'a db_scheme \<Rightarrow> bet list" where
  "settled_bets mid s = filter (\<lambda>b. bet_market_id b = mid
     \<and> (bet_status b = BET_SETTLED_WON \<or> bet_status b = BET_SETTLED_LOST)) (bets s)"

definition reverse_spec :: "uuid \<Rightarrow> (uuid \<rightharpoonup> uuid) \<Rightarrow> bet \<Rightarrow> transfer_spec list result" where
  "reverse_spec liability_id wallets b =
     (if bet_status b = BET_SETTLED_WON then
        bindE (lookupE wallets (bet_user_id b)) (\<lambda>wallet_id.
        bindE (compute_payout (stake b) (odds_at_placement b)) (\<lambda>payout.
        bindE (profit_or_loss (stake b) payout) (\<lambda>winnings.
        Inr ((TRANSFER_REVERSE_STAKE_RETURN, LEG_STAKE, bet_id b, wallet_id, liability_id, stake b) #
          (if winnings > 0
           then [(TRANSFER_REVERSE_WINNINGS, LEG_WIN, bet_id b, wallet_id, HOUSE_PROMO_ACCOUNT_ID, winnings)]
           else [])))))
      else Inr [(TRANSFER_REVERSE_LOSS, LEG_LOSS, bet_id b, HOUSE_REVENUE_ACCOUNT_ID, liability_id, stake b)])"

definition reopen_bets :: "bet list \<Rightarrow> 'a db_scheme \<Rightarrow> 'a db_scheme" where
  "reopen_bets bs s = fold (\<lambda>b. update_bet_row (bet_id b) (\<lambda>b. b\<lparr>bet_status := BET_PENDING\<rparr>)) bs (lock_bets bs s)"

definition reverse_bets ::
  "'a db_scheme resolve_port \<Rightarrow> (nat \<Rightarrow> post_ids) \<Rightarrow> int \<Rightarrow> uuid option \<Rightarrow> uuid \<Rightarrow> bet list
    \<Rightarrow> 'a db_scheme \<Rightarrow> 'a db_scheme result" where
  "reverse_bets resolver gen now actor mid bs s =
     bindE (resolve_market_liability_id mid s) (\<lambda>liability_id.
     bindE (foldE (\<lambda>b wallets. if bet_status b = BET_SETTLED_WON then wallet_step s (bet_user_id b) wallets
              else Inr wallets) bs Map.empty) (\<lambda>wallets.
     bindE (mapE (reverse_spec liability_id wallets) bs) (\<lambda>specss.
     let specs = concat specss;
         s = lock_touched specs (reopen_bets bs s) in
     bindE (post_specs reverse_idempotency_key gen now actor (Some mid) specs s) (\<lambda>s.
     mark_unresolved resolver mid s))))"

definition reverse_settlement ::
  "'a db_scheme resolve_port \<Rightarrow> (nat \<Rightarrow> post_ids) \<Rightarrow> uuid \<Rightarrow> int \<Rightarrow> uuid \<Rightarrow> string \<Rightarrow> uuid option
    \<Rightarrow> 'a db_scheme \<Rightarrow> (nat \<times> 'a db_scheme) result" where
  "reverse_settlement resolver gen audit_id now mid justification actor s =
     (let s = begin_tx s; bs = settled_bets mid s in
      bindE (if bs = [] then Inr s else reverse_bets resolver gen now actor mid bs s) (\<lambda>s.
      bindE (audit_record audit_id now (actor_string actor) ''settlement.reversed''
          [(''market_id'', JUuid mid),
           (''resolver'', case actor of None \<Rightarrow> JStr ''system'' | Some a \<Rightarrow> JUuid a),
           (''justification'', JStr justification), (''bets_reversed'', JInt (int (length bs)))] None s) (\<lambda>s.
      Inr (length bs, s))))"

end
