(* ===== verification/Settling.thy ===== *)
theory Settling
  imports Settlement
begin

text \<open>
  The lemmas of settlement and reversal: what the derived transfers net to, what the status updates
  do to the bets, and how the pools and the books come out.
\<close>

subsection \<open>Loops\<close>

lemma foldE_map: "foldE f (map g xs) s = foldE (\<lambda>x. f (g x)) xs s"
  by (induction xs arbitrary: s) (auto intro!: bindE_cong)

lemma foldE_cong_set: "(\<And>x u. x \<in> set xs \<Longrightarrow> f x u = g x u) \<Longrightarrow> foldE f xs s = foldE g xs s"
  by (induction xs arbitrary: s) (auto intro!: bindE_cong)

lemma mapE_map: "mapE f (map g xs) = mapE (\<lambda>x. f (g x)) xs"
  by (induction xs) simp_all

lemma wallet_loop:
  assumes "foldE (\<lambda>b m. if P b then wallet_step s (bet_user_id b) m else Inr m) bs m0 = Inr m"
    and "\<forall>u w. m0 u = Some w \<longrightarrow> resolve_user_wallet_id u s = Inr w"
  shows "(\<forall>u w. m u = Some w \<longrightarrow> resolve_user_wallet_id u s = Inr w)
     \<and> (\<forall>b \<in> set bs. P b \<longrightarrow> bet_user_id b \<in> dom m) \<and> dom m0 \<subseteq> dom m"
  using assms
proof (induction bs arbitrary: m0)
  case (Cons b bs)
  from Cons.prems(1) obtain m1 where m1: "(if P b then wallet_step s (bet_user_id b) m0 else Inr m0) = Inr m1"
    and rest: "foldE (\<lambda>b m. if P b then wallet_step s (bet_user_id b) m else Inr m) bs m1 = Inr m" by auto
  have "(\<forall>u w. m1 u = Some w \<longrightarrow> resolve_user_wallet_id u s = Inr w) \<and> dom m0 \<subseteq> dom m1
     \<and> (P b \<longrightarrow> bet_user_id b \<in> dom m1)"
    using m1 Cons.prems(2) by (auto simp: wallet_step_def split: if_splits option.splits)
  with Cons.IH [OF rest] have "(\<forall>u w. m u = Some w \<longrightarrow> resolve_user_wallet_id u s = Inr w)"
    "\<forall>b \<in> set bs. P b \<longrightarrow> bet_user_id b \<in> dom m" "dom m1 \<subseteq> dom m" "dom m0 \<subseteq> dom m1"
    "P b \<longrightarrow> bet_user_id b \<in> dom m1" by blast+
  then show ?case unfolding set_simps ball_simps by blast
qed simp

text \<open>The wallet of a user, where it resolves.\<close>

definition wal :: "'a ledger_scheme \<Rightarrow> uuid \<Rightarrow> uuid" where
  "wal s u = (case resolve_user_wallet_id u s of Inl _ \<Rightarrow> 0 | Inr w \<Rightarrow> w)"

lemma wallet_loop_wal:
  assumes "foldE (\<lambda>b m. if P b then wallet_step s (bet_user_id b) m else Inr m) bs Map.empty = Inr m"
    and "b \<in> set bs" "P b"
  shows "m (bet_user_id b) = Some (wal s (bet_user_id b))"
    "resolve_user_wallet_id (bet_user_id b) s = Inr (wal s (bet_user_id b))"
proof -
  obtain w where "m (bet_user_id b) = Some w" "resolve_user_wallet_id (bet_user_id b) s = Inr w"
    using wallet_loop [OF assms(1)] assms(2,3) by fastforce
  then show "m (bet_user_id b) = Some (wal s (bet_user_id b))"
    "resolve_user_wallet_id (bet_user_id b) s = Inr (wal s (bet_user_id b))" by (simp_all add: wal_def)
qed

lemma bet_by_id_lookup: "distinct (map bet_id bs) \<Longrightarrow> b \<in> set bs \<Longrightarrow> lookupE (bet_by_id bs) (bet_id b) = Inr b"
proof -
  assume "distinct (map bet_id bs)" "b \<in> set bs"
  then have "map_of (rev (map (\<lambda>b. (bet_id b, b)) bs)) (bet_id b) = Some b"
    by (intro map_of_is_SomeI) (auto simp: rev_map comp_def distinct_map)
  then show ?thesis by (simp add: lookupE_def bet_by_id_def)
qed

subsection \<open>Row updates in a loop\<close>

lemma fold_update_rows:
  assumes "distinct (map bet_id (bets s))" "set bs \<subseteq> set (bets s)" "distinct bs"
    and "\<And>b x. bet_id (g b x) = bet_id x"
  shows "bets (fold (\<lambda>b. update_bet_row (bet_id b) (g b)) bs s) = map (\<lambda>b. if b \<in> set bs then g b b else b) (bets s)"
  using assms
proof (induction bs arbitrary: s)
  case (Cons c bs)
  let ?s = "update_bet_row (bet_id c) (g c) s"
  have row: "bets ?s = map (\<lambda>b. if b = c then g c c else b) (bets s)"
    using Cons.prems(1,2) by (auto simp: update_bet_row_def update_where_def dest: distinct_key_eq)
  have ids: "map bet_id (bets ?s) = map bet_id (bets s)"
    by (simp add: update_bet_row_def map_update_where_same Cons.prems(4))
  have "set bs \<subseteq> set (bets ?s)" using Cons.prems(2,3) by (auto simp: row image_iff)
  then have "bets (fold (\<lambda>b. update_bet_row (bet_id b) (g b)) bs ?s)
      = map (\<lambda>b. if b \<in> set bs then g b b else b) (bets ?s)"
    using Cons.IH [of ?s] Cons.prems ids by simp
  moreover have "g c c \<notin> set bs"
  proof
    assume "g c c \<in> set bs"
    moreover have "bet_id (g c c) = bet_id c" by (rule Cons.prems(4))
    ultimately have "g c c = c" using Cons.prems(1,2) distinct_key_eq [of bet_id "bets s" "g c c" c] by auto
    with \<open>g c c \<in> set bs\<close> Cons.prems(3) show False by simp
  qed
  ultimately show ?case using Cons.prems(3) by (auto simp: row)
qed simp

lemma books_fold_update [simp]: "same_books s (fold (\<lambda>b. update_bet_row (k b) (g b)) bs s)"
proof (induction bs arbitrary: s)
  case (Cons b bs)
  have "same_books s (update_bet_row (k b) (g b) s)" by simp
  from same_books_trans [OF this Cons] show ?case by simp
qed simp

lemma fold_update_tables [simp]:
  "markets (fold (\<lambda>b. update_bet_row (k b) (g b)) bs s) = markets s"
  "audit_log (fold (\<lambda>b. update_bet_row (k b) (g b)) bs s) = audit_log s"
  "outcomes (fold (\<lambda>b. update_bet_row (k b) (g b)) bs s) = outcomes s"
  by (induction bs arbitrary: s) (simp_all add: update_bet_row_def)

lemma lock_bets_tables [simp]: "same_books s (lock_bets bs s)" "ledger.more (lock_bets bs s) = ledger.more s"
  by (induction bs arbitrary: s) (auto simp: lock_bets_def same_books_def)

subsection \<open>What a settlement nets to\<close>

definition bet_won :: "uuid \<Rightarrow> bet \<Rightarrow> bool" where
  "bet_won w b \<longleftrightarrow> bet_outcome_id b = w"

definition bet_payout :: "bet \<Rightarrow> rat" where
  "bet_payout b = to_cents (stake b / odds_at_placement b)"

definition settle_specs_of :: "uuid \<Rightarrow> uuid \<Rightarrow> (uuid \<Rightarrow> uuid) \<Rightarrow> bet \<Rightarrow> transfer_spec list" where
  "settle_specs_of w l wl b =
     (if bet_won w b then
        (TRANSFER_SETTLE_STAKE_RETURN, LEG_STAKE, bet_id b, l, wl (bet_user_id b), stake b) #
        (if bet_payout b - stake b > 0 then [(TRANSFER_SETTLE_WINNINGS, LEG_WIN, bet_id b,
            HOUSE_PROMO_ACCOUNT_ID, wl (bet_user_id b), bet_payout b - stake b)] else [])
      else [(TRANSFER_SETTLE_LOSS, LEG_LOSS, bet_id b, l, HOUSE_REVENUE_ACCOUNT_ID, stake b)])"

definition settle_net :: "uuid \<Rightarrow> uuid \<Rightarrow> (uuid \<Rightarrow> uuid) \<Rightarrow> uuid \<Rightarrow> bet \<Rightarrow> rat" where
  "settle_net w l wl a b = - (if a = l then stake b else 0) +
     (if bet_won w b
      then (if a = wl (bet_user_id b) then bet_payout b else 0) - (if a = HOUSE_PROMO_ACCOUNT_ID then bet_payout b - stake b else 0)
      else (if a = HOUSE_REVENUE_ACCOUNT_ID then stake b else 0))"

definition well_priced :: "uuid \<Rightarrow> bet \<Rightarrow> bool" where
  "well_priced w b \<longleftrightarrow> (bet_won w b \<longrightarrow> 0 < odds_at_placement b \<and> odds_at_placement b \<le> 1)"

lemma settleable_bet:
  "bets_ok s \<Longrightarrow> b \<in> set (bets s) \<Longrightarrow> well_priced w b \<Longrightarrow> settleable w (bet_to_settle_of b)"
  by (auto simp: bets_ok_def settleable_def well_priced_def bet_won_def bet_to_settle_of_def valid_position_def)

lemma winner_payout:
  assumes "bets_ok s" "b \<in> set (bets s)" "well_priced w b" "bet_won w b"
  shows "is_quantum (bet_payout b - stake b)" "is_quantum (bet_payout b)" "stake b \<le> bet_payout b"
    "compute_payout (stake b) (odds_at_placement b) = Inr (bet_payout b)"
    "profit_or_loss (stake b) (bet_payout b) = Inr (bet_payout b - stake b)"
    "is_quantum (stake b)"
proof -
  have se: "settleable w (bet_to_settle_of b)" using assms(1-3) by (rule settleable_bet)
  have v: "valid_position (stake b) (odds_at_placement b)"
    using se assms(4) by (simp add: settleable_def bet_won_def bet_to_settle_of_def)
  have p: "payout_of w (bet_to_settle_of b) = bet_payout b" "bts_stake (bet_to_settle_of b) = stake b"
    using assms(4) by (simp_all add: payout_of_def bet_won_def bet_to_settle_of_def bet_payout_def)
  note q = payout_of_bounds [OF se, unfolded p] stake_quantum [OF se, unfolded p]
  show "is_quantum (bet_payout b)" by (rule q(2))
  show "is_quantum (stake b)" by (rule q(4))
  show "stake b \<le> bet_payout b" "compute_payout (stake b) (odds_at_placement b) = Inr (bet_payout b)"
    using compute_payout_quotient [OF v] by (simp_all add: bet_payout_def)
  show "profit_or_loss (stake b) (bet_payout b) = Inr (bet_payout b - stake b)"
    using q by (simp add: profit_or_loss_exact)
  show "is_quantum (bet_payout b - stake b)"
    using q unfolding is_quantum_iff by (auto simp: left_diff_distrib simp flip: of_int_diff)
qed

lemma loser_quantum: "bets_ok s \<Longrightarrow> b \<in> set (bets s) \<Longrightarrow> is_quantum (stake b) \<and> 0 < stake b"
  by (auto simp: bets_ok_def is_money_quantum)

lemma settle_specs_quantum:
  "bets_ok s \<Longrightarrow> b \<in> set (bets s) \<Longrightarrow> well_priced w b \<Longrightarrow> sp \<in> set (settle_specs_of w l wl b) \<Longrightarrow> is_quantum (spec_amount sp)"
  using winner_payout [of s b w] loser_quantum [of s b] by (auto simp: settle_specs_of_def split: if_splits)

lemma net_settle_specs:
  assumes "bets_ok s" "b \<in> set (bets s)" "well_priced w b"
  shows "net a (settle_specs_of w l wl b) = settle_net w l wl a b"
  using winner_payout(3) [OF assms] by (auto simp: settle_specs_of_def settle_net_def spec_net_def)

lemma net_concat: "(\<And>b. b \<in> set bs \<Longrightarrow> net a (f b) = g b) \<Longrightarrow> net a (concat (map f bs)) = (\<Sum>b\<leftarrow>bs. g b)"
  by (induction bs) simp_all

subsection \<open>The effect of settling the bets\<close>

definition settled_row :: "uuid \<Rightarrow> bet \<Rightarrow> bet" where
  "settled_row w b = b\<lparr>bet_status := (if bet_won w b then BET_SETTLED_WON else BET_SETTLED_LOST)\<rparr>"

definition is_pending :: "uuid \<Rightarrow> bet \<Rightarrow> bool" where
  "is_pending mid b \<longleftrightarrow> bet_market_id b = mid \<and> bet_status b = BET_PENDING"

lemma pending_bets_filter: "pending_bets mid s = filter (is_pending mid) (bets s)"
  by (simp add: pending_bets_def is_pending_def [abs_def])

lemma set_statuses_bets:
  assumes "bets_ok s" "\<And>b. b \<in> set bs \<Longrightarrow> b \<in> set (bets s)" "distinct bs"
    and "\<And>b. b \<in> set (bets s) \<Longrightarrow> b \<in> set bs \<longleftrightarrow> P b"
  shows "bets (set_statuses (map (\<lambda>b. settled_of w (bet_to_settle_of b)) bs) s) = update_where P (settled_row w) (bets s)"
proof -
  let ?g = "\<lambda>b x. x\<lparr>bet_status := (if bet_won w b then BET_SETTLED_WON else BET_SETTLED_LOST)\<rparr>"
  have "set_statuses (map (\<lambda>b. settled_of w (bet_to_settle_of b)) bs) s = fold (\<lambda>b. update_bet_row (bet_id b) (?g b)) bs s"
    by (simp add: set_statuses_def fold_map comp_def settled_of_def bet_to_settle_of_def bet_won_def)
  moreover have "bets (fold (\<lambda>b. update_bet_row (bet_id b) (?g b)) bs s)
      = map (\<lambda>b. if b \<in> set bs then ?g b b else b) (bets s)"
    by (rule fold_update_rows) (use assms in \<open>auto simp: bets_ok_def\<close>)
  ultimately show ?thesis using assms(4) by (simp add: update_where_def settled_row_def)
qed

lemma distinct_filter_bets: "bets_ok s \<Longrightarrow> distinct (filter P (bets s)) \<and> distinct (map bet_id (filter P (bets s)))"
  by (auto simp: bets_ok_def distinct_map inj_on_def)

lemma set_statuses_frame [simp]: "same_books s (set_statuses sbs s)" "markets (set_statuses sbs s) = markets s"
  "audit_log (set_statuses sbs s) = audit_log s" "outcomes (set_statuses sbs s) = outcomes s"
  by (simp_all add: set_statuses_def)

lemma settle_bets_effect:
  assumes "settle_bets gen now actor mid bs plan s = Inr s'" "platform_ok s"
    and bs: "bs = pending_bets mid s" and "\<forall>b \<in> set bs. well_priced w b"
    and plan: "plan_settled plan = map (\<lambda>b. settled_of w (bet_to_settle_of b)) bs"
  shows "\<exists>l. liability_ids mid s = [l]
     \<and> (\<forall>b \<in> set bs. bet_won w b \<longrightarrow> resolve_user_wallet_id (bet_user_id b) s = Inr (wal s (bet_user_id b)))
     \<and> bets s' = update_where (is_pending mid) (settled_row w) (bets s)
     \<and> (\<forall>a. bal s' a = bal s a + (\<Sum>b\<leftarrow>bs. settle_net w l (wal s) a b))
     \<and> ledger_steps s s' \<and> map acct_key (accounts s') = map acct_key (accounts s)
     \<and> markets s' = markets s \<and> audit_log s' = audit_log s \<and> outcomes s' = outcomes s
     \<and> (\<exists>ts. transfers s' = transfers s @ ts \<and> map idempotency_key ts =
          map (\<lambda>sp. Some (spec_key settle_idempotency_key sp)) (concat (map (settle_specs_of w l (wal s)) bs)))"
proof -
  have bok: "bets_ok s" and wf: "ledger_wf s" using assms(2) by (simp_all add: platform_ok_def platform_wf)
  have mem: "b \<in> set bs \<longleftrightarrow> b \<in> set (bets s) \<and> is_pending mid b" for b by (simp add: bs pending_bets_filter)
  have dist: "distinct bs" "distinct (map bet_id bs)"
    using distinct_filter_bets [OF bok] by (simp_all add: bs pending_bets_filter)
  have sid: "sb_bet_id (settled_of w (bet_to_settle_of b)) = bet_id b"
    "sb_won (settled_of w (bet_to_settle_of b)) = bet_won w b" for b
    by (simp_all add: settled_of_def bet_to_settle_of_def bet_won_def)
  obtain l wallets specss where l: "resolve_market_liability_id mid s = Inr l"
    and loop: "foldE (\<lambda>sb wallets. if sb_won sb then bindE (lookupE (bet_by_id bs) (sb_bet_id sb))
         (\<lambda>b. wallet_step s (bet_user_id b) wallets) else Inr wallets) (plan_settled plan) Map.empty = Inr wallets"
    and sp: "mapE (settle_spec l (bet_by_id bs) wallets) (plan_settled plan) = Inr specss"
    and post: "post_specs settle_idempotency_key gen now actor (Some mid) (concat specss)
        (lock_touched (concat specss) (set_statuses (plan_settled plan) s)) = Inr s'"
    using assms(1) by (auto simp: settle_bets_def Let_def)
  have "foldE (\<lambda>b m. if bet_won w b then wallet_step s (bet_user_id b) m else Inr m) bs Map.empty = Inr wallets"
    unfolding loop [symmetric] plan foldE_map sid
    by (rule foldE_cong_set) (simp add: bet_by_id_lookup dist)
  note wl = wallet_loop_wal [OF this]
  have "mapE (settle_spec l (bet_by_id bs) wallets) (plan_settled plan) = Inr (map (settle_specs_of w l (wal s)) bs)"
    unfolding plan mapE_map
  proof (rule mapE_eq_map)
    fix b assume b: "b \<in> set bs"
    then have in_s: "b \<in> set (bets s)" using mem by blast
    have pnl: "sb_pnl (settled_of w (bet_to_settle_of b)) = bet_payout b - stake b" if "bet_won w b"
      using that by (simp add: settled_of_def payout_of_def bet_to_settle_of_def bet_won_def bet_payout_def)
    show "settle_spec l (bet_by_id bs) wallets (settled_of w (bet_to_settle_of b)) = Inr (settle_specs_of w l (wal s) b)"
      using bet_by_id_lookup [OF dist(2) b] wl(1) [OF b] pnl
      by (simp add: settle_spec_def sid settle_specs_of_def lookupE_def [of wallets])
  qed
  with sp have specs: "concat specss = concat (map (settle_specs_of w l (wal s)) bs)" by simp
  let ?specs = "concat (map (settle_specs_of w l (wal s)) bs)"
  let ?v = "lock_touched ?specs (set_statuses (plan_settled plan) s)"
  have q: "\<forall>sp \<in> set ?specs. is_quantum (spec_amount sp)"
    using settle_specs_quantum [OF bok] mem assms(4) by fastforce
  have frame: "same_books s ?v" by (rule same_books_trans [OF set_statuses_frame(1) same_books_lock_touched(2)])
  note e = post_specs_effect [OF post [unfolded specs] frame wf q]
  have "bets s' = update_where (is_pending mid) (settled_row w) (bets s)"
    using set_statuses_bets [OF bok _ dist(1), of "is_pending mid" w] mem more_fields(1) [OF e(2)]
      more_fields(1) [OF more_lock_touched [of ?specs "set_statuses (plan_settled plan) s"]]
    by (simp add: plan)
  moreover have "bal s' a = bal s a + (\<Sum>b\<leftarrow>bs. settle_net w l (wal s) a b)" for a
    using e(3) [of a] net_concat [of bs a "settle_specs_of w l (wal s)" "settle_net w l (wal s) a"]
      net_settle_specs [OF bok] mem assms(4) by simp
  moreover have "markets s' = markets s" "audit_log s' = audit_log s" "outcomes s' = outcomes s"
    using more_fields [OF e(2)] more_fields [OF more_lock_touched [of ?specs "set_statuses (plan_settled plan) s"]]
    by simp_all
  ultimately show ?thesis
    using l wl(2) e(1,4,5) unfolding resolve_liability_ids by blast
qed

subsection \<open>The invariant across a flow of money and statuses\<close>

lemma platform_flow:
  assumes "platform_ok s" "ledger_steps s s'" "map acct_key (accounts s') = map acct_key (accounts s)"
    and "liability_ids mid s = [l]" "\<And>a. bal s' a = bal s a + f a"
    and "\<And>v j. v \<noteq> l \<Longrightarrow> v \<in> set (liability_ids j s) \<Longrightarrow> f v = 0" and "bets_ok s'"
    and "\<And>m. sum_list (map stake (pending_bets m s')) = sum_list (map stake (pending_bets m s)) + (if m = mid then f l else 0)"
  shows "platform_ok s'"
proof -
  note P = assms(1) [unfolded platform_ok_def]
  have "liability_balance m s' = liability_balance m s + (if m = mid then f l else 0)" for m
    by (rule pool_change [OF assms(3) platform_wf [OF assms(1)] assms(4,5)]) (rule assms(6))
  then have "pool_ok s'" using P assms(8) by (simp add: pool_ok_def)
  moreover have "books_ok s'" using P assms(2) by (blast intro: steps_books_ok)
  ultimately show ?thesis
    using P assms(7) house_seeded_key [OF assms(3)] liability_ids_key [OF assms(3)] by (simp add: platform_ok_def)
qed

lemma settle_net_other:
  assumes "platform_ok s" "\<forall>b \<in> set bs. bet_won w b \<longrightarrow> resolve_user_wallet_id (bet_user_id b) s = Inr (wal s (bet_user_id b))"
    and "v \<noteq> l" "v \<in> set (liability_ids j s)"
  shows "(\<Sum>b\<leftarrow>bs. settle_net w l (wal s) v b) = 0"
proof -
  have wf: "ledger_wf s" "house_seeded s" using assms(1) by (simp_all add: platform_ok_def platform_wf)
  have "settle_net w l (wal s) v b = 0" if b: "b \<in> set bs" for b
  proof -
    have "bet_won w b \<Longrightarrow> v \<noteq> wal s (bet_user_id b)"
      using assms(2,4) b wallet_not_liability [OF wf(1)] by blast
    moreover have "v \<noteq> HOUSE_PROMO_ACCOUNT_ID" "v \<noteq> HOUSE_REVENUE_ACCOUNT_ID"
      using house_not_liability [OF wf] assms(4) by blast+
    ultimately show ?thesis using assms(3) by (auto simp: settle_net_def)
  qed
  then show ?thesis by (induction bs) simp_all
qed

lemma settle_net_liability:
  assumes "platform_ok s" "\<forall>b \<in> set bs. bet_won w b \<longrightarrow> resolve_user_wallet_id (bet_user_id b) s = Inr (wal s (bet_user_id b))"
    and "l \<in> set (liability_ids j s)"
  shows "(\<Sum>b\<leftarrow>bs. settle_net w l (wal s) l b) = - sum_list (map stake bs)"
proof -
  have wf: "ledger_wf s" "house_seeded s" using assms(1) by (simp_all add: platform_ok_def platform_wf)
  have "settle_net w l (wal s) l b = - stake b" if b: "b \<in> set bs" for b
  proof -
    have "bet_won w b \<Longrightarrow> l \<noteq> wal s (bet_user_id b)"
      using assms(2,3) b wallet_not_liability [OF wf(1)] by blast
    moreover have "l \<noteq> HOUSE_PROMO_ACCOUNT_ID" "l \<noteq> HOUSE_REVENUE_ACCOUNT_ID"
      using house_not_liability [OF wf] assms(3) by blast+
    ultimately show ?thesis by (auto simp: settle_net_def)
  qed
  then show ?thesis by (induction bs) simp_all
qed

lemma pending_after_settling:
  assumes "bets s' = update_where (is_pending mid) (settled_row w) (bets s)"
  shows "pending_bets m s' = (if m = mid then [] else pending_bets m s)"
proof -
  have "filter (is_pending m) (update_where (is_pending mid) (settled_row w) bs) =
      (if m = mid then [] else filter (is_pending m) bs)" for bs
  proof (induction bs)
    case (Cons b bs)
    have "\<not> is_pending m (settled_row w b)" by (simp add: is_pending_def settled_row_def)
    moreover have "m \<noteq> mid \<Longrightarrow> is_pending mid b \<Longrightarrow> \<not> is_pending m b" by (simp add: is_pending_def)
    ultimately show ?case using Cons by auto
  qed simp
  then show ?thesis by (simp add: pending_bets_filter assms)
qed

lemma bets_ok_update_where:
  assumes "bets_ok s" "bets s' = update_where P f (bets s)"
    and "\<And>b. bet_id (f b) = bet_id b \<and> stake (f b) = stake b \<and> odds_at_placement (f b) = odds_at_placement b"
    and "\<And>b. bet_status_check (bet_status (f b))"
  shows "bets_ok s'"
  using assms by (auto simp: bets_ok_def map_update_where_same set_update_where)

lemma settle_bets_platform:
  assumes "settle_bets gen now actor mid bs plan s = Inr s'" "platform_ok s"
    and bs: "bs = pending_bets mid s" and "\<forall>b \<in> set bs. well_priced w b"
    and plan: "plan_settled plan = map (\<lambda>b. settled_of w (bet_to_settle_of b)) bs"
  shows "platform_ok s'"
proof -
  obtain l where l: "liability_ids mid s = [l]"
    and wl: "\<forall>b \<in> set bs. bet_won w b \<longrightarrow> resolve_user_wallet_id (bet_user_id b) s = Inr (wal s (bet_user_id b))"
    and bets: "bets s' = update_where (is_pending mid) (settled_row w) (bets s)"
    and bl: "\<And>a. bal s' a = bal s a + (\<Sum>b\<leftarrow>bs. settle_net w l (wal s) a b)"
    and steps: "ledger_steps s s'" and keys: "map acct_key (accounts s') = map acct_key (accounts s)"
    using settle_bets_effect [OF assms] by blast
  have lin: "l \<in> set (liability_ids mid s)" by (simp add: l)
  show ?thesis
  proof (rule platform_flow [OF assms(2) steps keys l bl])
    show "\<And>v j. v \<noteq> l \<Longrightarrow> v \<in> set (liability_ids j s) \<Longrightarrow> (\<Sum>b\<leftarrow>bs. settle_net w l (wal s) v b) = 0"
      by (rule settle_net_other [OF assms(2) wl])
    show "bets_ok s'"
      using assms(2) by (intro bets_ok_update_where [OF _ bets])
        (simp_all add: platform_ok_def settled_row_def bet_status_check_def)
    show "\<And>m. sum_list (map stake (pending_bets m s')) = sum_list (map stake (pending_bets m s))
        + (if m = mid then \<Sum>b\<leftarrow>bs. settle_net w l (wal s) l b else 0)"
      using settle_net_liability [OF assms(2) wl lin] pending_after_settling [OF bets] bs by simp
  qed
qed

subsection \<open>The contract of the resolve port\<close>

lemma platform_frame: "same_books s s' \<Longrightarrow> bets s' = bets s \<Longrightarrow> platform_ok s \<Longrightarrow> platform_ok s'"
  by (auto simp: platform_ok_def books_ok_def ledger_wf_def double_entry_def reconciled_except_def same_books_def
      house_seeded_def liability_ids_def liability_balance_def bal_def [abs_def] pool_ok_def pending_bets_def bets_ok_def)

text \<open>
  What settlement relies on: the port writes only market rows, on the session of the caller.
\<close>

locale resolve_contract =
  fixes resolver :: "'a db_scheme resolve_port"
  assumes resolved_frame: "mark_resolved resolver mid w src j s = Inr s' \<Longrightarrow>
      same_books s s' \<and> bets s' = bets s \<and> audit_log s' = audit_log s"
    and unresolved_frame: "mark_unresolved resolver mid s = Inr s' \<Longrightarrow>
      same_books s s' \<and> bets s' = bets s \<and> audit_log s' = audit_log s"
begin

lemma resolve_parts:
  assumes "resolve_market resolver gen aid now mid w j actor s = Inr (plan, s')"
  shows "\<exists>s1 s2. build_settlement_plan (map bet_to_settle_of (pending_bets mid s)) w = Inr plan
     \<and> (if pending_bets mid s = [] then s1 = lock_bets [] (begin_tx s)
        else settle_bets gen now actor mid (pending_bets mid s) plan (lock_bets (pending_bets mid s) (begin_tx s)) = Inr s1)
     \<and> mark_resolved resolver mid w (if actor = None then ''POLYMARKET_UMA'' else ''HOUSE'') j s1 = Inr s2
     \<and> same_books s2 s' \<and> bets s' = bets s2 \<and> markets s' = markets s2
     \<and> length (audit_log s') = Suc (length (audit_log s2))"
proof -
  let ?bs = "pending_bets mid s"
  obtain s1 s2 body where b: "build_settlement_plan (map bet_to_settle_of ?bs) w = Inr plan"
    and s1: "(if ?bs = [] then Inr (lock_bets ?bs (begin_tx s))
        else settle_bets gen now actor mid ?bs plan (lock_bets ?bs (begin_tx s))) = Inr s1"
    and s2: "mark_resolved resolver mid w (if actor = None then ''POLYMARKET_UMA'' else ''HOUSE'') j s1 = Inr s2"
    and a: "audit_record aid now (actor_string actor) ''settlement.resolved'' body None s2 = Inr s'"
    using assms unfolding resolve_market_def Let_def bindE_eq_Inr by blast
  have "same_books s2 s'" "bets s' = bets s2" "markets s' = markets s2"
    "length (audit_log s') = Suc (length (audit_log s2))"
    using a by (simp_all add: audit_record_Inr)
  moreover have "if ?bs = [] then s1 = lock_bets [] (begin_tx s)
        else settle_bets gen now actor mid ?bs plan (lock_bets ?bs (begin_tx s)) = Inr s1"
    using s1 by (cases "?bs = []") simp_all
  ultimately show ?thesis using b s2 by blast
qed

lemma resolve_effect:
  assumes res: "resolve_market resolver gen aid now mid w j actor s = Inr (plan, s')" and ok: "platform_ok s"
  shows "platform_ok s'" "\<forall>b \<in> set (pending_bets mid s). well_priced w b"
    "plan_settled plan = map (\<lambda>b. settled_of w (bet_to_settle_of b)) (pending_bets mid s)"
    "bets s' = update_where (is_pending mid) (settled_row w) (bets s)"
    "ledger_steps s s'" "map acct_key (accounts s') = map acct_key (accounts s)"
    "\<exists>l. (pending_bets mid s \<noteq> [] \<longrightarrow> resolve_market_liability_id mid s = Inr l)
       \<and> (\<forall>b \<in> set (pending_bets mid s). bet_won w b \<longrightarrow> resolve_user_wallet_id (bet_user_id b) s = Inr (wal s (bet_user_id b)))
       \<and> (\<forall>a. bal s' a = bal s a + (\<Sum>b\<leftarrow>pending_bets mid s. settle_net w l (wal s) a b))
       \<and> (\<exists>ts. transfers s' = transfers s @ ts \<and> map idempotency_key ts =
          map (\<lambda>sp. Some (spec_key settle_idempotency_key sp))
            (concat (map (settle_specs_of w l (wal s)) (pending_bets mid s))))"
proof -
  let ?bs = "pending_bets mid s" and ?s0 = "lock_bets (pending_bets mid s) (begin_tx s)"
  obtain s1 s2 where plan: "build_settlement_plan (map bet_to_settle_of ?bs) w = Inr plan"
    and s1: "if ?bs = [] then s1 = lock_bets [] (begin_tx s) else settle_bets gen now actor mid ?bs plan ?s0 = Inr s1"
    and s2: "mark_resolved resolver mid w (if actor = None then ''POLYMARKET_UMA'' else ''HOUSE'') j s1 = Inr s2"
    and s': "same_books s2 s'" "bets s' = bets s2"
    using resolve_parts [OF res] by blast
  have bok: "bets_ok s" using ok by (simp add: platform_ok_def)
  have f0: "same_books s ?s0" "ledger.more ?s0 = ledger.more s"
    using same_books_trans [OF same_books_locks(2) lock_bets_tables(1)] by simp_all
  have b0: "bets ?s0 = bets s" by (rule more_fields(1) [OF f0(2)])
  have ok0: "platform_ok ?s0" by (rule platform_frame [OF f0(1) b0 ok])
  have pb0: "pending_bets mid ?s0 = ?bs" using b0 by (metis pending_bets_filter)
  show wp: "\<forall>b \<in> set ?bs. well_priced w b"
  proof
    fix b assume "b \<in> set ?bs"
    then have "bet_to_settle_of b \<in> set (map bet_to_settle_of ?bs)" by simp
    from plan_success_prices [OF plan this] show "well_priced w b"
      by (simp add: well_priced_def bet_won_def bet_to_settle_of_def)
  qed
  have se: "\<forall>b \<in> set (map bet_to_settle_of ?bs). settleable w b"
    using settleable_bet [OF bok] wp by (auto simp: pending_bets_def)
  show ps: "plan_settled plan = map (\<lambda>b. settled_of w (bet_to_settle_of b)) ?bs"
    using plan_settled(1) [OF plan se] by (simp add: comp_def)
  have f2: "same_books s1 s'" "bets s' = bets s1"
    using resolved_frame [OF s2] s' by (auto intro: same_books_trans)
  have "platform_ok s1 \<and> bets s1 = update_where (is_pending mid) (settled_row w) (bets s)
    \<and> ledger_steps s s1 \<and> map acct_key (accounts s1) = map acct_key (accounts s)
    \<and> (\<exists>l. (?bs \<noteq> [] \<longrightarrow> resolve_market_liability_id mid s = Inr l)
       \<and> (\<forall>b \<in> set ?bs. bet_won w b \<longrightarrow> resolve_user_wallet_id (bet_user_id b) s = Inr (wal s (bet_user_id b)))
       \<and> (\<forall>a. bal s1 a = bal s a + (\<Sum>b\<leftarrow>?bs. settle_net w l (wal s) a b))
       \<and> (\<exists>ts. transfers s1 = transfers s @ ts \<and> map idempotency_key ts =
          map (\<lambda>sp. Some (spec_key settle_idempotency_key sp)) (concat (map (settle_specs_of w l (wal s)) ?bs))))"
  proof (cases "?bs = []")
    case True
    then have e: "s1 = begin_tx s" using s1 by (simp add: lock_bets_def)
    have "bets (begin_tx s) = bets s" by (rule more_fields(1)) simp
    moreover have "update_where (is_pending mid) (settled_row w) (bets s) = bets s"
      using True by (auto simp: pending_bets_filter filter_empty_conv update_where_def intro: map_idI)
    moreover have "platform_ok (begin_tx s)" by (rule platform_frame [OF same_books_locks(2) _ ok]) fact
    ultimately show ?thesis using True by (simp add: e ledger_steps_frame)
  next
    case False
    with s1 have st: "settle_bets gen now actor mid ?bs plan ?s0 = Inr s1" by simp
    have wl0: "wal ?s0 = wal s" "resolve_user_wallet_id u ?s0 = resolve_user_wallet_id u s" for u
      using resolve_frame [OF same_books_eq(1) [OF f0(1)]] by (simp_all add: wal_def [abs_def])
    have "resolve_market_liability_id mid ?s0 = resolve_market_liability_id mid s"
      using same_books_eq(1) [OF f0(1)] by (simp add: resolve_market_liability_id_def)
    with settle_bets_effect [OF st ok0 pb0 [symmetric] wp ps] settle_bets_platform [OF st ok0 pb0 [symmetric] wp ps]
    show ?thesis
      unfolding b0 wl0 same_books_eq [OF f0(1)] bal_same_books [OF f0(1)] resolve_liability_ids [symmetric]
      using ledger_steps_trans [OF ledger_steps_frame [OF f0(1)]] by auto
  qed
  then show "platform_ok s'" "bets s' = update_where (is_pending mid) (settled_row w) (bets s)"
    "ledger_steps s s'" "map acct_key (accounts s') = map acct_key (accounts s)"
    "\<exists>l. (?bs \<noteq> [] \<longrightarrow> resolve_market_liability_id mid s = Inr l)
       \<and> (\<forall>b \<in> set ?bs. bet_won w b \<longrightarrow> resolve_user_wallet_id (bet_user_id b) s = Inr (wal s (bet_user_id b)))
       \<and> (\<forall>a. bal s' a = bal s a + (\<Sum>b\<leftarrow>?bs. settle_net w l (wal s) a b))
       \<and> (\<exists>ts. transfers s' = transfers s @ ts \<and> map idempotency_key ts =
          map (\<lambda>sp. Some (spec_key settle_idempotency_key sp)) (concat (map (settle_specs_of w l (wal s)) ?bs)))"
    using platform_frame [OF f2] f2(2) same_books_eq [OF f2(1)] bal_same_books [OF f2(1)]
      ledger_steps_trans [OF _ ledger_steps_frame [OF f2(1)]] by auto
qed

end

lemma house_frame:
  "house_mark_resolved now mid w src j s = Inr s' \<Longrightarrow> same_books s s' \<and> bets s' = bets s \<and> audit_log s' = audit_log s"
  "house_mark_unresolved mid s = Inr s' \<Longrightarrow> same_books s s' \<and> bets s' = bets s \<and> audit_log s' = audit_log s"
  by (auto simp: house_mark_resolved_def house_mark_unresolved_def split: option.splits if_splits)
    (auto simp: update_market_row_def)

interpretation house: resolve_contract "house_resolver now" for now
  by unfold_locales (simp_all add: house_resolver_def house_frame)

end
