(* ===== verification/Markets.thy ===== *)
theory Markets
  imports Settling "HOL-Library.Product_Lexorder"
begin

text \<open>
  \<open>MarketService\<close> (\<open>markets/service.py\<close>) with the request models of \<open>markets/schemas.py\<close>, the public
  filters of \<open>markets/router.py\<close> and the odds format of \<open>realtime/publisher.py\<close>.  Times are
  microseconds.  \<open>python-slugify\<close> is a parameter.
\<close>

subsection \<open>Request bodies (\<open>markets/schemas.py\<close>)\<close>

record market_create =
  mc_question :: string
  mc_criteria :: string
  mc_deadline :: int
  mc_odds_yes :: rat
  mc_category :: "string option"
  mc_min_stake :: "rat option"
  mc_max_stake :: "rat option"

text \<open>A field of a patch that may be cleared is \<open>None\<close> when it is not in \<open>model_fields_set\<close>.\<close>

record market_update =
  mu_criteria :: "string option"
  mu_deadline :: "int option"
  mu_odds_yes :: "rat option"
  mu_category :: "string option option"
  mu_min_stake :: "rat option option"
  mu_max_stake :: "rat option option"

definition opt_all :: "('a \<Rightarrow> bool) \<Rightarrow> 'a option \<Rightarrow> bool" where
  "opt_all P x = (case x of None \<Rightarrow> True | Some v \<Rightarrow> P v)"

definition valid_stake_range :: "rat option \<Rightarrow> rat option \<Rightarrow> bool" where
  "valid_stake_range lo hi \<longleftrightarrow> opt_all (\<lambda>x. 0 < x) lo \<and> opt_all (\<lambda>x. 0 < x) hi
     \<and> opt_all (\<lambda>l. opt_all (\<lambda>h. l \<le> h) hi) lo"

definition validate_create :: "int \<Rightarrow> market_create \<Rightarrow> market_create result" where
  "validate_create now b =
     (if 1 \<le> length (mc_question b) \<and> length (mc_question b) \<le> 500
       \<and> 1 \<le> length (mc_criteria b) \<and> length (mc_criteria b) \<le> 2000
       \<and> 0 < mc_odds_yes b \<and> mc_odds_yes b < 1
       \<and> opt_all (\<lambda>c. length c \<le> 100) (mc_category b)
       \<and> now < mc_deadline b \<and> valid_stake_range (mc_min_stake b) (mc_max_stake b)
      then Inr b else Inl (HTTPException 422))"

definition validate_update :: "int \<Rightarrow> market_update \<Rightarrow> market_update result" where
  "validate_update now b =
     (if opt_all (\<lambda>c. length c \<le> 2000) (mu_criteria b) \<and> opt_all (\<lambda>d. now < d) (mu_deadline b)
       \<and> opt_all (\<lambda>p. 0 < p \<and> p < 1) (mu_odds_yes b)
       \<and> valid_stake_range (Option.bind (mu_min_stake b) id) (Option.bind (mu_max_stake b) id)
      then Inr b else Inl (HTTPException 422))"

definition total_pages :: "nat \<Rightarrow> nat \<Rightarrow> nat" where
  "total_pages n page_size = max 1 ((n + page_size - 1) div page_size)"

subsection \<open>Creating a market\<close>

definition generate_slug :: "(string \<Rightarrow> string) \<Rightarrow> string \<Rightarrow> uuid \<Rightarrow> string" where
  "generate_slug slugify q u = slugify q @ ''-'' @ take 6 (uuid_hex u)"

definition new_market :: "uuid \<Rightarrow> string \<Rightarrow> int \<Rightarrow> market_create \<Rightarrow> market" where
  "new_market i slug now b = \<lparr>mk_id = i, question = mc_question b, mk_slug = slug,
     resolution_criteria = mc_criteria b, mk_category = mc_category b, mk_source = HOUSE,
     source_market_id = None, condition_id = None, polymarket_slug = None, volume = 0, volume_24hr = 0,
     mk_status = OPEN, deadline = mc_deadline b, bet_count = 0, mk_created_at = now, mk_closed_at = None,
     resolved_at = None, uma_resolved_at = None, winning_outcome_id = None, resolution_source = None,
     resolution_justification = None, min_stake = mc_min_stake b, max_stake = mc_max_stake b,
     group_id = None, group_item_title = None\<rparr>"

text \<open>
  The three attempts.  \<open>begin_nested()\<close> flushes the pending row before it opens the savepoint, so an
  integrity error is raised while \<open>nested\<close> still is what the attempts before left it: unbound,
  since an attempt that binds it leaves the loop.
\<close>

fun insert_with_slug ::
  "(string \<Rightarrow> string) \<Rightarrow> (uuid \<times> uuid) list \<Rightarrow> bool \<Rightarrow> int \<Rightarrow> market_create \<Rightarrow> 'a db_scheme
    \<Rightarrow> (market \<times> 'a db_scheme) result" where
  "insert_with_slug slugify [] nested_bound now b s = Inl (HTTPException 409)"
| "insert_with_slug slugify ((i, u) # draws) nested_bound now b s =
     (case insert_market (new_market i (generate_slug slugify (mc_question b) u) now b) s of
        Inr (m, s') \<Rightarrow> Inr (m, s')
      | Inl (IntegrityError e) \<Rightarrow>
          if nested_bound then insert_with_slug slugify draws nested_bound now b s
          else Inl UnboundLocalError
      | Inl e \<Rightarrow> Inl e)"

definition new_outcome :: "uuid \<Rightarrow> uuid \<Rightarrow> string \<Rightarrow> rat \<Rightarrow> outcome" where
  "new_outcome i mid lbl p = \<lparr>oc_id = i, oc_market_id = mid, label = lbl, initial_odds = p, current_odds = p\<rparr>"

definition new_snapshot :: "uuid \<Rightarrow> uuid \<Rightarrow> uuid \<Rightarrow> rat \<Rightarrow> int \<Rightarrow> odds_snapshot" where
  "new_snapshot i mid oid p now =
     \<lparr>os_id = i, os_market_id = mid, os_outcome_id = oid, probability = p, snapshot_at = now\<rparr>"

text \<open>The identifiers of the two outcomes, their snapshots and the audit row.\<close>

type_synonym create_ids = "uuid \<times> uuid \<times> uuid \<times> uuid \<times> uuid"

definition create_market ::
  "(string \<Rightarrow> string) \<Rightarrow> (uuid \<times> uuid) list \<Rightarrow> create_ids \<Rightarrow> int \<Rightarrow> uuid \<Rightarrow> market_create
    \<Rightarrow> string option \<Rightarrow> 'a db_scheme \<Rightarrow> (market \<times> 'a db_scheme) result" where
  "create_market slugify draws ids now admin b ip s = (case ids of (yes_id, no_id, sy, sn, audit_id) \<Rightarrow>
     bindE (insert_with_slug slugify (take 3 draws) False now b s) (\<lambda>(m, s).
     let odds_no = dec_sub 1 (mc_odds_yes b) in
     bindE (insert_outcome (new_outcome yes_id (mk_id m) ''YES'' (mc_odds_yes b)) s) (\<lambda>(yes, s).
     bindE (insert_outcome (new_outcome no_id (mk_id m) ''NO'' odds_no) s) (\<lambda>(no, s).
     bindE (insert_snapshot (new_snapshot sy (mk_id m) yes_id (mc_odds_yes b) now) s) (\<lambda>s.
     bindE (insert_snapshot (new_snapshot sn (mk_id m) no_id odds_no now) s) (\<lambda>s.
     bindE (audit_record audit_id now (actor_string (Some admin)) ''market.created''
        [(''market_id'', JUuid (mk_id m)), (''question'', JStr (mc_question b)), (''source'', JStr ''HOUSE'')] ip s) (\<lambda>s.
     Inr (m, s))))))))"

subsection \<open>Updating and closing\<close>

definition ascii_upper :: "char \<Rightarrow> char" where
  "ascii_upper c = (let n = of_char c :: nat in if 97 \<le> n \<and> n \<le> 122 then char_of (n - 32) else c)"

definition is_yes :: "string \<Rightarrow> bool" where
  "is_yes l \<longleftrightarrow> map ascii_upper l = ''YES''"

text \<open>\<open>format_odds\<close>: \<open>quantize\<close> at six places rounds half to even.\<close>

definition format_odds :: "rat \<Rightarrow> rat" where
  "format_odds v = of_int (round_half_even (v * 10 ^ 6)) / 10 ^ 6"

definition reprice ::
  "(nat \<Rightarrow> uuid) \<Rightarrow> int \<Rightarrow> rat \<Rightarrow> nat \<times> outcome \<Rightarrow> 'a db_scheme \<Rightarrow> 'a db_scheme result" where
  "reprice gen now p x s = (case x of (i, oc) \<Rightarrow>
     let v = (if is_yes (label oc) then p else dec_sub 1 p) in
     bindE (probability_column v) (\<lambda>c.
     insert_snapshot (new_snapshot (gen i) (oc_market_id oc) (oc_id oc) v now)
       (update_outcome_row (oc_id oc) (\<lambda>oc. oc\<lparr>current_odds := c\<rparr>) s)))"

definition changed_fields :: "market_update \<Rightarrow> string list" where
  "changed_fields b =
     (if mu_criteria b \<noteq> None then [''resolution_criteria''] else []) @
     (if mu_deadline b \<noteq> None then [''deadline''] else []) @
     (if mu_category b \<noteq> None then [''category''] else []) @
     (if mu_min_stake b \<noteq> None then [''min_stake''] else []) @
     (if mu_max_stake b \<noteq> None then [''max_stake''] else []) @
     (if mu_odds_yes b \<noteq> None then [''odds''] else [])"

definition given :: "'a option \<Rightarrow> 'a \<Rightarrow> 'a" where
  "given v old = (case v of None \<Rightarrow> old | Some x \<Rightarrow> x)"

definition patch_row :: "market_update \<Rightarrow> rat option \<Rightarrow> rat option \<Rightarrow> market \<Rightarrow> market" where
  "patch_row b lo hi m = m\<lparr>resolution_criteria := given (mu_criteria b) (resolution_criteria m),
     deadline := given (mu_deadline b) (deadline m), mk_category := given (mu_category b) (mk_category m),
     min_stake := (if mu_min_stake b = None then min_stake m else lo),
     max_stake := (if mu_max_stake b = None then max_stake m else hi)\<rparr>"

definition odds_deltas :: "rat option \<Rightarrow> outcome list \<Rightarrow> (uuid \<times> rat) list" where
  "odds_deltas odds ocs = (case odds of None \<Rightarrow> []
     | Some p \<Rightarrow> map (\<lambda>oc. (oc_id oc, format_odds (if is_yes (label oc) then p else dec_sub 1 p))) ocs)"

definition update_market ::
  "(nat \<Rightarrow> uuid) \<Rightarrow> uuid \<Rightarrow> int \<Rightarrow> market \<Rightarrow> market_update \<Rightarrow> uuid \<Rightarrow> string option \<Rightarrow> 'a db_scheme
    \<Rightarrow> ((uuid \<times> rat) list \<times> 'a db_scheme) result" where
  "update_market gen audit_id now m b admin ip s =
     (if mk_status m \<noteq> OPEN then Inl (HTTPException 409)
      else if bet_count m > 0 \<and> mu_criteria b \<noteq> None then Inl (HTTPException 423)
      else
        let ocs = market_outcomes (mk_id m) s in
        bindE (opt_money (Option.bind (mu_min_stake b) id)) (\<lambda>lo.
        bindE (opt_money (Option.bind (mu_max_stake b) id)) (\<lambda>hi.
        let s = update_market_row (mk_id m) (patch_row b lo hi) s in
        bindE (case mu_odds_yes b of None \<Rightarrow> Inr s
               | Some p \<Rightarrow> foldE (reprice gen now p) (List.enumerate 0 ocs) s) (\<lambda>s.
        bindE (if changed_fields b = [] then Inr s
               else audit_record audit_id now (actor_string (Some admin)) ''market.updated''
                 [(''market_id'', JUuid (mk_id m)),
                  (''changed_fields'', JList (map JStr (changed_fields b)))] ip s) (\<lambda>s.
        Inr (odds_deltas (mu_odds_yes b) ocs, s))))))"

definition close_market ::
  "uuid \<Rightarrow> int \<Rightarrow> market \<Rightarrow> uuid \<Rightarrow> string option \<Rightarrow> 'a db_scheme \<Rightarrow> 'a db_scheme result" where
  "close_market audit_id now m admin ip s =
     (if mk_status m \<noteq> OPEN then Inl (HTTPException 409)
      else audit_record audit_id now (actor_string (Some admin)) ''market.closed''
        [(''market_id'', JUuid (mk_id m))] ip
        (update_market_row (mk_id m) (\<lambda>m. m\<lparr>mk_status := CLOSED, mk_closed_at := Some now\<rparr>) s))"

text \<open>The admin endpoints: validate the body, load the row, apply the service, commit.\<close>

definition post_market ::
  "(string \<Rightarrow> string) \<Rightarrow> (uuid \<times> uuid) list \<Rightarrow> create_ids \<Rightarrow> int \<Rightarrow> uuid \<Rightarrow> market_create
    \<Rightarrow> string option \<Rightarrow> 'a db_scheme \<Rightarrow> (market \<times> 'a db_scheme) result" where
  "post_market slugify draws ids now admin b ip s =
     bindE (validate_create now b) (\<lambda>b. create_market slugify draws ids now admin b ip (begin_tx s))"

definition patch_market ::
  "(nat \<Rightarrow> uuid) \<Rightarrow> uuid \<Rightarrow> int \<Rightarrow> uuid \<Rightarrow> market_update \<Rightarrow> uuid \<Rightarrow> string option \<Rightarrow> 'a db_scheme
    \<Rightarrow> ((uuid \<times> rat) list \<times> 'a db_scheme) result" where
  "patch_market gen audit_id now mid b admin ip s =
     bindE (validate_update now b) (\<lambda>b. case get_market_row mid s of
       None \<Rightarrow> Inl (HTTPException 404)
     | Some m \<Rightarrow> update_market gen audit_id now m b admin ip (begin_tx s))"

definition post_close_market ::
  "uuid \<Rightarrow> int \<Rightarrow> uuid \<Rightarrow> uuid \<Rightarrow> string option \<Rightarrow> 'a db_scheme \<Rightarrow> 'a db_scheme result" where
  "post_close_market audit_id now mid admin ip s = (case get_market_row mid s of
     None \<Rightarrow> Inl (HTTPException 404)
   | Some m \<Rightarrow> close_market audit_id now m admin ip (begin_tx s))"

subsection \<open>What the inserts do\<close>

definition is_probability :: "rat \<Rightarrow> bool" where
  "is_probability p \<longleftrightarrow> is_odds p \<and> 0 \<le> p \<and> p \<le> 1"

lemma probability_column_Inr: "probability_column v = Inr p \<Longrightarrow> is_probability p"
  by (auto simp: probability_column_def is_probability_def dest: numeric_8_6_is_odds)

lemma probability_column_id: "is_probability p \<Longrightarrow> probability_column p = Inr p"
  by (simp add: probability_column_def is_probability_def numeric_8_6_id)

lemma complement_probability:
  assumes "is_probability p"
  shows "dec_sub 1 p = 1 - p" "is_probability (1 - p)"
proof -
  obtain P where P: "p * 1000000 = of_int P" using assms by (auto simp: is_probability_def is_odds_iff)
  have b: "0 \<le> p" "p \<le> 1" using assms by (simp_all add: is_probability_def)
  then have "(of_int 0 :: rat) \<le> of_int P" "(of_int P :: rat) \<le> of_int 1000000" by (simp_all flip: P)
  then have P0: "0 \<le> P" "P \<le> 1000000" by (simp_all only: of_int_le_iff)
  have "dec_round (1 - p) = 1 - p"
  proof (rule dec_round_exact [of _ 6 "1000000 - P"])
    show "(1 - p) * 10 ^ 6 = of_int (1000000 - P)" by (simp add: left_diff_distrib P)
  qed (use P0 in simp)
  then show "dec_sub 1 p = 1 - p" by (simp add: dec_sub_def)
  have "(1 - p) * 1000000 = of_int (1000000 - P)" by (simp add: left_diff_distrib P)
  then have "\<exists>n. (1 - p) * 1000000 = of_int n" by blast
  then show "is_probability (1 - p)" using b by (simp add: is_probability_def is_odds_iff)
qed

lemma insert_market_Inr:
  assumes "insert_market m s = Inr (m', s')"
  obtains v v24 lo hi where "m' = m\<lparr>volume := v, volume_24hr := v24, min_stake := lo, max_stake := hi\<rparr>"
    "opt_money (min_stake m) = Inr lo" "opt_money (max_stake m) = Inr hi"
    "numeric_18_4 (volume m) = Inr v" "numeric_18_4 (volume_24hr m) = Inr v24"
    "s' = s\<lparr>markets := markets s @ [m']\<rparr>" "mk_id m \<notin> mk_id ` set (markets s)"
    "mk_slug m \<notin> mk_slug ` set (markets s)"
  using assms by (auto simp: insert_market_def Let_def)

lemma insert_outcome_Inr:
  assumes "insert_outcome oc s = Inr (oc', s')"
  obtains i c where "oc' = oc\<lparr>initial_odds := i, current_odds := c\<rparr>"
    "probability_column (initial_odds oc) = Inr i" "probability_column (current_odds oc) = Inr c"
    "s' = s\<lparr>outcomes := outcomes s @ [oc']\<rparr>" "oc_id oc \<notin> oc_id ` set (outcomes s)"
    "oc_market_id oc \<in> mk_id ` set (markets s)" "length (market_outcomes (oc_market_id oc) s) < 2"
  using assms by (auto simp: insert_outcome_def check_binary_outcomes_def market_outcomes_def Let_def not_le)

lemma insert_snapshot_Inr:
  assumes "insert_snapshot os s = Inr s'"
  obtains p where "probability_column (probability os) = Inr p"
    "s' = s\<lparr>odds_snapshots := odds_snapshots s @ [os\<lparr>probability := p\<rparr>]\<rparr>"
    "os_id os \<notin> os_id ` set (odds_snapshots s)" "os_market_id os \<in> mk_id ` set (markets s)"
    "os_outcome_id os \<in> oc_id ` set (outcomes s)"
  using assms by (auto simp: insert_snapshot_def)

lemma insert_with_slug_Inr:
  assumes "insert_with_slug slugify draws False now b s = Inr (m, s')"
  obtains i u rest where "draws = (i, u) # rest"
    "insert_market (new_market i (generate_slug slugify (mc_question b) u) now b) s = Inr (m, s')"
proof (cases draws)
  case (Cons d rest)
  obtain i u where d: "d = (i, u)" by (cases d) simp
  show thesis
    using that [of i u rest] assms unfolding Cons d by (auto split: sum.splits exn.splits)
qed (use assms in simp)

subsection \<open>The catalogue invariant\<close>

text \<open>
  Keys and slugs are unique, every outcome belongs to a market and every snapshot to an outcome,
  a market has at most two outcomes, and every price the tables hold is a probability.
\<close>

definition catalog_ok :: "'a db_scheme \<Rightarrow> bool" where
  "catalog_ok s \<longleftrightarrow> distinct (map mk_id (markets s)) \<and> distinct (map mk_slug (markets s))
     \<and> distinct (map oc_id (outcomes s)) \<and> distinct (map os_id (odds_snapshots s))
     \<and> (\<forall>mid. length (market_outcomes mid s) \<le> 2)
     \<and> (\<forall>oc \<in> set (outcomes s). oc_market_id oc \<in> mk_id ` set (markets s)
          \<and> is_probability (initial_odds oc) \<and> is_probability (current_odds oc))
     \<and> (\<forall>os \<in> set (odds_snapshots s). os_market_id os \<in> mk_id ` set (markets s)
          \<and> os_outcome_id os \<in> oc_id ` set (outcomes s) \<and> is_probability (probability os))"

named_theorems catalog_intros \<open>operations that keep the catalogue invariant\<close>

lemma catalog_ok_frame:
  "markets s' = markets s \<Longrightarrow> outcomes s' = outcomes s \<Longrightarrow> odds_snapshots s' = odds_snapshots s
    \<Longrightarrow> catalog_ok s \<Longrightarrow> catalog_ok s'"
  by (simp add: catalog_ok_def market_outcomes_def)

lemma catalog_insert_market [catalog_intros]:
  assumes "insert_market m s = Inr (m', s')" "catalog_ok s"
  shows "catalog_ok s'"
  using assms(1) by (rule insert_market_Inr) (use assms(2) in \<open>auto simp: catalog_ok_def market_outcomes_def\<close>)

lemma catalog_insert_outcome [catalog_intros]:
  assumes "insert_outcome oc s = Inr (oc', s')" "catalog_ok s"
  shows "catalog_ok s'"
  using assms(1)
  by (rule insert_outcome_Inr)
    (use assms(2) in \<open>auto simp: catalog_ok_def market_outcomes_def dest: probability_column_Inr\<close>)

lemma catalog_insert_snapshot [catalog_intros]:
  assumes "insert_snapshot os s = Inr s'" "catalog_ok s"
  shows "catalog_ok s'"
  using assms(1)
  by (rule insert_snapshot_Inr)
    (use assms(2) in \<open>auto simp: catalog_ok_def market_outcomes_def dest: probability_column_Inr\<close>)

lemma catalog_audit [catalog_intros]: "audit_record i now ac ev body ip s = Inr s' \<Longrightarrow> catalog_ok s \<Longrightarrow> catalog_ok s'"
  by (auto simp: result_simps intro: catalog_ok_frame)

lemma catalog_begin_tx [catalog_intros]: "catalog_ok s \<Longrightarrow> catalog_ok (begin_tx s)"
  by (rule catalog_ok_frame) (simp_all add: begin_tx_def)

lemma catalog_update_market [catalog_intros]:
  assumes "\<And>m. mk_id (f m) = mk_id m \<and> mk_slug (f m) = mk_slug m" "catalog_ok s"
  shows "catalog_ok (update_market_row u f s)"
proof -
  have "map mk_id (update_where p f xs) = map mk_id xs" "map mk_slug (update_where p f xs) = map mk_slug xs" for p and xs :: "market list"
    using assms(1) by (auto intro: map_update_where_same)
  moreover have "mk_id ` set (update_where p f xs) = mk_id ` set xs" for p and xs :: "market list"
    using calculation(1) by (metis set_map)
  ultimately show ?thesis using assms(2) by (simp add: catalog_ok_def update_market_row_def market_outcomes_def)
qed

lemma catalog_update_outcome [catalog_intros]:
  assumes "is_probability c" "catalog_ok s"
  shows "catalog_ok (update_outcome_row u (\<lambda>oc. oc\<lparr>current_odds := c\<rparr>) s)"
proof -
  let ?f = "\<lambda>oc. oc\<lparr>current_odds := c\<rparr>"
  have "map oc_id (update_where p ?f xs) = map oc_id xs" for p and xs :: "outcome list" by (auto intro: map_update_where_same)
  moreover have "oc_id ` set (update_where p ?f xs) = oc_id ` set xs" for p and xs :: "outcome list"
    using calculation by (metis set_map)
  moreover have "length (filter (\<lambda>oc. oc_market_id oc = mid) (update_where p ?f xs))
      = length (filter (\<lambda>oc. oc_market_id oc = mid) xs)" for p mid and xs :: "outcome list"
    by (induction xs) simp_all
  ultimately show ?thesis
    using assms by (simp add: catalog_ok_def update_outcome_row_def market_outcomes_def) (auto simp: set_update_where)
qed

end
