(* ===== verification/MarketRules.thy ===== *)
theory MarketRules
  imports Markets
begin

text \<open>
  What the market operations guarantee: the effect of opening a market, the catalogue invariant,
  the freeze of a market that is not open, and the two gaps of the request validation.
\<close>

subsection \<open>The effect of each operation\<close>

lemma market_outcomes_fresh:
  "catalog_ok s \<Longrightarrow> mid \<notin> mk_id ` set (markets s) \<Longrightarrow> market_outcomes mid s = []"
  by (auto simp: catalog_ok_def market_outcomes_def filter_empty_conv)

lemma insert_new_market:
  assumes "insert_market (new_market i slug now b) s = Inr (m, s')"
  obtains v v24 lo hi where
    "m = (new_market i slug now b)\<lparr>volume := v, volume_24hr := v24, min_stake := lo, max_stake := hi\<rparr>"
    "opt_money (mc_min_stake b) = Inr lo" "opt_money (mc_max_stake b) = Inr hi"
    "s' = s\<lparr>markets := markets s @ [m]\<rparr>" "mk_id m \<notin> mk_id ` set (markets s)" "mk_slug m \<notin> mk_slug ` set (markets s)"
proof -
  from assms obtain v v24 lo hi where
    m: "m = (new_market i slug now b)\<lparr>volume := v, volume_24hr := v24, min_stake := lo, max_stake := hi\<rparr>"
    "opt_money (min_stake (new_market i slug now b)) = Inr lo" "opt_money (max_stake (new_market i slug now b)) = Inr hi"
    "s' = s\<lparr>markets := markets s @ [m]\<rparr>" "mk_id (new_market i slug now b) \<notin> mk_id ` set (markets s)"
    "mk_slug (new_market i slug now b) \<notin> mk_slug ` set (markets s)"
    by (rule insert_market_Inr)
  show thesis by (rule that [OF m(1) _ _ m(4)]) (use m in \<open>simp_all add: new_market_def\<close>)
qed

lemma insert_new_outcome:
  assumes "insert_outcome (new_outcome i mid lbl p) s = Inr (oc, s')"
  obtains y where "probability_column p = Inr y" "oc = new_outcome i mid lbl y"
    "s' = s\<lparr>outcomes := outcomes s @ [oc]\<rparr>"
proof -
  from assms obtain y c where y: "oc = (new_outcome i mid lbl p)\<lparr>initial_odds := y, current_odds := c\<rparr>"
      "probability_column (initial_odds (new_outcome i mid lbl p)) = Inr y"
      "probability_column (current_odds (new_outcome i mid lbl p)) = Inr c"
      "s' = s\<lparr>outcomes := outcomes s @ [oc]\<rparr>"
    by (rule insert_outcome_Inr)
  then have c: "probability_column p = Inr y" "c = y" by (simp_all add: new_outcome_def)
  show thesis by (rule that [OF c(1) _ y(4)]) (simp add: y(1) c(2) new_outcome_def)
qed

lemma insert_new_snapshot:
  assumes "insert_snapshot (new_snapshot i mid oid p now) s = Inr s'"
  obtains y where "probability_column p = Inr y"
    "s' = s\<lparr>odds_snapshots := odds_snapshots s @ [new_snapshot i mid oid y now]\<rparr>"
proof -
  from assms obtain y where y: "probability_column (probability (new_snapshot i mid oid p now)) = Inr y"
      "s' = s\<lparr>odds_snapshots := odds_snapshots s @ [(new_snapshot i mid oid p now)\<lparr>probability := y\<rparr>]\<rparr>"
    by (rule insert_snapshot_Inr)
  show thesis by (rule that [of y]) (use y in \<open>simp_all add: new_snapshot_def\<close>)
qed

lemma create_market_effect:
  assumes "create_market slugify draws ids now admin b ip s = Inr (m, s')"
  obtains i u v v24 lo hi yes no y n where
    "m = (new_market i (generate_slug slugify (mc_question b) u) now b)
       \<lparr>volume := v, volume_24hr := v24, min_stake := lo, max_stake := hi\<rparr>"
    "opt_money (mc_min_stake b) = Inr lo" "opt_money (mc_max_stake b) = Inr hi"
    "mk_id m \<notin> mk_id ` set (markets s)" "mk_slug m \<notin> mk_slug ` set (markets s)"
    "markets s' = markets s @ [m]"
    "probability_column (mc_odds_yes b) = Inr y" "probability_column (dec_sub 1 (mc_odds_yes b)) = Inr n"
    "yes = new_outcome (fst ids) i ''YES'' y" "no = new_outcome (fst (snd ids)) i ''NO'' n"
    "outcomes s' = outcomes s @ [yes, no]"
    "map probability (odds_snapshots s') = map probability (odds_snapshots s) @ [y, n]"
    "length (audit_log s') = Suc (length (audit_log s))" "same_books s s'" "bets s' = bets s"
proof -
  obtain yi ni sy sn ai where ids: "ids = (yi, ni, sy, sn, ai)" by (cases ids)
  obtain s1 oy s2 on s3 s4 s5 where c: "insert_with_slug slugify (take 3 draws) False now b s = Inr (m, s1)"
      "insert_outcome (new_outcome yi (mk_id m) ''YES'' (mc_odds_yes b)) s1 = Inr (oy, s2)"
      "insert_outcome (new_outcome ni (mk_id m) ''NO'' (dec_sub 1 (mc_odds_yes b))) s2 = Inr (on, s3)"
      "insert_snapshot (new_snapshot sy (mk_id m) yi (mc_odds_yes b) now) s3 = Inr s4"
      "insert_snapshot (new_snapshot sn (mk_id m) ni (dec_sub 1 (mc_odds_yes b)) now) s4 = Inr s5"
    and au: "length (audit_log s') = Suc (length (audit_log s5))" "same_books s5 s'" "bets s' = bets s5"
      "markets s' = markets s5" "outcomes s' = outcomes s5" "odds_snapshots s' = odds_snapshots s5"
    using assms by (auto simp: create_market_def ids Let_def result_simps same_books_def)
  note bk = insert_outcome_books [OF c(2)] insert_outcome_books [OF c(3)]
    insert_snapshot_books [OF c(4)] insert_snapshot_books [OF c(5)]
  obtain i u where m: "insert_market (new_market i (generate_slug slugify (mc_question b) u) now b) s = Inr (m, s1)"
    by (rule insert_with_slug_Inr [OF c(1)])
  note bk1 = insert_market_books [OF m]
  from m obtain v v24 lo hi where m1:
    "m = (new_market i (generate_slug slugify (mc_question b) u) now b)
       \<lparr>volume := v, volume_24hr := v24, min_stake := lo, max_stake := hi\<rparr>"
    "opt_money (mc_min_stake b) = Inr lo" "opt_money (mc_max_stake b) = Inr hi"
    "s1 = s\<lparr>markets := markets s @ [m]\<rparr>" "mk_id m \<notin> mk_id ` set (markets s)" "mk_slug m \<notin> mk_slug ` set (markets s)"
    by (rule insert_new_market)
  from c(2) obtain y where y: "probability_column (mc_odds_yes b) = Inr y" "oy = new_outcome yi (mk_id m) ''YES'' y"
      "s2 = s1\<lparr>outcomes := outcomes s1 @ [oy]\<rparr>" by (rule insert_new_outcome)
  from c(3) obtain n where n: "probability_column (dec_sub 1 (mc_odds_yes b)) = Inr n"
      "on = new_outcome ni (mk_id m) ''NO'' n" "s3 = s2\<lparr>outcomes := outcomes s2 @ [on]\<rparr>" by (rule insert_new_outcome)
  from c(4) y(1) have s4: "s4 = s3\<lparr>odds_snapshots := odds_snapshots s3 @ [new_snapshot sy (mk_id m) yi y now]\<rparr>"
    by (auto elim: insert_new_snapshot)
  from c(5) n(1) have s5: "s5 = s4\<lparr>odds_snapshots := odds_snapshots s4 @ [new_snapshot sn (mk_id m) ni n now]\<rparr>"
    by (auto elim: insert_new_snapshot)
  have mi: "mk_id m = i" by (simp add: m1(1) new_market_def)
  show thesis
  proof (rule that [OF m1(1-3,5,6) _ y(1) n(1)])
    show "same_books s s'" using bk bk1 au(2) by (meson same_books_trans)
    show "oy = new_outcome (fst ids) i ''YES'' y" "on = new_outcome (fst (snd ids)) i ''NO'' n"
      using y(2) n(2) mi ids by simp_all
  qed (use au m1(4) y(3) n(3) s4 s5 in \<open>simp_all add: new_snapshot_def\<close>)
qed

lemma validate_create_Inr: "validate_create now b = Inr b' \<Longrightarrow> b' = b \<and> now < mc_deadline b \<and> 0 < mc_odds_yes b \<and> mc_odds_yes b < 1"
  by (auto simp: validate_create_def split: if_splits)

lemma validate_update_Inr: "validate_update now b = Inr b' \<Longrightarrow> b' = b"
  by (auto simp: validate_update_def split: if_splits)

lemma opt_money_Inr: "opt_money v = Inr w \<Longrightarrow> opt_all is_money w"
  by (auto simp: opt_money_def opt_all_def split: option.splits dest: numeric_18_4_is_money)

lemma reprice_effect:
  fixes s s' :: "'a db_scheme"
  assumes "reprice gen now p x s = Inr s'"
  shows "markets s' = markets s \<and> bets s' = bets s \<and> audit_log s' = audit_log s \<and> same_books s s'
     \<and> (catalog_ok s \<longrightarrow> catalog_ok s')"
proof -
  obtain i oc where x: "x = (i, oc)" by (cases x)
  let ?v = "if is_yes (label oc) then p else dec_sub 1 p"
  let ?upd = "\<lambda>c. update_outcome_row (oc_id oc) (\<lambda>oc. oc\<lparr>current_odds := c\<rparr>) s"
  obtain c where c: "probability_column ?v = Inr c"
      "insert_snapshot (new_snapshot (gen i) (oc_market_id oc) (oc_id oc) ?v now) (?upd c) = Inr s'"
    using assms by (auto simp: reprice_def x Let_def)
  have up: "markets (?upd c) = markets s" "bets (?upd c) = bets s" "audit_log (?upd c) = audit_log s" "same_books s (?upd c)"
    by (simp_all add: update_outcome_row_def same_books_def)
  from c(2) have "markets s' = markets (?upd c) \<and> bets s' = bets (?upd c) \<and> audit_log s' = audit_log (?upd c)"
    by (elim insert_snapshot_Inr) simp
  moreover have "same_books s s'"
    using insert_snapshot_books [OF c(2)] up(4) by (rule same_books_trans [rotated])
  moreover have "catalog_ok s'" if "catalog_ok s"
    by (rule catalog_insert_snapshot [OF c(2)], rule catalog_update_outcome [OF _ that])
      (rule probability_column_Inr [OF c(1)])
  ultimately show ?thesis using up by simp
qed

lemma reprice_all_effect:
  fixes s s' :: "'a db_scheme"
  assumes "foldE (reprice gen now p) xs s = Inr s'"
  shows "markets s' = markets s \<and> bets s' = bets s \<and> audit_log s' = audit_log s \<and> same_books s s'
     \<and> (catalog_ok s \<longrightarrow> catalog_ok s')"
  using assms
  by (rule foldE_invariant [where P = "\<lambda>t. markets t = markets s \<and> bets t = bets s \<and> audit_log t = audit_log s
      \<and> same_books s t \<and> (catalog_ok s \<longrightarrow> catalog_ok t)"])
    (use reprice_effect in \<open>fastforce dest: same_books_trans\<close>)+

lemma audit_frame:
  assumes "audit_record i now ac ev body ip s = Inr s'"
  shows "markets s' = markets s" "outcomes s' = outcomes s" "odds_snapshots s' = odds_snapshots s" "bets s' = bets s"
    "length (audit_log s') = Suc (length (audit_log s))" "same_books s s'"
  using assms by (auto simp: result_simps same_books_def)

lemma update_market_effect:
  fixes s s' :: "'a db_scheme"
  assumes "update_market gen ai now m b admin ip s = Inr (ds, s')"
  obtains lo hi where "mk_status m = OPEN" "opt_money (Option.bind (mu_min_stake b) id) = Inr lo"
    "opt_money (Option.bind (mu_max_stake b) id) = Inr hi"
    "markets s' = update_where (\<lambda>n. mk_id n = mk_id m) (patch_row b lo hi) (markets s)"
    "bets s' = bets s" "same_books s s'" "catalog_ok s \<longrightarrow> catalog_ok s'"
    "ds = odds_deltas (mu_odds_yes b) (market_outcomes (mk_id m) s)"
proof -
  let ?ocs = "market_outcomes (mk_id m) s"
  let ?s1 = "\<lambda>lo hi. update_market_row (mk_id m) (patch_row b lo hi) s"
  obtain lo hi s2 where u: "mk_status m = OPEN" "opt_money (Option.bind (mu_min_stake b) id) = Inr lo"
      "opt_money (Option.bind (mu_max_stake b) id) = Inr hi"
      "(case mu_odds_yes b of None \<Rightarrow> Inr (?s1 lo hi)
         | Some p \<Rightarrow> foldE (reprice gen now p) (List.enumerate 0 ?ocs) (?s1 lo hi)) = Inr s2"
      "(if changed_fields b = [] then Inr s2
        else audit_record ai now (actor_string (Some admin)) ''market.updated''
          [(''market_id'', JUuid (mk_id m)), (''changed_fields'', JList (map JStr (changed_fields b)))] ip s2) = Inr s'"
    and ds: "ds = odds_deltas (mu_odds_yes b) ?ocs"
    using assms by (auto simp: update_market_def Let_def split: if_splits)
  have s2: "markets s2 = markets (?s1 lo hi) \<and> bets s2 = bets (?s1 lo hi) \<and> same_books (?s1 lo hi) s2
      \<and> (catalog_ok (?s1 lo hi) \<longrightarrow> catalog_ok s2)"
    using u(4) by (cases "mu_odds_yes b") (auto dest: reprice_all_effect)
  have s': "markets s' = markets s2" "bets s' = bets s2" "same_books s2 s'" "catalog_ok s2 \<longrightarrow> catalog_ok s'"
    using u(5) by (auto split: if_splits dest: audit_frame catalog_audit)
  have c1: "catalog_ok s \<longrightarrow> catalog_ok (?s1 lo hi)"
    by (intro impI catalog_update_market) (simp_all add: patch_row_def)
  have "same_books s s'"
    using same_books_updates(7) conjunct1 [OF conjunct2 [OF conjunct2 [OF s2]]] s'(3) by (meson same_books_trans)
  then show thesis
    using that [OF u(1-3)] s2 s' c1 ds by (auto simp: update_market_row_def)
qed

lemma close_market_effect:
  fixes s s' :: "'a db_scheme"
  assumes "close_market ai now m admin ip s = Inr s'"
  shows "mk_status m = OPEN" "bets s' = bets s" "same_books s s'" "catalog_ok s \<longrightarrow> catalog_ok s'"
    "markets s' = update_where (\<lambda>n. mk_id n = mk_id m) (\<lambda>n. n\<lparr>mk_status := CLOSED, mk_closed_at := Some now\<rparr>) (markets s)"
proof -
  let ?s1 = "update_market_row (mk_id m) (\<lambda>n. n\<lparr>mk_status := CLOSED, mk_closed_at := Some now\<rparr>) s"
  have a: "mk_status m = OPEN" "audit_record ai now (actor_string (Some admin)) ''market.closed''
      [(''market_id'', JUuid (mk_id m))] ip ?s1 = Inr s'"
    using assms by (auto simp: close_market_def split: if_splits)
  note f = audit_frame [OF a(2)]
  have "catalog_ok ?s1" if "catalog_ok s" using that by (intro catalog_update_market) simp_all
  then show "catalog_ok s \<longrightarrow> catalog_ok s'" using catalog_audit [OF a(2)] by blast
  show "same_books s s'" using same_books_updates(7) f(6) by (rule same_books_trans)
  show "mk_status m = OPEN" by (rule a(1))
  show "bets s' = bets s" "markets s' = update_where (\<lambda>n. mk_id n = mk_id m)
      (\<lambda>n. n\<lparr>mk_status := CLOSED, mk_closed_at := Some now\<rparr>) (markets s)"
    using f by (simp_all add: update_market_row_def)
qed

lemma begin_tx_fields [simp]:
  "markets (begin_tx s) = markets s" "outcomes (begin_tx s) = outcomes s" "bets (begin_tx s) = bets s"
  "odds_snapshots (begin_tx s) = odds_snapshots s" "audit_log (begin_tx s) = audit_log s" "same_books s (begin_tx s)"
  "get_market_row u (begin_tx s) = get_market_row u s" "market_outcomes u (begin_tx s) = market_outcomes u s"
  by (simp_all add: begin_tx_def same_books_def get_market_row_def market_outcomes_def)

lemma catalog_create:
  assumes "create_market slugify draws ids now admin b ip s = Inr (m, s')" "catalog_ok s"
  shows "catalog_ok s'"
proof -
  obtain yi ni sy sn ai where ids: "ids = (yi, ni, sy, sn, ai)" by (cases ids)
  obtain s1 oy s2 on s3 s4 s5 where c: "insert_with_slug slugify (take 3 draws) False now b s = Inr (m, s1)"
      "insert_outcome (new_outcome yi (mk_id m) ''YES'' (mc_odds_yes b)) s1 = Inr (oy, s2)"
      "insert_outcome (new_outcome ni (mk_id m) ''NO'' (dec_sub 1 (mc_odds_yes b))) s2 = Inr (on, s3)"
      "insert_snapshot (new_snapshot sy (mk_id m) yi (mc_odds_yes b) now) s3 = Inr s4"
      "insert_snapshot (new_snapshot sn (mk_id m) ni (dec_sub 1 (mc_odds_yes b)) now) s4 = Inr s5"
      "audit_record ai now (actor_string (Some admin)) ''market.created'' [(''market_id'', JUuid (mk_id m)),
         (''question'', JStr (mc_question b)), (''source'', JStr ''HOUSE'')] ip s5 = Inr s'"
    using assms(1) by (auto simp: create_market_def ids Let_def)
  from c(1) have "catalog_ok s1" by (rule insert_with_slug_Inr) (rule catalog_insert_market [OF _ assms(2)])
  then show ?thesis
    by (intro catalog_audit [OF c(6)] catalog_insert_snapshot [OF c(5)] catalog_insert_snapshot [OF c(4)]
        catalog_insert_outcome [OF c(3)] catalog_insert_outcome [OF c(2)])
qed

lemma get_market_row_Some:
  "distinct (map mk_id (markets s)) \<Longrightarrow> get_market_row u s = Some m \<longleftrightarrow> m \<in> set (markets s) \<and> mk_id m = u"
  unfolding get_market_row_def find_Some_iff by (auto simp: in_set_conv_nth distinct_conv_nth nth_map dest: nth_equalityI)

subsection \<open>Opening a market\<close>

text \<open>
  Opening a market.  A market the admin endpoint creates is OPEN, has a fresh id and slug and a
  deadline in the future, can be bet on at once, and has exactly the outcomes YES and NO with
  probabilities as prices, both recorded as the first points of their price history; a price given
  in the six decimals of the column is kept and the two prices sum to one.  One audit row is
  written and no balance or bet changes.
\<close>

theorem post_market_opens:
  assumes "post_market slugify draws ids now admin b ip s = Inr (m, s')" "catalog_ok s"
  shows "mk_status m = OPEN \<and> question m = mc_question b
     \<and> mk_id m \<notin> mk_id ` set (markets s) \<and> mk_slug m \<notin> mk_slug ` set (markets s) \<and> markets s' = markets s @ [m]
     \<and> (\<exists>v. house_get_market s' (mk_id m) = Some v \<and> is_open v now)
     \<and> (\<exists>yes no. market_outcomes (mk_id m) s' = [yes, no] \<and> label yes = ''YES'' \<and> label no = ''NO''
          \<and> is_probability (current_odds yes) \<and> is_probability (current_odds no)
          \<and> (is_odds (mc_odds_yes b) \<longrightarrow>
               current_odds yes = mc_odds_yes b \<and> current_odds yes + current_odds no = 1)
          \<and> map probability (odds_snapshots s') = map probability (odds_snapshots s) @ [current_odds yes, current_odds no])
     \<and> length (audit_log s') = Suc (length (audit_log s)) \<and> same_books s s' \<and> bets s' = bets s \<and> catalog_ok s'"
proof -
  have v: "now < mc_deadline b" "0 < mc_odds_yes b" "mc_odds_yes b < 1"
    and c: "create_market slugify draws ids now admin b ip (begin_tx s) = Inr (m, s')"
    using assms(1) by (auto simp: post_market_def dest: validate_create_Inr)
  obtain i u v0 v24 lo hi yes no y n where e:
    "m = (new_market i (generate_slug slugify (mc_question b) u) now b)
       \<lparr>volume := v0, volume_24hr := v24, min_stake := lo, max_stake := hi\<rparr>"
    "mk_id m \<notin> mk_id ` set (markets (begin_tx s))" "mk_slug m \<notin> mk_slug ` set (markets (begin_tx s))"
    "markets s' = markets (begin_tx s) @ [m]"
    "probability_column (mc_odds_yes b) = Inr y" "probability_column (dec_sub 1 (mc_odds_yes b)) = Inr n"
    "yes = new_outcome (fst ids) i ''YES'' y" "no = new_outcome (fst (snd ids)) i ''NO'' n"
    "outcomes s' = outcomes (begin_tx s) @ [yes, no]"
    "map probability (odds_snapshots s') = map probability (odds_snapshots (begin_tx s)) @ [y, n]"
    "length (audit_log s') = Suc (length (audit_log (begin_tx s)))" "same_books (begin_tx s) s'" "bets s' = bets (begin_tx s)"
    by (rule create_market_effect [OF c])
  have mi: "mk_id m = i" "mk_status m = OPEN" "deadline m = mc_deadline b" "question m = mc_question b"
    by (simp_all add: e(1) new_market_def)
  have ck: "catalog_ok s'" by (rule catalog_create [OF c catalog_begin_tx [OF assms(2)]])
  have "market_outcomes i s = []" using e(2) assms(2) mi(1) by (simp add: market_outcomes_fresh)
  then have oc: "market_outcomes (mk_id m) s' = [yes, no]"
    using e(7,8,9) mi(1) by (simp add: market_outcomes_def new_outcome_def)
  have row: "get_market_row (mk_id m) s' = Some m"
    using ck e(4) by (subst get_market_row_Some) (simp_all add: catalog_ok_def)
  then have view: "\<exists>v. house_get_market s' (mk_id m) = Some v \<and> is_open v now"
    using v mi by (simp add: house_get_market_def is_open_def)
  have prob: "is_probability y" "is_probability n" using probability_column_Inr e(5,6) by blast+
  have "y = mc_odds_yes b \<and> y + n = 1" if "is_odds (mc_odds_yes b)"
  proof -
    have p: "is_probability (mc_odds_yes b)" using that v by (simp add: is_probability_def)
    then show ?thesis
      using e(5,6) complement_probability [OF p] by (simp add: probability_column_id)
  qed
  moreover have "same_books s s'" using e(12) by (simp add: same_books_def begin_tx_def)
  ultimately show ?thesis
    using e mi oc view prob ck by (auto simp: new_outcome_def)
qed

definition demo_create :: "string \<Rightarrow> market_create" where
  "demo_create q = \<lparr>mc_question = q, mc_criteria = ''c'', mc_deadline = 1000, mc_odds_yes = 2/5,
     mc_category = None, mc_min_stake = Some 1, mc_max_stake = Some 10\<rparr>"

lemma demo_catalog: "catalog_ok demo_db"
proof -
  have "length (market_outcomes mid demo_db) \<le> 2" for mid by (simp add: market_outcomes_def demo_db_def)
  moreover have "is_probability (3/10)" "is_probability (7/10)" by code_simp+
  ultimately show ?thesis by (simp add: catalog_ok_def demo_db_def)
qed

lemma post_market_opens_witness:
  "okE (\<lambda>(m, s'). length (market_outcomes 0x70 s') = 2 \<and> mk_status m = OPEN)
     (post_market (\<lambda>q. q) [(0x70, 0xab)] (0x71, 0x72, 0x73, 0x74, 0x75) 20 4 (demo_create ''rain'') None demo_db)"
proof -
  have "okE (\<lambda>(m, s'). mk_id m = 0x70) (post_market (\<lambda>q. q) [(0x70, 0xab)] (0x71, 0x72, 0x73, 0x74, 0x75) 20 4
      (demo_create ''rain'') None demo_db)" by code_simp
  then obtain m s' where c: "post_market (\<lambda>q. q) [(0x70, 0xab)] (0x71, 0x72, 0x73, 0x74, 0x75) 20 4
      (demo_create ''rain'') None demo_db = Inr (m, s')" and i: "mk_id m = 0x70" by (auto simp: okE_iff)
  from post_market_opens [OF c demo_catalog] have "mk_status m = OPEN" "length (market_outcomes (mk_id m) s') = 2" by auto
  then show ?thesis by (simp add: c i okE_iff)
qed

text \<open>
  A slug collision is never retried.  When the first draw's slug is taken the endpoint raises
  \<open>UnboundLocalError\<close>, however many draws are left: the savepoint the handler rolls back is opened
  only after the flush that fails.
\<close>

theorem slug_collision_not_retried:
  assumes "validate_create now b = Inr b" "opt_money (mc_min_stake b) \<noteq> Inl DataError" "opt_money (mc_max_stake b) \<noteq> Inl DataError"
    and "generate_slug slugify (mc_question b) u \<in> mk_slug ` set (markets s)"
  shows "post_market slugify ((i, u) # draws) ids now admin b ip s = Inl UnboundLocalError"
proof -
  have ok: "\<exists>w. opt_money v = Inr w" if "opt_money v \<noteq> Inl DataError" for v
    using that by (cases "opt_money v") (auto simp: opt_money_def numeric_18_4_def Let_def split: option.splits if_splits)
  obtain lo hi where l: "opt_money (mc_min_stake b) = Inr lo" "opt_money (mc_max_stake b) = Inr hi"
    using ok assms(2,3) by metis
  have z: "numeric_18_4 0 = Inr 0" by (simp add: numeric_18_4_def)
  have "insert_market (new_market i (generate_slug slugify (mc_question b) u) now b) (begin_tx s)
      = Inl (IntegrityError UniqueViolation)"
    using assms(4) l by (simp add: insert_market_def new_market_def z Let_def)
  then show ?thesis
    by (cases ids) (simp add: post_market_def assms(1) create_market_def)
qed

lemma slug_collision_not_retried_witness:
  "post_market (\<lambda>q. q) [(0x70, 0), (0x71, 1)] (0x71, 0x72, 0x73, 0x74, 0x75) 20 4 (demo_create ''q'') None demo_db
     = Inl UnboundLocalError"
proof -
  have v: "validate_create 20 (demo_create ''q'') = Inr (demo_create ''q'')"
      "opt_money (mc_min_stake (demo_create ''q'')) \<noteq> Inl DataError" "opt_money (mc_max_stake (demo_create ''q'')) \<noteq> Inl DataError"
      "generate_slug (\<lambda>q. q) (mc_question (demo_create ''q'')) 0 = ''q-000000''"
    by code_simp+
  then have "generate_slug (\<lambda>q. q) (mc_question (demo_create ''q'')) 0 \<in> mk_slug ` set (markets demo_db)"
    by (simp add: demo_db_def)
  then show ?thesis by (rule slug_collision_not_retried [OF v(1-3)])
qed

subsection \<open>A market that is not open\<close>

lemma house_view_locks: "house_get_market (lock_row l (begin_tx s)) u = house_get_market s u"
  by (simp add: house_get_market_def get_market_row_def market_outcomes_def lock_row_def begin_tx_def)

text \<open>
  Only an OPEN market can be changed or bet on.  On a market in any other status a patch and a
  close are answered 409, a bet is refused as closed, and an early close of a pending bet on it is
  refused as closed, each without any effect.
\<close>

theorem frozen_market_rejects:
  assumes "get_market_row mid s = Some m" "mk_status m \<noteq> OPEN"
  shows "(validate_update now b = Inr b \<longrightarrow> patch_market gen ai now mid b admin ip s = Inl (HTTPException 409))
     \<and> post_close_market ai now mid admin ip s = Inl (HTTPException 409)
     \<and> (0 < stk \<longrightarrow> place_bet limits house_get_market na nb ids now u mid oc stk s = (Inl MarketClosed, s))
     \<and> (filter (\<lambda>x. bet_id x = bid) (bets s) = [x] \<and> bet_market_id x = mid \<and> bet_status x = BET_PENDING
          \<longrightarrow> sell_position house_get_market gen' now bid (bet_user_id x) s = Inl MarketClosed)"
proof -
  obtain v where v: "house_get_market s mid = Some v" "\<not> is_open v now"
    using assms by (simp add: house_get_market_def is_open_def)
  then show ?thesis
    using assms
    by (auto simp: patch_market_def update_market_def post_close_market_def close_market_def place_bet_def
        sell_position_def house_view_locks)
qed

definition demo_closed_db :: db where
  "demo_closed_db = update_market_row 3 (\<lambda>m. m\<lparr>mk_status := CLOSED\<rparr>) demo_bet_db"

lemma frozen_market_rejects_witness:
  "place_bet demo_limits house_get_market 0x60 0x51 (0x30, 0x31, 0x32) 12 5 3 8 40 demo_closed_db = (Inl MarketClosed, demo_closed_db)
   \<and> post_close_market 0x99 12 3 4 None demo_closed_db = Inl (HTTPException 409)"
proof -
  have "\<exists>m. get_market_row 3 demo_closed_db = Some m \<and> mk_status m \<noteq> OPEN"
    by (simp add: demo_closed_db_def demo_bet_db_def demo_db_def get_market_row_def update_market_row_def)
  then obtain m where m: "get_market_row 3 demo_closed_db = Some m" "mk_status m \<noteq> OPEN" by blast
  show ?thesis using frozen_market_rejects [OF m, where stk = 40] by simp
qed

subsection \<open>The catalogue invariant over the market service\<close>

text \<open>
  The market service keeps the catalogue well-formed: creating, patching and closing a market
  keep ids and slugs unique, every market at two outcomes at most, every outcome and snapshot
  attached to its parent and every stored price a probability; none of them touches the ledger or a
  bet, so the platform invariant survives too.
\<close>

theorem market_service_keeps_catalog:
  assumes "post_market slugify draws ids now admin b ip s = Inr (m, s')
     \<or> patch_market gen ai now mid u admin ip s = Inr (ds, s')
     \<or> post_close_market ai now mid admin ip s = Inr s'"
    and "catalog_ok s"
  shows "catalog_ok s' \<and> same_books s s' \<and> bets s' = bets s \<and> (platform_ok s \<longrightarrow> platform_ok s')"
proof -
  let ?t = "begin_tx s"
  have t: "catalog_ok ?t" by (rule catalog_begin_tx [OF assms(2)])
  have bt: "same_books s ?t" by simp
  have "catalog_ok s' \<and> same_books ?t s' \<and> bets s' = bets ?t"
    using assms(1)
  proof (elim disjE)
    assume "post_market slugify draws ids now admin b ip s = Inr (m, s')"
    then have c: "create_market slugify draws ids now admin b ip ?t = Inr (m, s')"
      by (auto simp: post_market_def dest: validate_create_Inr)
    show ?thesis by (rule create_market_effect [OF c]) (use catalog_create [OF c t] in simp)
  next
    assume "patch_market gen ai now mid u admin ip s = Inr (ds, s')"
    then obtain m where c: "update_market gen ai now m u admin ip ?t = Inr (ds, s')"
      by (auto simp: patch_market_def dest!: validate_update_Inr split: option.splits)
    show ?thesis by (rule update_market_effect [OF c]) (use t in simp)
  next
    assume "post_close_market ai now mid admin ip s = Inr s'"
    then obtain m where c: "close_market ai now m admin ip ?t = Inr s'"
      by (auto simp: post_close_market_def split: option.splits)
    show ?thesis using close_market_effect(2-4) [OF c] t by simp
  qed
  moreover from this have "same_books s s'" using same_books_trans [OF bt] by blast
  ultimately show ?thesis using platform_frame [of s s'] by simp
qed

lemma market_service_keeps_catalog_witness:
  "okE (\<lambda>s'. catalog_ok s' \<and> platform_ok s') (post_close_market 0x99 12 3 4 None demo_db)"
proof -
  have "okE (\<lambda>s'. True) (post_close_market 0x99 12 3 4 None demo_db)" by code_simp
  then obtain s' where c: "post_close_market 0x99 12 3 4 None demo_db = Inr s'" by (auto simp: okE_iff)
  show ?thesis using market_service_keeps_catalog [OF disjI2 [OF disjI2 [OF c]] demo_catalog] demo_db_ok c
    by (simp add: okE_iff)
qed

subsection \<open>A patch can make a market unbettable\<close>

text \<open>
  The range check of a patch sees only the two bounds it carries.  A patch that raises only the
  lower bound above the stored upper bound is accepted, and from then on every stake on the market
  is refused.
\<close>

theorem patch_can_invert_limits:
  assumes "catalog_ok s" "get_market_row mid s = Some m" "mk_status m = OPEN" "max_stake m = Some hi"
    and "is_money lo" "hi < lo" "0 < lo" "ai \<notin> au_id ` set (audit_log s)"
  shows "\<exists>s'. patch_market gen ai now mid \<lparr>mu_criteria = None, mu_deadline = None, mu_odds_yes = None,
        mu_category = None, mu_min_stake = Some (Some lo), mu_max_stake = None\<rparr> admin ip s = Inr ([], s')
     \<and> (\<forall>limits na nb ids t u oc stk.
          \<exists>e. place_bet limits house_get_market na nb ids t u mid oc stk s' = (Inl e, s'))"
proof -
  let ?b = "\<lparr>mu_criteria = None, mu_deadline = None, mu_odds_yes = None,
        mu_category = None, mu_min_stake = Some (Some lo), mu_max_stake = None\<rparr>"
  have v: "validate_update now ?b = Inr ?b" using assms(7) by (simp add: validate_update_def valid_stake_range_def opt_all_def)
  have lo: "opt_money (Some lo) = Inr (Some lo)" "opt_money None = Inr None"
    using numeric_18_4_id [OF assms(5)] by (simp_all add: opt_money_def)
  have mid: "mk_id m = mid" using assms(1,2) by (simp add: get_market_row_Some catalog_ok_def)
  have "\<exists>s'. patch_market gen ai now mid ?b admin ip s = Inr ([], s')"
    using assms(2,3,8) v lo by (simp add: patch_market_def update_market_def changed_fields_def
        odds_deltas_def audit_record_def update_market_row_def)
  then obtain s' where s': "patch_market gen ai now mid ?b admin ip s = Inr ([], s')" ..
  then have "update_market gen ai now m ?b admin ip (begin_tx s) = Inr ([], s')"
    using assms(2) v by (simp add: patch_market_def)
  then have ms: "markets s' = update_where (\<lambda>n. mk_id n = mid) (patch_row ?b (Some lo) None) (markets s)"
    by (rule update_market_effect) (use lo mid in simp)
  have "get_market_row mid s' = Some (patch_row ?b (Some lo) None m)"
  proof -
    have d: "distinct (map mk_id (markets s'))"
      using assms(1) by (simp add: ms catalog_ok_def patch_row_def map_update_where_same)
    show ?thesis
      using assms(1,2) by (subst get_market_row_Some [OF d])
        (auto simp: ms set_update_where get_market_row_Some catalog_ok_def patch_row_def)
  qed
  then obtain vw where vw: "house_get_market s' mid = Some vw" "mv_min_stake vw = Some lo" "mv_max_stake vw = Some hi"
    using assms(4) by (simp add: house_get_market_def patch_row_def)
  have "\<exists>e. place_bet limits house_get_market na nb ids t u mid oc stk s' = (Inl e, s')" for limits na nb ids t u oc stk
  proof -
    have "\<not> (lo \<le> stk \<and> stk \<le> hi)" using assms(6) by linarith
    then show ?thesis
      using vw by (cases "view_outcome vw oc") (auto simp: place_bet_def)
  qed
  then show ?thesis using s' by blast
qed

definition demo_capped_db :: db where
  "demo_capped_db = update_market_row 3 (\<lambda>m. m\<lparr>max_stake := Some 10\<rparr>) demo_db"

lemma patch_can_invert_limits_witness:
  "\<exists>(s' :: db) e. place_bet demo_limits house_get_market 0x60 0x50 (0x20, 0x21, 0x22) 10 5 3 8 12 s' = (Inl e, s')"
proof -
  have c: "catalog_ok demo_capped_db"
    unfolding demo_capped_db_def by (rule catalog_update_market [OF _ demo_catalog]) simp
  have "\<exists>m. get_market_row 3 demo_capped_db = Some m \<and> mk_status m = OPEN \<and> max_stake m = Some 10"
    by (simp add: demo_capped_db_def demo_db_def update_market_row_def get_market_row_def)
  then obtain m where m: "get_market_row 3 demo_capped_db = Some m" "mk_status m = OPEN" "max_stake m = Some 10" by blast
  have l: "is_money 11" "10 < (11 :: rat)" "0 < (11 :: rat)" "0x99 \<notin> au_id ` set (audit_log demo_capped_db)"
    by (code_simp, simp_all add: demo_capped_db_def demo_db_def update_market_row_def)
  show ?thesis using patch_can_invert_limits [OF c m l] by blast
qed

end
