(* ===== verification/MarketViews.thy ===== *)
theory MarketViews
  imports MarketRules
begin

text \<open>
  The reads of \<open>MarketService\<close> and the public endpoints of \<open>markets/router.py\<close>.  A tie in an
  \<open>ORDER BY \<dots> DESC\<close> is broken by insertion order.
\<close>

definition order_desc :: "('a \<Rightarrow> 'k :: linorder) \<Rightarrow> 'a list \<Rightarrow> 'a list" where
  "order_desc f xs = rev (sort_key f (rev xs))"

lemma mset_order_desc [simp]: "mset (order_desc f xs) = mset xs"
  by (simp add: order_desc_def)

lemma set_order_desc [simp]: "set (order_desc f xs) = set xs"
  by (simp add: order_desc_def)

lemma length_order_desc [simp]: "length (order_desc f xs) = length xs"
  by (simp add: order_desc_def)

lemma sorted_order_desc: "sorted (rev (map f (order_desc f xs)))"
  by (simp add: order_desc_def flip: rev_map)

subsection \<open>Lists\<close>

definition list_home_markets :: "'a db_scheme \<Rightarrow> market list" where
  "list_home_markets s =
     take 50 (order_desc mk_created_at (filter (\<lambda>m. mk_source m = HOUSE \<and> mk_status m = OPEN) (markets s))) @
     take 25 (order_desc volume_24hr (filter (\<lambda>m. mk_source m = POLYMARKET \<and> mk_status m = OPEN) (markets s)))"

text \<open>An empty category string is falsy and does not filter.\<close>

definition list_filter :: "market_source option \<Rightarrow> market_status option \<Rightarrow> string option \<Rightarrow> market \<Rightarrow> bool" where
  "list_filter source status category m \<longleftrightarrow> opt_all (\<lambda>x. mk_source m = x) source
     \<and> opt_all (\<lambda>x. mk_status m = x) status \<and> opt_all (\<lambda>c. c = [] \<or> mk_category m = Some c) category"

definition list_markets ::
  "nat \<Rightarrow> nat \<Rightarrow> market_source option \<Rightarrow> market_status option \<Rightarrow> string option \<Rightarrow> 'a db_scheme
    \<Rightarrow> market list \<times> nat" where
  "list_markets page page_size source status category s =
     (let base = filter (list_filter source status category) (markets s)
      in (take page_size (drop ((page - 1) * page_size) (order_desc mk_created_at base)), length base))"

definition get_market_by_slug :: "string \<Rightarrow> 'a db_scheme \<Rightarrow> market option" where
  "get_market_by_slug slug s = List.find (\<lambda>m. mk_slug m = slug) (markets s)"

definition get_market_public :: "string \<Rightarrow> 'a db_scheme \<Rightarrow> market result" where
  "get_market_public slug s = (case get_market_by_slug slug s of
     None \<Rightarrow> Inl (HTTPException 404)
   | Some m \<Rightarrow> if mk_status m \<in> {OPEN, CLOSED, RESOLVED} then Inr m else Inl (HTTPException 404))"

definition bet_check :: "int \<Rightarrow> string \<Rightarrow> 'a db_scheme \<Rightarrow> unit result" where
  "bet_check now slug s = (case get_market_by_slug slug s of
     None \<Rightarrow> Inl (HTTPException 404)
   | Some m \<Rightarrow> if mk_status m \<noteq> OPEN then Inl (HTTPException 400)
       else if deadline m \<le> now then Inl (HTTPException 400)
       else Inr ())"

subsection \<open>Price history\<close>

datatype window = W24h | W7d | W30d

definition HOUR :: int where
  "HOUR = 3600000000"

definition window_cutoff :: "window \<Rightarrow> int" where
  "window_cutoff w = (case w of W24h \<Rightarrow> 24 * HOUR | W7d \<Rightarrow> 7 * 24 * HOUR | W30d \<Rightarrow> 30 * 24 * HOUR)"

text \<open>\<open>DISTINCT ON\<close> over rows sorted by the key: the first row of each run.\<close>

fun distinct_on :: "('a \<Rightarrow> 'k) \<Rightarrow> 'a list \<Rightarrow> 'a list" where
  "distinct_on f [] = []"
| "distinct_on f [x] = [x]"
| "distinct_on f (x # y # ys) = (if f x = f y then distinct_on f (x # ys) else x # distinct_on f (y # ys))"

text \<open>\<open>date_trunc('hour', \<dots>)\<close> of a point.\<close>

definition bucket :: "int \<times> rat \<Rightarrow> int" where
  "bucket r = fst r div HOUR"

definition downsample :: "(int \<times> rat) list \<Rightarrow> (int \<times> rat) list" where
  "downsample rows = sort_key fst (distinct_on bucket (sort_key (\<lambda>r. (bucket r, - fst r)) rows))"

definition public_market :: "string \<Rightarrow> 'a db_scheme \<Rightarrow> market result" where
  "public_market slug s = (case get_market_by_slug slug s of
     None \<Rightarrow> Inl (HTTPException 404)
   | Some m \<Rightarrow> if mk_status m \<in> {OPEN, CLOSED} then Inr m else Inl (HTTPException 404))"

definition window_rows :: "uuid \<Rightarrow> int \<Rightarrow> 'a db_scheme \<Rightarrow> (int \<times> rat) list" where
  "window_rows oid cutoff s = map (\<lambda>x. (snapshot_at x, probability x))
     (filter (\<lambda>x. os_outcome_id x = oid \<and> cutoff \<le> snapshot_at x) (odds_snapshots s))"

definition price_history :: "int \<Rightarrow> string \<Rightarrow> window \<Rightarrow> 'a db_scheme \<Rightarrow> (int \<times> rat) list result" where
  "price_history now slug w s =
     bindE (public_market slug s) (\<lambda>m.
     bindE (scalar_one_or_none (filter (\<lambda>oc. is_yes (label oc)) (market_outcomes (mk_id m) s))) (\<lambda>yes.
     case yes of
       None \<Rightarrow> Inr []
     | Some oc \<Rightarrow>
       let rows = window_rows (oc_id oc) (now - window_cutoff w) s
       in if w \<in> {W24h, W7d} then Inr (sort_key fst rows) else Inr (downsample rows)))"

subsection \<open>Recent activity\<close>

record activity_item =
  ai_outcome :: string
  ai_amount :: rat
  ai_created_at :: int

definition recent_activity :: "nat \<Rightarrow> string \<Rightarrow> 'a db_scheme \<Rightarrow> activity_item list result" where
  "recent_activity limit slug s = bindE (public_market slug s) (\<lambda>m.
     Inr (take limit (order_desc ai_created_at
       (concat (map (\<lambda>b. map (\<lambda>oc. \<lparr>ai_outcome = label oc, ai_amount = stake b, ai_created_at = bet_created_at b\<rparr>)
            (filter (\<lambda>oc. oc_id oc = bet_outcome_id b) (outcomes s)))
          (filter (\<lambda>b. bet_market_id b = mk_id m) (bets s)))))))"

subsection \<open>Down-sampling keeps the latest point of each hour\<close>

text \<open>Rows in the order of the query: by hour, and within an hour the latest first.\<close>

abbreviation hourly :: "(int \<times> rat) list \<Rightarrow> bool" where
  "hourly xs \<equiv> sorted (map (\<lambda>r. (bucket r, - fst r)) xs)"

lemma distinct_on_subset: "set (distinct_on f xs) \<subseteq> set xs"
  by (induction f xs rule: distinct_on.induct) auto

lemma distinct_on_keys: "f ` set (distinct_on f xs) = f ` set xs"
  by (induction f xs rule: distinct_on.induct) auto

lemma distinct_on_strict: "hourly xs \<Longrightarrow> sorted_wrt (\<lambda>a b. bucket a < bucket b) (distinct_on bucket xs)"
proof (induction bucket xs rule: distinct_on.induct)
  case (3 x y ys)
  have below: "bucket y \<le> bucket z" if "z \<in> set (distinct_on bucket (y # ys))" for z
    using that 3(3) distinct_on_subset [of bucket "y # ys"] by (fastforce simp: less_eq_prod_def)
  show ?case
  proof (cases "bucket x = bucket y")
    case True
    then show ?thesis using 3 by (simp add: less_eq_prod_def)
  next
    case False
    then have "bucket x < bucket y" using 3(3) by (auto simp: less_eq_prod_def)
    then show ?thesis using False 3 below by fastforce
  qed
qed simp_all

lemma distinct_on_latest:
  "hourly xs \<Longrightarrow> r \<in> set xs \<Longrightarrow> \<exists>p \<in> set (distinct_on bucket xs). bucket p = bucket r \<and> fst r \<le> fst p"
proof (induction bucket xs arbitrary: r rule: distinct_on.induct)
  case (3 x y ys)
  show ?case
  proof (cases "bucket x = bucket y")
    case True
    have h: "hourly (x # ys)" using 3(3) by (auto simp: less_eq_prod_def)
    have "fst y \<le> fst x" using 3(3) True by (simp add: less_eq_prod_def)
    moreover have "\<exists>p \<in> set (distinct_on bucket (x # ys)). bucket p = bucket q \<and> fst q \<le> fst p" if "q \<in> set (x # ys)" for q
      using 3(1) [OF True h that] .
    ultimately show ?thesis using 3(4) True by (cases "r = y") (fastforce, auto)
  next
    case False
    have h: "hourly (y # ys)" using 3(3) by simp
    show ?thesis
    proof (cases "r = x")
      case False
      then have "r \<in> set (y # ys)" using 3(4) by simp
      from 3(2) [OF \<open>bucket x \<noteq> bucket y\<close> h this] show ?thesis using \<open>bucket x \<noteq> bucket y\<close> by auto
    qed (use \<open>bucket x \<noteq> bucket y\<close> in simp)
  qed
qed auto

lemma bucket_mono: "bucket a < bucket b \<Longrightarrow> fst a < fst b"
  unfolding bucket_def HOUR_def by (meson not_less zdiv_mono1 zero_less_numeral leD)

lemma downsample_eq: "downsample rows = distinct_on bucket (sort_key (\<lambda>r. (bucket r, - fst r)) rows)"
proof -
  let ?xs = "distinct_on bucket (sort_key (\<lambda>r. (bucket r, - fst r)) rows)"
  have "sorted_wrt (\<lambda>a b. bucket a < bucket b) ?xs" by (rule distinct_on_strict) simp
  then have "sorted_wrt (\<lambda>a b. fst a \<le> fst b) ?xs"
    by (rule sorted_wrt_mono_rel [rotated]) (simp add: bucket_mono less_imp_le)
  then have "sorted (map fst ?xs)" by (simp add: sorted_wrt_map)
  then show ?thesis by (simp add: downsample_def sort_key_id_if_sorted)
qed

text \<open>
  The 30-day price history is the hourly series: at most one point per hour, in increasing time,
  each of them a snapshot of the YES outcome inside the window, and for every snapshot of the window
  the point of its hour, no older than it; the two short windows return every snapshot of the
  window, in time order.
\<close>

theorem price_history_series:
  assumes "price_history now slug w s = Inr pts" "public_market slug s = Inr m"
    and "filter (\<lambda>oc. is_yes (label oc)) (market_outcomes (mk_id m) s) = [oc]"
  shows "set pts \<subseteq> set (window_rows (oc_id oc) (now - window_cutoff w) s)
     \<and> sorted (map fst pts)
     \<and> (w = W30d \<longrightarrow> sorted_wrt (\<lambda>a b. bucket a < bucket b) pts
          \<and> (\<forall>r \<in> set (window_rows (oc_id oc) (now - window_cutoff w) s).
                \<exists>p \<in> set pts. bucket p = bucket r \<and> fst r \<le> fst p))
     \<and> (w \<noteq> W30d \<longrightarrow> mset pts = mset (window_rows (oc_id oc) (now - window_cutoff w) s))"
proof -
  let ?rows = "window_rows (oc_id oc) (now - window_cutoff w) s"
  let ?by_hour = "sort_key (\<lambda>r. (bucket r, - fst r)) ?rows"
  show ?thesis
  proof (cases "w = W30d")
    case True
    then have p: "pts = downsample ?rows" using assms by (simp add: price_history_def)
    have d: "pts = distinct_on bucket ?by_hour" unfolding p by (rule downsample_eq)
    have "sorted (map fst pts)" unfolding p downsample_def by simp
    moreover have "set pts \<subseteq> set ?rows" unfolding d using distinct_on_subset [of bucket ?by_hour] by simp
    moreover have "sorted_wrt (\<lambda>a b. bucket a < bucket b) pts" unfolding d by (rule distinct_on_strict) simp
    moreover have "\<exists>p \<in> set pts. bucket p = bucket r \<and> fst r \<le> fst p" if "r \<in> set ?rows" for r
      unfolding d by (rule distinct_on_latest) (use that in simp_all)
    ultimately show ?thesis using True by blast
  next
    case False
    then have "pts = sort_key fst ?rows" using assms by (cases w) (simp_all add: price_history_def)
    then show ?thesis using False by simp
  qed
qed

definition demo_history_db :: db where
  "demo_history_db = demo_db\<lparr>odds_snapshots :=
     [new_snapshot 1 3 8 (1/10) (HOUR + 5), new_snapshot 2 3 8 (2/10) (HOUR + 9), new_snapshot 3 3 9 (8/10) (HOUR + 9),
      new_snapshot 4 3 8 (3/10) (3 * HOUR), new_snapshot 5 3 8 (4/10) (HOUR + 2)]\<rparr>"

lemma demo_history: "price_history (4 * HOUR) ''q-000000'' W30d demo_history_db = Inr [(HOUR + 9, 2/10), (3 * HOUR, 3/10)]"
  by code_simp

lemma price_history_series_witness: "bucket (HOUR + 9, 2/10) < bucket (3 * HOUR, 3/10)"
proof -
  have "okE (\<lambda>m. \<exists>oc. filter (\<lambda>oc. is_yes (label oc)) (market_outcomes (mk_id m) demo_history_db) = [oc])
      (public_market ''q-000000'' demo_history_db)"
    by (simp add: public_market_def get_market_by_slug_def demo_history_db_def demo_db_def okE_iff market_outcomes_def
        is_yes_def ascii_upper_def Let_def)
  then obtain m oc where "public_market ''q-000000'' demo_history_db = Inr m"
      "filter (\<lambda>oc. is_yes (label oc)) (market_outcomes (mk_id m) demo_history_db) = [oc]" by (auto simp: okE_iff)
  from price_history_series [OF demo_history this] show ?thesis by simp
qed

subsection \<open>Paging\<close>

text \<open>
  The admin list is complete.  Its total is the number of markets that pass the filters, the
  number of pages is what holds that many rows, and the pages, concatenated, are exactly those
  markets, each once, newest first.
\<close>

theorem list_markets_complete:
  assumes "0 < k"
  shows "snd (list_markets p k src st cat s) = length (filter (list_filter src st cat) (markets s))
     \<and> concat (map (\<lambda>p. fst (list_markets (Suc p) k src st cat s))
           [0..<total_pages (snd (list_markets 1 k src st cat s)) k])
         = order_desc mk_created_at (filter (list_filter src st cat) (markets s))
     \<and> length (fst (list_markets p k src st cat s)) \<le> k"
proof -
  let ?base = "filter (list_filter src st cat) (markets s)"
  have "length ?base \<le> total_pages (length ?base) k * k"
  proof -
    let ?n = "length ?base"
    have "?n + k - 1 = (?n + k - 1) div k * k + (?n + k - 1) mod k" by simp
    moreover have "(?n + k - 1) mod k \<le> k - 1" using mod_less_divisor [OF assms, of "?n + k - 1"] by linarith
    ultimately have "?n \<le> (?n + k - 1) div k * k" using assms by linarith
    also have "\<dots> \<le> total_pages ?n k * k" unfolding total_pages_def by (intro mult_right_mono) simp_all
    finally show ?thesis .
  qed
  then show ?thesis by (simp add: list_markets_def Let_def concat_pages)
qed

lemma list_markets_complete_witness: "snd (list_markets 1 20 None (Some OPEN) None demo_db) = 1"
proof -
  have "filter (list_filter None (Some OPEN) None) (markets demo_db) = markets demo_db"
    by (simp add: list_filter_def opt_all_def demo_db_def)
  then show ?thesis using list_markets_complete [of 20 1 None "Some OPEN" None demo_db] by (simp add: demo_db_def)
qed

text \<open>
  \<open>bet-check\<close> answers eligible exactly when the market port lets a bet of an admissible stake on
  one of its outcomes pass its guards: the public answer and \<open>place_bet\<close> agree on status and deadline.
\<close>

theorem bet_check_agrees:
  assumes "catalog_ok s" "get_market_by_slug slug s = Some m"
  shows "bet_check now slug s = Inr () \<longleftrightarrow>
     (\<exists>v. house_get_market s (mk_id m) = Some v \<and> is_open v now)"
proof -
  have "get_market_row (mk_id m) s = Some m"
    using assms unfolding get_market_by_slug_def find_Some_iff
    by (subst get_market_row_Some) (auto simp: catalog_ok_def)
  then show ?thesis using assms(2) by (auto simp: bet_check_def house_get_market_def is_open_def)
qed

lemma bet_check_agrees_witness: "\<exists>v. house_get_market demo_db 3 = Some v \<and> is_open v 10"
proof -
  have "bet_check 10 ''q-000000'' demo_db = Inr ()" by code_simp
  moreover obtain m where "get_market_by_slug ''q-000000'' demo_db = Some m" "mk_id m = 3"
    by (simp add: get_market_by_slug_def demo_db_def)
  ultimately show ?thesis using bet_check_agrees [OF demo_catalog, of "''q-000000''" m 10] by simp
qed

end
