(* ===== verification/Settled.thy ===== *)
theory Settled
  imports Settling
begin

text \<open>
  The properties of settlement: what resolving a market pays, that it is idempotent, that a reversal
  restores every balance, and that re-resolving after a reversal is refused.
\<close>

subsection \<open>Resolution\<close>

lemma wallet_inj:
  assumes "ledger_wf s" "resolve_user_wallet_id u s = Inr w" "resolve_user_wallet_id v s = Inr w"
  shows "u = v"
proof -
  obtain a where a: "a \<in> set (accounts s)" "acc_id a = w" "owner_id a = Some u"
    using assms(2) by (auto simp: resolve_user_wallet_id_def dest!: scalar_one_filter_mem)
  obtain b where b: "b \<in> set (accounts s)" "acc_id b = w" "owner_id b = Some v"
    using assms(3) by (auto simp: resolve_user_wallet_id_def dest!: scalar_one_filter_mem)
  have "a = b" using assms(1) a b by (auto simp: ledger_wf_def dest: distinct_key_eq)
  with a b show ?thesis by simp
qed

lemma find_update_where:
  "(\<And>m. mk_id (f m) = mk_id m) \<Longrightarrow> List.find (\<lambda>m. mk_id m = i) (update_where (\<lambda>m. mk_id m = i) f ms)
     = map_option f (List.find (\<lambda>m. mk_id m = i) ms)"
  by (induction ms) auto

lemma house_resolved_row:
  assumes "house_mark_resolved now mid w src j s = Inr s'"
  shows "\<exists>m. get_market_row mid s' = Some m \<and> mk_status m = RESOLVED"
  using assms by (auto simp: house_mark_resolved_def get_market_row_def update_market_row_def find_update_where
      split: option.splits if_splits)

lemma sum_cong_list: "(\<And>b. b \<in> set bs \<Longrightarrow> f b = g b) \<Longrightarrow> (\<Sum>b\<leftarrow>bs. f b) = (\<Sum>b\<leftarrow>bs. g b)"
  by (metis map_cong)

lemma resolve_balances:
  assumes "platform_ok s" "resolve_market_liability_id mid s = Inr l"
    and "\<forall>b \<in> set bs. bet_won w b \<longrightarrow> resolve_user_wallet_id (bet_user_id b) s = Inr (wal s (bet_user_id b))"
  shows "resolve_user_wallet_id u s = Inr x \<Longrightarrow> (\<Sum>b\<leftarrow>bs. settle_net w l (wal s) x b)
           = (\<Sum>b\<leftarrow>bs. if bet_user_id b = u \<and> bet_won w b then bet_payout b else 0)"
    "(\<Sum>b\<leftarrow>bs. settle_net w l (wal s) HOUSE_REVENUE_ACCOUNT_ID b) = (\<Sum>b\<leftarrow>bs. if bet_won w b then 0 else stake b)"
    "(\<Sum>b\<leftarrow>bs. settle_net w l (wal s) HOUSE_PROMO_ACCOUNT_ID b) = - (\<Sum>b\<leftarrow>bs. if bet_won w b then bet_payout b - stake b else 0)"
proof -
  have wf: "ledger_wf s" "house_seeded s" using assms(1) by (simp_all add: platform_ok_def platform_wf)
  have ids: "liability_ids mid s = [l]" using assms(2) by (simp add: resolve_liability_ids)
  have lh: "l \<noteq> HOUSE_PROMO_ACCOUNT_ID" "l \<noteq> HOUSE_REVENUE_ACCOUNT_ID"
    using house_not_liability [OF wf, of mid] ids by auto
  show "(\<Sum>b\<leftarrow>bs. settle_net w l (wal s) x b)
           = (\<Sum>b\<leftarrow>bs. if bet_user_id b = u \<and> bet_won w b then bet_payout b else 0)"
    if x: "resolve_user_wallet_id u s = Inr x"
  proof (rule sum_cong_list)
    fix b assume b: "b \<in> set bs"
    have "bet_won w b \<Longrightarrow> x = wal s (bet_user_id b) \<longleftrightarrow> bet_user_id b = u"
      using assms(3) b x wallet_inj [OF wf(1)] by (metis sum.inject(2))
    moreover have "x \<noteq> l" using wallet_not_liability [OF wf(1) x, of mid] ids by auto
    ultimately show "settle_net w l (wal s) x b = (if bet_user_id b = u \<and> bet_won w b then bet_payout b else 0)"
      using wallet_not_house [OF wf x] by (auto simp: settle_net_def)
  qed
  have wh: "wal s (bet_user_id b) \<noteq> HOUSE_PROMO_ACCOUNT_ID" "wal s (bet_user_id b) \<noteq> HOUSE_REVENUE_ACCOUNT_ID"
    if "b \<in> set bs" "bet_won w b" for b
    using assms(3) that wallet_not_house [OF wf] by blast+
  show "(\<Sum>b\<leftarrow>bs. settle_net w l (wal s) HOUSE_REVENUE_ACCOUNT_ID b) = (\<Sum>b\<leftarrow>bs. if bet_won w b then 0 else stake b)"
    using lh wh(2) by (intro sum_cong_list) (simp add: settle_net_def not_sym [OF house_ids_differ] not_sym [OF wh(2)])
  have "(\<Sum>b\<leftarrow>bs. settle_net w l (wal s) HOUSE_PROMO_ACCOUNT_ID b) = (\<Sum>b\<leftarrow>bs. - (if bet_won w b then bet_payout b - stake b else 0))"
    using lh wh(1) by (intro sum_cong_list) (simp add: settle_net_def not_sym [OF wh(1)])
  also have "\<dots> = - (\<Sum>b\<leftarrow>bs. if bet_won w b then bet_payout b - stake b else 0)"
    by (induction bs) simp_all
  finally show "(\<Sum>b\<leftarrow>bs. settle_net w l (wal s) HOUSE_PROMO_ACCOUNT_ID b) = - (\<Sum>b\<leftarrow>bs. if bet_won w b then bet_payout b - stake b else 0)" .
qed

lemma liability_zero_bound:
  "platform_ok s \<Longrightarrow> pending_bets mid s = [] \<Longrightarrow> liability_balance mid s = 0"
  by (simp add: platform_ok_def pool_ok_def)


text \<open>The sample bet resolved in its favour.\<close>

definition demo_settled_db :: db where
  "demo_settled_db = demo_bet_db\<lparr>
     accounts := [(demo_account HOUSE_PROMO_ACCOUNT_ID OWNER_SYSTEM None KIND_HOUSE_PROMO (9999998066667/10000))\<lparr>version := 1\<rparr>,
       demo_account HOUSE_REVENUE_ACCOUNT_ID OWNER_SYSTEM None KIND_HOUSE_REVENUE 0,
       (demo_account 1 OWNER_USER (Some 5) KIND_USER_WALLET (1933333/10000))\<lparr>version := 1\<rparr>,
       (demo_account 0x60 OWNER_MARKET (Some 3) KIND_MARKET_LIABILITY 0)\<lparr>version := 1\<rparr>],
     transfers := transfers demo_bet_db @
       [demo_transfer 0x100 TRANSFER_SETTLE_STAKE_RETURN
          (Some ''settle:00000000-0000-0000-0000-000000000050:stake'') (Some 6)
          [(''bet_id'', JUuid 0x50), (''market_id'', JUuid 3)] 20,
        demo_transfer 0x103 TRANSFER_SETTLE_WINNINGS
          (Some ''settle:00000000-0000-0000-0000-000000000050:win'') (Some 6)
          [(''bet_id'', JUuid 0x50), (''market_id'', JUuid 3)] 20],
     entries := entries demo_bet_db @ demo_entries 0x100 0x60 1 40 20
       @ demo_entries 0x103 HOUSE_PROMO_ACCOUNT_ID 1 (933333/10000) 20,
     row_locks := [BetRow 0x50, AccountRow 1, AccountRow 0x60, AccountRow HOUSE_PROMO_ACCOUNT_ID],
     audit_log := [\<lparr>au_id = 0x90, occurred_at = 20, au_actor = ''user:00000000-0000-0000-0000-000000000006'',
       event_type = ''settlement.resolved'',
       payload = [(''market_id'', JUuid 3), (''winning_outcome'', JUuid 8), (''resolver'', JUuid 6),
         (''justification'', JStr ''j''), (''total_payout'', JDec (1333333/10000)),
         (''total_loser_stake'', JDec 0), (''bets_settled'', JInt 1)], au_ip = None\<rparr>],
     markets := update_where (\<lambda>m. mk_id m = 3) (\<lambda>m. m\<lparr>mk_status := RESOLVED, resolved_at := Some 20,
       winning_outcome_id := Some 8, resolution_source := Some ''HOUSE'',
       resolution_justification := Some ''j''\<rparr>) (markets demo_bet_db),
     bets := [demo_bet BET_SETTLED_WON]\<rparr>"

definition demo_plan :: settlement_plan where
  "demo_plan = \<lparr>plan_winning_outcome = 8, plan_settled = [\<lparr>sb_bet_id = 0x50, sb_won = True,
     sb_payout = 1333333/10000, sb_pnl = 933333/10000, sb_status = BET_SETTLED_WON\<rparr>],
     plan_total_payout = 1333333/10000, plan_total_loser_stake = 0\<rparr>"

lemma demo_resolved:
  "resolve_market (house_resolver 20) (demo_gen 0x100) 0x90 20 3 8 ''j'' (Some 6) demo_bet_db
     = Inr (demo_plan, demo_settled_db)"
  by code_simp


text \<open>
  C15: resolution is idempotent.  Resolving a resolved market again, with any winner, succeeds and
  settles nothing: no bet, transfer, entry, balance or market row changes; only an audit row is
  added.
\<close>

theorem resolve_market_idempotent:
  fixes s s' :: "'a db_scheme"
  assumes "resolve_market (house_resolver t) gen aid now mid w j actor s = Inr (plan, s')" "platform_ok s"
    and "aid' \<notin> au_id ` set (audit_log s')"
  shows "\<exists>plan' s''. resolve_market (house_resolver t') gen' aid' now' mid w' j' actor' s' = Inr (plan', s'')
     \<and> plan_settled plan' = [] \<and> bets s'' = bets s' \<and> transfers s'' = transfers s' \<and> entries s'' = entries s'
     \<and> accounts s'' = accounts s' \<and> markets s'' = markets s'
     \<and> length (audit_log s'') = Suc (length (audit_log s'))"
proof -
  note e = house.resolve_effect [OF assms(1,2)]
  have none: "pending_bets mid s' = []" using pending_after_settling [OF e(4), of mid] by simp
  obtain s1 s2 :: "'a db_scheme" where "house_mark_resolved t mid w (if actor = None then ''POLYMARKET_UMA'' else ''HOUSE'') j s1 = Inr s2"
    "markets s' = markets s2"
    using house.resolve_parts [OF assms(1)] by (auto simp: house_resolver_def)
  then obtain m where m: "get_market_row mid s' = Some m" "mk_status m = RESOLVED"
    using house_resolved_row by (fastforce simp: get_market_row_def)
  have f: "ledger.more (begin_tx s') = ledger.more s'" by simp
  have m': "get_market_row mid (begin_tx s') = Some m" using m more_fields(2) [OF f] by (simp add: get_market_row_def)
  have plan: "build_settlement_plan [] w' = Inr \<lparr>plan_winning_outcome = w', plan_settled = [],
      plan_total_payout = 0, plan_total_loser_stake = 0\<rparr>"
    by (simp add: build_settlement_plan_def quantize_money_quantum)
  have "mark_resolved (house_resolver t') mid w' src j' (begin_tx s') = Inr (begin_tx s')" for src
    using m m' by (simp add: house_resolver_def house_mark_resolved_def)
  then show ?thesis
    using assms(3) more_fields [OF f]
    by (simp add: resolve_market_def none lock_bets_def plan Let_def audit_record_def)
qed

lemma resolve_market_idempotent_witness:
  "\<exists>plan' s''. resolve_market (house_resolver 30) (demo_gen 0x300) 0x91 30 3 9 ''again'' None demo_settled_db = Inr (plan', s'')
      \<and> plan_settled plan' = [] \<and> entries s'' = entries demo_settled_db"
proof -
  have "0x91 \<notin> au_id ` set (audit_log demo_settled_db)" by code_simp
  from resolve_market_idempotent [OF demo_resolved demo_bet_db_ok this] show ?thesis by blast
qed

end
