(* ===== verification/Reversal.thy ===== *)
theory Reversal
  imports Settled
begin

text \<open>
  The reversal of a settlement: its compensating transfers, the invariant, and its composition with
  a resolution before it and after it.
\<close>

subsection \<open>What a reversal nets to\<close>

definition is_settled :: "uuid \<Rightarrow> bet \<Rightarrow> bool" where
  "is_settled mid b \<longleftrightarrow> bet_market_id b = mid
     \<and> (bet_status b = BET_SETTLED_WON \<or> bet_status b = BET_SETTLED_LOST)"

definition reopened_row :: "bet \<Rightarrow> bet" where
  "reopened_row b = b\<lparr>bet_status := BET_PENDING\<rparr>"

lemma settled_bets_filter: "settled_bets mid s = filter (is_settled mid) (bets s)"
  by (simp add: settled_bets_def is_settled_def [abs_def])

definition reverse_specs_of :: "uuid \<Rightarrow> (uuid \<Rightarrow> uuid) \<Rightarrow> bet \<Rightarrow> transfer_spec list" where
  "reverse_specs_of l wl b =
     (if bet_status b = BET_SETTLED_WON then
        (TRANSFER_REVERSE_STAKE_RETURN, LEG_STAKE, bet_id b, wl (bet_user_id b), l, stake b) #
        (if bet_payout b - stake b > 0 then [(TRANSFER_REVERSE_WINNINGS, LEG_WIN, bet_id b,
            wl (bet_user_id b), HOUSE_PROMO_ACCOUNT_ID, bet_payout b - stake b)] else [])
      else [(TRANSFER_REVERSE_LOSS, LEG_LOSS, bet_id b, HOUSE_REVENUE_ACCOUNT_ID, l, stake b)])"

definition reverse_net :: "uuid \<Rightarrow> (uuid \<Rightarrow> uuid) \<Rightarrow> uuid \<Rightarrow> bet \<Rightarrow> rat" where
  "reverse_net l wl a b = (if a = l then stake b else 0) -
     (if bet_status b = BET_SETTLED_WON
      then (if a = wl (bet_user_id b) then bet_payout b else 0) - (if a = HOUSE_PROMO_ACCOUNT_ID then bet_payout b - stake b else 0)
      else (if a = HOUSE_REVENUE_ACCOUNT_ID then stake b else 0))"

text \<open>A bet whose payout can be recomputed; its outcome plays the role of the winner.\<close>

lemma reverse_payout:
  assumes "bets_ok s" "b \<in> set (bets s)" "compute_payout (stake b) (odds_at_placement b) = Inr p"
  shows "well_priced (bet_outcome_id b) b" "bet_won (bet_outcome_id b) b"
  using assms(3) by (auto simp: well_priced_def bet_won_def compute_payout_def split: if_splits)

lemma reverse_spec_Inr:
  assumes "bets_ok s" "b \<in> set (bets s)" "reverse_spec l wallets b = Inr sps"
    and "bet_status b = BET_SETTLED_WON \<Longrightarrow> wallets (bet_user_id b) = Some (wl (bet_user_id b))"
  shows "sps = reverse_specs_of l wl b \<and> (\<forall>sp \<in> set sps. is_quantum (spec_amount sp))
     \<and> net a sps = reverse_net l wl a b"
proof (cases "bet_status b = BET_SETTLED_WON")
  case True
  then obtain p where "compute_payout (stake b) (odds_at_placement b) = Inr p"
    using assms(3) by (auto simp: reverse_spec_def)
  note q = winner_payout [OF assms(1,2) reverse_payout [OF assms(1,2) this]]
  have eq: "sps = reverse_specs_of l wl b"
    using assms(3) assms(4) [OF True] True q(4,5) by (simp add: reverse_spec_def lookupE_def reverse_specs_of_def)
  show ?thesis unfolding eq using True q(1,3,6) by (auto simp: reverse_specs_of_def reverse_net_def spec_net_def)
next
  case False
  then have "sps = reverse_specs_of l wl b"
    using assms(3) by (simp add: reverse_spec_def reverse_specs_of_def)
  then show ?thesis using False loser_quantum [OF assms(1,2)]
    by (simp add: reverse_specs_of_def reverse_net_def spec_net_def)
qed

lemma mapE_concat_specs:
  assumes "mapE f bs = Inr xss" "\<And>b sps. b \<in> set bs \<Longrightarrow> f b = Inr sps \<Longrightarrow> Q b sps"
  shows "\<exists>g. xss = map g bs \<and> (\<forall>b \<in> set bs. Q b (g b))"
proof -
  let ?g = "\<lambda>b. projr (f b)"
  have "xss = map ?g bs \<and> (\<forall>b \<in> set bs. f b = Inr (?g b))"
    using assms(1) by (induction bs arbitrary: xss) auto
  then show ?thesis using assms(2) by blast
qed

lemma reopen_bets_frame [simp]: "same_books s (reopen_bets bs s)" "markets (reopen_bets bs s) = markets s"
  "audit_log (reopen_bets bs s) = audit_log s"
  unfolding reopen_bets_def using more_fields [OF lock_bets_tables(2)]
  by (auto intro: same_books_trans [OF lock_bets_tables(1) books_fold_update])

lemma reopen_bets_bets:
  assumes "bets_ok s"
  shows "bets (reopen_bets (settled_bets mid s) s) = update_where (is_settled mid) reopened_row (bets s)"
proof -
  let ?u = "lock_bets (settled_bets mid s) s"
  have b: "bets ?u = bets s" by (rule more_fields(1) [OF lock_bets_tables(2)])
  have d: "distinct (settled_bets mid s)" "distinct (map bet_id (bets s))"
    using assms distinct_filter_bets [OF assms, of "is_settled mid"] by (simp_all add: settled_bets_filter bets_ok_def)
  have sub: "set (settled_bets mid s) \<subseteq> set (bets s)" by (auto simp: settled_bets_def)
  have "bets (fold (\<lambda>b. update_bet_row (bet_id b) reopened_row) (settled_bets mid s) ?u)
      = map (\<lambda>b. if b \<in> set (settled_bets mid s) then reopened_row b else b) (bets ?u)"
    by (rule fold_update_rows [where g = "\<lambda>_. reopened_row"]) (use d sub in \<open>simp_all add: b reopened_row_def\<close>)
  then have "bets (reopen_bets (settled_bets mid s) s) = map (\<lambda>b. if b \<in> set (settled_bets mid s) then reopened_row b else b) (bets s)"
    by (simp add: reopen_bets_def reopened_row_def [abs_def] b)
  then show ?thesis by (simp add: update_where_def settled_bets_filter)
qed

context resolve_contract
begin

lemma reverse_bets_effect:
  assumes "reverse_bets resolver gen now actor mid bs s = Inr s'" "platform_ok s" and bs: "bs = settled_bets mid s"
  shows "\<exists>l. liability_ids mid s = [l]
     \<and> (\<forall>b \<in> set bs. bet_status b = BET_SETTLED_WON \<longrightarrow> resolve_user_wallet_id (bet_user_id b) s = Inr (wal s (bet_user_id b)))
     \<and> bets s' = update_where (is_settled mid) reopened_row (bets s)
     \<and> (\<forall>a. bal s' a = bal s a + (\<Sum>b\<leftarrow>bs. reverse_net l (wal s) a b))
     \<and> ledger_steps s s' \<and> map acct_key (accounts s') = map acct_key (accounts s)
     \<and> audit_log s' = audit_log s \<and> (\<exists>s3. mark_unresolved resolver mid s3 = Inr s')
     \<and> (\<exists>ts. transfers s' = transfers s @ ts)"
proof -
  have bok: "bets_ok s" and wf: "ledger_wf s" using assms(2) by (simp_all add: platform_ok_def platform_wf)
  obtain l wallets specss s3 where l: "resolve_market_liability_id mid s = Inr l"
    and loop: "foldE (\<lambda>b wallets. if bet_status b = BET_SETTLED_WON then wallet_step s (bet_user_id b) wallets
              else Inr wallets) bs Map.empty = Inr wallets"
    and sp: "mapE (reverse_spec l wallets) bs = Inr specss"
    and post: "post_specs reverse_idempotency_key gen now actor (Some mid) (concat specss)
        (lock_touched (concat specss) (reopen_bets bs s)) = Inr s3"
    and un: "mark_unresolved resolver mid s3 = Inr s'"
    using assms(1) by (auto simp: reverse_bets_def Let_def)
  note wl = wallet_loop_wal [OF loop]
  have mem: "b \<in> set bs \<Longrightarrow> b \<in> set (bets s)" for b by (simp add: bs settled_bets_def)
  have "\<exists>g. specss = map g bs \<and> (\<forall>b \<in> set bs. g b = reverse_specs_of l (wal s) b \<and>
      (\<forall>sp \<in> set (g b). is_quantum (spec_amount sp)) \<and> (\<forall>a. net a (g b) = reverse_net l (wal s) a b))"
    by (rule mapE_concat_specs [OF sp]) (use reverse_spec_Inr [OF bok mem] wl(1) in blast)
  then obtain g where g: "specss = map g bs" "\<And>b sp. b \<in> set bs \<Longrightarrow> sp \<in> set (g b) \<Longrightarrow> is_quantum (spec_amount sp)"
    "\<And>b a. b \<in> set bs \<Longrightarrow> net a (g b) = reverse_net l (wal s) a b" by blast
  let ?v = "lock_touched (concat specss) (reopen_bets bs s)"
  have frame: "same_books s ?v" by (rule same_books_trans [OF reopen_bets_frame(1) same_books_lock_touched(2)])
  have q: "\<forall>sp \<in> set (concat specss). is_quantum (spec_amount sp)" using g(1,2) by auto
  note e = post_specs_effect [OF post frame wf q] and u = unresolved_frame [OF un]
  have "bets s' = update_where (is_settled mid) reopened_row (bets s)"
    using u more_fields(1) [OF e(2)] more_fields(1) [OF more_lock_touched [of "concat specss" "reopen_bets bs s"]]
      reopen_bets_bets [OF bok, of mid] by (simp add: bs)
  moreover have "bal s' a = bal s a + (\<Sum>b\<leftarrow>bs. reverse_net l (wal s) a b)" for a
    using e(3) [of a] bal_same_books [of s3 s'] u net_concat [of bs a g "reverse_net l (wal s) a"] g(1,3) by simp
  moreover have "audit_log s' = audit_log s"
    using u more_fields [OF e(2)] more_fields [OF more_lock_touched [of "concat specss" "reopen_bets bs s"]] by simp
  moreover have "ledger_steps s s'" using e(1) u ledger_steps_frame ledger_steps_trans by blast
  moreover have "map acct_key (accounts s') = map acct_key (accounts s)" "\<exists>ts. transfers s' = transfers s @ ts"
    using e(4,5) u same_books_eq [of s3 s'] by auto
  ultimately show ?thesis using l wl(2) un unfolding resolve_liability_ids by blast
qed

lemma reverse_platform:
  assumes "reverse_bets resolver gen now actor mid bs s = Inr s'" "platform_ok s" and bs: "bs = settled_bets mid s"
  shows "platform_ok s'"
proof -
  obtain l where l: "liability_ids mid s = [l]"
    and wl: "\<forall>b \<in> set bs. bet_status b = BET_SETTLED_WON \<longrightarrow> resolve_user_wallet_id (bet_user_id b) s = Inr (wal s (bet_user_id b))"
    and bets: "bets s' = update_where (is_settled mid) reopened_row (bets s)"
    and bl: "\<And>a. bal s' a = bal s a + (\<Sum>b\<leftarrow>bs. reverse_net l (wal s) a b)"
    and steps: "ledger_steps s s'" and keys: "map acct_key (accounts s') = map acct_key (accounts s)"
    using reverse_bets_effect [OF assms] by blast
  have wf: "ledger_wf s" "house_seeded s" using assms(2) by (simp_all add: platform_ok_def platform_wf)
  have nl: "v \<noteq> HOUSE_PROMO_ACCOUNT_ID" "v \<noteq> HOUSE_REVENUE_ACCOUNT_ID"
    "b \<in> set bs \<Longrightarrow> bet_status b = BET_SETTLED_WON \<Longrightarrow> v \<noteq> wal s (bet_user_id b)"
    if "v \<in> set (liability_ids j s)" for v j b
    using that house_not_liability [OF wf] wallet_not_liability [OF wf(1)] wl by blast+
  show ?thesis
  proof (rule platform_flow [OF assms(2) steps keys l bl])
    fix v j assume "v \<noteq> l" "v \<in> set (liability_ids j s)"
    then have "reverse_net l (wal s) v b = 0" if "b \<in> set bs" for b
      using nl [of v j] that by (auto simp: reverse_net_def)
    then show "(\<Sum>b\<leftarrow>bs. reverse_net l (wal s) v b) = 0" by (induction bs) simp_all
  next
    show "bets_ok s'" using assms(2) by (intro bets_ok_update_where [OF _ bets])
        (simp_all add: platform_ok_def reopened_row_def bet_status_check_def)
  next
    fix m
    have "reverse_net l (wal s) l b = stake b" if "b \<in> set bs" for b
      using nl [of l mid] that l by (auto simp: reverse_net_def)
    then have s: "(\<Sum>b\<leftarrow>bs. reverse_net l (wal s) l b) = (\<Sum>b\<leftarrow>bs. stake b)" by (intro sum_cong_list)
    have "sum_list (map (pend m) (update_where (is_settled mid) reopened_row xs))
        = sum_list (map (pend m) xs) + (if m = mid then (\<Sum>b\<leftarrow>filter (is_settled mid) xs. stake b) else 0)" for xs
      by (induction xs) (auto simp: pend_def reopened_row_def is_settled_def)
    then show "sum_list (map stake (pending_bets m s')) = sum_list (map stake (pending_bets m s))
        + (if m = mid then \<Sum>b\<leftarrow>bs. reverse_net l (wal s) l b else 0)"
      by (simp add: pending_sum bets s) (simp add: bs settled_bets_filter)
  qed
qed

end

subsection \<open>Resolve, then reverse\<close>

lemma settled_row_cases [simp]:
  "bet_status (settled_row w b) = BET_SETTLED_WON \<longleftrightarrow> bet_won w b"
  "is_settled mid (settled_row w b) \<longleftrightarrow> bet_market_id b = mid"
  "bet_user_id (settled_row w b) = bet_user_id b" "bet_payout (settled_row w b) = bet_payout b"
  "stake (settled_row w b) = stake b"
  by (simp_all add: settled_row_def is_settled_def bet_payout_def)

lemma reverse_net_settled: "reverse_net l wl a (settled_row w b) = - settle_net w l wl a b"
  by (simp add: reverse_net_def settle_net_def)

lemma settled_after_settling:
  assumes "bets s' = update_where (is_pending mid) (settled_row w) (bets s)" "settled_bets mid s = []"
  shows "settled_bets mid s' = map (settled_row w) (pending_bets mid s)"
    "update_where (is_settled mid) reopened_row (bets s') = bets s"
proof -
  have *: "filter (is_settled mid) (update_where (is_pending mid) (settled_row w) bs) = map (settled_row w) (filter (is_pending mid) bs)
     \<and> update_where (is_settled mid) reopened_row (update_where (is_pending mid) (settled_row w) bs) = bs"
    if "filter (is_settled mid) bs = []" for bs
    using that
  proof (induction bs)
    case (Cons b bs)
    then have n: "\<not> is_settled mid b" "filter (is_settled mid) bs = []" by (auto split: if_splits)
    show ?case
    proof (cases "is_pending mid b")
      case True
      then have "reopened_row (settled_row w b) = b" "is_settled mid (settled_row w b)"
        by (simp_all add: reopened_row_def is_pending_def) (simp add: settled_row_def)
      with True Cons.IH [OF n(2)] show ?thesis by simp
    next
      case False
      with n Cons.IH [OF n(2)] show ?thesis by simp
    qed
  qed simp
  show "settled_bets mid s' = map (settled_row w) (pending_bets mid s)"
    "update_where (is_settled mid) reopened_row (bets s') = bets s"
    using * [of "bets s"] assms by (simp_all add: settled_bets_filter pending_bets_filter)
qed

lemma wal_key: "map acct_key (accounts s') = map acct_key (accounts s) \<Longrightarrow> wal s' = wal s"
  using resolve_user_wallet_key by (fastforce simp: wal_def)

text \<open>\<open>reverse_settlement\<close> in terms of the transaction's bets.\<close>

lemma reverse_settlement_parts:
  assumes "reverse_settlement resolver gen aid now mid j actor s = Inr (n, s')"
  shows "n = length (settled_bets mid s) \<and> (\<exists>s1. (if settled_bets mid s = [] then s1 = begin_tx s
       else reverse_bets resolver gen now actor mid (settled_bets mid s) (begin_tx s) = Inr s1)
     \<and> same_books s1 s' \<and> bets s' = bets s1 \<and> markets s' = markets s1)"
proof -
  have b: "bets (begin_tx s) = bets s" by (rule more_fields(1)) simp
  then have sb: "settled_bets mid (begin_tx s) = settled_bets mid s" by (simp add: settled_bets_def)
  obtain s1 body where n: "n = length (settled_bets mid s)"
    and s1: "(if settled_bets mid s = [] then Inr (begin_tx s)
       else reverse_bets resolver gen now actor mid (settled_bets mid s) (begin_tx s)) = Inr s1"
    and a: "audit_record aid now (actor_string actor) ''settlement.reversed'' body None s1 = Inr s'"
    using assms unfolding reverse_settlement_def Let_def bindE_eq_Inr sb by blast
  have "same_books s1 s'" "bets s' = bets s1" "markets s' = markets s1" using a by (simp_all add: audit_record_Inr)
  then show ?thesis using n s1 by (cases "settled_bets mid s = []") auto
qed

context resolve_contract
begin

lemma reverse_settlement_platform:
  assumes "reverse_settlement resolver gen aid now mid j actor s = Inr (n, s')" "platform_ok s"
  shows "platform_ok s'" "ledger_steps s s'"
proof -
  have b: "bets (begin_tx s) = bets s" by (rule more_fields(1)) simp
  have ok: "platform_ok (begin_tx s)" by (rule platform_frame [OF same_books_locks(2) b assms(2)])
  have sb: "settled_bets mid s = settled_bets mid (begin_tx s)" by (simp add: settled_bets_def b)
  obtain s1 where s1: "if settled_bets mid s = [] then s1 = begin_tx s
       else reverse_bets resolver gen now actor mid (settled_bets mid s) (begin_tx s) = Inr s1"
    and f: "same_books s1 s'" "bets s' = bets s1"
    using reverse_settlement_parts [OF assms(1)] by blast
  have "platform_ok s1 \<and> ledger_steps (begin_tx s) s1"
  proof (cases "settled_bets mid s = []")
    case True then show ?thesis using s1 ok by simp
  next
    case False
    then have r: "reverse_bets resolver gen now actor mid (settled_bets mid s) (begin_tx s) = Inr s1" using s1 by simp
    show ?thesis using reverse_platform [OF r ok sb] reverse_bets_effect [OF r ok sb] by blast
  qed
  then show "platform_ok s'" "ledger_steps s s'"
    using platform_frame [OF f] ledger_steps_frame [OF f(1)] ledger_steps_frame [OF same_books_locks(2) [of s]]
      ledger_steps_trans by blast+
qed

lemma resolve_reverse_effect:
  assumes res: "resolve_market resolver gen aid now mid w j actor s = Inr (plan, s1)"
    and rev: "reverse_settlement resolver gen' aid' now' mid j' actor' s1 = Inr (n, s2)"
    and ok: "platform_ok s" and fresh: "settled_bets mid s = []"
  shows "n = length (pending_bets mid s)" "bets s2 = bets s" "\<And>a. bal s2 a = bal s a" "platform_ok s2"
    "ledger_steps s1 s2"
proof -
  note e = resolve_effect [OF res ok]
  note st = settled_after_settling [OF e(4) fresh]
  obtain l where l: "pending_bets mid s \<noteq> [] \<Longrightarrow> liability_ids mid s = [l]"
    and bl: "\<And>a. bal s1 a = bal s a + (\<Sum>b\<leftarrow>pending_bets mid s. settle_net w l (wal s) a b)"
    using e(7) unfolding resolve_liability_ids by blast
  obtain u where u: "if settled_bets mid s1 = [] then u = begin_tx s1
       else reverse_bets resolver gen' now' actor' mid (settled_bets mid s1) (begin_tx s1) = Inr u"
    and f: "same_books u s2" "bets s2 = bets u" and n: "n = length (settled_bets mid s1)"
    using reverse_settlement_parts [OF rev] by blast
  show "n = length (pending_bets mid s)" using n st(1) by simp
  show "platform_ok s2" "ledger_steps s1 s2" using reverse_settlement_platform [OF rev e(1)] by blast+
  have b1: "bets (begin_tx s1) = bets s1" by (rule more_fields(1)) simp
  have "bets s2 = bets s \<and> (\<forall>a. bal s2 a = bal s a)"
  proof (cases "pending_bets mid s = []")
    case True
    then have "u = begin_tx s1" using u st(1) by simp
    moreover have "bets s1 = bets s"
      using True unfolding e(4) by (auto simp: pending_bets_filter filter_empty_conv update_where_def intro: map_idI)
    ultimately show ?thesis using True f b1 bal_same_books [OF f(1)] bl by simp
  next
    case False
    then have rb: "reverse_bets resolver gen' now' actor' mid (settled_bets mid s1) (begin_tx s1) = Inr u"
      using u st(1) by simp
    have ok1: "platform_ok (begin_tx s1)" by (rule platform_frame [OF same_books_locks(2) b1 e(1)])
    have sb: "settled_bets mid s1 = settled_bets mid (begin_tx s1)" by (simp add: settled_bets_def b1)
    obtain l' where l': "liability_ids mid (begin_tx s1) = [l']"
      and bu: "bets u = update_where (is_settled mid) reopened_row (bets (begin_tx s1))"
      and blu: "\<And>a. bal u a = bal (begin_tx s1) a + (\<Sum>b\<leftarrow>settled_bets mid s1. reverse_net l' (wal (begin_tx s1)) a b)"
      using reverse_bets_effect [OF rb ok1 sb] by blast
    have k: "map acct_key (accounts (begin_tx s1)) = map acct_key (accounts s)" using e(6) by simp
    have "l' = l" using l' l [OF False] liability_ids_key [OF k] by simp
    moreover have "(\<Sum>b\<leftarrow>settled_bets mid s1. reverse_net l (wal s) a b)
        = - (\<Sum>b\<leftarrow>pending_bets mid s. settle_net w l (wal s) a b)" for a
      unfolding st(1) map_map comp_def reverse_net_settled by (rule uminus_sum_list_map [symmetric, unfolded comp_def])
    ultimately show ?thesis
      using f(2) bu b1 st(2) blu bl bal_same_books [OF f(1)] wal_key [OF k] by simp
  qed
  then show "bets s2 = bets s" "\<And>a. bal s2 a = bal s a" by blast+
qed

end


lemma demo_reversed: obtains s2 where
  "reverse_settlement (house_resolver 20) (demo_gen 0x300) 0x92 30 3 ''mistake'' (Some 6) demo_settled_db = Inr (1, s2)"
proof -
  have "okE (\<lambda>(n, s2). n = 1)
    (reverse_settlement (house_resolver 20) (demo_gen 0x300) 0x92 30 3 ''mistake'' (Some 6) demo_settled_db)"
    by code_simp
  then show thesis using that by (auto simp: okE_iff)
qed


text \<open>
  Re-resolving a reversed market on the same winner is refused whenever it would settle a bet:
  the per-leg idempotency keys of the first settlement are still in the ledger, so the transaction
  fails and rolls back, and no bet can be paid twice for one outcome.
\<close>

theorem reresolve_after_reverse_rejected:
  fixes s s1 s2 :: "'a db_scheme"
  assumes "resolve_market (house_resolver t) gen aid now mid w j actor s = Inr (plan, s1)"
    and "reverse_settlement (house_resolver t) gen' aid' now' mid j' actor' s1 = Inr (n, s2)"
    and "platform_ok s" "settled_bets mid s = []" "pending_bets mid s \<noteq> []"
  shows "\<exists>e. resolve_market (house_resolver t) gen'' aid'' now'' mid w j'' actor'' s2 = Inl e"
proof (rule ccontr)
  assume "\<not> ?thesis"
  then obtain r where "resolve_market (house_resolver t) gen'' aid'' now'' mid w j'' actor'' s2 = Inr r"
    by (cases "resolve_market (house_resolver t) gen'' aid'' now'' mid w j'' actor'' s2") auto
  then obtain plan3 s3 where r3: "resolve_market (house_resolver t) gen'' aid'' now'' mid w j'' actor'' s2 = Inr (plan3, s3)"
    by (cases r) simp
  note e1 = house.resolve_effect [OF assms(1,3)]
  note e2 = house.resolve_reverse_effect [OF assms(1,2,3,4)]
  note e3 = house.resolve_effect [OF r3 e2(4)]
  have pb: "pending_bets mid s2 = pending_bets mid s" using e2(2) by (simp add: pending_bets_def)
  obtain l1 ts1 where t1: "transfers s1 = transfers s @ ts1" "map idempotency_key ts1 =
          map (\<lambda>sp. Some (spec_key settle_idempotency_key sp)) (concat (map (settle_specs_of w l1 (wal s)) (pending_bets mid s)))"
    using e1(7) by blast
  obtain l3 ts3 where t3: "transfers s3 = transfers s2 @ ts3" "map idempotency_key ts3 =
          map (\<lambda>sp. Some (spec_key settle_idempotency_key sp)) (concat (map (settle_specs_of w l3 (wal s2)) (pending_bets mid s)))"
    using e3(7) pb by auto
  obtain b bs where b: "pending_bets mid s = b # bs" using assms(5) by (cases "pending_bets mid s") auto
  define k where "k = settle_idempotency_key (bet_id b) (if bet_won w b then LEG_STAKE else LEG_LOSS)"
  have "Some k \<in> idempotency_key ` set ts1"
    using arg_cong [OF t1(2), of set] by (auto simp: b settle_specs_of_def k_def)
  then obtain x where "x \<in> set ts1" and xk: "idempotency_key x = Some k" by (elim imageE) simp
  then have x: "x \<in> set (transfers s1)" using t1(1) by simp
  have x2: "x \<in> set (transfers s2)"
    using steps_keep_transfers [OF e2(5) platform_wf [OF e1(1)] x] .
  have "Some k \<in> idempotency_key ` set ts3"
    using arg_cong [OF t3(2), of set] by (auto simp: b settle_specs_of_def k_def)
  then obtain y where y: "y \<in> set ts3" "idempotency_key y = Some k" by (elim imageE) simp
  let ?keys = "\<lambda>ts. filter (\<lambda>k. k \<noteq> None) (map idempotency_key ts)"
  have "distinct (?keys (transfers s2) @ ?keys ts3)"
    using platform_wf [OF e3(1)] t3(1) by (simp add: ledger_wf_def)
  then have "set (?keys (transfers s2)) \<inter> set (?keys ts3) = {}" by (simp only: distinct_append)
  moreover have "Some k \<in> set (?keys (transfers s2))" using imageI [OF x2, of idempotency_key] xk by simp
  moreover have "Some k \<in> set (?keys ts3)" using imageI [OF y(1), of idempotency_key] y(2) by simp
  ultimately show False by blast
qed

lemma reresolve_after_reverse_rejected_witness:
  "okE (\<lambda>(n, s2). \<exists>e. resolve_market (house_resolver 20) (demo_gen 0x400) 0x93 40 3 8 ''j'' (Some 6) s2 = Inl e)
     (reverse_settlement (house_resolver 20) (demo_gen 0x300) 0x92 30 3 ''mistake'' (Some 6) demo_settled_db)"
proof -
  obtain s2 where r: "reverse_settlement (house_resolver 20) (demo_gen 0x300) 0x92 30 3 ''mistake'' (Some 6) demo_settled_db = Inr (1, s2)"
    by (rule demo_reversed)
  have "settled_bets 3 demo_bet_db = []" "pending_bets 3 demo_bet_db \<noteq> []" by code_simp+
  from reresolve_after_reverse_rejected [OF demo_resolved r demo_bet_db_ok this]
  show ?thesis by (simp add: r okE_iff)
qed

end
