(* ===== verification/Text.thy ===== *)
theory Text
  imports Money
begin

text \<open>
  The text forms the services read and write: \<open>Decimal(str)\<close> and \<open>UUID(str)\<close> of the standard library,
  the tolerant parsers \<open>_safe_decimal\<close> and \<open>_safe_uuid\<close> of \<open>integrations/livebets/schemas.py\<close>, and
  \<open>str\<close> of a money column, which is the wire format of every amount.  Characters are 8-bit.
\<close>

subsection \<open>Characters and digits\<close>

definition is_space :: "char \<Rightarrow> bool" where
  "is_space c = (let n = of_char c :: nat in (9 \<le> n \<and> n \<le> 13) \<or> (28 \<le> n \<and> n \<le> 32) \<or> n = 133 \<or> n = 160)"

definition strip :: "string \<Rightarrow> string" where
  "strip s = rev (dropWhile is_space (rev (dropWhile is_space s)))"

definition is_digit :: "char \<Rightarrow> bool" where
  "is_digit c = (let n = of_char c :: nat in 48 \<le> n \<and> n \<le> 57)"

definition digit_val :: "char \<Rightarrow> nat" where
  "digit_val c = of_char c - 48"

definition digit_char :: "nat \<Rightarrow> char" where
  "digit_char n = char_of (48 + n)"

definition digits_val :: "string \<Rightarrow> nat" where
  "digits_val = foldl (\<lambda>n c. 10 * n + digit_val c) 0"

fun digits :: "nat \<Rightarrow> string" where
  "digits n = (if n < 10 then [digit_char n] else digits (n div 10) @ [digit_char (n mod 10)])"

declare digits.simps [simp del]

lemma of_digit_char: "n < 10 \<Longrightarrow> of_char (digit_char n) = (48 + n :: nat)"
  by (simp add: digit_char_def)

lemma digit_char_simps [simp]: "n < 10 \<Longrightarrow> is_digit (digit_char n)" "n < 10 \<Longrightarrow> digit_val (digit_char n) = n"
  by (simp_all add: is_digit_def digit_val_def of_digit_char Let_def)

lemma digits_val_append: "digits_val (xs @ ys) = foldl (\<lambda>n c. 10 * n + digit_val c) (digits_val xs) ys"
  by (simp add: digits_val_def)

lemma digits_val_digits [simp]: "digits_val (digits n) = n"
proof (induction n rule: digits.induct)
  case (1 n)
  then show ?case
    by (cases "n < 10") (simp_all add: digits.simps [of n] digits_val_append, simp_all add: digits_val_def)
qed

lemma digits_are_digits [simp]: "list_all is_digit (digits n)"
  by (induction n rule: digits.induct) (subst digits.simps, simp)

lemma digits_not_empty [simp]: "digits n \<noteq> []"
  by (subst digits.simps) simp

lemma digits_val_zeros [simp]: "digits_val (replicate k (digit_char 0) @ xs) = digits_val xs"
proof (induction k)
  case (Suc k)
  have "digits_val (digit_char 0 # ys) = digits_val ys" for ys by (simp add: digits_val_def)
  with Suc show ?case by simp
qed simp

subsection \<open>\<open>Decimal(str)\<close>\<close>

definition take_sign :: "string \<Rightarrow> int \<times> string" where
  "take_sign s = (case s of [] \<Rightarrow> (1, [])
     | c # r \<Rightarrow> if c = CHR ''-'' then (- 1, r) else if c = CHR ''+'' then (1, r) else (1, s))"

definition parse_exponent :: "string \<Rightarrow> int option" where
  "parse_exponent s = (case s of [] \<Rightarrow> Some 0
     | c # r \<Rightarrow> if c = CHR ''e'' \<or> c = CHR ''E''
         then (case take_sign r of (sg, ds) \<Rightarrow>
            if ds \<noteq> [] \<and> list_all is_digit ds then Some (sg * int (digits_val ds)) else None)
         else None)"

text \<open>The fraction digits and what follows them.\<close>

definition take_fraction :: "string \<Rightarrow> string \<times> string" where
  "take_fraction s = (case s of [] \<Rightarrow> ([], [])
     | c # r \<Rightarrow> if c = CHR ''.'' then (takeWhile is_digit r, dropWhile is_digit r) else ([], s))"

text \<open>\<open>None\<close> stands for \<open>InvalidOperation\<close> and for the non-finite values.\<close>

definition parse_decimal :: "string \<Rightarrow> rat option" where
  "parse_decimal text_value =
     (case take_sign (filter (\<lambda>c. c \<noteq> CHR ''_'') (strip text_value)) of (sg, s) \<Rightarrow>
      let ip = takeWhile is_digit s in
      case take_fraction (dropWhile is_digit s) of (fp, r) \<Rightarrow>
      if ip @ fp = [] then None
      else map_option (\<lambda>e. of_int sg * of_nat (digits_val (ip @ fp)) * 10 powi (e - int (length fp)))
        (parse_exponent r))"

definition safe_decimal :: "json option \<Rightarrow> rat option" where
  "safe_decimal v = (case v of Some (JStr s) \<Rightarrow> parse_decimal s | Some (JInt n) \<Rightarrow> Some (of_int n)
     | Some (JDec d) \<Rightarrow> Some d | _ \<Rightarrow> None)"

subsection \<open>\<open>UUID(str)\<close>\<close>

definition hex_val :: "char \<Rightarrow> nat option" where
  "hex_val c = (let n = of_char c :: nat in
     if 48 \<le> n \<and> n \<le> 57 then Some (n - 48) else if 97 \<le> n \<and> n \<le> 102 then Some (n - 87)
     else if 65 \<le> n \<and> n \<le> 70 then Some (n - 55) else None)"

fun hex_digits :: "nat \<Rightarrow> string \<Rightarrow> nat option" where
  "hex_digits n [] = Some n"
| "hex_digits n (c # s) = (case hex_val c of None \<Rightarrow> None | Some d \<Rightarrow> hex_digits (16 * n + d) s)"

text \<open>\<open>str.replace(pat, '')\<close>, and \<open>str.strip('{}')\<close>.\<close>

fun remove_all :: "string \<Rightarrow> nat \<Rightarrow> string \<Rightarrow> string" where
  "remove_all pat k [] = []"
| "remove_all pat (Suc k) (c # s) = remove_all pat k s"
| "remove_all pat 0 (c # s) =
     (if take (length pat) (c # s) = pat then remove_all pat (length pat - 1) s else c # remove_all pat 0 s)"

definition strip_braces :: "string \<Rightarrow> string" where
  "strip_braces s = (let b = (\<lambda>c. c = CHR ''{'' \<or> c = CHR ''}'')
     in rev (dropWhile b (rev (dropWhile b s))))"

definition parse_uuid :: "string \<Rightarrow> uuid option" where
  "parse_uuid text_value = (let h = filter (\<lambda>c. c \<noteq> CHR ''-'')
       (strip_braces (remove_all ''uuid:'' 0 (remove_all ''urn:'' 0 text_value)))
     in if length h \<noteq> 32 then None else map_option of_nat (hex_digits 0 h))"

definition safe_uuid :: "json option \<Rightarrow> uuid option" where
  "safe_uuid v = (case v of Some (JUuid u) \<Rightarrow> Some u | Some (JStr s) \<Rightarrow> parse_uuid s
     | Some (JInt n) \<Rightarrow> parse_uuid ((if n < 0 then ''-'' else []) @ digits (nat \<bar>n\<bar>)) | _ \<Rightarrow> None)"

subsection \<open>\<open>str\<close> of a money column\<close>

definition money_str :: "rat \<Rightarrow> string" where
  "money_str m = (let n = \<lfloor>m * 10000\<rfloor>; ds = digits (nat \<bar>n\<bar>);
       ps = replicate (5 - length ds) (digit_char 0) @ ds
     in (if n < 0 then ''-'' else []) @ take (length ps - 4) ps @ ''.'' @ drop (length ps - 4) ps)"

subsection \<open>Parsing what was printed\<close>

text \<open>No digit, dot, dash or lower-case hexadecimal character is a space.\<close>

definition plain :: "char \<Rightarrow> bool" where
  "plain c = (let n = of_char c :: nat in 33 \<le> n \<and> n \<le> 122)"

lemma plain_not_space: "plain c \<Longrightarrow> \<not> is_space c"
  by (auto simp: plain_def is_space_def Let_def)

lemma strip_plain: "list_all plain s \<Longrightarrow> strip s = s"
proof -
  have id: "dropWhile is_space xs = xs" if "list_all plain xs" for xs
    using that by (cases xs) (simp_all add: plain_not_space)
  assume s: "list_all plain s"
  then have "list_all plain (rev s)" by (simp add: list_all_iff)
  with s show ?thesis by (simp add: strip_def id)
qed

lemma digit_plain: "is_digit c \<Longrightarrow> plain c"
  by (auto simp: is_digit_def plain_def Let_def)

lemma digit_not_mark: "is_digit c \<Longrightarrow> c \<noteq> CHR ''_'' \<and> c \<noteq> CHR ''-'' \<and> c \<noteq> CHR ''+''"
  by (auto simp: is_digit_def Let_def)

lemma filter_digits: "list_all is_digit s \<Longrightarrow> filter (\<lambda>c. c \<noteq> CHR ''_'') s = s"
  by (auto simp: list_all_iff filter_id_conv dest: digit_not_mark)

lemma parse_fixed:
  assumes "list_all is_digit ip" "list_all is_digit fp" "ip \<noteq> []"
  shows "parse_decimal ((if neg then ''-'' else []) @ ip @ ''.'' @ fp) =
     Some (of_int (if neg then - 1 else 1) * of_nat (digits_val (ip @ fp)) * 10 powi (- int (length fp)))"
proof -
  let ?s = "ip @ ''.'' @ fp"
  let ?txt = "(if neg then ''-'' else []) @ ?s"
  have "list_all plain ?txt"
    using assms by (auto simp: list_all_iff digit_plain) (simp_all add: plain_def)
  then have st: "strip ?txt = ?txt" by (rule strip_plain)
  have fl: "filter (\<lambda>c. c \<noteq> CHR ''_'') ?txt = ?txt" using assms(1,2) by (simp add: filter_digits)
  obtain d ds where ip: "ip = d # ds" using assms(3) by (cases ip) simp_all
  then have "d \<noteq> CHR ''-''" "d \<noteq> CHR ''+''" using assms(1) digit_not_mark by auto
  then have sg: "take_sign ?txt = (if neg then - 1 else 1, ?s)" by (simp add: take_sign_def ip)
  have dot: "\<not> is_digit CHR ''.''" by (simp add: is_digit_def)
  have tw: "takeWhile is_digit ?s = ip" "dropWhile is_digit ?s = ''.'' @ fp"
    using assms(1) dot by (simp_all add: list_all_iff takeWhile_append2 dropWhile_append2)
  have "takeWhile is_digit fp = fp" "dropWhile is_digit fp = []"
    using assms(2) by (simp_all add: list_all_iff takeWhile_eq_all_conv dropWhile_eq_Nil_conv)
  then have fr: "take_fraction (''.'' @ fp) = (fp, [])" by (simp add: take_fraction_def)
  show ?thesis
    unfolding parse_decimal_def st fl sg Let_def prod.case tw fr
    by (simp add: assms(3) parse_exponent_def)
qed

text \<open>
  Amounts survive the wire.  The string a money column is printed as parses back to exactly that
  amount, through the parser the bridge applies to what it is sent.
\<close>

theorem money_str_roundtrip:
  assumes "is_money m"
  shows "safe_decimal (Some (JStr (money_str m))) = Some m"
proof -
  define n where "n = \<lfloor>m * 10000\<rfloor>"
  define ps where "ps = replicate (5 - length (digits (nat \<bar>n\<bar>))) (digit_char 0) @ digits (nat \<bar>n\<bar>)"
  let ?k = "length ps - 4"
  have m: "of_int n = m * 10000" using assms by (simp add: is_money_def n_def)
  have len: "5 \<le> length ps" by (simp add: ps_def)
  have dig: "list_all is_digit ps" by (simp add: ps_def list_all_iff) (use digits_are_digits in \<open>auto simp: list_all_iff\<close>)
  have val: "digits_val ps = nat \<bar>n\<bar>" unfolding ps_def by (simp only: digits_val_zeros digits_val_digits)
  have str: "money_str m = (if n < 0 then ''-'' else []) @ take ?k ps @ ''.'' @ drop ?k ps"
    by (simp add: money_str_def Let_def ps_def n_def)
  have "list_all is_digit (take ?k ps)" "list_all is_digit (drop ?k ps)" "take ?k ps \<noteq> []"
    using dig len by (auto simp: list_all_iff dest: in_set_takeD in_set_dropD)
  note parse_fixed [OF this, of "n < 0"]
  then have "parse_decimal (money_str m) = Some (of_int (if n < 0 then - 1 else 1) * of_nat (nat \<bar>n\<bar>) * 10 powi (- 4))"
    using len by (simp add: str val)
  moreover have "of_int (if n < 0 then - 1 else 1) * of_nat (nat \<bar>n\<bar>) = (of_int n :: rat)" by (simp add: of_nat_nat)
  ultimately show ?thesis by (simp add: safe_decimal_def m power_int_minus)
qed

lemma money_str_roundtrip_witness:
  "money_str (- 121/10000) = ''-0.0121'' \<and> safe_decimal (Some (JStr (money_str (- 121/10000)))) = Some (- 121/10000)"
proof -
  have "is_money (- 121/10000)" "money_str (- 121/10000) = ''-0.0121''" by code_simp+
  then show ?thesis using money_str_roundtrip [of "- 121/10000"] by simp
qed

subsection \<open>Identifiers\<close>

lemma hex_val_hex_char: "n < 16 \<Longrightarrow> hex_val (hex_char n) = Some n"
proof -
  assume "n < 16"
  then have "n \<in> set [0..<16]" by simp
  moreover have "list_all (\<lambda>n. hex_val (hex_char n) = Some n) [0..<16]" by code_simp
  ultimately show ?thesis by (simp add: list_all_iff)
qed

lemma hex_digits_append: "hex_digits n (xs @ ys) = Option.bind (hex_digits n xs) (\<lambda>m. hex_digits m ys)"
  by (induction xs arbitrary: n) (simp_all split: option.splits)

lemma nibble_less [simp]: "nibble u i < 16"
  by (simp add: nibble_def)

lemma hex_digits_uuid: "hex_digits a (map (\<lambda>i. hex_char (nibble u i)) (rev [0..<k])) =
    Some (16 ^ k * a + unat (take_bit (4 * k) u))"
proof (induction k arbitrary: a)
  case (Suc k)
  have "unat (take_bit (4 * Suc k) u) = take_bit (4 * k + 4) (unat u)" by (simp add: unsigned_take_bit_eq add.commute)
  also have "\<dots> = take_bit (4 * k) (unat u) + 16 ^ k * (unat u div 16 ^ k mod 16)"
  proof -
    have "take_bit (4 * k + 4) (unat u) = unat u mod (2 ^ (4 * k) * 2 ^ 4)" by (simp add: take_bit_eq_mod power_add)
    also have "\<dots> = 2 ^ (4 * k) * (unat u div 2 ^ (4 * k) mod 2 ^ 4) + unat u mod 2 ^ (4 * k)" by (rule mod_mult2_eq)
    finally show ?thesis by (simp add: take_bit_eq_mod power_mult)
  qed
  also have "unat u div 16 ^ k mod 16 = nibble u k"
    unfolding nibble_def unat_drop_bit_eq by (simp add: drop_bit_eq_div power_mult)
  finally show ?case
    using Suc by (simp add: hex_val_hex_char unsigned_take_bit_eq algebra_simps)
qed simp

lemma remove_all_absent: "pat \<noteq> [] \<Longrightarrow> hd pat \<notin> set s \<Longrightarrow> remove_all pat 0 s = s"
  by (induction s) (auto simp: neq_Nil_conv)

text \<open>
  Identifiers survive the wire: the string a UUID is printed as parses back to it.
\<close>

theorem uuid_str_roundtrip: "safe_uuid (Some (JStr (uuid_str u))) = Some u"
proof -
  have hexs: "\<exists>n < 16. c = hex_char n" if "c \<in> set (uuid_hex u)" for c
    using that by (auto simp: uuid_hex_def intro: nibble_less)
  have no: "list_all (\<lambda>n. hex_char n \<notin> set ''-u{}'') [0..<16]" by code_simp
  have plain: "c \<noteq> CHR ''-'' \<and> c \<noteq> CHR ''u'' \<and> c \<noteq> CHR ''{'' \<and> c \<noteq> CHR ''}''" if "c \<in> set (uuid_hex u)" for c
    using hexs [OF that] no by (auto simp: list_all_iff)
  have sub: "set (uuid_str u) \<subseteq> insert CHR ''-'' (set (uuid_hex u))"
    by (auto simp: uuid_str_def Let_def dest: in_set_takeD in_set_dropD)
  have ru: "remove_all ''uuid:'' 0 (remove_all ''urn:'' 0 (uuid_str u)) = uuid_str u"
  proof -
    have "CHR ''u'' \<notin> set (uuid_str u)" using sub plain by auto
    then show ?thesis by (simp add: remove_all_absent)
  qed
  have br: "strip_braces (uuid_str u) = uuid_str u"
  proof -
    have nb: "\<forall>c \<in> set (uuid_str u). c \<noteq> CHR ''{'' \<and> c \<noteq> CHR ''}''" using sub plain by auto
    have id: "dropWhile (\<lambda>c. c = CHR ''{'' \<or> c = CHR ''}'') xs = xs"
      if "\<forall>c \<in> set xs. c \<noteq> CHR ''{'' \<and> c \<noteq> CHR ''}''" for xs
      using that by (cases xs) simp_all
    show ?thesis using nb by (simp add: strip_braces_def id)
  qed
  have fl: "filter (\<lambda>c. c \<noteq> CHR ''-'') (uuid_str u) = uuid_hex u"
  proof -
    have keep: "filter (\<lambda>c. c \<noteq> CHR ''-'') xs = xs" if "set xs \<subseteq> set (uuid_hex u)" for xs
      using that plain by (auto simp: filter_id_conv)
    have cut: "drop a xs = take b (drop a xs) @ drop (b + a) xs" for a b and xs :: string
      by (simp flip: drop_drop)
    have "uuid_hex u = take 8 (uuid_hex u) @ drop 8 (uuid_hex u)" by simp
    also have "drop 8 (uuid_hex u) = take 4 (drop 8 (uuid_hex u)) @ drop 12 (uuid_hex u)" using cut [of 8 _ 4] by simp
    also have "drop 12 (uuid_hex u) = take 4 (drop 12 (uuid_hex u)) @ drop 16 (uuid_hex u)" using cut [of 12 _ 4] by simp
    also have "drop 16 (uuid_hex u) = take 4 (drop 16 (uuid_hex u)) @ drop 20 (uuid_hex u)" using cut [of 16 _ 4] by simp
    finally have "uuid_hex u = take 8 (uuid_hex u) @ take 4 (drop 8 (uuid_hex u)) @ take 4 (drop 12 (uuid_hex u))
        @ take 4 (drop 16 (uuid_hex u)) @ drop 20 (uuid_hex u)" .
    moreover have "set (take n (drop m (uuid_hex u))) \<subseteq> set (uuid_hex u)" "set (drop m (uuid_hex u)) \<subseteq> set (uuid_hex u)"
      "set (take n (uuid_hex u)) \<subseteq> set (uuid_hex u)" for n m
      by (auto dest: in_set_takeD in_set_dropD)
    ultimately show ?thesis unfolding uuid_str_def Let_def by (simp add: keep)
  qed
  have "hex_digits 0 (uuid_hex u) = Some (unat u)"
    using hex_digits_uuid [of 0 u 32] by (simp add: uuid_hex_def take_bit_word_eq_self)
  then show ?thesis by (simp add: safe_uuid_def parse_uuid_def ru br fl Let_def)
qed

end
