(* ===== verification/Events.thy ===== *)
theory Events
  imports Reversal Markets Text
begin

text \<open>
  Events (\<open>settlement/event_service.py\<close>, \<open>event_schemas.py\<close>, \<open>event_router.py\<close>): groups of binary
  markets that are created, edited, settled and reversed together.  Each child settles on a session
  of its own, so an event operation returns its result or exception \<^emph>\<open>and\<close> the state that is committed
  by then.  Rows without an \<open>ORDER BY\<close> come in table order.
\<close>

subsection \<open>The derived status\<close>

record child_status =
  cs_status :: market_status
  is_yes_winner :: bool

record event_settle_result =
  er_group_id :: uuid
  child_count :: nat
  children_settled :: nat
  children_failed :: "uuid list"
  er_status :: string

definition derive_event_status :: "child_status list \<Rightarrow> string" where
  "derive_event_status children =
     (if children = [] then ''open''
      else
        let resolved = filter (\<lambda>c. cs_status c = RESOLVED) children in
        if length resolved = 0 then ''open''
        else if length resolved < length children then ''partially_resolved''
        else if list_ex is_yes_winner resolved then ''resolved'' else ''void'')"

subsection \<open>Reading a group\<close>

definition get_group :: "uuid \<Rightarrow> 'a db_scheme \<Rightarrow> market_group option" where
  "get_group gid s = List.find (\<lambda>g. mg_id g = gid) (market_groups s)"

definition group_children :: "uuid \<Rightarrow> 'a db_scheme \<Rightarrow> market list" where
  "group_children gid s = filter (\<lambda>m. group_id m = Some gid) (markets s)"

definition yes_outcome_id :: "uuid \<Rightarrow> 'a db_scheme \<Rightarrow> uuid result" where
  "yes_outcome_id mid s = scalar_one (map oc_id (filter (\<lambda>oc. is_yes (label oc)) (market_outcomes mid s)))"

definition no_outcome_id :: "uuid \<Rightarrow> 'a db_scheme \<Rightarrow> uuid result" where
  "no_outcome_id mid s = scalar_one (map oc_id (filter (\<lambda>oc. \<not> is_yes (label oc)) (market_outcomes mid s)))"

definition require_justification :: "string \<Rightarrow> unit result" where
  "require_justification j =
     (if strip j = [] then Inl (ValueError ''A non-empty justification is required to resolve/void an event.'')
      else Inr ())"

definition reject_if_mirrored :: "market_group \<Rightarrow> unit result" where
  "reject_if_mirrored g =
     (if mg_source g = POLYMARKET
      then Inl (ValueError ''Mirrored (Polymarket) events are admin read-only; use force-settle (ADM-06).'')
      else Inr ())"

definition load_event :: "uuid \<Rightarrow> 'a db_scheme \<Rightarrow> market list result" where
  "load_event gid s = (case get_group gid s of
     None \<Rightarrow> Inl (ValueError (''No market group '' @ uuid_str gid @ ''.''))
   | Some g \<Rightarrow> bindE (reject_if_mirrored g) (\<lambda>_. Inr (group_children gid s)))"

text \<open>\<open>next((o for o in outcomes if o.label.upper() == "YES"), None)\<close>\<close>

definition first_yes :: "uuid \<Rightarrow> 'a db_scheme \<Rightarrow> outcome option" where
  "first_yes mid s = List.find (\<lambda>oc. is_yes (label oc)) (market_outcomes mid s)"

definition child_status_of :: "'a db_scheme \<Rightarrow> market \<Rightarrow> child_status" where
  "child_status_of s m = \<lparr>cs_status = mk_status m,
     is_yes_winner = (winning_outcome_id m \<noteq> None
        \<and> winning_outcome_id m = map_option oc_id (first_yes (mk_id m) s))\<rparr>"

definition derive_status :: "uuid \<Rightarrow> 'a db_scheme \<Rightarrow> string" where
  "derive_status gid s = (case get_group gid s of None \<Rightarrow> ''open''
     | Some g \<Rightarrow> derive_event_status (map (child_status_of s) (group_children gid s)))"

subsection \<open>Settling and reversing the children\<close>

text \<open>What one child's transaction draws: transfer ids, the audit id, its time, the adapter's clock.\<close>

type_synonym child_ids = "(nat \<Rightarrow> post_ids) \<times> uuid \<times> int \<times> int"

fun settle_children ::
  "(uuid \<Rightarrow> child_ids) \<Rightarrow> (uuid \<times> uuid) list \<Rightarrow> string \<Rightarrow> uuid option \<Rightarrow> 'a db_scheme
    \<Rightarrow> uuid list \<times> 'a db_scheme" where
  "settle_children ids [] j actor s = ([], s)"
| "settle_children ids ((mid, w) # cs) j actor s = (case ids mid of (gen, audit_id, now, t) \<Rightarrow>
     case resolve_market (house_resolver t) gen audit_id now mid w j actor s of
       Inl e \<Rightarrow> (case settle_children ids cs j actor s of (failed, s') \<Rightarrow> (mid # failed, s'))
     | Inr (plan, s1) \<Rightarrow> settle_children ids cs j actor s1)"

fun reverse_children ::
  "(uuid \<Rightarrow> child_ids) \<Rightarrow> uuid list \<Rightarrow> string \<Rightarrow> uuid option \<Rightarrow> 'a db_scheme \<Rightarrow> uuid list \<times> 'a db_scheme" where
  "reverse_children ids [] j actor s = ([], s)"
| "reverse_children ids (mid # cs) j actor s = (case ids mid of (gen, audit_id, now, t) \<Rightarrow>
     case reverse_settlement (house_resolver t) gen audit_id now mid j actor s of
       Inl e \<Rightarrow> (case reverse_children ids cs j actor s of (failed, s') \<Rightarrow> (mid # failed, s'))
     | Inr (n, s1) \<Rightarrow> reverse_children ids cs j actor s1)"

definition record_event_audit ::
  "uuid \<Rightarrow> int \<Rightarrow> string \<Rightarrow> uuid \<Rightarrow> uuid option \<Rightarrow> nat \<Rightarrow> uuid list \<Rightarrow> string \<Rightarrow> uuid option \<Rightarrow> 'a db_scheme
    \<Rightarrow> 'a db_scheme result" where
  "record_event_audit audit_id now ty gid winner n failed j actor s =
     audit_record audit_id now (actor_string actor) ty
       [(''group_id'', JUuid gid), (''winning_outcome_id'', JOpt JUuid winner), (''child_count'', JInt (int n)),
        (''children_settled'', JInt (int n - int (length failed))),
        (''children_failed'', JList (map JUuid failed)), (''justification'', JStr j)] None (begin_tx s)"

type_synonym 'a event_outcome = "event_settle_result result \<times> 'a db_scheme"

definition finish_event ::
  "uuid \<Rightarrow> int \<Rightarrow> string \<Rightarrow> uuid \<Rightarrow> uuid option \<Rightarrow> nat \<Rightarrow> string \<Rightarrow> uuid option
    \<Rightarrow> uuid list \<times> 'a db_scheme \<Rightarrow> 'a event_outcome" where
  "finish_event audit_id now ty gid winner n j actor x = (case x of (failed, s) \<Rightarrow>
     case record_event_audit audit_id now ty gid winner n failed j actor s of
       Inl e \<Rightarrow> (Inl e, s)
     | Inr s' \<Rightarrow> (Inr \<lparr>er_group_id = gid, child_count = n, children_settled = n - length failed,
         children_failed = failed, er_status = derive_status gid s'\<rparr>, s'))"

text \<open>The read pass of each operation: the children with the outcome each settles on.\<close>

definition resolve_plan :: "uuid \<Rightarrow> uuid \<Rightarrow> 'a db_scheme \<Rightarrow> (uuid \<times> uuid) list result" where
  "resolve_plan gid winner s =
     bindE (load_event gid s) (\<lambda>children.
     case map oc_market_id (filter (\<lambda>oc. oc_id oc = winner \<and> oc_market_id oc \<in> mk_id ` set children) (outcomes s)) of
       [wm] \<Rightarrow>
         bindE (yes_outcome_id wm s) (\<lambda>yes.
         if winner \<noteq> yes then Inl (ValueError (''winning_outcome_id '' @ uuid_str winner @ '' is not the YES outcome of its child market '' @ uuid_str wm
           @ ''; resolve_event settles the winner on YES (use void_event to settle every child on NO).''))
         else
           bindE (mapE (\<lambda>m. bindE (no_outcome_id (mk_id m) s) (\<lambda>no. Inr (mk_id m, no)))
             (sort_key (\<lambda>m. uuid_str (mk_id m)) (filter (\<lambda>m. mk_id m \<noteq> wm) children))) (\<lambda>losers.
           Inr ((wm, winner) # losers)))
     | _ \<Rightarrow> Inl (ValueError (''winning_outcome_id '' @ uuid_str winner @ '' does not map to exactly one child of group '' @ uuid_str gid @ ''.'')))"

definition void_plan :: "uuid \<Rightarrow> 'a db_scheme \<Rightarrow> (uuid \<times> uuid) list result" where
  "void_plan gid s =
     bindE (load_event gid s) (\<lambda>children.
     mapE (\<lambda>m. bindE (no_outcome_id (mk_id m) s) (\<lambda>no. Inr (mk_id m, no)))
       (sort_key (\<lambda>m. uuid_str (mk_id m)) children))"

definition reverse_plan :: "uuid \<Rightarrow> 'a db_scheme \<Rightarrow> uuid list result" where
  "reverse_plan gid s = bindE (load_event gid s) (\<lambda>children. Inr (sort_key uuid_str (map mk_id children)))"

subsection \<open>\<open>EventService\<close>\<close>

definition resolve_event ::
  "(uuid \<Rightarrow> child_ids) \<Rightarrow> uuid \<Rightarrow> int \<Rightarrow> uuid \<Rightarrow> uuid \<Rightarrow> string \<Rightarrow> uuid option \<Rightarrow> 'a db_scheme \<Rightarrow> 'a event_outcome" where
  "resolve_event ids audit_id now gid winner j actor s =
     (case bindE (require_justification j) (\<lambda>_. resolve_plan gid winner s) of
        Inl e \<Rightarrow> (Inl e, s)
      | Inr ordered \<Rightarrow> finish_event audit_id now ''event.resolved'' gid (Some winner) (length ordered) j actor
          (settle_children ids ordered j actor s))"

definition void_event ::
  "(uuid \<Rightarrow> child_ids) \<Rightarrow> uuid \<Rightarrow> int \<Rightarrow> uuid \<Rightarrow> string \<Rightarrow> uuid option \<Rightarrow> 'a db_scheme \<Rightarrow> 'a event_outcome" where
  "void_event ids audit_id now gid j actor s =
     (case bindE (require_justification j) (\<lambda>_. void_plan gid s) of
        Inl e \<Rightarrow> (Inl e, s)
      | Inr ordered \<Rightarrow> finish_event audit_id now ''event.voided'' gid None (length ordered) j actor
          (settle_children ids ordered j actor s))"

definition reverse_event ::
  "(uuid \<Rightarrow> child_ids) \<Rightarrow> uuid \<Rightarrow> int \<Rightarrow> uuid \<Rightarrow> string \<Rightarrow> uuid option \<Rightarrow> 'a db_scheme \<Rightarrow> 'a event_outcome" where
  "reverse_event ids audit_id now gid j actor s =
     (case bindE (require_justification j) (\<lambda>_. reverse_plan gid s) of
        Inl e \<Rightarrow> (Inl e, s)
      | Inr ordered \<Rightarrow> finish_event audit_id now ''event.reversed'' gid None (length ordered) j actor
          (reverse_children ids ordered j actor s))"

subsection \<open>Creating and editing house events\<close>

record outcome_input =
  oi_label :: string
  oi_odds :: rat

record create_event_request =
  ce_title :: string
  ce_category :: "string option"
  ce_deadline :: int
  ce_criteria :: "string option"
  ce_slug :: "string option"
  ce_outcomes :: "outcome_input list"

record update_event_request =
  ue_title :: "string option"
  ue_category :: "string option"
  ue_deadline :: "int option"
  ue_outcomes :: "outcome_input list option"

definition valid_outcome_input :: "outcome_input \<Rightarrow> bool" where
  "valid_outcome_input i \<longleftrightarrow> 1 \<le> length (oi_label i) \<and> length (oi_label i) \<le> 100 \<and> 0 < oi_odds i \<and> oi_odds i < 1"

definition validate_create_event :: "int \<Rightarrow> create_event_request \<Rightarrow> create_event_request result" where
  "validate_create_event now b =
     (if 1 \<le> length (ce_title b) \<and> length (ce_title b) \<le> 500 \<and> opt_all (\<lambda>c. length c \<le> 100) (ce_category b)
       \<and> now < ce_deadline b \<and> opt_all (\<lambda>c. length c \<le> 2000) (ce_criteria b)
       \<and> opt_all (\<lambda>c. length c \<le> 100) (ce_slug b)
       \<and> 2 \<le> length (ce_outcomes b) \<and> list_all valid_outcome_input (ce_outcomes b)
      then Inr b else Inl (HTTPException 422))"

definition validate_update_event :: "int \<Rightarrow> update_event_request \<Rightarrow> update_event_request result" where
  "validate_update_event now b =
     (if opt_all (\<lambda>t. 1 \<le> length t \<and> length t \<le> 500) (ue_title b) \<and> opt_all (\<lambda>c. length c \<le> 100) (ue_category b)
       \<and> opt_all (\<lambda>d. now < d) (ue_deadline b)
       \<and> opt_all (\<lambda>ocs. 2 \<le> length ocs \<and> list_all valid_outcome_input ocs) (ue_outcomes b)
      then Inr b else Inl (HTTPException 422))"

text \<open>The dash of a question is not an 8-bit character: its three UTF-8 bytes stand for it.\<close>

definition em_dash :: string where
  "em_dash = '' '' @ [CHR 0xE2, CHR 0x80, CHR 0x94] @ '' ''"

definition DEFAULT_EVENT_CHILD_CRITERIA :: string where
  "DEFAULT_EVENT_CHILD_CRITERIA = ''Resolves YES if this outcome occurs, per the event's official source.''"

text \<open>The identifiers of a child: its id, the uuid of its slug, its YES and NO outcomes.\<close>

type_synonym event_child_ids = "uuid \<times> uuid \<times> uuid \<times> uuid"

definition event_child ::
  "(string \<Rightarrow> string) \<Rightarrow> uuid \<Rightarrow> uuid \<Rightarrow> int \<Rightarrow> market_group \<Rightarrow> string \<Rightarrow> int \<Rightarrow> string option \<Rightarrow> string option \<Rightarrow> market" where
  "event_child slugify i u now g lbl ddl cat criteria =
     \<lparr>mk_id = i, question = mg_title g @ em_dash @ lbl @ ''?'',
      mk_slug = generate_slug slugify (mg_title g @ '' '' @ lbl) u,
      resolution_criteria = (case criteria of None \<Rightarrow> DEFAULT_EVENT_CHILD_CRITERIA
        | Some c \<Rightarrow> if c = [] then DEFAULT_EVENT_CHILD_CRITERIA else c),
      mk_category = cat, mk_source = HOUSE, source_market_id = None, condition_id = None, polymarket_slug = None,
      volume = 0, volume_24hr = 0, mk_status = OPEN, deadline = ddl, bet_count = 0, mk_created_at = now,
      mk_closed_at = None, resolved_at = None, uma_resolved_at = None, winning_outcome_id = None,
      resolution_source = None, resolution_justification = None, min_stake = None, max_stake = None,
      group_id = Some (mg_id g), group_item_title = Some lbl\<rparr>"

definition add_event_child ::
  "(string \<Rightarrow> string) \<Rightarrow> int \<Rightarrow> market_group \<Rightarrow> int \<Rightarrow> string option \<Rightarrow> string option
    \<Rightarrow> event_child_ids \<times> outcome_input \<Rightarrow> 'a db_scheme \<Rightarrow> 'a db_scheme result" where
  "add_event_child slugify now g ddl cat criteria x s = (case x of ((i, u, yes_id, no_id), inp) \<Rightarrow>
     bindE (insert_market (event_child slugify i u now g (oi_label inp) ddl cat criteria) s) (\<lambda>(m, s).
     bindE (insert_outcome (new_outcome yes_id i ''YES'' (oi_odds inp)) s) (\<lambda>(yes, s).
     bindE (insert_outcome (new_outcome no_id i ''NO'' (dec_sub 1 (oi_odds inp))) s) (\<lambda>(no, s).
     Inr s))))"

definition new_group :: "(string \<Rightarrow> string) \<Rightarrow> uuid \<Rightarrow> uuid \<Rightarrow> int \<Rightarrow> create_event_request \<Rightarrow> market_group" where
  "new_group slugify i u now b = \<lparr>mg_id = i, mg_title = ce_title b, mg_source = HOUSE, source_event_id = None,
     mg_category = ce_category b,
     mg_slug = (case ce_slug b of None \<Rightarrow> generate_slug slugify (ce_title b) u
       | Some sl \<Rightarrow> if sl = [] then generate_slug slugify (ce_title b) u else sl),
     mg_created_at = now\<rparr>"

text \<open>The same loop as for markets: \<open>nested\<close> is unbound when the flush fails.\<close>

fun insert_group_with_slug ::
  "(string \<Rightarrow> string) \<Rightarrow> (uuid \<times> uuid) list \<Rightarrow> bool \<Rightarrow> int \<Rightarrow> create_event_request \<Rightarrow> 'a db_scheme
    \<Rightarrow> (market_group \<times> 'a db_scheme) result" where
  "insert_group_with_slug slugify [] nested_bound now b s = Inl (HTTPException 409)"
| "insert_group_with_slug slugify ((i, u) # draws) nested_bound now b s =
     (case insert_group (new_group slugify i u now b) s of
        Inr s' \<Rightarrow> Inr (new_group slugify i u now b, s')
      | Inl (IntegrityError e) \<Rightarrow>
          if nested_bound then insert_group_with_slug slugify draws nested_bound now b s
          else Inl UnboundLocalError
      | Inl e \<Rightarrow> Inl e)"

definition create_house_event ::
  "(string \<Rightarrow> string) \<Rightarrow> (uuid \<times> uuid) list \<Rightarrow> (nat \<Rightarrow> event_child_ids) \<Rightarrow> uuid \<Rightarrow> int \<Rightarrow> uuid
    \<Rightarrow> create_event_request \<Rightarrow> 'a db_scheme \<Rightarrow> (market_group \<times> 'a db_scheme) result" where
  "create_house_event slugify draws kids audit_id now admin b s =
     bindE (insert_group_with_slug slugify (take 3 draws) False now b (begin_tx s)) (\<lambda>(g, s).
     bindE (foldE (\<lambda>(k, inp). add_event_child slugify now g (ce_deadline b) (ce_category b) (ce_criteria b) (kids k, inp))
        (List.enumerate 0 (ce_outcomes b)) s) (\<lambda>s.
     bindE (audit_record audit_id now (actor_string (Some admin)) ''event.created''
        [(''group_id'', JUuid (mg_id g)), (''title'', JStr (ce_title b)),
         (''child_count'', JInt (int (length (ce_outcomes b))))] None s) (\<lambda>s.
     Inr (g, s))))"

definition update_group_row :: "uuid \<Rightarrow> (market_group \<Rightarrow> market_group) \<Rightarrow> 'a db_scheme \<Rightarrow> 'a db_scheme" where
  "update_group_row u f s = s\<lparr>market_groups := update_where (\<lambda>g. mg_id g = u) f (market_groups s)\<rparr>"

text \<open>\<open>DELETE FROM markets WHERE group_id = gid\<close> cascades to outcomes and snapshots.\<close>

definition delete_children :: "uuid \<Rightarrow> 'a db_scheme \<Rightarrow> 'a db_scheme" where
  "delete_children gid s =
     (let gone = mk_id ` set (group_children gid s);
          gone_outcomes = oc_id ` set (filter (\<lambda>oc. oc_market_id oc \<in> gone) (outcomes s)) in
      s\<lparr>markets := filter (\<lambda>m. group_id m \<noteq> Some gid) (markets s),
        outcomes := filter (\<lambda>oc. oc_market_id oc \<notin> gone) (outcomes s),
        odds_snapshots := filter (\<lambda>os. os_market_id os \<notin> gone \<and> os_outcome_id os \<notin> gone_outcomes) (odds_snapshots s)\<rparr>)"

definition title_str :: "string option \<Rightarrow> string" where
  "title_str t = (case t of None \<Rightarrow> ''None'' | Some x \<Rightarrow> x)"

definition edit_child :: "update_event_request \<Rightarrow> market \<Rightarrow> market" where
  "edit_child b m = m\<lparr>mk_category := (case ue_category b of None \<Rightarrow> mk_category m | Some c \<Rightarrow> Some c),
     deadline := given (ue_deadline b) (deadline m),
     question := (case ue_title b of None \<Rightarrow> question m
       | Some t \<Rightarrow> t @ em_dash @ title_str (group_item_title m) @ ''?'')\<rparr>"

definition update_house_event ::
  "(string \<Rightarrow> string) \<Rightarrow> (nat \<Rightarrow> event_child_ids) \<Rightarrow> int \<Rightarrow> uuid \<Rightarrow> update_event_request \<Rightarrow> 'a db_scheme
    \<Rightarrow> 'a db_scheme result" where
  "update_house_event slugify kids now gid b s =
     (case get_group gid s of
        None \<Rightarrow> Inl (HTTPException 404)
      | Some g0 \<Rightarrow>
        let children = group_children gid s;
            g = g0\<lparr>mg_title := given (ue_title b) (mg_title g0),
                   mg_category := (case ue_category b of None \<Rightarrow> mg_category g0 | Some c \<Rightarrow> Some c)\<rparr>;
            s = update_group_row gid (\<lambda>_. g) s in
        case ue_outcomes b of
          Some ocs \<Rightarrow>
            (case (ue_deadline b, children) of
               (None, []) \<Rightarrow> Inl AssertionError
             | (Some d, _) \<Rightarrow> foldE (\<lambda>(k, inp). add_event_child slugify now g d (mg_category g) None (kids k, inp))
                 (List.enumerate 0 ocs) (delete_children gid s)
             | (None, c # _) \<Rightarrow> foldE (\<lambda>(k, inp). add_event_child slugify now g (deadline c) (mg_category g) None (kids k, inp))
                 (List.enumerate 0 ocs) (delete_children gid s))
        | None \<Rightarrow> Inr (s\<lparr>markets := update_where (\<lambda>m. group_id m = Some gid) (edit_child b) (markets s)\<rparr>))"

definition event_has_bets :: "uuid \<Rightarrow> 'a db_scheme \<Rightarrow> bool" where
  "event_has_bets gid s = list_ex (\<lambda>b. bet_market_id b \<in> mk_id ` set (group_children gid s)) (bets s)"

subsection \<open>The endpoints\<close>

definition contains :: "string \<Rightarrow> string \<Rightarrow> bool" where
  "contains pat s = list_ex (\<lambda>i. take (length pat) (drop i s) = pat) [0..<Suc (length s)]"

definition map_event_value_error :: "exn \<Rightarrow> exn" where
  "map_event_value_error e = (case e of
     ValueError message \<Rightarrow>
       HTTPException (if contains ''Mirrored'' message then 409 else if contains ''No market group'' message then 404
         else if contains ''winning_outcome_id'' message then 422 else if contains ''justification'' message then 422
         else 400)
   | _ \<Rightarrow> e)"

record event_action_response =
  preview :: bool
  ea_child_count :: nat
  winners :: "nat option"
  losers :: "int option"
  settled_children_to_reverse :: "nat option"
  ea_settled :: "nat option"
  ea_failed :: "uuid list option"
  projected_status :: string

definition load_for_settle :: "uuid \<Rightarrow> 'a db_scheme \<Rightarrow> market list result" where
  "load_for_settle gid s = (case get_group gid s of
     None \<Rightarrow> Inl (HTTPException 404)
   | Some g \<Rightarrow> if mg_source g = POLYMARKET then Inl (HTTPException 409) else Inr (group_children gid s))"

definition executed :: "'a event_outcome \<Rightarrow> event_action_response result \<times> 'a db_scheme" where
  "executed x = (case x of (Inl e, s) \<Rightarrow> (Inl (map_event_value_error e), s)
     | (Inr r, s) \<Rightarrow> (Inr \<lparr>preview = False, ea_child_count = child_count r, winners = None, losers = None,
         settled_children_to_reverse = None, ea_settled = Some (children_settled r),
         ea_failed = Some (children_failed r), projected_status = er_status r\<rparr>, s))"

definition preview_of :: "nat option \<Rightarrow> int option \<Rightarrow> nat option \<Rightarrow> string \<Rightarrow> market list \<Rightarrow> event_action_response" where
  "preview_of w l n st children = \<lparr>preview = True, ea_child_count = length children, winners = w, losers = l,
     settled_children_to_reverse = n, ea_settled = None, ea_failed = None, projected_status = st\<rparr>"

definition post_resolve_event ::
  "(uuid \<Rightarrow> child_ids) \<Rightarrow> uuid \<Rightarrow> int \<Rightarrow> uuid \<Rightarrow> uuid \<Rightarrow> string \<Rightarrow> bool \<Rightarrow> uuid \<Rightarrow> 'a db_scheme
    \<Rightarrow> event_action_response result \<times> 'a db_scheme" where
  "post_resolve_event ids audit_id now gid winner j confirm admin s =
     (if j = [] then (Inl (HTTPException 422), s)
      else if \<not> confirm then
        (bindE (load_for_settle gid s) (\<lambda>children.
         if winner \<notin> set (List.map_filter (\<lambda>m. map_option oc_id (first_yes (mk_id m) s)) children)
         then Inl (HTTPException 422)
         else Inr (preview_of (Some 1) (Some (int (length children) - 1)) None ''resolved'' children)), s)
      else executed (resolve_event ids audit_id now gid winner j (Some admin) s))"

definition post_void_event ::
  "(uuid \<Rightarrow> child_ids) \<Rightarrow> uuid \<Rightarrow> int \<Rightarrow> uuid \<Rightarrow> string \<Rightarrow> bool \<Rightarrow> uuid \<Rightarrow> 'a db_scheme
    \<Rightarrow> event_action_response result \<times> 'a db_scheme" where
  "post_void_event ids audit_id now gid j confirm admin s =
     (if j = [] then (Inl (HTTPException 422), s)
      else if \<not> confirm then
        (bindE (load_for_settle gid s) (\<lambda>children.
         Inr (preview_of (Some 0) (Some (int (length children))) None ''void'' children)), s)
      else executed (void_event ids audit_id now gid j (Some admin) s))"

definition post_reverse_event ::
  "(uuid \<Rightarrow> child_ids) \<Rightarrow> uuid \<Rightarrow> int \<Rightarrow> uuid \<Rightarrow> string \<Rightarrow> bool \<Rightarrow> uuid \<Rightarrow> 'a db_scheme
    \<Rightarrow> event_action_response result \<times> 'a db_scheme" where
  "post_reverse_event ids audit_id now gid j confirm admin s =
     (if j = [] then (Inl (HTTPException 422), s)
      else if \<not> confirm then
        (bindE (load_for_settle gid s) (\<lambda>children.
         Inr (preview_of None None (Some (length (filter (\<lambda>m. mk_status m = RESOLVED) children))) ''open'' children)), s)
      else executed (reverse_event ids audit_id now gid j (Some admin) s))"

definition post_event ::
  "(string \<Rightarrow> string) \<Rightarrow> (uuid \<times> uuid) list \<Rightarrow> (nat \<Rightarrow> event_child_ids) \<Rightarrow> uuid \<Rightarrow> int \<Rightarrow> uuid
    \<Rightarrow> create_event_request \<Rightarrow> 'a db_scheme \<Rightarrow> (market_group \<times> 'a db_scheme) result" where
  "post_event slugify draws kids audit_id now admin b s =
     bindE (validate_create_event now b) (\<lambda>b. create_house_event slugify draws kids audit_id now admin b s)"

definition patch_event ::
  "(string \<Rightarrow> string) \<Rightarrow> (nat \<Rightarrow> event_child_ids) \<Rightarrow> int \<Rightarrow> uuid \<Rightarrow> update_event_request \<Rightarrow> 'a db_scheme
    \<Rightarrow> 'a db_scheme result" where
  "patch_event slugify kids now gid b s =
     bindE (validate_update_event now b) (\<lambda>b.
     if get_group gid s = None then Inl (HTTPException 404)
     else if event_has_bets gid s then Inl (HTTPException 423)
     else update_house_event slugify kids now gid b (begin_tx s))"

end
