(* ===== verification/Gamma.thy ===== *)
theory Gamma
  imports Events
begin

text \<open>
  The Polymarket mirror: the parsed Gamma payloads (\<open>integrations/polymarket/schemas.py\<close>) and the
  adapter that upserts them (\<open>adapter.py\<close>).  The validation of a raw payload by pydantic is a
  parameter of the tasks; a payload here is what it yields, with \<open>volume24hr\<close> as the text of its float.
  \<open>iso_parse\<close> is \<open>datetime.fromisoformat\<close>, \<open>slugify\<close> is \<open>python-slugify\<close>.
\<close>

subsection \<open>Parsed payloads\<close>

record gamma_market =
  gm_id :: string
  gm_question :: string
  gm_slug :: string
  gm_condition_id :: string
  outcomes_raw :: "string list"
  outcome_prices_raw :: "string list"
  volume_str :: string
  gm_volume_24hr :: "string option"
  gm_closed :: bool
  uma_resolution_status :: "string option"
  end_date_raw :: "string option"
  gm_description :: string
  gm_item_title :: "string option"

record gamma_event =
  ge_id :: string
  ge_title :: string
  ge_volume_24hr :: "string option"
  ge_markets :: "gamma_market list"
  ge_tags :: "string list"

text \<open>\<open>_safe_decimal\<close>: what is not a finite decimal counts as zero.\<close>

definition gamma_decimal :: "string option \<Rightarrow> rat" where
  "gamma_decimal v = (case v of None \<Rightarrow> 0 | Some t \<Rightarrow> (case parse_decimal t of None \<Rightarrow> 0 | Some d \<Rightarrow> d))"

definition derive_gamma_status :: "bool \<Rightarrow> string option \<Rightarrow> string list \<Rightarrow> market_status" where
  "derive_gamma_status is_closed uma prices =
     (if \<not> is_closed \<and> uma = None then OPEN
      else if \<not> is_closed \<and> uma = Some ''proposed'' then OPEN
      else if \<not> is_closed \<and> uma = Some ''disputed'' then OPEN
      else if \<not> is_closed \<and> uma = Some ''resolved'' then RESOLVED
      else if is_closed \<and> uma = Some ''resolved''
        then (if list_ex (\<lambda>p. p \<in> {''0'', ''1'', ''0.0'', ''1.0''}) prices then RESOLVED else CLOSED)
      else if is_closed \<and> uma \<in> {Some ''proposed'', Some ''disputed'', None} then CLOSED
      else OPEN)"

definition internal_status :: "gamma_market \<Rightarrow> market_status" where
  "internal_status g = derive_gamma_status (gm_closed g) (uma_resolution_status g) (outcome_prices_raw g)"

text \<open>A category of the allow-list: its name and its Gamma tag.\<close>

type_synonym category_entry = "string \<times> string"

definition resolve_category :: "gamma_event \<Rightarrow> category_entry list \<Rightarrow> string option" where
  "resolve_category ev allow_list = map_option fst (List.find (\<lambda>(name, tag). tag \<in> set (ge_tags ev)) allow_list)"

subsection \<open>The winner of a resolved payload\<close>

definition map_winning_outcome :: "string list \<Rightarrow> string list \<Rightarrow> outcome list \<Rightarrow> uuid result" where
  "map_winning_outcome prices labels db_outcomes =
     (case List.find (\<lambda>(i, p). p \<in> {''1'', ''1.0''}) (List.enumerate 0 prices) of
        None \<Rightarrow> Inl (ValueError ''No clear winner in outcomePrices'')
      | Some (i, _) \<Rightarrow>
        if length labels \<le> i then Inl (ValueError ''No clear winner in outcomePrices'')
        else case map_of (rev (map (\<lambda>oc. (label oc, oc_id oc)) db_outcomes)) (take 50 (labels ! i)) of
          None \<Rightarrow> Inl (ValueError ''Winner label not found in DB outcomes'')
        | Some u \<Rightarrow> Inr u)"

subsection \<open>Prices\<close>

text \<open>The values \<open>Decimal(text)\<close> can have.\<close>

datatype price = Finite rat | QNaN | SNaN | Infinite

definition ascii_lower :: "char \<Rightarrow> char" where
  "ascii_lower c = (let n = of_char c :: nat in if 65 \<le> n \<and> n \<le> 90 then char_of (n + 32) else c)"

definition parse_price :: "string \<Rightarrow> price result" where
  "parse_price t = (case parse_decimal t of
     Some d \<Rightarrow> Inr (Finite d)
   | None \<Rightarrow>
     let u = map ascii_lower (snd (take_sign (filter (\<lambda>c. c \<noteq> CHR ''_'') (strip t)))) in
     if u = ''inf'' \<or> u = ''infinity'' then Inr Infinite
     else if take 3 u = ''nan'' \<and> list_all is_digit (drop 3 u) then Inr QNaN
     else if take 4 u = ''snan'' \<and> list_all is_digit (drop 4 u) then Inr SNaN
     else Inl InvalidOperation)"

text \<open>
  \<open>Decimal\<close> inequality with a column value, the published text (\<open>format_odds\<close>), and the cast and check
  of the odds column, in which \<open>NaN\<close> is greater than every number.
\<close>

definition odds_differ :: "rat \<Rightarrow> price \<Rightarrow> bool result" where
  "odds_differ cur p = (case p of Finite v \<Rightarrow> Inr (cur \<noteq> v) | SNaN \<Rightarrow> Inl InvalidOperation | _ \<Rightarrow> Inr True)"

definition published_odds :: "price \<Rightarrow> price result" where
  "published_odds p = (case p of
     Finite v \<Rightarrow> if 10 ^ 28 \<le> \<bar>format_odds v * 10 ^ 6\<bar> then Inl InvalidOperation else Inr (Finite (format_odds v))
   | QNaN \<Rightarrow> Inr QNaN | _ \<Rightarrow> Inl InvalidOperation)"

definition price_column :: "price \<Rightarrow> rat result" where
  "price_column p = (case p of Finite v \<Rightarrow> probability_column v
     | QNaN \<Rightarrow> Inl (IntegrityError CheckViolation) | _ \<Rightarrow> Inl DataError)"

subsection \<open>One market\<close>

text \<open>What one upsert draws: the clock, the market id, the slug suffix, the outcome ids.\<close>

type_synonym gamma_draw = "int \<times> uuid \<times> uuid \<times> (nat \<Rightarrow> uuid)"

type_synonym changed_markets = "(uuid \<times> (uuid \<times> price) list) list"

definition gamma_deadline :: "(string \<Rightarrow> int option) \<Rightarrow> int \<Rightarrow> string option \<Rightarrow> int" where
  "gamma_deadline iso_parse clock raw =
     (let fallback = clock + 30 * 86400 * 1000000 in
      case raw of None \<Rightarrow> fallback
      | Some t \<Rightarrow> if t = [] then fallback
          else given (iso_parse (concat (map (\<lambda>c. if c = CHR ''Z'' then ''+00:00'' else [c]) t))) fallback)"

definition gamma_slug :: "(string \<Rightarrow> string) \<Rightarrow> uuid \<Rightarrow> gamma_market \<Rightarrow> string" where
  "gamma_slug slugify u g = (if gm_slug g \<noteq> [] then take 100 (''pm-'' @ gm_slug g)
     else generate_slug slugify (gm_question g) u)"

definition gamma_row ::
  "(string \<Rightarrow> string) \<Rightarrow> (string \<Rightarrow> int option) \<Rightarrow> int \<Rightarrow> gamma_draw \<Rightarrow> uuid option \<Rightarrow> string option
    \<Rightarrow> gamma_market \<Rightarrow> market" where
  "gamma_row slugify iso_parse now draw gid cat g = (case draw of (clock, i, u, oids) \<Rightarrow>
     \<lparr>mk_id = i, question = gm_question g, mk_slug = gamma_slug slugify u g,
      resolution_criteria = (if gm_description g = [] then ''Resolution via Polymarket UMA oracle'' else gm_description g),
      mk_category = cat, mk_source = POLYMARKET, source_market_id = Some (gm_id g),
      condition_id = Some (gm_condition_id g), polymarket_slug = Some (gm_slug g),
      volume = gamma_decimal (Some (volume_str g)), volume_24hr = gamma_decimal (gm_volume_24hr g),
      mk_status = internal_status g, deadline = gamma_deadline iso_parse clock (end_date_raw g),
      bet_count = 0, mk_created_at = now, mk_closed_at = None, resolved_at = None, uma_resolved_at = None,
      winning_outcome_id = None, resolution_source = None, resolution_justification = None,
      min_stake = None, max_stake = None, group_id = gid, group_item_title = gm_item_title g\<rparr>)"

text \<open>The row a source id names, and the columns \<open>ON CONFLICT \<dots> DO UPDATE\<close> overwrites.\<close>

definition mirrored_row :: "string \<Rightarrow> market \<Rightarrow> bool" where
  "mirrored_row src m \<longleftrightarrow> mk_source m = POLYMARKET \<and> source_market_id m = Some src"

definition overwrite :: "market \<Rightarrow> rat \<Rightarrow> rat \<Rightarrow> market \<Rightarrow> market" where
  "overwrite new v v24 m = m\<lparr>question := question new, mk_status := mk_status new, volume := v, volume_24hr := v24,
     polymarket_slug := polymarket_slug new, mk_category := mk_category new, group_id := group_id new,
     group_item_title := group_item_title new\<rparr>"

definition upsert_market :: "string \<Rightarrow> market \<Rightarrow> 'a db_scheme \<Rightarrow> 'a db_scheme result" where
  "upsert_market src row s =
     bindE (numeric_18_4 (volume row)) (\<lambda>v. bindE (numeric_18_4 (volume_24hr row)) (\<lambda>v24.
     case filter (mirrored_row src) (markets s) of
       [] \<Rightarrow> bindE (insert_market row s) (\<lambda>(_, s). Inr s)
     | m # _ \<Rightarrow>
       if group_id row \<noteq> None \<and> group_id row \<notin> Some ` mg_id ` set (market_groups s)
         then Inl (IntegrityError ForeignKeyViolation)
       else Inr (update_market_row (mk_id m) (overwrite row v v24) s)))"

text \<open>
  The session defers the write of an outcome to its next query: the price of the second outcome
  is parsed before the first one is flushed.
\<close>

datatype pending_write = NoWrite | SetOdds uuid price | AddOutcome uuid uuid string price

fun flush :: "pending_write \<Rightarrow> 'a db_scheme \<Rightarrow> 'a db_scheme result" where
  "flush NoWrite s = Inr s"
| "flush (SetOdds u p) s = bindE (price_column p) (\<lambda>c. Inr (update_outcome_row u (\<lambda>oc. oc\<lparr>current_odds := c\<rparr>) s))"
| "flush (AddOutcome i mid lbl p) s = (case p of
     Finite v \<Rightarrow> bindE (insert_outcome (new_outcome i mid lbl v) s) (\<lambda>(_, s). Inr s)
   | _ \<Rightarrow> bindE (price_column p) (\<lambda>_. Inr s))"

definition price_at :: "string list \<Rightarrow> nat \<Rightarrow> price result" where
  "price_at prices i = (if i < length prices then parse_price (prices ! i) else Inr (Finite (1 / 2)))"

definition sync_outcome ::
  "(nat \<Rightarrow> uuid) \<Rightarrow> uuid \<Rightarrow> string list \<Rightarrow> nat \<times> string \<Rightarrow> pending_write \<times> (uuid \<times> price) list \<times> 'a db_scheme
    \<Rightarrow> (pending_write \<times> (uuid \<times> price) list \<times> 'a db_scheme) result" where
  "sync_outcome oids mid prices x st = (case x of (i, lbl) \<Rightarrow> case st of (w, deltas, s) \<Rightarrow>
     bindE (price_at prices i) (\<lambda>p.
     bindE (flush w s) (\<lambda>s.
     bindE (scalar_one_or_none (filter (\<lambda>oc. oc_market_id oc = mid \<and> label oc = take 50 lbl) (outcomes s))) (\<lambda>found.
     case found of
       Some oc \<Rightarrow> bindE (odds_differ (current_odds oc) p) (\<lambda>d.
         if d then bindE (published_odds p) (\<lambda>q. Inr (SetOdds (oc_id oc) p, deltas @ [(oc_id oc, q)], s))
         else Inr (NoWrite, deltas, s))
     | None \<Rightarrow> Inr (AddOutcome (oids i) mid (take 50 lbl) p, deltas, s)))))"

definition sync_outcomes ::
  "(nat \<Rightarrow> uuid) \<Rightarrow> uuid \<Rightarrow> gamma_market \<Rightarrow> 'a db_scheme \<Rightarrow> ((uuid \<times> price) list \<times> 'a db_scheme) result" where
  "sync_outcomes oids mid g s =
     (if outcomes_raw g = [] \<or> outcome_prices_raw g = [] then Inr ([], s)
      else bindE (foldE (sync_outcome oids mid (outcome_prices_raw g))
             (List.enumerate 0 (take 2 (outcomes_raw g))) (NoWrite, [], s)) (\<lambda>(w, deltas, s).
           bindE (flush w s) (\<lambda>s. Inr (deltas, s))))"

definition upsert_body ::
  "(string \<Rightarrow> string) \<Rightarrow> (string \<Rightarrow> int option) \<Rightarrow> int \<Rightarrow> gamma_draw \<Rightarrow> uuid option \<Rightarrow> string option
    \<Rightarrow> gamma_market \<Rightarrow> 'a db_scheme \<Rightarrow> ((uuid \<times> (uuid \<times> price) list) option \<times> 'a db_scheme) result" where
  "upsert_body slugify iso_parse now draw gid cat g s = (case draw of (clock, i, u, oids) \<Rightarrow>
     bindE (upsert_market (gm_id g) (gamma_row slugify iso_parse now draw gid cat g) s) (\<lambda>s.
     bindE (scalar_one_or_none (filter (mirrored_row (gm_id g)) (markets s))) (\<lambda>found.
     case found of
       None \<Rightarrow> Inr (None, s)
     | Some m \<Rightarrow> bindE (sync_outcomes oids (mk_id m) g s) (\<lambda>(deltas, s). Inr (Some (mk_id m, deltas), s)))))"

text \<open>The savepoint: an integrity error undoes this market alone, any other exception propagates.\<close>

definition upsert_one_market ::
  "(string \<Rightarrow> string) \<Rightarrow> (string \<Rightarrow> int option) \<Rightarrow> int \<Rightarrow> gamma_draw \<Rightarrow> uuid option \<Rightarrow> string option
    \<Rightarrow> gamma_market \<Rightarrow> 'a db_scheme \<Rightarrow> (bool \<times> changed_markets \<times> 'a db_scheme) result" where
  "upsert_one_market slugify iso_parse now draw gid cat g s =
     (case upsert_body slugify iso_parse now draw gid cat g s of
        Inl (IntegrityError e) \<Rightarrow> Inr (False, [], s)
      | Inl e \<Rightarrow> Inl e
      | Inr (None, _) \<Rightarrow> Inr (False, [], s)
      | Inr (Some (mid, deltas), s') \<Rightarrow> Inr (True, if deltas = [] then [] else [(mid, deltas)], s'))"

subsection \<open>Batches\<close>

text \<open>The number of synced markets, the changes to publish, and the state.\<close>

type_synonym 'a sync_state = "nat \<times> changed_markets \<times> 'a"

definition sync_child ::
  "(string \<Rightarrow> string) \<Rightarrow> (string \<Rightarrow> int option) \<Rightarrow> int \<Rightarrow> (nat \<Rightarrow> gamma_draw) \<Rightarrow> uuid option \<Rightarrow> string option
    \<Rightarrow> nat \<times> gamma_market \<Rightarrow> 'a db_scheme sync_state \<Rightarrow> 'a db_scheme sync_state result" where
  "sync_child slugify iso_parse now draws gid cat x st = (case x of (i, g) \<Rightarrow> case st of (n, changed, s) \<Rightarrow>
     bindE (upsert_one_market slugify iso_parse now (draws i) gid cat g s) (\<lambda>(synced, deltas, s).
     Inr (if synced then n + 1 else n, changed @ deltas, s)))"

definition sync_top25 ::
  "(json_object \<Rightarrow> gamma_market option) \<Rightarrow> (string \<Rightarrow> string) \<Rightarrow> (string \<Rightarrow> int option) \<Rightarrow> int \<Rightarrow> (nat \<Rightarrow> gamma_draw)
    \<Rightarrow> json_object list \<Rightarrow> 'a db_scheme \<Rightarrow> 'a db_scheme sync_state result" where
  "sync_top25 validate slugify iso_parse now draws raws s =
     foldE (sync_child slugify iso_parse now draws None None)
       (List.enumerate 0 (List.map_filter validate raws)) (0, [], s)"

text \<open>The group row of an event; the draws are the id and slug suffix of the two attempts.\<close>

type_synonym group_draw = "uuid \<times> uuid \<times> uuid \<times> uuid"

definition upsert_group :: "int \<Rightarrow> uuid \<Rightarrow> string \<Rightarrow> string \<Rightarrow> gamma_event \<Rightarrow> 'a db_scheme \<Rightarrow> 'a db_scheme result" where
  "upsert_group now i slug cat ev s =
     (if \<exists>g \<in> set (market_groups s). mg_source g = POLYMARKET \<and> source_event_id g = Some (ge_id ev)
      then Inr (s\<lparr>market_groups := update_where (\<lambda>g. mg_source g = POLYMARKET \<and> source_event_id g = Some (ge_id ev))
             (\<lambda>g. g\<lparr>mg_title := ge_title ev, mg_category := Some cat\<rparr>) (market_groups s)\<rparr>)
      else insert_group \<lparr>mg_id = i, mg_title = ge_title ev, mg_source = POLYMARKET, source_event_id = Some (ge_id ev),
             mg_category = Some cat, mg_slug = slug, mg_created_at = now\<rparr> s)"

definition upsert_market_group ::
  "(string \<Rightarrow> string) \<Rightarrow> int \<Rightarrow> group_draw \<Rightarrow> string \<Rightarrow> gamma_event \<Rightarrow> 'a db_scheme \<Rightarrow> (uuid \<times> 'a db_scheme) result" where
  "upsert_market_group slugify now draw cat ev s = (case draw of (i1, u1, i2, u2) \<Rightarrow>
     let base = ''pm-evt-'' @ slugify (ge_title ev);
         slug = (if base \<noteq> ''pm-evt-'' then take 100 base else generate_slug slugify (ge_title ev) u1) in
     bindE (case upsert_group now i1 slug cat ev s of
              Inl (IntegrityError e) \<Rightarrow>
                upsert_group now i2 (take 93 base @ ''-'' @ take 6 (uuid_hex u2)) cat ev s
            | r \<Rightarrow> r) (\<lambda>s.
     bindE (scalar_one (filter (\<lambda>g. mg_source g = POLYMARKET \<and> source_event_id g = Some (ge_id ev)) (market_groups s))) (\<lambda>g.
     Inr (mg_id g, s))))"

fun dedup_children :: "string list \<Rightarrow> gamma_market list \<Rightarrow> gamma_market list" where
  "dedup_children seen [] = []"
| "dedup_children seen (m # ms) =
     (if gm_id m = [] \<or> gm_id m \<in> set seen then dedup_children seen ms
      else m # dedup_children (gm_id m # seen) ms)"

definition sync_event ::
  "(string \<Rightarrow> string) \<Rightarrow> (string \<Rightarrow> int option) \<Rightarrow> int \<Rightarrow> (nat \<Rightarrow> group_draw \<times> (nat \<Rightarrow> gamma_draw)) \<Rightarrow> string
    \<Rightarrow> nat \<times> gamma_event \<Rightarrow> 'a db_scheme sync_state \<Rightarrow> 'a db_scheme sync_state result" where
  "sync_event slugify iso_parse now draws cat x st = (case x of (k, ev) \<Rightarrow> case st of (n, changed, s) \<Rightarrow>
     case draws k of (gd, cd) \<Rightarrow>
     (case dedup_children [] (ge_markets ev) of
        [] \<Rightarrow> Inr (n, changed, s)
      | [m] \<Rightarrow> sync_child slugify iso_parse now cd None (Some cat) (0, m) (n, changed, s)
      | children \<Rightarrow>
        bindE (upsert_market_group slugify now gd cat ev s) (\<lambda>(gid, s1).
        bindE (foldE (sync_child slugify iso_parse now cd (Some gid) (Some cat)) (List.enumerate 0 children) (n, changed, s1))
          (\<lambda>(n', changed', s2). if n' = n then Inr (n', changed', s) else Inr (n', changed', s2)))))"

definition sync_events ::
  "(string \<Rightarrow> string) \<Rightarrow> (string \<Rightarrow> int option) \<Rightarrow> int \<Rightarrow> (nat \<Rightarrow> group_draw \<times> (nat \<Rightarrow> gamma_draw)) \<Rightarrow> string
    \<Rightarrow> gamma_event list \<Rightarrow> 'a db_scheme \<Rightarrow> 'a db_scheme sync_state result" where
  "sync_events slugify iso_parse now draws cat evs s =
     foldE (sync_event slugify iso_parse now draws cat) (List.enumerate 0 evs) (0, [], s)"

subsection \<open>Reads of the adapter\<close>

definition pm_fetch_active :: "nat \<Rightarrow> 'a db_scheme \<Rightarrow> market list" where
  "pm_fetch_active n s = take n (sort_key (\<lambda>m. - volume_24hr m)
     (filter (\<lambda>m. mk_source m = POLYMARKET \<and> mk_status m = OPEN) (markets s)))"

text \<open>\<open>detect_resolution\<close>: \<open>fetch\<close> answers for a source id, \<open>None\<close> for a 404.\<close>

definition detect_resolution ::
  "(string \<Rightarrow> json_object option result) \<Rightarrow> (json_object \<Rightarrow> gamma_market option) \<Rightarrow> uuid \<Rightarrow> 'a db_scheme \<Rightarrow> uuid option result" where
  "detect_resolution fetch validate mid s = (case get_market_row mid s of
     None \<Rightarrow> Inr None
   | Some m \<Rightarrow> (case source_market_id m of
       None \<Rightarrow> Inr None
     | Some src \<Rightarrow> bindE (fetch src) (\<lambda>raw.
         case Option.bind raw validate of
           None \<Rightarrow> Inr None
         | Some g \<Rightarrow>
           if internal_status g \<noteq> RESOLVED then Inr None
           else case map_winning_outcome (outcome_prices_raw g) (outcomes_raw g) (market_outcomes mid s) of
             Inl e \<Rightarrow> Inr None
           | Inr u \<Rightarrow> Inr (Some u))))"

end
