(* ===== verification/GammaTasks.thy ===== *)
theory GammaTasks
  imports Gamma
begin

text \<open>
  The periodic tasks over the Polymarket mirror (\<open>integrations/polymarket/tasks.py\<close>) and the admin
  endpoints that settle a market (\<open>settlement/router.py\<close>).  The answers of Gamma, the validation of
  its payloads and the times of the steps are parameters; a failing fetch is an \<open>Inl\<close>.
\<close>

subsection \<open>The task locks in Redis\<close>

text \<open>A key holds a value until it expires.  \<open>SET key token NX EX ttl\<close>, and the compare-and-delete script.\<close>

type_synonym redis = "string \<rightharpoonup> string \<times> int"

definition redis_get :: "string \<Rightarrow> int \<Rightarrow> redis \<Rightarrow> string option" where
  "redis_get key now r = (case r key of None \<Rightarrow> None | Some (v, e) \<Rightarrow> if now < e then Some v else None)"

definition acquire_lock :: "string \<Rightarrow> int \<Rightarrow> string \<Rightarrow> int \<Rightarrow> redis \<Rightarrow> string option \<times> redis" where
  "acquire_lock key ttl token now r =
     (if redis_get key now r = None then (Some token, r(key \<mapsto> (token, now + ttl))) else (None, r))"

definition release_lock :: "string \<Rightarrow> string \<Rightarrow> int \<Rightarrow> redis \<Rightarrow> redis" where
  "release_lock key token now r = (if redis_get key now r = Some token then r(key := None) else r)"

definition LOCK_KEY :: string where "LOCK_KEY = ''xpredict:poll:polymarket:lock''"
definition DETECT_LOCK_KEY :: string where "DETECT_LOCK_KEY = ''xpredict:detect:polymarket:lock''"
definition EVENTS_LOCK_KEY :: string where "EVENTS_LOCK_KEY = ''xpredict:poll:events:lock''"

text \<open>
  The life of a locked task: it does nothing unless it gets the lock, and releases it when it ends.
  \<open>token\<close>, the time to live and the two times are the first arguments.
\<close>

definition with_lock ::
  "string \<Rightarrow> string \<times> int \<times> int \<times> int \<Rightarrow> 'b \<Rightarrow> ('s \<Rightarrow> 'b \<times> 's) \<Rightarrow> redis \<times> 's \<Rightarrow> 'b \<times> redis \<times> 's" where
  "with_lock key run skipped body rs = (case run of (token, ttl, t0, t1) \<Rightarrow> case rs of (r, s) \<Rightarrow>
     case acquire_lock key ttl token t0 r of
       (None, r) \<Rightarrow> (skipped, r, s)
     | (Some tok, r) \<Rightarrow> (case body s of (b, s') \<Rightarrow> (b, release_lock key tok t1 r, s')))"

subsection \<open>\<open>poll_polymarket_top25\<close>\<close>

text \<open>The changes published after the commit, and the state.\<close>

definition poll_sync ::
  "json_object list result \<Rightarrow> (json_object \<Rightarrow> gamma_market option) \<Rightarrow> (string \<Rightarrow> string) \<Rightarrow> (string \<Rightarrow> int option)
    \<Rightarrow> int \<Rightarrow> (nat \<Rightarrow> gamma_draw) \<Rightarrow> 'a db_scheme \<Rightarrow> changed_markets \<times> 'a db_scheme" where
  "poll_sync fetched validate slugify iso_parse now draws s =
     (case bindE fetched (\<lambda>raws. sync_top25 validate slugify iso_parse now draws raws (begin_tx s)) of
        Inl e \<Rightarrow> ([], s)
      | Inr (n, changed, s') \<Rightarrow> (changed, s'))"

definition run_poll_sync ::
  "string \<times> int \<times> int \<times> int \<Rightarrow> json_object list result \<Rightarrow> (json_object \<Rightarrow> gamma_market option) \<Rightarrow> (string \<Rightarrow> string)
    \<Rightarrow> (string \<Rightarrow> int option) \<Rightarrow> int \<Rightarrow> (nat \<Rightarrow> gamma_draw) \<Rightarrow> redis \<times> 'a db_scheme
    \<Rightarrow> changed_markets \<times> redis \<times> 'a db_scheme" where
  "run_poll_sync run fetched validate slugify iso_parse now draws =
     with_lock LOCK_KEY run [] (poll_sync fetched validate slugify iso_parse now draws)"

subsection \<open>\<open>poll_polymarket_events\<close>\<close>

text \<open>First by priority: an event an earlier category has seen is dropped.\<close>

fun dedup_events :: "string list \<Rightarrow> gamma_event list \<Rightarrow> gamma_event list \<times> string list" where
  "dedup_events seen [] = ([], seen)"
| "dedup_events seen (ev # evs) =
     (if ge_id ev \<in> set seen then dedup_events seen evs
      else case dedup_events (ge_id ev # seen) evs of (kept, seen') \<Rightarrow> (ev # kept, seen'))"

definition curate :: "rat \<Rightarrow> nat \<Rightarrow> gamma_event list \<Rightarrow> gamma_event list" where
  "curate floor_volume top_n evs = take top_n (filter (\<lambda>ev. floor_volume \<le> gamma_decimal (ge_volume_24hr ev)) evs)"

text \<open>What one category draws: its transaction time and the draws of its events.\<close>

type_synonym category_draw = "int \<times> (nat \<Rightarrow> group_draw \<times> (nat \<Rightarrow> gamma_draw))"

definition poll_category ::
  "(string \<Rightarrow> json_object list result) \<Rightarrow> (json_object \<Rightarrow> gamma_event option) \<Rightarrow> (string \<Rightarrow> string)
    \<Rightarrow> (string \<Rightarrow> int option) \<Rightarrow> rat \<Rightarrow> nat \<Rightarrow> (nat \<Rightarrow> category_draw) \<Rightarrow> nat \<times> category_entry
    \<Rightarrow> string list \<times> changed_markets \<times> 'a db_scheme \<Rightarrow> string list \<times> changed_markets \<times> 'a db_scheme" where
  "poll_category fetch validate slugify iso_parse floor_volume top_n draws x st =
     (case x of (k, name, tag) \<Rightarrow> case st of (seen, published, s) \<Rightarrow>
      case fetch tag of
        Inl e \<Rightarrow> (seen, published, s)
      | Inr raws \<Rightarrow>
        (case dedup_events seen (List.map_filter validate raws) of (deduped, seen') \<Rightarrow>
         let curated = curate floor_volume top_n deduped in
         if curated = [] then (seen', published, s)
         else case draws k of (now, ids) \<Rightarrow>
           (case sync_events slugify iso_parse now ids name curated (begin_tx s) of
              Inl e \<Rightarrow> (seen', published, s)
            | Inr (n, changed, s') \<Rightarrow> (seen', published @ changed, s'))))"

definition poll_events ::
  "category_entry list \<Rightarrow> (string \<Rightarrow> json_object list result) \<Rightarrow> (json_object \<Rightarrow> gamma_event option) \<Rightarrow> (string \<Rightarrow> string)
    \<Rightarrow> (string \<Rightarrow> int option) \<Rightarrow> rat \<Rightarrow> nat \<Rightarrow> (nat \<Rightarrow> category_draw) \<Rightarrow> 'a db_scheme \<Rightarrow> changed_markets \<times> 'a db_scheme" where
  "poll_events cats fetch validate slugify iso_parse floor_volume top_n draws s =
     snd (fold (poll_category fetch validate slugify iso_parse floor_volume top_n draws) (List.enumerate 0 cats) ([], [], s))"

definition run_poll_events ::
  "string \<times> int \<times> int \<times> int \<Rightarrow> category_entry list \<Rightarrow> (string \<Rightarrow> json_object list result)
    \<Rightarrow> (json_object \<Rightarrow> gamma_event option) \<Rightarrow> (string \<Rightarrow> string) \<Rightarrow> (string \<Rightarrow> int option) \<Rightarrow> rat \<Rightarrow> nat
    \<Rightarrow> (nat \<Rightarrow> category_draw) \<Rightarrow> redis \<times> 'a db_scheme \<Rightarrow> changed_markets \<times> redis \<times> 'a db_scheme" where
  "run_poll_events run cats fetch validate slugify iso_parse floor_volume top_n draws =
     with_lock EVENTS_LOCK_KEY run [] (poll_events cats fetch validate slugify iso_parse floor_volume top_n draws)"

subsection \<open>\<open>snapshot_odds\<close>\<close>

definition open_outcomes :: "'a db_scheme \<Rightarrow> outcome list" where
  "open_outcomes s = concat (map (\<lambda>m. market_outcomes (mk_id m) s) (filter (\<lambda>m. mk_status m = OPEN) (markets s)))"

definition run_snapshot_odds :: "(nat \<Rightarrow> uuid) \<Rightarrow> int \<Rightarrow> 'a db_scheme \<Rightarrow> 'a db_scheme" where
  "run_snapshot_odds gen now s =
     (if open_outcomes s = [] then s
      else case foldE (\<lambda>(k, oc). insert_snapshot (new_snapshot (gen k) (oc_market_id oc) (oc_id oc) (current_odds oc) now))
             (List.enumerate 0 (open_outcomes s)) (begin_tx s) of
        Inl e \<Rightarrow> s | Inr s' \<Rightarrow> s')"

subsection \<open>\<open>detect_polymarket_resolutions\<close>\<close>

text \<open>The candidates, as the first query of the task reads them, each with its outcomes.\<close>

definition detect_candidate :: "int \<Rightarrow> market \<Rightarrow> bool" where
  "detect_candidate now m \<longleftrightarrow> mk_source m = POLYMARKET \<and> mk_status m \<in> {OPEN, CLOSED} \<and> deadline m < now"

definition detect_candidates :: "int \<Rightarrow> 'a db_scheme \<Rightarrow> (market \<times> outcome list) list" where
  "detect_candidates now s = map (\<lambda>m. (m, market_outcomes (mk_id m) s)) (filter (detect_candidate now) (markets s))"

definition start_grace :: "uuid \<Rightarrow> int \<Rightarrow> 'a db_scheme \<Rightarrow> 'a db_scheme" where
  "start_grace mid now s = update_market_row mid
     (\<lambda>m. if uma_resolved_at m = None then m\<lparr>uma_resolved_at := Some now\<rparr> else m) s"

text \<open>The winner a candidate is settled on, if Gamma and the grace period allow it.\<close>

definition settle_winner :: "int \<Rightarrow> int \<Rightarrow> gamma_market \<Rightarrow> market \<times> outcome list \<Rightarrow> uuid option" where
  "settle_winner grace now g x = (case x of (m, ocs) \<Rightarrow>
     if internal_status g \<noteq> RESOLVED then None
     else case uma_resolved_at m of
       None \<Rightarrow> None
     | Some ts \<Rightarrow> if now - ts < grace then None
         else case map_winning_outcome (outcome_prices_raw g) (outcomes_raw g) ocs of
           Inl e \<Rightarrow> None | Inr w \<Rightarrow> Some w)"

definition detect_one ::
  "(string \<Rightarrow> json_object option result) \<Rightarrow> (json_object \<Rightarrow> gamma_market option) \<Rightarrow> int \<Rightarrow> int \<Rightarrow> (uuid \<Rightarrow> child_ids)
    \<Rightarrow> market \<times> outcome list \<Rightarrow> 'a db_scheme \<Rightarrow> 'a db_scheme result" where
  "detect_one fetch validate grace now ids x s = (case source_market_id (fst x) of
     None \<Rightarrow> Inr s
   | Some src \<Rightarrow> bindE (fetch src) (\<lambda>raw.
       case Option.bind raw validate of
         None \<Rightarrow> Inr s
       | Some g \<Rightarrow>
         if internal_status g = RESOLVED \<and> uma_resolved_at (fst x) = None then Inr (start_grace (mk_id (fst x)) now s)
         else case settle_winner grace now g x of
           None \<Rightarrow> Inr s
         | Some w \<Rightarrow> (case ids (mk_id (fst x)) of (gen, audit_id, tx_now, t) \<Rightarrow>
             case resolve_market (house_resolver t) gen audit_id tx_now (mk_id (fst x)) w
                    ''Auto-resolved: Polymarket UMA oracle confirmed resolution'' None s of
               Inl e \<Rightarrow> Inr s
             | Inr (plan, s') \<Rightarrow> Inr s')))"

text \<open>An exception of a fetch ends the loop; what the candidates before it committed stays.\<close>

fun detect_loop ::
  "(string \<Rightarrow> json_object option result) \<Rightarrow> (json_object \<Rightarrow> gamma_market option) \<Rightarrow> int \<Rightarrow> int \<Rightarrow> (uuid \<Rightarrow> child_ids)
    \<Rightarrow> (market \<times> outcome list) list \<Rightarrow> 'a db_scheme \<Rightarrow> 'a db_scheme" where
  "detect_loop fetch validate grace now ids [] s = s"
| "detect_loop fetch validate grace now ids (x # xs) s =
     (case detect_one fetch validate grace now ids x s of
        Inl e \<Rightarrow> s | Inr s' \<Rightarrow> detect_loop fetch validate grace now ids xs s')"

definition detect_resolutions ::
  "(string \<Rightarrow> json_object option result) \<Rightarrow> (json_object \<Rightarrow> gamma_market option) \<Rightarrow> int \<Rightarrow> int \<Rightarrow> (uuid \<Rightarrow> child_ids)
    \<Rightarrow> 'a db_scheme \<Rightarrow> 'a db_scheme" where
  "detect_resolutions fetch validate grace now ids s =
     detect_loop fetch validate grace now ids (detect_candidates now s) s"

definition run_detect_resolutions ::
  "string \<times> int \<times> int \<times> int \<Rightarrow> (string \<Rightarrow> json_object option result) \<Rightarrow> (json_object \<Rightarrow> gamma_market option)
    \<Rightarrow> int \<Rightarrow> int \<Rightarrow> (uuid \<Rightarrow> child_ids) \<Rightarrow> redis \<times> 'a db_scheme \<Rightarrow> unit \<times> redis \<times> 'a db_scheme" where
  "run_detect_resolutions run fetch validate grace now ids =
     with_lock DETECT_LOCK_KEY run () (\<lambda>s. ((), detect_resolutions fetch validate grace now ids s))"

subsection \<open>The admin endpoints (\<open>settlement/router.py\<close>)\<close>

definition no_result_404 :: "'a result \<Rightarrow> 'a result" where
  "no_result_404 r = (case r of Inl NoResultFound \<Rightarrow> Inl (HTTPException 404) | r \<Rightarrow> r)"

definition post_resolve_market ::
  "'a db_scheme resolve_port \<Rightarrow> (nat \<Rightarrow> post_ids) \<Rightarrow> uuid \<Rightarrow> int \<Rightarrow> uuid \<Rightarrow> uuid \<Rightarrow> string \<Rightarrow> uuid
    \<Rightarrow> 'a db_scheme \<Rightarrow> (settlement_plan \<times> 'a db_scheme) result" where
  "post_resolve_market resolver gen audit_id now mid w j admin s =
     (if j = [] then Inl (HTTPException 422)
      else no_result_404 (resolve_market resolver gen audit_id now mid w j (Some admin) s))"

definition post_reverse_settlement ::
  "'a db_scheme resolve_port \<Rightarrow> (nat \<Rightarrow> post_ids) \<Rightarrow> uuid \<Rightarrow> int \<Rightarrow> uuid \<Rightarrow> string \<Rightarrow> uuid
    \<Rightarrow> 'a db_scheme \<Rightarrow> (nat \<times> 'a db_scheme) result" where
  "post_reverse_settlement resolver gen audit_id now mid j admin s =
     (if j = [] then Inl (HTTPException 422)
      else no_result_404 (reverse_settlement resolver gen audit_id now mid j (Some admin) s))"

text \<open>The override row is written in a transaction of its own, after the settlement has committed.\<close>

definition post_force_settle ::
  "(string \<Rightarrow> json_object option result) \<Rightarrow> 'a db_scheme resolve_port \<Rightarrow> (nat \<Rightarrow> post_ids) \<Rightarrow> uuid \<Rightarrow> uuid \<Rightarrow> int \<Rightarrow> int
    \<Rightarrow> uuid \<Rightarrow> uuid \<Rightarrow> string \<Rightarrow> uuid \<Rightarrow> 'a db_scheme \<Rightarrow> (settlement_plan \<times> json) result \<times> 'a db_scheme" where
  "post_force_settle fetch resolver gen audit_id override_id now now' mid w j admin s =
     (if j = [] then (Inl (HTTPException 422), s)
      else case get_market_row mid s of
        None \<Rightarrow> (Inl (HTTPException 404), s)
      | Some m \<Rightarrow>
        if mk_source m \<noteq> POLYMARKET then (Inl (HTTPException 404), s)
        else case fetch (given (source_market_id m) []) of
          Inl e \<Rightarrow> (Inl e, s)
        | Inr raw \<Rightarrow>
          let uma = given (Option.bind raw (\<lambda>r. map_of r ''umaResolutionStatus'')) JNull in
          (case no_result_404 (resolve_market resolver gen audit_id now mid w j (Some admin) s) of
             Inl e \<Rightarrow> (Inl e, s)
           | Inr (plan, s1) \<Rightarrow>
             (case audit_record override_id now' (actor_string (Some admin)) ''polymarket_admin_override''
                [(''market_id'', JUuid mid), (''winning_outcome_id'', JUuid w), (''justification'', JStr j),
                 (''uma_status_at_override_time'', uma), (''admin_id'', JUuid admin)] None (begin_tx s1) of
                Inl e \<Rightarrow> (Inl e, s1)
              | Inr s2 \<Rightarrow> (Inr (plan, uma), s2))))"

end
