(* ===== verification/EventRules.thy ===== *)
theory EventRules
  imports Events
begin

text \<open>
  The properties of events: what settling the children of a group does to bets, wallets and market
  rows, child by child, and what the endpoints refuse.
\<close>

subsection \<open>What one child's transaction does to the catalogue\<close>

definition same_catalog :: "'a db_scheme \<Rightarrow> 'a db_scheme \<Rightarrow> bool" where
  "same_catalog s s' \<longleftrightarrow> markets s' = markets s \<and> outcomes s' = outcomes s
     \<and> market_groups s' = market_groups s \<and> odds_snapshots s' = odds_snapshots s"

lemma same_catalog_more: "ledger.more s' = ledger.more s \<Longrightarrow> same_catalog s s'"
  by (simp add: same_catalog_def more_fields [of s' s])

lemma same_catalog_trans [trans]: "same_catalog s t \<Longrightarrow> same_catalog t u \<Longrightarrow> same_catalog s u"
  by (simp add: same_catalog_def)

lemma same_catalog_refl [simp]: "same_catalog s s"
  by (simp add: same_catalog_def)

lemma post_specs_more:
  assumes "post_specs key gen now actor mid specs u = Inr s'"
  shows "ledger.more s' = ledger.more u"
  using assms unfolding post_specs_def
  by (rule foldE_invariant) (auto dest: post_spec_posted)

lemma same_catalog_bet_updates: "same_catalog s (fold (\<lambda>b. update_bet_row (k b) (g b)) bs s)"
proof (induction bs arbitrary: s)
  case (Cons b bs)
  have "same_catalog s (update_bet_row (k b) (g b) s)" by (simp add: same_catalog_def update_bet_row_def)
  from same_catalog_trans [OF this Cons] show ?case by simp
qed simp

lemma settle_bets_catalog:
  assumes "settle_bets gen now actor mid bs plan s = Inr s'"
  shows "same_catalog s s'"
proof -
  obtain specs where "post_specs settle_idempotency_key gen now actor (Some mid) specs
      (lock_touched specs (set_statuses (plan_settled plan) s)) = Inr s'"
    using assms by (auto simp: settle_bets_def Let_def)
  from post_specs_more [OF this] have "ledger.more s' = ledger.more (set_statuses (plan_settled plan) s)" by simp
  from same_catalog_trans [OF _ same_catalog_more [OF this]] show ?thesis
    by (simp add: set_statuses_def same_catalog_bet_updates)
qed

text \<open>The columns of a market row that settlement writes, with its keys.\<close>

type_synonym mkey = "uuid \<times> uuid option \<times> market_status \<times> uuid option"

definition mkey :: "market \<Rightarrow> mkey" where
  "mkey m = (mk_id m, group_id m, mk_status m, winning_outcome_id m)"

definition mark_key :: "(uuid \<rightharpoonup> uuid) \<Rightarrow> mkey \<Rightarrow> mkey" where
  "mark_key f k = (case k of (i, g, st, wo) \<Rightarrow> (case f i of None \<Rightarrow> k
     | Some w \<Rightarrow> if st = RESOLVED then k else (i, g, RESOLVED, Some w)))"

lemma mark_key_empty [simp]: "mark_key Map.empty k = k"
  by (simp add: mark_key_def split: prod.splits)

lemma mark_key_upd: "mid \<notin> dom f \<Longrightarrow> mark_key f (mark_key [mid \<mapsto> w] k) = mark_key (f(mid \<mapsto> w)) k"
  by (auto simp: mark_key_def split: prod.splits option.splits)

lemma house_mark_keys:
  assumes "house_mark_resolved t mid w src j s = Inr s'" "distinct (map mk_id (markets s))"
  shows "outcomes s' = outcomes s \<and> market_groups s' = market_groups s \<and> odds_snapshots s' = odds_snapshots s
     \<and> map mkey (markets s') = map (\<lambda>m. mark_key [mid \<mapsto> w] (mkey m)) (markets s)
     \<and> (\<exists>m \<in> set (markets s). mk_id m = mid)"
proof -
  obtain m where m: "get_market_row mid s = Some m"
    using assms(1) by (auto simp: house_mark_resolved_def split: option.splits)
  have mem: "m \<in> set (markets s)" "mk_id m = mid"
    using m by (auto simp: get_market_row_def find_Some_iff)
  have only: "x = m" if "x \<in> set (markets s)" "mk_id x = mid" for x
    using assms(2) that mem by (auto dest: distinct_key_eq)
  show ?thesis
  proof (cases "mk_status m = RESOLVED")
    case True
    then have "s' = s" using assms(1) m by (simp add: house_mark_resolved_def)
    moreover have "mark_key [mid \<mapsto> w] (mkey x) = mkey x" if "x \<in> set (markets s)" for x
      using only [OF that] True by (auto simp: mark_key_def mkey_def)
    ultimately show ?thesis using mem by auto
  next
    case False
    let ?f = "\<lambda>m. m\<lparr>mk_status := RESOLVED, resolved_at := Some t, winning_outcome_id := Some w,
      resolution_source := Some src, resolution_justification := Some j\<rparr>"
    have s': "s' = update_market_row mid ?f s"
      using assms(1) m False by (auto simp: house_mark_resolved_def split: if_splits)
    have "mkey (if mk_id x = mid then ?f x else x) = mark_key [mid \<mapsto> w] (mkey x)" if "x \<in> set (markets s)" for x
      using only [OF that] False by (auto simp: mark_key_def mkey_def)
    then show ?thesis using mem by (auto simp: s' update_market_row_def update_where_def)
  qed
qed

lemma resolve_catalog:
  assumes "resolve_market (house_resolver t) gen aid now mid w j actor s = Inr (plan, s')"
    and "distinct (map mk_id (markets s))"
  shows "outcomes s' = outcomes s" "market_groups s' = market_groups s" "odds_snapshots s' = odds_snapshots s"
    "map mkey (markets s') = map (\<lambda>m. mark_key [mid \<mapsto> w] (mkey m)) (markets s)"
    "\<exists>m \<in> set (markets s). mk_id m = mid"
proof -
  let ?bs = "pending_bets mid s"
  obtain s1 s2 body where s1: "(if ?bs = [] then Inr (lock_bets ?bs (begin_tx s))
        else settle_bets gen now actor mid ?bs plan (lock_bets ?bs (begin_tx s))) = Inr s1"
    and s2: "house_mark_resolved t mid w (if actor = None then ''POLYMARKET_UMA'' else ''HOUSE'') j s1 = Inr s2"
    and a: "audit_record aid now (actor_string actor) ''settlement.resolved'' body None s2 = Inr s'"
    using assms(1) unfolding resolve_market_def Let_def bindE_eq_Inr house_resolver_def by auto
  have "same_catalog s (lock_bets ?bs (begin_tx s))" by (rule same_catalog_more) simp
  moreover have "same_catalog (lock_bets ?bs (begin_tx s)) s1"
    using s1 settle_bets_catalog by (cases "?bs = []") auto
  ultimately have c1: "same_catalog s s1" by (rule same_catalog_trans)
  have "same_catalog s2 s'" using a by (simp add: audit_record_Inr same_catalog_def)
  with c1 house_mark_keys [OF s2] assms(2)
  show "outcomes s' = outcomes s" "market_groups s' = market_groups s" "odds_snapshots s' = odds_snapshots s"
    "map mkey (markets s') = map (\<lambda>m. mark_key [mid \<mapsto> w] (mkey m)) (markets s)"
    "\<exists>m \<in> set (markets s). mk_id m = mid"
    by (simp_all add: same_catalog_def)
qed

subsection \<open>The loop over the children\<close>

text \<open>The pending bets of the markets in \<open>f\<close> settled on the given outcomes.\<close>

definition settle_by :: "(uuid \<rightharpoonup> uuid) \<Rightarrow> bet \<Rightarrow> bet" where
  "settle_by f b = (if bet_status b = BET_PENDING
     then case f (bet_market_id b) of None \<Rightarrow> b | Some w \<Rightarrow> settled_row w b else b)"

lemma settle_by_empty [simp]: "settle_by Map.empty b = b"
  by (simp add: settle_by_def)

lemma settle_by_single: "update_where (is_pending mid) (settled_row w) bs = map (settle_by [mid \<mapsto> w]) bs"
  by (auto simp: update_where_def is_pending_def settle_by_def)

lemma settle_by_upd: "mid \<notin> dom f \<Longrightarrow> settle_by f (settle_by [mid \<mapsto> w] b) = settle_by (f(mid \<mapsto> w)) b"
  by (auto simp: settle_by_def settled_row_def split: option.splits)

text \<open>What the wallet of \<open>u\<close> receives from a market settled on \<open>w\<close>.\<close>

definition won_by :: "uuid \<Rightarrow> 'a db_scheme \<Rightarrow> uuid \<times> uuid \<Rightarrow> rat" where
  "won_by u s c = (\<Sum>b\<leftarrow>pending_bets (fst c) s. if bet_user_id b = u \<and> bet_won (snd c) b then bet_payout b else 0)"

lemma resolve_wallet:
  fixes s :: "'a db_scheme"
  assumes "resolve_market (house_resolver t) gen aid now mid w j actor s = Inr (plan, s')" "platform_ok s"
    and "resolve_user_wallet_id u s = Inr x"
  shows "bal s' x = bal s x + won_by u s (mid, w)"
proof -
  note e = house.resolve_effect [OF assms(1,2)]
  obtain l where l: "pending_bets mid s \<noteq> [] \<longrightarrow> resolve_market_liability_id mid s = Inr l"
    and wl: "\<forall>b \<in> set (pending_bets mid s). bet_won w b \<longrightarrow> resolve_user_wallet_id (bet_user_id b) s = Inr (wal s (bet_user_id b))"
    and bl: "\<forall>a. bal s' a = bal s a + (\<Sum>b\<leftarrow>pending_bets mid s. settle_net w l (wal s) a b)"
    using e(7) by blast
  show ?thesis
  proof (cases "pending_bets mid s = []")
    case True then show ?thesis using bl by (simp add: won_by_def)
  next
    case False
    then show ?thesis using bl l resolve_balances(1) [OF assms(2) _ wl assms(3)] by (simp add: won_by_def)
  qed
qed

definition live :: "uuid list \<Rightarrow> (uuid \<times> uuid) list \<Rightarrow> (uuid \<times> uuid) list" where
  "live failed cs = filter (\<lambda>c. fst c \<notin> set failed) cs"

lemma live_Cons_failed: "mid \<notin> fst ` set cs \<Longrightarrow> live (mid # failed) ((mid, w) # cs) = live failed cs"
  by (auto simp: live_def intro!: filter_cong)

lemma live_Cons_ok: "mid \<notin> set failed \<Longrightarrow> live failed ((mid, w) # cs) = (mid, w) # live failed cs"
  by (simp add: live_def)

lemma dom_live: "dom (map_of (live failed cs)) \<subseteq> fst ` set cs"
  by (auto simp: live_def dom_map_of_conv_image_fst)

lemma settle_children_effect:
  fixes s s' :: "'a db_scheme"
  assumes "settle_children ids cs j actor s = (failed, s')" "platform_ok s"
    and "distinct (map fst cs)" "distinct (map mk_id (markets s))"
  shows "platform_ok s' \<and> ledger_steps s s' \<and> map acct_key (accounts s') = map acct_key (accounts s)
     \<and> set failed \<subseteq> fst ` set cs \<and> distinct failed
     \<and> bets s' = map (settle_by (map_of (live failed cs))) (bets s)
     \<and> (\<forall>u x. resolve_user_wallet_id u s = Inr x \<longrightarrow> bal s' x = bal s x + (\<Sum>c\<leftarrow>live failed cs. won_by u s c))
     \<and> outcomes s' = outcomes s \<and> market_groups s' = market_groups s
     \<and> map mkey (markets s') = map (\<lambda>m. mark_key (map_of (live failed cs)) (mkey m)) (markets s)"
  using assms
proof (induction cs arbitrary: s failed)
  case Nil
  then show ?case by (auto simp: live_def)
next
  case (Cons c cs)
  obtain mid w where c: "c = (mid, w)" by (cases c) simp
  obtain gen aid now t where i: "ids mid = (gen, aid, now, t)" by (cases "ids mid") auto
  have nin: "mid \<notin> fst ` set cs" and dist: "distinct (map fst cs)" using Cons.prems(3) by (simp_all add: c)
  show ?case
  proof (cases "resolve_market (house_resolver t) gen aid now mid w j actor s")
    case (Inl e)
    then obtain failed1 where f: "failed = mid # failed1" "settle_children ids cs j actor s = (failed1, s')"
      using Cons.prems(1) by (auto simp: c i split: prod.splits)
    note IH = Cons.IH [OF f(2) Cons.prems(2) dist Cons.prems(4)]
    have "mid \<notin> set failed1" using IH nin by blast
    with IH show ?thesis unfolding c f(1) live_Cons_failed [OF nin] by auto
  next
    case (Inr r)
    obtain plan s1 where r: "r = (plan, s1)" by (cases r) simp
    note res = Inr [unfolded r] and e = house.resolve_effect [OF Inr [unfolded r] Cons.prems(2)]
    note k = resolve_catalog [OF res Cons.prems(4)]
    have rest: "settle_children ids cs j actor s1 = (failed, s')" using Cons.prems(1) by (simp add: c i Inr r)
    have "map fst (map mkey (markets s1)) = map mk_id (markets s)"
      unfolding k(4) by (simp add: comp_def mkey_def mark_key_def)
    then have d1: "distinct (map mk_id (markets s1))" using Cons.prems(4) by (simp add: comp_def mkey_def)
    have IH: "platform_ok s' \<and> ledger_steps s1 s' \<and> map acct_key (accounts s') = map acct_key (accounts s1)
     \<and> set failed \<subseteq> fst ` set cs \<and> distinct failed
     \<and> bets s' = map (settle_by (map_of (live failed cs))) (bets s1)
     \<and> (\<forall>u x. resolve_user_wallet_id u s1 = Inr x \<longrightarrow> bal s' x = bal s1 x + (\<Sum>c\<leftarrow>live failed cs. won_by u s1 c))
     \<and> outcomes s' = outcomes s1 \<and> market_groups s' = market_groups s1
     \<and> map mkey (markets s') = map (\<lambda>m. mark_key (map_of (live failed cs)) (mkey m)) (markets s1)"
      by (rule Cons.IH [OF rest e(1) dist d1])
    have nf: "mid \<notin> set failed" using IH nin by blast
    have nd: "mid \<notin> dom (map_of (live failed cs))" using nin dom_live by blast
    have "won_by u s1 c = won_by u s c" if "c \<in> set (live failed cs)" for u c
    proof -
      have "fst c \<noteq> mid" using that nin by (auto simp: live_def)
      then show ?thesis by (simp add: won_by_def pending_after_settling [OF e(4)])
    qed
    then have won: "(\<Sum>c\<leftarrow>live failed cs. won_by u s1 c) = (\<Sum>c\<leftarrow>live failed cs. won_by u s c)" for u
      by (rule sum_cong_list)
    have "bets s' = map (settle_by (map_of (live failed ((mid, w) # cs)))) (bets s)"
      using IH by (simp add: e(4) settle_by_single settle_by_upd [OF nd] live_Cons_ok [OF nf])
    moreover have "map mkey (markets s') = map (mark_key (map_of (live failed cs))) (map mkey (markets s1))"
      using IH by simp
    then have "map mkey (markets s') = map (\<lambda>m. mark_key (map_of (live failed ((mid, w) # cs))) (mkey m)) (markets s)"
      unfolding k(4) by (simp add: mark_key_upd [OF nd] live_Cons_ok [OF nf])
    moreover have "bal s' x = bal s x + (\<Sum>c\<leftarrow>live failed ((mid, w) # cs). won_by u s c)"
      if "resolve_user_wallet_id u s = Inr x" for u x
      using IH that resolve_user_wallet_key [OF e(6)] resolve_wallet [OF res Cons.prems(2) that] won
      by (simp add: live_Cons_ok [OF nf])
    moreover have "ledger_steps s s'" using e(5) IH ledger_steps_trans by blast
    ultimately show ?thesis using IH e(6) k(1,2) unfolding c by auto
  qed
qed

subsection \<open>The read pass\<close>

lemma mapE_pairs:
  assumes "mapE (\<lambda>m. bindE (f (k m)) (\<lambda>y. Inr (k m, y))) xs = Inr ys"
  shows "map fst ys = map k xs \<and> (\<forall>c \<in> set ys. f (fst c) = Inr (snd c))"
  using assms by (induction xs arbitrary: ys) fastforce+

lemma find_mem: "List.find P xs = Some y \<Longrightarrow> y \<in> set xs \<and> P y"
  by (auto simp: find_Some_iff)

lemma load_event_Inr:
  "load_event gid s = Inr children \<longleftrightarrow> (\<exists>g. get_group gid s = Some g \<and> mg_source g \<noteq> POLYMARKET)
     \<and> children = group_children gid s"
  by (auto simp: load_event_def reject_if_mirrored_def split: option.splits)

lemma children_ids_distinct: "distinct (map mk_id (markets s)) \<Longrightarrow> distinct (map mk_id (filter P (markets s)))"
  by (rule distinct_map_filter)

lemma resolve_plan_facts:
  assumes "resolve_plan gid w s = Inr ordered" "distinct (map mk_id (markets s))"
  shows "\<exists>wm losers. ordered = (wm, w) # losers \<and> yes_outcome_id wm s = Inr w
     \<and> (\<forall>c \<in> set losers. no_outcome_id (fst c) s = Inr (snd c))
     \<and> distinct (map fst ordered) \<and> fst ` set ordered = mk_id ` set (group_children gid s)"
proof -
  let ?cs = "group_children gid s"
  obtain wm losers where wm: "map oc_market_id (filter (\<lambda>oc. oc_id oc = w \<and> oc_market_id oc \<in> mk_id ` set ?cs) (outcomes s)) = [wm]"
    and yes: "yes_outcome_id wm s = Inr w" and o: "ordered = (wm, w) # losers"
    and ls: "mapE (\<lambda>m. bindE (no_outcome_id (mk_id m) s) (\<lambda>no. Inr (mk_id m, no)))
       (sort_key (\<lambda>m. uuid_str (mk_id m)) (filter (\<lambda>m. mk_id m \<noteq> wm) ?cs)) = Inr losers"
    using assms(1) by (auto simp: resolve_plan_def load_event_Inr split: list.splits)
  have "wm \<in> set (map oc_market_id (filter (\<lambda>oc. oc_id oc = w \<and> oc_market_id oc \<in> mk_id ` set ?cs) (outcomes s)))"
    by (simp add: wm)
  then have mem: "wm \<in> mk_id ` set ?cs" by auto
  note p = mapE_pairs [OF ls]
  have "set (map fst losers) = mk_id ` {m \<in> set ?cs. mk_id m \<noteq> wm}" using p by simp
  moreover have "distinct (map mk_id ?cs)"
    unfolding group_children_def by (rule children_ids_distinct [OF assms(2)])
  then have "distinct (map fst losers)"
    using p by (auto simp: distinct_map inj_on_def)
  ultimately have "distinct (map fst ordered)" "fst ` set ordered = mk_id ` set ?cs"
    using mem by (auto simp: o)
  with yes p o show ?thesis by blast
qed

lemma void_plan_facts:
  assumes "void_plan gid s = Inr ordered" "distinct (map mk_id (markets s))"
  shows "(\<forall>c \<in> set ordered. no_outcome_id (fst c) s = Inr (snd c))
     \<and> distinct (map fst ordered) \<and> fst ` set ordered = mk_id ` set (group_children gid s)"
proof -
  have ls: "mapE (\<lambda>m. bindE (no_outcome_id (mk_id m) s) (\<lambda>no. Inr (mk_id m, no)))
       (sort_key (\<lambda>m. uuid_str (mk_id m)) (group_children gid s)) = Inr ordered"
    using assms(1) by (auto simp: void_plan_def load_event_Inr)
  note p = mapE_pairs [OF ls]
  have "distinct (map mk_id (group_children gid s))"
    unfolding group_children_def by (rule children_ids_distinct [OF assms(2)])
  then have "distinct (map fst ordered)" using p by (simp add: distinct_map)
  moreover have "fst ` set ordered = mk_id ` set (group_children gid s)"
    unfolding set_map [symmetric] p [THEN conjunct1] by simp
  ultimately show ?thesis using p by blast
qed

subsection \<open>The derived status\<close>

definition key_status :: "'a db_scheme \<Rightarrow> mkey \<Rightarrow> child_status" where
  "key_status s k = (case k of (i, g, st, wo) \<Rightarrow>
     \<lparr>cs_status = st, is_yes_winner = (wo \<noteq> None \<and> wo = map_option oc_id (first_yes i s))\<rparr>)"

lemma child_statuses:
  "map (child_status_of s) (group_children gid s)
     = map (key_status s) (filter (\<lambda>k. fst (snd k) = Some gid) (map mkey (markets s)))"
  by (simp add: group_children_def filter_map comp_def child_status_of_def key_status_def mkey_def)

lemma statuses_after:
  assumes "map mkey (markets s') = map (\<lambda>m. mark_key f (mkey m)) (markets s)" "outcomes s' = outcomes s"
  shows "map (child_status_of s') (group_children gid s')
     = map (\<lambda>m. key_status s (mark_key f (mkey m))) (group_children gid s)"
proof -
  have "fst (snd (mark_key f k)) = fst (snd k)" for k
    by (cases k) (simp add: mark_key_def split: option.splits)
  then have "filter (\<lambda>k. fst (snd k) = Some gid) (map (\<lambda>m. mark_key f (mkey m)) (markets s))
      = map (\<lambda>m. mark_key f (mkey m)) (group_children gid s)"
    by (simp add: filter_map comp_def group_children_def) (simp add: mkey_def)
  moreover have "key_status s' = key_status s"
    by (simp add: key_status_def [abs_def] first_yes_def market_outcomes_def assms(2))
  ultimately show ?thesis by (simp add: child_statuses assms(1) comp_def)
qed

lemma yes_outcome_first:
  assumes "yes_outcome_id i s = Inr w"
  shows "map_option oc_id (first_yes i s) = Some w"
proof -
  obtain oc where "filter (\<lambda>oc. is_yes (label oc)) (market_outcomes i s) = [oc]" "oc_id oc = w"
    using assms by (auto simp: yes_outcome_id_def scalar_one_Inr map_eq_Cons_conv)
  moreover have "List.find P xs = Some y" if "filter P xs = [y]" for P and xs :: "outcome list" and y
    using that by (induction xs) (auto split: if_splits)
  ultimately show ?thesis by (simp add: first_yes_def)
qed

lemma no_outcome_not_first:
  assumes "no_outcome_id i s = Inr w" "distinct (map oc_id (outcomes s))"
  shows "map_option oc_id (first_yes i s) \<noteq> Some w"
proof
  assume "map_option oc_id (first_yes i s) = Some w"
  then obtain y where y: "y \<in> set (outcomes s)" "is_yes (label y)" "oc_id y = w"
    by (auto simp: first_yes_def market_outcomes_def dest!: find_mem)
  obtain n where n: "filter (\<lambda>oc. \<not> is_yes (label oc)) (market_outcomes i s) = [n]" "oc_id n = w"
    using assms(1) by (auto simp: no_outcome_id_def scalar_one_Inr map_eq_Cons_conv)
  then have "n \<in> set (filter (\<lambda>oc. \<not> is_yes (label oc)) (market_outcomes i s))" by simp
  then have "n \<in> set (outcomes s)" "\<not> is_yes (label n)" by (auto simp: market_outcomes_def)
  moreover have "n = y" using calculation(1) y(1,3) n(2) assms(2) by (auto dest: distinct_key_eq)
  ultimately show False using y(2) by simp
qed

lemma finish_event_Inr:
  assumes "finish_event aid now ty gid wo n j actor (failed, s) = (Inr r, s')"
  shows "same_books s s'" "bets s' = bets s" "same_catalog s s'"
    "er_status r = derive_status gid s" "children_failed r = failed" "child_count r = n"
proof -
  have a: "record_event_audit aid now ty gid wo n failed j actor s = Inr s'"
    and r: "r = \<lparr>er_group_id = gid, child_count = n, children_settled = n - length failed,
      children_failed = failed, er_status = derive_status gid s'\<rparr>"
    using assms by (auto simp: finish_event_def split: sum.splits)
  show b: "same_books s s'" "bets s' = bets s" "same_catalog s s'"
    using a by (auto simp: record_event_audit_def result_simps same_books_def begin_tx_def same_catalog_def)
  have "child_status_of s' = child_status_of s"
    using b(3) by (simp add: child_status_of_def [abs_def] first_yes_def market_outcomes_def same_catalog_def)
  moreover have "group_children gid s' = group_children gid s" "get_group gid s' = get_group gid s"
    using b(3) by (simp_all add: group_children_def get_group_def same_catalog_def)
  ultimately have "derive_status gid s' = derive_status gid s" by (simp only: derive_status_def)
  then show "er_status r = derive_status gid s" "children_failed r = failed" "child_count r = n"
    by (simp_all add: r)
qed

subsection \<open>Resolving and voiding\<close>

lemma all_resolved_status:
  assumes "children \<noteq> []" "\<forall>c \<in> set children. cs_status c = RESOLVED"
  shows "derive_event_status children = (if list_ex is_yes_winner children then ''resolved'' else ''void'')"
proof -
  have "filter (\<lambda>c. cs_status c = RESOLVED) children = children" using assms(2) by (simp add: filter_id_conv)
  then show ?thesis using assms(1) by (simp add: derive_event_status_def)
qed

lemma settled_status:
  assumes "map mkey (markets s') = map (\<lambda>m. mark_key (map_of ordered) (mkey m)) (markets s)"
    and "outcomes s' = outcomes s" "market_groups s' = market_groups s" "get_group gid s \<noteq> None"
    and "\<forall>m \<in> set (group_children gid s). mk_status m \<noteq> RESOLVED"
    and "fst ` set ordered = mk_id ` set (group_children gid s)" "ordered \<noteq> []"
  shows "derive_status gid s' = (if list_ex (\<lambda>m. map_option oc_id (first_yes (mk_id m) s) = map_of ordered (mk_id m))
      (group_children gid s) then ''resolved'' else ''void'')"
proof -
  let ?cs = "group_children gid s" and ?f = "map_of ordered"
  have st: "key_status s (mark_key ?f (mkey m))
      = \<lparr>cs_status = RESOLVED, is_yes_winner = (map_option oc_id (first_yes (mk_id m) s) = ?f (mk_id m))\<rparr>"
    if m: "m \<in> set ?cs" for m
  proof -
    have "mk_id m \<in> fst ` set ordered" using m assms(6) by blast
    then obtain y where "?f (mk_id m) = Some y" by (metis map_of_eq_None_iff not_None_eq)
    then show ?thesis using assms(5) m
      by (cases "first_yes (mk_id m) s") (auto simp: key_status_def mark_key_def mkey_def)
  qed
  have ch: "map (child_status_of s') (group_children gid s') = map (\<lambda>m.
      \<lparr>cs_status = RESOLVED, is_yes_winner = (map_option oc_id (first_yes (mk_id m) s) = ?f (mk_id m))\<rparr>) ?cs"
    unfolding statuses_after [OF assms(1,2)] using st by (intro map_cong) auto
  have ne: "?cs \<noteq> []" using assms(6,7) by (cases ordered) auto
  obtain g where "get_group gid s' = Some g" using assms(3,4) by (auto simp: get_group_def)
  then have "derive_status gid s' = derive_event_status (map (\<lambda>m.
      \<lparr>cs_status = RESOLVED, is_yes_winner = (map_option oc_id (first_yes (mk_id m) s) = ?f (mk_id m))\<rparr>) ?cs)"
    by (simp add: derive_status_def flip: ch)
  then show ?thesis using ne by (simp add: all_resolved_status list_ex_iff)
qed

text \<open>The facts a settled event has in common.\<close>

lemma event_settle_effect:
  fixes s s' :: "'a db_scheme"
  assumes "finish_event aid now ty gid wo n j actor (settle_children ids ordered j actor s) = (Inr r, s')"
    and "platform_ok s" "catalog_ok s" "distinct (map fst ordered)"
    and "fst ` set ordered = mk_id ` set (group_children gid s)"
  shows "set (children_failed r) \<subseteq> fst ` set ordered"
    "bets s' = map (settle_by (map_of (live (children_failed r) ordered))) (bets s)"
    "resolve_user_wallet_id u s = Inr x \<Longrightarrow> bal s' x = bal s x + (\<Sum>c\<leftarrow>live (children_failed r) ordered. won_by u s c)"
    "total_balance s' = total_balance s" "platform_ok s'"
    "children_failed r = [] \<Longrightarrow> get_group gid s \<noteq> None \<Longrightarrow> ordered \<noteq> [] \<Longrightarrow>
       \<forall>m \<in> set (group_children gid s). mk_status m \<noteq> RESOLVED \<Longrightarrow>
       er_status r = (if list_ex (\<lambda>m. map_option oc_id (first_yes (mk_id m) s) = map_of ordered (mk_id m))
         (group_children gid s) then ''resolved'' else ''void'')"
proof -
  obtain failed s1 where sc: "settle_children ids ordered j actor s = (failed, s1)" by fastforce
  note f = finish_event_Inr [OF assms(1) [unfolded sc]]
  have d: "distinct (map mk_id (markets s))" using assms(3) by (simp add: catalog_ok_def)
  note e = settle_children_effect [OF sc assms(2,4) d]
  have le: "live [] ordered = ordered" by (simp add: live_def)
  show "set (children_failed r) \<subseteq> fst ` set ordered"
    "bets s' = map (settle_by (map_of (live (children_failed r) ordered))) (bets s)"
    using e by (simp_all add: f(2,5))
  show "bal s' x = bal s x + (\<Sum>c\<leftarrow>live (children_failed r) ordered. won_by u s c)"
    if "resolve_user_wallet_id u s = Inr x"
    using e that by (simp add: f(5) bal_same_books [OF f(1)])
  show "platform_ok s'" using platform_frame [OF f(1,2)] e by blast
  show "total_balance s' = total_balance s"
    using steps_total [OF ledger_steps_trans [OF _ ledger_steps_frame [OF f(1)]] platform_wf [OF assms(2)]] e by blast
  show "er_status r = (if list_ex (\<lambda>m. map_option oc_id (first_yes (mk_id m) s) = map_of ordered (mk_id m))
         (group_children gid s) then ''resolved'' else ''void'')"
    if "children_failed r = []" "get_group gid s \<noteq> None" "ordered \<noteq> []"
      "\<forall>m \<in> set (group_children gid s). mk_status m \<noteq> RESOLVED"
  proof -
    have "failed = []" using that(1) f(5) by simp
    with e have k: "map mkey (markets s1) = map (\<lambda>m. mark_key (map_of ordered) (mkey m)) (markets s)"
      "outcomes s1 = outcomes s" "market_groups s1 = market_groups s" by (simp_all add: le)
    show ?thesis unfolding f(4) by (rule settled_status [OF k that(2,4) assms(5) that(3)])
  qed
qed

lemma resolve_event_Inr:
  assumes "resolve_event ids aid now gid w j actor s = (Inr r, s')"
  obtains ordered where "resolve_plan gid w s = Inr ordered"
    "finish_event aid now ''event.resolved'' gid (Some w) (length ordered) j actor (settle_children ids ordered j actor s) = (Inr r, s')"
  using assms by (auto simp: resolve_event_def split: sum.splits)

lemma void_event_Inr:
  assumes "void_event ids aid now gid j actor s = (Inr r, s')"
  obtains ordered where "void_plan gid s = Inr ordered"
    "finish_event aid now ''event.voided'' gid None (length ordered) j actor (settle_children ids ordered j actor s) = (Inr r, s')"
  using assms by (auto simp: void_event_def split: sum.splits)

lemma plan_group: "bindE (load_event gid s) f = Inr x \<Longrightarrow> get_group gid s \<noteq> None"
  by (auto simp: load_event_Inr)

text \<open>
  C5: resolving or voiding an event settles its children, each on its own.  The plan covers every
  child of the group once; the pending bets of the children that did not fail are settled on the
  planned outcomes and no other bet changes; every wallet gains exactly its winning payouts in those
  children; no money is created and the platform invariant holds, whichever children fail.
\<close>

theorem event_settles_children:
  fixes s s' :: "'a db_scheme"
  assumes "resolve_event ids aid now gid w j actor s = (Inr r, s') \<and> resolve_plan gid w s = Inr ordered
     \<or> void_event ids aid now gid j actor s = (Inr r, s') \<and> void_plan gid s = Inr ordered"
    and "platform_ok s" "catalog_ok s"
  shows "distinct (map fst ordered) \<and> fst ` set ordered = mk_id ` set (group_children gid s)
     \<and> set (children_failed r) \<subseteq> fst ` set ordered
     \<and> bets s' = map (settle_by (map_of (live (children_failed r) ordered))) (bets s)
     \<and> (\<forall>u x. resolve_user_wallet_id u s = Inr x \<longrightarrow>
          bal s' x = bal s x + (\<Sum>c\<leftarrow>live (children_failed r) ordered. won_by u s c))
     \<and> total_balance s' = total_balance s \<and> platform_ok s'"
proof -
  have d: "distinct (map mk_id (markets s))" using assms(3) by (simp add: catalog_ok_def)
  have p: "distinct (map fst ordered)" "fst ` set ordered = mk_id ` set (group_children gid s)"
    using assms(1) resolve_plan_facts [OF _ d] void_plan_facts [OF _ d] by blast+
  have "\<exists>ty wo. finish_event aid now ty gid wo (length ordered) j actor (settle_children ids ordered j actor s) = (Inr r, s')"
    using assms(1)
  proof
    assume a: "resolve_event ids aid now gid w j actor s = (Inr r, s') \<and> resolve_plan gid w s = Inr ordered"
    then show ?thesis by (auto simp: resolve_event_def split: sum.splits)
  next
    assume a: "void_event ids aid now gid j actor s = (Inr r, s') \<and> void_plan gid s = Inr ordered"
    then show ?thesis by (auto simp: void_event_def split: sum.splits)
  qed
  then obtain ty wo where "finish_event aid now ty gid wo (length ordered) j actor (settle_children ids ordered j actor s) = (Inr r, s')"
    by blast
  note e = event_settle_effect [OF this assms(2,3) p]
  show ?thesis using p e(1-5) by blast
qed

lemma plan_length:
  assumes "distinct (map fst ordered)" "fst ` set ordered = mk_id ` set (group_children gid s)"
    and "distinct (map mk_id (markets s))"
  shows "length ordered = length (group_children gid s)"
proof -
  have "distinct (map mk_id (group_children gid s))"
    unfolding group_children_def by (rule children_ids_distinct [OF assms(3)])
  then show ?thesis using assms(1,2) by (metis distinct_card length_map list.set_map)
qed

lemma finish_child_count: "finish_event aid now ty gid wo n j actor x = (Inr r, s') \<Longrightarrow> child_count r = n"
  by (cases x) (auto dest: finish_event_Inr(6))

lemma resolve_event_status:
  fixes s s' :: "'a db_scheme"
  assumes "resolve_event ids aid now gid w j actor s = (Inr r, s')" "children_failed r = []"
    and "platform_ok s" "catalog_ok s" "\<forall>m \<in> set (group_children gid s). mk_status m \<noteq> RESOLVED"
  shows "er_status r = ''resolved'' \<and> child_count r = length (group_children gid s)"
proof -
  have d: "distinct (map mk_id (markets s))" using assms(4) by (simp add: catalog_ok_def)
  obtain ordered where pl: "resolve_plan gid w s = Inr ordered"
    and fin: "finish_event aid now ''event.resolved'' gid (Some w) (length ordered) j actor (settle_children ids ordered j actor s) = (Inr r, s')"
    using assms(1) by (rule resolve_event_Inr)
  obtain wm losers where o': "ordered = (wm, w) # losers" "yes_outcome_id wm s = Inr w"
    and q: "distinct (map fst ordered)" "fst ` set ordered = mk_id ` set (group_children gid s)"
    using resolve_plan_facts [OF pl d] by blast
  have ne: "ordered \<noteq> []" by (simp add: o')
  have "wm \<in> fst ` set ordered" by (simp add: o')
  then obtain m where m: "m \<in> set (group_children gid s)" "mk_id m = wm" unfolding q(2) by blast
  have "get_group gid s \<noteq> None" using pl unfolding resolve_plan_def by (rule plan_group)
  from event_settle_effect(6) [OF fin assms(3,4) q assms(2) this ne assms(5)]
  have "er_status r = ''resolved''"
    using m yes_outcome_first [OF o'(2)] by (auto simp: list_ex_iff o')
  then show ?thesis using finish_child_count [OF fin] plan_length [OF q d] by simp
qed

lemma void_event_status:
  fixes s s' :: "'a db_scheme"
  assumes "void_event ids aid now gid j actor s = (Inr r, s')" "children_failed r = []"
    and "platform_ok s" "catalog_ok s" "\<forall>m \<in> set (group_children gid s). mk_status m \<noteq> RESOLVED"
    and "group_children gid s \<noteq> []"
  shows "er_status r = ''void'' \<and> child_count r = length (group_children gid s)"
proof -
  have d: "distinct (map mk_id (markets s))" "distinct (map oc_id (outcomes s))" using assms(4) by (simp_all add: catalog_ok_def)
  obtain ordered where pl: "void_plan gid s = Inr ordered"
    and fin: "finish_event aid now ''event.voided'' gid None (length ordered) j actor (settle_children ids ordered j actor s) = (Inr r, s')"
    using assms(1) by (rule void_event_Inr)
  have no: "\<forall>c \<in> set ordered. no_outcome_id (fst c) s = Inr (snd c)"
    and q: "distinct (map fst ordered)" "fst ` set ordered = mk_id ` set (group_children gid s)"
    using void_plan_facts [OF pl d(1)] by blast+
  have ne: "ordered \<noteq> []" using q(2) assms(6) by auto
  have "map_option oc_id (first_yes (mk_id m) s) \<noteq> map_of ordered (mk_id m)" if m: "m \<in> set (group_children gid s)" for m
  proof -
    have "mk_id m \<in> fst ` set ordered" using m q(2) by blast
    then obtain y where y: "map_of ordered (mk_id m) = Some y" by (metis map_of_eq_None_iff not_None_eq)
    then have "no_outcome_id (mk_id m) s = Inr y" using no map_of_SomeD by fastforce
    from no_outcome_not_first [OF this d(2)] show ?thesis by (simp add: y)
  qed
  then have "\<not> list_ex (\<lambda>m. map_option oc_id (first_yes (mk_id m) s) = map_of ordered (mk_id m)) (group_children gid s)"
    by (simp add: list_ex_iff)
  moreover have "get_group gid s \<noteq> None" using pl unfolding void_plan_def by (rule plan_group)
  ultimately have "er_status r = ''void''"
    using event_settle_effect(6) [OF fin assms(3,4) q assms(2) _ ne assms(5)] by simp
  then show ?thesis using finish_child_count [OF fin] plan_length [OF q d(1)] by simp
qed

lemma executed_Inr:
  assumes "executed y = (Inr x, s')"
  obtains r where "y = (Inr r, s')" "ea_failed x = Some (children_failed r)" "projected_status x = er_status r"
    "ea_child_count x = child_count r"
  using assms by (auto simp: executed_def split: prod.splits sum.splits)

text \<open>
  The preview of a resolve or void agrees with its execution.  When no child is settled yet and
  none fails, the confirmed request ends in the status and over the number of children that the
  unconfirmed request announced, and the unconfirmed request changed nothing.
\<close>

theorem event_preview_agrees:
  fixes s s' s0 :: "'a db_scheme"
  assumes "post_resolve_event ids aid now gid w j False admin s = (Inr p, s0) \<and> post_resolve_event ids aid now gid w j True admin s = (Inr x, s')
     \<or> post_void_event ids aid now gid j False admin s = (Inr p, s0) \<and> post_void_event ids aid now gid j True admin s = (Inr x, s')"
    and "ea_failed x = Some []" "platform_ok s" "catalog_ok s"
    and "group_children gid s \<noteq> []" "\<forall>m \<in> set (group_children gid s). mk_status m \<noteq> RESOLVED"
  shows "s0 = s \<and> projected_status x = projected_status p \<and> ea_child_count x = ea_child_count p"
  using assms(1)
proof
  assume a: "post_resolve_event ids aid now gid w j False admin s = (Inr p, s0)
    \<and> post_resolve_event ids aid now gid w j True admin s = (Inr x, s')"
  then have p: "s0 = s" "projected_status p = ''resolved''" "ea_child_count p = length (group_children gid s)"
    by (auto simp: post_resolve_event_def preview_of_def load_for_settle_def split: if_splits option.splits)
  have "executed (resolve_event ids aid now gid w j (Some admin) s) = (Inr x, s')"
    using conjunct2 [OF a] by (simp add: post_resolve_event_def split: if_splits)
  then show ?thesis
    by (rule executed_Inr) (use resolve_event_status [OF _ _ assms(3,4,6)] assms(2) p in auto)
next
  assume a: "post_void_event ids aid now gid j False admin s = (Inr p, s0)
    \<and> post_void_event ids aid now gid j True admin s = (Inr x, s')"
  then have p: "s0 = s" "projected_status p = ''void''" "ea_child_count p = length (group_children gid s)"
    by (auto simp: post_void_event_def preview_of_def load_for_settle_def split: if_splits option.splits)
  have "executed (void_event ids aid now gid j (Some admin) s) = (Inr x, s')"
    using conjunct2 [OF a] by (simp add: post_void_event_def split: if_splits)
  then show ?thesis
    by (rule executed_Inr) (use void_event_status [OF _ _ assms(3,4,6,5)] assms(2) p in auto)
qed

subsection \<open>Reversing an event\<close>

lemma settled_none_update:
  "settled_bets i s = [] \<Longrightarrow> settled_bets i (fold (\<lambda>b. update_bet_row (bet_id b) (\<lambda>b. b\<lparr>bet_status := BET_PENDING\<rparr>)) bs s) = []"
proof (induction bs arbitrary: s)
  case (Cons b bs)
  have "settled_bets i (update_bet_row (bet_id b) (\<lambda>b. b\<lparr>bet_status := BET_PENDING\<rparr>) s) = []"
    using Cons.prems by (auto simp: settled_bets_def update_bet_row_def filter_empty_conv set_update_where)
  from Cons.IH [OF this] show ?case by simp
qed simp

lemma reverse_bets_parts:
  assumes "reverse_bets (house_resolver t) gen now actor mid bs s = Inr s'"
  obtains s3 where "house_mark_unresolved mid s3 = Inr s'" "same_catalog s s3" "bets s3 = bets (reopen_bets bs s)"
proof -
  obtain specs s3 where p: "post_specs reverse_idempotency_key gen now actor (Some mid) specs
      (lock_touched specs (reopen_bets bs s)) = Inr s3" and u: "house_mark_unresolved mid s3 = Inr s'"
    using assms by (auto simp: reverse_bets_def Let_def house_resolver_def)
  have m: "ledger.more s3 = ledger.more (reopen_bets bs s)" using post_specs_more [OF p] by simp
  have "same_catalog s (lock_bets bs s)" by (rule same_catalog_more) simp
  then have "same_catalog s (reopen_bets bs s)"
    unfolding reopen_bets_def by (rule same_catalog_trans) (rule same_catalog_bet_updates)
  with same_catalog_more [OF m] have "same_catalog s s3" using same_catalog_trans by blast
  then show thesis using that [OF u] more_fields(1) [OF m] by blast
qed

lemma lock_bets_bets [simp]: "bets (lock_bets bs s) = bets s"
  by (rule more_fields(1)) simp

text \<open>A reversal leaves the row of a market without settled bets, and settles nothing.\<close>

lemma reverse_settlement_keeps:
  assumes "reverse_settlement (house_resolver t) gen aid now mid j actor s = Inr (n, s')"
    and "settled_bets (mk_id m) s = []" "m \<in> set (markets s)"
  shows "settled_bets (mk_id m) s' = [] \<and> m \<in> set (markets s')
     \<and> market_groups s' = market_groups s \<and> outcomes s' = outcomes s"
proof -
  let ?bs = "settled_bets mid s"
  have c0: "same_catalog s (begin_tx s)" "bets (begin_tx s) = bets s"
    by (rule same_catalog_more) (simp, rule more_fields(1), simp)
  then have sb: "settled_bets i (begin_tx s) = settled_bets i s" for i by (simp add: settled_bets_def)
  obtain s1 body where s1: "(if ?bs = [] then Inr (begin_tx s)
       else reverse_bets (house_resolver t) gen now actor mid ?bs (begin_tx s)) = Inr s1"
    and a: "audit_record aid now (actor_string actor) ''settlement.reversed'' body None s1 = Inr s'"
    using assms(1) unfolding reverse_settlement_def Let_def bindE_eq_Inr sb by blast
  have s': "markets s' = markets s1" "bets s' = bets s1" "market_groups s' = market_groups s1" "outcomes s' = outcomes s1"
    using a by (simp_all add: audit_record_Inr)
  show ?thesis
  proof (cases "?bs = []")
    case True
    then show ?thesis using s1 assms(2,3) c0 s' by (simp add: settled_bets_def same_catalog_def)
  next
    case False
    then have "reverse_bets (house_resolver t) gen now actor mid ?bs (begin_tx s) = Inr s1" using s1 by simp
    then obtain s3 where u: "house_mark_unresolved mid s3 = Inr s1" and c: "same_catalog (begin_tx s) s3"
      and b: "bets s3 = bets (reopen_bets ?bs (begin_tx s))" by (rule reverse_bets_parts)
    have mid: "mk_id m \<noteq> mid" using False assms(2) by auto
    have rows: "markets s1 = update_where (\<lambda>m. mk_id m = mid) (\<lambda>m. m\<lparr>mk_status := CLOSED, resolved_at := None\<rparr>) (markets s3)"
      "bets s1 = bets s3" "market_groups s1 = market_groups s3" "outcomes s1 = outcomes s3"
      using u by (auto simp: house_mark_unresolved_def update_market_row_def split: option.splits)
    have "settled_bets (mk_id m) (lock_bets ?bs (begin_tx s)) = []"
      using assms(2) by (simp add: settled_bets_def c0(2))
    from settled_none_update [OF this, of ?bs] have "settled_bets (mk_id m) s' = []"
      using s'(2) rows(2) b by (simp add: settled_bets_def reopen_bets_def)
    moreover have "m \<in> set (markets s1)"
      using assms(3) mid c c0(1) by (force simp: rows(1) set_update_where same_catalog_def)
    ultimately show ?thesis using c c0(1) s' rows(3,4) by (simp add: same_catalog_def)
  qed
qed

lemma reverse_children_keeps:
  assumes "reverse_children ids cs j actor s = (failed, s')"
    and "settled_bets (mk_id m) s = []" "m \<in> set (markets s)"
  shows "m \<in> set (markets s') \<and> market_groups s' = market_groups s"
  using assms
proof (induction cs arbitrary: s failed)
  case (Cons mid cs)
  obtain gen aid now t where i: "ids mid = (gen, aid, now, t)" by (cases "ids mid") auto
  show ?case
  proof (cases "reverse_settlement (house_resolver t) gen aid now mid j actor s")
    case (Inl e)
    then obtain failed1 where "reverse_children ids cs j actor s = (failed1, s')"
      using Cons.prems(1) by (auto simp: i split: prod.splits)
    from Cons.IH [OF this Cons.prems(2,3)] show ?thesis .
  next
    case (Inr r)
    obtain n s1 where r: "r = (n, s1)" by (cases r) simp
    note k = reverse_settlement_keeps [OF Inr [unfolded r] Cons.prems(2,3)]
    have "reverse_children ids cs j actor s1 = (failed, s')" using Cons.prems(1) by (simp add: i Inr r)
    from Cons.IH [OF this] k show ?thesis by auto
  qed
qed simp

lemma resolved_not_open:
  assumes "c \<in> set children" "cs_status c = RESOLVED"
  shows "derive_event_status children \<noteq> ''open''"
proof -
  have "c \<in> set (filter (\<lambda>c. cs_status c = RESOLVED) children)" using assms by simp
  then have "filter (\<lambda>c. cs_status c = RESOLVED) children \<noteq> []" by (metis empty_iff empty_set)
  then show ?thesis using assms(1) by (auto simp: derive_event_status_def Let_def)
qed

text \<open>
  C39: reversing an event does not reopen a child that nobody bet on.  The reversal of a market
  without settled bets is a no-op, so a resolved child without bets stays RESOLVED and the event does
  not return to \<open>open\<close>, although the preview of the same request announces \<open>open\<close>.
\<close>

theorem reverse_event_keeps_betless_child:
  fixes s s' :: "'a db_scheme"
  assumes "post_reverse_event ids aid now gid j True admin s = (Inr x, s')"
    and "m \<in> set (group_children gid s)" "mk_status m = RESOLVED" "settled_bets (mk_id m) s = []"
  shows "m \<in> set (group_children gid s') \<and> projected_status x \<noteq> ''open''
     \<and> (\<exists>p. post_reverse_event ids aid now gid j False admin s = (Inr p, s) \<and> projected_status p = ''open'')"
proof -
  have ex: "executed (reverse_event ids aid now gid j (Some admin) s) = (Inr x, s')" and j: "j \<noteq> []"
    using assms(1) by (simp_all add: post_reverse_event_def split: if_splits)
  obtain r where r: "reverse_event ids aid now gid j (Some admin) s = (Inr r, s')" and x: "projected_status x = er_status r"
    using ex by (rule executed_Inr)
  obtain ordered where pl: "reverse_plan gid s = Inr ordered"
    and fin: "finish_event aid now ''event.reversed'' gid None (length ordered) j (Some admin)
        (reverse_children ids ordered j (Some admin) s) = (Inr r, s')"
    using r by (auto simp: reverse_event_def split: sum.splits)
  obtain failed s1 where rc: "reverse_children ids ordered j (Some admin) s = (failed, s1)" by fastforce
  note f = finish_event_Inr [OF fin [unfolded rc]]
  have m: "m \<in> set (markets s)" "group_id m = Some gid" using assms(2) by (simp_all add: group_children_def)
  have k: "m \<in> set (markets s1)" "market_groups s1 = market_groups s"
    using reverse_children_keeps [OF rc assms(4) m(1)] by simp_all
  have m1: "m \<in> set (group_children gid s1)" using k(1) m(2) by (simp add: group_children_def)
  obtain g where g: "get_group gid s = Some g" "mg_source g \<noteq> POLYMARKET"
    using pl by (auto simp: reverse_plan_def load_event_Inr)
  have "get_group gid s1 = Some g" using g(1) k(2) by (simp add: get_group_def)
  moreover have "derive_event_status (map (child_status_of s1) (group_children gid s1)) \<noteq> ''open''"
  proof (rule resolved_not_open)
    show "child_status_of s1 m \<in> set (map (child_status_of s1) (group_children gid s1))" using m1 by simp
    show "cs_status (child_status_of s1 m) = RESOLVED" using assms(3) by (simp add: child_status_of_def)
  qed
  ultimately have "er_status r \<noteq> ''open''" by (simp add: f(4) derive_status_def)
  moreover have "m \<in> set (group_children gid s')" using m1 f(3) by (simp add: group_children_def same_catalog_def)
  moreover have "\<exists>p. post_reverse_event ids aid now gid j False admin s = (Inr p, s) \<and> projected_status p = ''open''"
    using j g by (simp add: post_reverse_event_def load_for_settle_def preview_of_def)
  ultimately show ?thesis using x by simp
qed

subsection \<open>Refusals\<close>

lemma contains_chars: "contains pat s \<Longrightarrow> set pat \<subseteq> set s"
  unfolding contains_def list_ex_iff by (metis in_set_dropD in_set_takeD subsetI)

lemma contains_prefix: "contains pat (pat @ s)"
  unfolding contains_def list_ex_iff by (rule bexI [of _ 0]) simp_all

lemma uuid_chars: "set (uuid_str u) \<subseteq> insert CHR ''-'' (set ''0123456789abcdef'')"
proof -
  have hex: "hex_char n \<in> set ''0123456789abcdef''" if "n < 16" for n
    unfolding hex_char_def by (rule nth_mem) (use that in simp)
  have "nibble u i < 16" for i by (simp add: nibble_def)
  then have "set (uuid_hex u) \<subseteq> set ''0123456789abcdef''"
    unfolding uuid_hex_def set_map using hex by blast
  moreover have "set (uuid_str u) \<subseteq> insert CHR ''-'' (set (uuid_hex u))"
    by (auto simp: uuid_str_def Let_def dest: in_set_takeD in_set_dropD)
  ultimately show ?thesis by blast
qed

lemma uuid_str_lacks: "CHR ''M'' \<notin> set (uuid_str u)" "CHR ''p'' \<notin> set (uuid_str u)" "CHR ''N'' \<notin> set (uuid_str u)"
  using uuid_chars [of u] by auto

lemma message_codes:
  "map_event_value_error (ValueError (''No market group '' @ uuid_str u @ ''.'')) = HTTPException 404"
  "map_event_value_error (ValueError (''winning_outcome_id '' @ uuid_str w @ '' is not the YES outcome of its child market '' @ uuid_str u
     @ ''; resolve_event settles the winner on YES (use void_event to settle every child on NO).'')) = HTTPException 422"
  "map_event_value_error (ValueError (''winning_outcome_id '' @ uuid_str w @ '' does not map to exactly one child of group '' @ uuid_str u @ ''.''))
     = HTTPException 422"
proof -
  have lack: "\<not> contains ''Mirrored'' m" if "CHR ''M'' \<notin> set m" for m using contains_chars [of "''Mirrored''" m] that by auto
  have lackp: "\<not> contains ''No market group'' m" if "CHR ''p'' \<notin> set m \<or> CHR ''N'' \<notin> set m" for m
    using contains_chars [of "''No market group''" m] that by auto
  have "contains ''No market group'' (''No market group'' @ '' '' @ uuid_str u @ ''.'')" by (rule contains_prefix)
  moreover have "contains ''winning_outcome_id'' (''winning_outcome_id'' @ '' '' @ x)" for x by (rule contains_prefix)
  ultimately show "map_event_value_error (ValueError (''No market group '' @ uuid_str u @ ''.'')) = HTTPException 404"
    "map_event_value_error (ValueError (''winning_outcome_id '' @ uuid_str w @ '' is not the YES outcome of its child market '' @ uuid_str u
     @ ''; resolve_event settles the winner on YES (use void_event to settle every child on NO).'')) = HTTPException 422"
    "map_event_value_error (ValueError (''winning_outcome_id '' @ uuid_str w @ '' does not map to exactly one child of group '' @ uuid_str u @ ''.''))
     = HTTPException 422"
    by (simp_all add: map_event_value_error_def lack lackp uuid_str_lacks)
qed

lemma fixed_message_codes:
  "map_event_value_error (ValueError ''A non-empty justification is required to resolve/void an event.'') = HTTPException 422"
  "map_event_value_error (ValueError ''Mirrored (Polymarket) events are admin read-only; use force-settle (ADM-06).'') = HTTPException 409"
  by code_simp+

lemma strip_Nil [simp]: "strip [] = []"
  by (simp add: strip_def)

lemma plan_refused:
  assumes "load_event gid s = Inl e"
  shows "resolve_plan gid w s = Inl e" "void_plan gid s = Inl e" "reverse_plan gid s = Inl e"
  by (simp_all add: resolve_plan_def void_plan_def reverse_plan_def assms)

lemma bad_winner_plan:
  assumes "load_event gid s = Inr (group_children gid s)"
    and "\<forall>m \<in> set (group_children gid s). \<exists>y. yes_outcome_id (mk_id m) s = Inr y \<and> y \<noteq> w"
  shows "\<exists>e. resolve_plan gid w s = Inl e \<and> map_event_value_error e = HTTPException 422"
proof -
  let ?ws = "map oc_market_id (filter (\<lambda>oc. oc_id oc = w \<and> oc_market_id oc \<in> mk_id ` set (group_children gid s)) (outcomes s))"
  show ?thesis
  proof (cases "\<exists>wm. ?ws = [wm]")
    case True
    then obtain wm where wm: "?ws = [wm]" by (elim exE)
    then have "wm \<in> set ?ws" by simp
    then have "wm \<in> mk_id ` set (group_children gid s)" by auto
    then obtain y where "yes_outcome_id wm s = Inr y" "y \<noteq> w" using assms(2) by blast
    then show ?thesis using message_codes(2) [of w wm] by (simp add: resolve_plan_def assms(1) wm)
  next
    case False
    then have "resolve_plan gid w s = Inl (ValueError (''winning_outcome_id '' @ uuid_str w @ '' does not map to exactly one child of group '' @ uuid_str gid @ ''.''))"
      by (simp add: resolve_plan_def assms(1) split: list.splits)
    then show ?thesis using message_codes(3) [of w gid] by simp
  qed
qed


subsection \<open>A sample event\<close>

definition demo_event_db :: db where
  "demo_event_db = demo_bet_db\<lparr>
     market_groups := [\<lparr>mg_id = 0x30, mg_title = ''cup'', mg_source = HOUSE, source_event_id = None, mg_category = None,
       mg_slug = ''cup'', mg_created_at = 0\<rparr>],
     markets := map (\<lambda>m. m\<lparr>group_id := Some 0x30, group_item_title := Some ''a''\<rparr>) (markets demo_db)
       @ map (\<lambda>m. m\<lparr>mk_id := 4, mk_slug := ''q-000001'', group_id := Some 0x30, group_item_title := Some ''b''\<rparr>) (markets demo_db),
     outcomes := outcomes demo_db @
       [\<lparr>oc_id = 10, oc_market_id = 4, label = ''YES'', initial_odds = 7/10, current_odds = 7/10\<rparr>,
        \<lparr>oc_id = 11, oc_market_id = 4, label = ''NO'', initial_odds = 3/10, current_odds = 3/10\<rparr>]\<rparr>"

definition demo_child_ids :: "uuid \<Rightarrow> uuid \<Rightarrow> child_ids" where
  "demo_child_ids base mid = (demo_gen (base + mid * 0x20), base + 0x90 + mid, 20, 20)"

lemma demo_event_ok: "platform_ok demo_event_db"
proof -
  have "same_books demo_bet_db demo_event_db" "bets demo_event_db = bets demo_bet_db"
    by (simp_all add: demo_event_db_def same_books_def)
  then show ?thesis using platform_frame demo_bet_db_ok by blast
qed

lemma demo_event_catalog: "catalog_ok demo_event_db"
proof -
  have "length (market_outcomes mid demo_event_db) \<le> 2" for mid
    by (simp add: market_outcomes_def demo_event_db_def demo_db_def)
  moreover have "is_probability (3/10)" "is_probability (7/10)" by code_simp+
  ultimately show ?thesis by (simp add: catalog_ok_def demo_event_db_def demo_db_def demo_bet_db_def)
qed

lemma demo_event_children: "map mk_id (group_children 0x30 demo_event_db) = [3, 4]"
  "\<forall>m \<in> set (group_children 0x30 demo_event_db). mk_status m = OPEN"
  by (simp_all add: group_children_def demo_event_db_def demo_db_def)

lemma demo_event_run:
  "(case post_resolve_event (demo_child_ids 0x100) 0x9a 21 0x30 8 ''j'' True 6 demo_event_db of
      (Inr x, s') \<Rightarrow> ea_failed x = Some [] \<and> bal s' 1 = 60 + 1333333/10000 | _ \<Rightarrow> False)"
  by code_simp

lemma demo_event_plan: "resolve_plan 0x30 8 demo_event_db = Inr [(3, 8), (4, 11)]"
  by code_simp

lemma demo_event_resolved: obtains x s' where
  "post_resolve_event (demo_child_ids 0x100) 0x9a 21 0x30 8 ''j'' True 6 demo_event_db = (Inr x, s')"
  "ea_failed x = Some []"
  using demo_event_run that by (auto split: prod.splits sum.splits)

lemma event_settles_children_witness:
  "\<exists>r s'. resolve_event (demo_child_ids 0x100) 0x9a 21 0x30 8 ''j'' (Some 6) demo_event_db = (Inr r, s')
     \<and> children_failed r = [] \<and> platform_ok s' \<and> total_balance s' = total_balance demo_event_db"
proof -
  obtain x s' where x: "post_resolve_event (demo_child_ids 0x100) 0x9a 21 0x30 8 ''j'' True 6 demo_event_db = (Inr x, s')"
    "ea_failed x = Some []" by (rule demo_event_resolved)
  have "executed (resolve_event (demo_child_ids 0x100) 0x9a 21 0x30 8 ''j'' (Some 6) demo_event_db) = (Inr x, s')"
    using x(1) by (simp add: post_resolve_event_def)
  then obtain r where r: "resolve_event (demo_child_ids 0x100) 0x9a 21 0x30 8 ''j'' (Some 6) demo_event_db = (Inr r, s')"
    "ea_failed x = Some (children_failed r)" by (rule executed_Inr)
  show ?thesis
    using event_settles_children [OF disjI1 [OF conjI [OF r(1) demo_event_plan]] demo_event_ok demo_event_catalog] r x(2)
    by auto
qed

lemma event_preview_agrees_witness:
  "\<exists>x s'. post_resolve_event (demo_child_ids 0x100) 0x9a 21 0x30 8 ''j'' True 6 demo_event_db = (Inr x, s')
     \<and> projected_status x = ''resolved'' \<and> ea_child_count x = 2"
proof -
  obtain x s' where x: "post_resolve_event (demo_child_ids 0x100) 0x9a 21 0x30 8 ''j'' True 6 demo_event_db = (Inr x, s')"
    "ea_failed x = Some []" by (rule demo_event_resolved)
  have "(case post_resolve_event (demo_child_ids 0x100) 0x9a 21 0x30 8 ''j'' False 6 demo_event_db of
      (Inr p, s0) \<Rightarrow> projected_status p = ''resolved'' \<and> ea_child_count p = 2 | _ \<Rightarrow> False)" by code_simp
  then obtain p s0 where p: "post_resolve_event (demo_child_ids 0x100) 0x9a 21 0x30 8 ''j'' False 6 demo_event_db = (Inr p, s0)"
    "projected_status p = ''resolved''" "ea_child_count p = 2" by (auto split: prod.splits sum.splits)
  have c: "group_children 0x30 demo_event_db \<noteq> []" "\<forall>m \<in> set (group_children 0x30 demo_event_db). mk_status m \<noteq> RESOLVED"
    using demo_event_children by auto
  show ?thesis
    using event_preview_agrees [OF disjI1 [OF conjI [OF p(1) x(1)]] x(2) demo_event_ok demo_event_catalog c] p(2,3) x(1) by simp
qed

definition demo_reversible_db :: db where
  "demo_reversible_db = update_market_row 4 (\<lambda>m. m\<lparr>mk_status := RESOLVED, winning_outcome_id := Some 11\<rparr>) demo_event_db"

lemma reverse_event_keeps_betless_child_witness:
  "\<exists>x s'. post_reverse_event (demo_child_ids 0x100) 0x9a 21 0x30 ''j'' True 6 demo_reversible_db = (Inr x, s')
     \<and> projected_status x \<noteq> ''open''"
proof -
  have "(case post_reverse_event (demo_child_ids 0x100) 0x9a 21 0x30 ''j'' True 6 demo_reversible_db of
      (Inr x, s') \<Rightarrow> True | _ \<Rightarrow> False)" by code_simp
  then obtain x s' where x: "post_reverse_event (demo_child_ids 0x100) 0x9a 21 0x30 ''j'' True 6 demo_reversible_db = (Inr x, s')"
    by (auto split: prod.splits sum.splits)
  have "list_ex (\<lambda>m. mk_status m = RESOLVED \<and> length (settled_bets (mk_id m) demo_reversible_db) = 0)
      (group_children 0x30 demo_reversible_db)" by code_simp
  then obtain m where "m \<in> set (group_children 0x30 demo_reversible_db)" "mk_status m = RESOLVED"
    "settled_bets (mk_id m) demo_reversible_db = []" by (auto simp: list_ex_iff)
  from reverse_event_keeps_betless_child [OF x this] x show ?thesis by blast
qed


end
