(* ===== verification/EventEdits.thy ===== *)
theory EventEdits
  imports EventRules MarketRules
begin

text \<open>
  The properties of creating and editing house events: which children an event gets, what a
  replacement of its outcomes keeps, and the lock after the first bet.
\<close>

subsection \<open>Adding children\<close>

definition event_row :: "(string \<Rightarrow> string) \<Rightarrow> int \<Rightarrow> market_group \<Rightarrow> int \<Rightarrow> string option \<Rightarrow> string option
    \<Rightarrow> market \<Rightarrow> outcome_input \<Rightarrow> bool" where
  "event_row slugify now g ddl cat crit m inp \<longleftrightarrow>
     (\<exists>i u. m = event_child slugify i u now g (oi_label inp) ddl cat crit)"

text \<open>The YES and NO rows of a child, at the input price and its complement.\<close>

definition priced_pair :: "outcome_input \<Rightarrow> outcome list \<Rightarrow> bool" where
  "priced_pair inp ocs \<longleftrightarrow> (\<exists>yes no. ocs = [yes, no] \<and> label yes = ''YES'' \<and> label no = ''NO''
     \<and> probability_column (oi_odds inp) = Inr (current_odds yes) \<and> initial_odds yes = current_odds yes
     \<and> probability_column (dec_sub 1 (oi_odds inp)) = Inr (current_odds no) \<and> initial_odds no = current_odds no)"

lemma add_event_child_Inr:
  assumes "add_event_child slugify now g ddl cat crit ((i, u, y, n), inp) s = Inr s'" "catalog_ok s"
  shows "\<exists>m. markets s' = markets s @ [m] \<and> event_row slugify now g ddl cat crit m inp
     \<and> mk_id m \<notin> mk_id ` set (markets s) \<and> priced_pair inp (market_outcomes (mk_id m) s')
     \<and> (\<forall>k \<in> mk_id ` set (markets s). market_outcomes k s' = market_outcomes k s)
     \<and> same_books s s' \<and> bets s' = bets s \<and> market_groups s' = market_groups s \<and> catalog_ok s'"
proof -
  let ?m = "event_child slugify i u now g (oi_label inp) ddl cat crit"
  obtain m s1 yes s2 no where m: "insert_market ?m s = Inr (m, s1)"
    and yes: "insert_outcome (new_outcome y i ''YES'' (oi_odds inp)) s1 = Inr (yes, s2)"
    and no: "insert_outcome (new_outcome n i ''NO'' (dec_sub 1 (oi_odds inp))) s2 = Inr (no, s')"
    using assms(1) by (auto simp: add_event_child_def)
  have z: "numeric_18_4 0 = Inr 0" by code_simp
  have m': "m = ?m" "s1 = s\<lparr>markets := markets s @ [?m]\<rparr>" "i \<notin> mk_id ` set (markets s)"
    using m by (auto elim!: insert_market_Inr simp: z event_child_def opt_money_def)
  have y: "s2 = s1\<lparr>outcomes := outcomes s1 @ [yes]\<rparr>" "label yes = ''YES''" "oc_market_id yes = i"
    "probability_column (oi_odds inp) = Inr (current_odds yes)" "initial_odds yes = current_odds yes"
    using yes by (auto elim!: insert_outcome_Inr simp: new_outcome_def)
  have n: "s' = s2\<lparr>outcomes := outcomes s2 @ [no]\<rparr>" "label no = ''NO''" "oc_market_id no = i"
    "probability_column (dec_sub 1 (oi_odds inp)) = Inr (current_odds no)" "initial_odds no = current_odds no"
    using no by (auto elim!: insert_outcome_Inr simp: new_outcome_def)
  have "market_outcomes i s = []"
    using assms(2) m'(3) by (auto simp: catalog_ok_def market_outcomes_def filter_empty_conv)
  then have "market_outcomes i s' = [yes, no]" by (simp add: market_outcomes_def n(1,3) y(1,3) m'(2))
  then have "priced_pair inp (market_outcomes i s')" using y n by (simp add: priced_pair_def)
  moreover have "\<forall>k \<in> mk_id ` set (markets s). market_outcomes k s' = market_outcomes k s"
    using m'(3) by (auto simp: market_outcomes_def n(1,3) y(1,3) m'(2))
  moreover have "catalog_ok s'"
    by (rule catalog_insert_outcome [OF no catalog_insert_outcome [OF yes catalog_insert_market [OF m assms(2)]]])
  moreover have "event_row slugify now g ddl cat crit ?m inp" by (auto simp: event_row_def)
  moreover have "mk_id ?m = i" by (simp add: event_child_def)
  ultimately show ?thesis
    using m'(3) by (intro exI [of _ ?m]) (auto simp: n(1) y(1) m'(2) same_books_def)
qed

definition new_children :: "(string \<Rightarrow> string) \<Rightarrow> int \<Rightarrow> market_group \<Rightarrow> int \<Rightarrow> string option \<Rightarrow> string option
    \<Rightarrow> 'a db_scheme \<Rightarrow> market list \<Rightarrow> outcome_input list \<Rightarrow> bool" where
  "new_children slugify now g ddl cat crit s = list_all2 (\<lambda>m inp. event_row slugify now g ddl cat crit m inp
     \<and> priced_pair inp (market_outcomes (mk_id m) s))"

lemma add_children_Inr:
  assumes "foldE (\<lambda>(k, inp). add_event_child slugify now g ddl cat crit (kids k, inp)) (List.enumerate j inps) s = Inr s'"
    and "catalog_ok s"
  shows "\<exists>news. markets s' = markets s @ news \<and> new_children slugify now g ddl cat crit s' news inps
     \<and> (\<forall>k \<in> mk_id ` set (markets s). market_outcomes k s' = market_outcomes k s)
     \<and> same_books s s' \<and> bets s' = bets s \<and> market_groups s' = market_groups s \<and> catalog_ok s'"
  using assms
proof (induction inps arbitrary: j s)
  case Nil
  then show ?case by (auto simp: new_children_def same_books_def)
next
  case (Cons inp inps)
  obtain i u y n where k: "kids j = (i, u, y, n)" by (cases "kids j") auto
  obtain s1 where s1: "add_event_child slugify now g ddl cat crit ((i, u, y, n), inp) s = Inr s1"
    and rest: "foldE (\<lambda>(k, inp). add_event_child slugify now g ddl cat crit (kids k, inp)) (List.enumerate (Suc j) inps) s1 = Inr s'"
    using Cons.prems(1) by (auto simp: k)
  obtain m where m: "markets s1 = markets s @ [m]" "event_row slugify now g ddl cat crit m inp"
    "priced_pair inp (market_outcomes (mk_id m) s1)"
    "\<forall>k \<in> mk_id ` set (markets s). market_outcomes k s1 = market_outcomes k s"
    "same_books s s1" "bets s1 = bets s" "market_groups s1 = market_groups s" "catalog_ok s1"
    using add_event_child_Inr [OF s1 Cons.prems(2)] by blast
  obtain news where n: "markets s' = markets s1 @ news" "new_children slugify now g ddl cat crit s' news inps"
    "\<forall>k \<in> mk_id ` set (markets s1). market_outcomes k s' = market_outcomes k s1"
    "same_books s1 s'" "bets s' = bets s1" "market_groups s' = market_groups s1" "catalog_ok s'"
    using Cons.IH [OF rest m(8)] by blast
  have "new_children slugify now g ddl cat crit s' (m # news) (inp # inps)"
    using n(2,3) m(1-3) by (simp add: new_children_def)
  moreover have "\<forall>k \<in> mk_id ` set (markets s). market_outcomes k s' = market_outcomes k s"
    using n(3) m(1,4) by simp
  ultimately show ?case
    using n m same_books_trans [OF m(5) n(4)] by (intro exI [of _ "m # news"]) simp
qed

lemma insert_group_with_slug_Inr:
  assumes "insert_group_with_slug slugify draws False now b s = Inr (g, s')"
  shows "s' = s\<lparr>market_groups := market_groups s @ [g]\<rparr> \<and> mg_id g \<notin> mg_id ` set (market_groups s)
     \<and> mg_source g = HOUSE \<and> mg_title g = ce_title b \<and> mg_category g = ce_category b"
proof (cases draws)
  case (Cons d rest)
  obtain i u where d: "d = (i, u)" by (cases d) simp
  show ?thesis
  proof (cases "insert_group (new_group slugify i u now b) s")
    case (Inr t)
    then show ?thesis using assms
      by (auto simp: Cons d insert_group_def new_group_def split: if_splits)
  next
    case (Inl e)
    then show ?thesis using assms by (cases e) (simp_all add: Cons d)
  qed
qed (use assms in simp)

subsection \<open>Creating an event\<close>

text \<open>The group of a market exists.\<close>

definition groups_ok :: "'a db_scheme \<Rightarrow> bool" where
  "groups_ok s \<longleftrightarrow> distinct (map mg_id (market_groups s))
     \<and> (\<forall>m \<in> set (markets s). opt_all (\<lambda>g. g \<in> mg_id ` set (market_groups s)) (group_id m))"

lemma event_row_fields:
  assumes "event_row slugify now g ddl cat crit m inp"
  shows "group_id m = Some (mg_id g)" "mk_status m = OPEN" "group_item_title m = Some (oi_label inp)"
    "resolution_criteria m = (case crit of None \<Rightarrow> DEFAULT_EVENT_CHILD_CRITERIA
        | Some c \<Rightarrow> if c = [] then DEFAULT_EVENT_CHILD_CRITERIA else c)"
  using assms by (auto simp: event_row_def event_child_def)

lemma new_children_group:
  assumes "new_children slugify now g ddl cat crit s news inps"
  shows "filter (\<lambda>m. group_id m = Some (mg_id g)) news = news"
proof -
  have "\<forall>m \<in> set news. group_id m = Some (mg_id g)"
    using assms event_row_fields by (fastforce simp: new_children_def list_all2_conv_all_nth in_set_conv_nth)
  then show ?thesis by (simp add: filter_id_conv)
qed

text \<open>
  An accepted request creates its event completely.  The group is a new house group; its children
  are one open market per outcome of the request, in order, each with exactly a YES outcome at the
  requested price and a NO outcome at the complement; balances, bets and every other market are
  untouched and the catalogue invariant holds.
\<close>

theorem post_event_opens:
  fixes s s' :: "'a db_scheme"
  assumes "post_event slugify draws kids aid now admin b s = Inr (g, s')" "catalog_ok s" "groups_ok s"
  shows "get_group (mg_id g) s = None \<and> get_group (mg_id g) s' = Some g \<and> mg_source g = HOUSE
     \<and> 2 \<le> length (group_children (mg_id g) s')
     \<and> new_children slugify now g (ce_deadline b) (ce_category b) (ce_criteria b) s' (group_children (mg_id g) s') (ce_outcomes b)
     \<and> markets s' = markets s @ group_children (mg_id g) s'
     \<and> same_books s s' \<and> bets s' = bets s \<and> catalog_ok s'"
proof -
  have two: "2 \<le> length (ce_outcomes b)" using assms(1) by (auto simp: post_event_def validate_create_event_def split: if_splits)
  have ch: "create_house_event slugify draws kids aid now admin b s = Inr (g, s')"
    using assms(1) by (auto simp: post_event_def validate_create_event_def split: if_splits)
  obtain s1 s2 body where g: "insert_group_with_slug slugify (take 3 draws) False now b (begin_tx s) = Inr (g, s1)"
    and loop: "foldE (\<lambda>(k, inp). add_event_child slugify now g (ce_deadline b) (ce_category b) (ce_criteria b) (kids k, inp))
        (List.enumerate 0 (ce_outcomes b)) s1 = Inr s2"
    and a: "audit_record aid now (actor_string (Some admin)) ''event.created'' body None s2 = Inr s'"
    using ch by (auto simp: create_house_event_def)
  note gi = insert_group_with_slug_Inr [OF g]
  have "same_catalog s (begin_tx s)" by (rule same_catalog_more) simp
  then have t: "markets s1 = markets s" "outcomes s1 = outcomes s" "odds_snapshots s1 = odds_snapshots s"
    "market_groups s1 = market_groups s @ [g]" "mg_id g \<notin> mg_id ` set (market_groups s)"
    using gi by (simp_all add: same_catalog_def)
  have c1: "catalog_ok s1" by (rule catalog_ok_frame [OF t(1-3) assms(2)])
  have b1: "same_books s s1" "bets s1 = bets s" using gi by (simp_all add: same_books_def begin_tx_def)
  obtain news where n: "markets s2 = markets s1 @ news" "new_children slugify now g (ce_deadline b) (ce_category b) (ce_criteria b) s2 news (ce_outcomes b)"
    "same_books s1 s2" "bets s2 = bets s1" "market_groups s2 = market_groups s1" "catalog_ok s2"
    using add_children_Inr [OF loop c1] by blast
  have a': "markets s' = markets s2" "market_outcomes k s' = market_outcomes k s2" "market_groups s' = market_groups s2" "same_books s2 s'" "bets s' = bets s2" for k
    using a by (simp_all add: audit_record_Inr market_outcomes_def)
  have "group_id m \<noteq> Some (mg_id g)" if "m \<in> set (markets s)" for m
    using assms(3) t(5) that by (cases "group_id m") (auto simp: groups_ok_def opt_all_def)
  then have old: "filter (\<lambda>m. group_id m = Some (mg_id g)) (markets s) = []" by (simp add: filter_empty_conv)
  then have kids: "group_children (mg_id g) s' = news"
    using new_children_group [OF n(2)] by (simp add: group_children_def a'(1) n(1) t(1))
  have "new_children slugify now g (ce_deadline b) (ce_category b) (ce_criteria b) s' news (ce_outcomes b)"
    using n(2) by (simp add: new_children_def a'(2))
  moreover have "length news = length (ce_outcomes b)" using n(2) by (simp add: new_children_def list_all2_lengthD)
  moreover have none: "List.find (\<lambda>h. mg_id h = mg_id g) gs = None" if "mg_id g \<notin> mg_id ` set gs" for gs
    using that by (induction gs) auto
  have "List.find (\<lambda>h. mg_id h = mg_id g) (gs @ [g]) = Some g" if "mg_id g \<notin> mg_id ` set gs" for gs
    using that by (induction gs) auto
  then have "get_group (mg_id g) s' = Some g" "get_group (mg_id g) s = None"
    using none t(5) by (simp_all add: get_group_def a'(3) n(5) t(4))
  moreover have "catalog_ok s'" by (rule catalog_audit [OF a n(6)])
  moreover have "same_books s s'" using b1(1) n(3) a'(4) same_books_trans by blast
  ultimately show ?thesis using kids two gi n(1,4) t(1) a'(1,5) b1(2) by simp
qed

subsection \<open>Editing an event\<close>

lemma catalog_delete_children:
  assumes "catalog_ok s"
  shows "catalog_ok (delete_children gid s)"
proof -
  let ?gone = "mk_id ` set (group_children gid s)"
  note c = assms [unfolded catalog_ok_def]
  have kept: "i \<in> mk_id ` set (filter (\<lambda>m. group_id m \<noteq> Some gid) (markets s))"
    if "i \<in> mk_id ` set (markets s)" "i \<notin> ?gone" for i
    using that by (auto simp: group_children_def)
  have mo: "length (market_outcomes i (delete_children gid s)) \<le> 2" for i
  proof -
    have "market_outcomes i (delete_children gid s) = filter (\<lambda>oc. oc_market_id oc \<notin> ?gone) (market_outcomes i s)"
      by (simp add: market_outcomes_def delete_children_def Let_def conj_commute)
    then show ?thesis using c by (metis le_trans length_filter_le)
  qed
  have oc: "oc_market_id x \<in> mk_id ` set (filter (\<lambda>m. group_id m \<noteq> Some gid) (markets s))"
    if "x \<in> set (outcomes s)" "oc_market_id x \<notin> ?gone" for x
    using kept that c by blast
  have os: "os_outcome_id y \<in> oc_id ` set (filter (\<lambda>x. oc_market_id x \<notin> ?gone) (outcomes s))"
    if y: "y \<in> set (odds_snapshots s)"
      "os_outcome_id y \<notin> oc_id ` set (filter (\<lambda>x. oc_market_id x \<in> ?gone) (outcomes s))" for y
  proof -
    obtain x where x: "x \<in> set (outcomes s)" "oc_id x = os_outcome_id y" using c y(1) by force
    then have "oc_market_id x \<notin> ?gone" using y(2) by force
    with x show ?thesis by force
  qed
  show ?thesis
    unfolding catalog_ok_def
  proof (intro conjI ballI allI)
    fix x assume "x \<in> set (outcomes (delete_children gid s))"
    then have x: "x \<in> set (outcomes s)" "oc_market_id x \<notin> ?gone" by (auto simp: delete_children_def Let_def)
    show "oc_market_id x \<in> mk_id ` set (markets (delete_children gid s))"
      using oc [OF x] by (simp add: delete_children_def Let_def)
    show "is_probability (initial_odds x)" "is_probability (current_odds x)" using c x(1) by blast+
  next
    fix y assume "y \<in> set (odds_snapshots (delete_children gid s))"
    then have y: "y \<in> set (odds_snapshots s)" "os_market_id y \<notin> ?gone"
      "os_outcome_id y \<notin> oc_id ` set (filter (\<lambda>x. oc_market_id x \<in> ?gone) (outcomes s))"
      by (simp_all add: delete_children_def Let_def)
    show "os_market_id y \<in> mk_id ` set (markets (delete_children gid s))"
      using kept [of "os_market_id y"] y(1,2) c by (simp add: delete_children_def Let_def)
    show "os_outcome_id y \<in> oc_id ` set (outcomes (delete_children gid s))"
      using os [OF y(1,3)] by (simp add: delete_children_def Let_def)
    show "is_probability (probability y)" using c y(1) by blast
  qed (use c mo in \<open>simp_all add: delete_children_def Let_def distinct_map_filter\<close>)
qed

text \<open>The replacement branch in terms of the new deadline.\<close>

lemma update_house_event_replace:
  assumes "update_house_event slugify kids now gid b s = Inr s'" "ue_outcomes b = Some ocs"
  obtains g0 g ddl where "get_group gid s = Some g0"
    "g = g0\<lparr>mg_title := given (ue_title b) (mg_title g0),
       mg_category := (case ue_category b of None \<Rightarrow> mg_category g0 | Some c \<Rightarrow> Some c)\<rparr>"
    "foldE (\<lambda>(k, inp). add_event_child slugify now g ddl (mg_category g) None (kids k, inp)) (List.enumerate 0 ocs)
       (delete_children gid (update_group_row gid (\<lambda>_. g) s)) = Inr s'"
proof -
  obtain g0 where g0: "get_group gid s = Some g0" using assms(1) by (auto simp: update_house_event_def split: option.splits)
  show thesis
  proof (cases "ue_deadline b")
    case (Some d)
    then show thesis using that [OF g0 refl] assms g0 by (simp add: update_house_event_def Let_def)
  next
    case None
    then obtain c cs where "group_children gid s = c # cs"
      using assms g0 by (cases "group_children gid s") (simp_all add: update_house_event_def Let_def)
    then show thesis using that [OF g0 refl, of "deadline c"] assms g0 None by (simp add: update_house_event_def Let_def)
  qed
qed

text \<open>
  Editing an event.  After the first bet on a child every edit is refused with 423.  Before it, a
  replacement of the outcomes replaces exactly the children of the group, keeps every other market,
  the books and the catalogue invariant, and always resets the resolution criteria of the children to
  the default text, whatever criteria the event was created with.
\<close>

theorem patch_event_replaces:
  fixes s :: "'a db_scheme"
  assumes "validate_update_event now b = Inr b" "get_group gid s \<noteq> None" "catalog_ok s"
  shows "(event_has_bets gid s \<longrightarrow> patch_event slugify kids now gid b s = Inl (HTTPException 423))
     \<and> (\<forall>s' ocs. patch_event slugify kids now gid b s = Inr s' \<and> ue_outcomes b = Some ocs \<longrightarrow>
          (\<exists>g ddl. mg_id g = gid
             \<and> new_children slugify now g ddl (mg_category g) None s' (group_children gid s') ocs)
          \<and> (\<forall>m \<in> set (group_children gid s'). resolution_criteria m = DEFAULT_EVENT_CHILD_CRITERIA \<and> mk_status m = OPEN)
          \<and> filter (\<lambda>m. group_id m \<noteq> Some gid) (markets s') = filter (\<lambda>m. group_id m \<noteq> Some gid) (markets s)
          \<and> same_books s s' \<and> bets s' = bets s \<and> catalog_ok s')"
proof (intro conjI impI allI)
  show "patch_event slugify kids now gid b s = Inl (HTTPException 423)" if "event_has_bets gid s"
    using that assms(1,2) by (simp add: patch_event_def)
next
  fix s' ocs
  assume "patch_event slugify kids now gid b s = Inr s' \<and> ue_outcomes b = Some ocs"
  then have u: "update_house_event slugify kids now gid b (begin_tx s) = Inr s'" "ue_outcomes b = Some ocs"
    using assms(1) by (auto simp: patch_event_def split: if_splits)
  from u obtain g0 g ddl where g0: "get_group gid (begin_tx s) = Some g0"
    and g: "g = g0\<lparr>mg_title := given (ue_title b) (mg_title g0),
       mg_category := (case ue_category b of None \<Rightarrow> mg_category g0 | Some c \<Rightarrow> Some c)\<rparr>"
    and loop: "foldE (\<lambda>(k, inp). add_event_child slugify now g ddl (mg_category g) None (kids k, inp)) (List.enumerate 0 ocs)
       (delete_children gid (update_group_row gid (\<lambda>_. g) (begin_tx s))) = Inr s'"
    by (rule update_house_event_replace)
  let ?s1 = "update_group_row gid (\<lambda>_. g) (begin_tx s)" and ?s2 = "delete_children gid (update_group_row gid (\<lambda>_. g) (begin_tx s))"
  have c0: "same_catalog s (begin_tx s)" "bets (begin_tx s) = bets s"
    by (rule same_catalog_more) (simp, rule more_fields(1), simp)
  have id: "mg_id g = gid" using g0 by (simp add: g get_group_def find_Some_iff) metis
  have "catalog_ok ?s1"
    by (rule catalog_ok_frame [where s = s]) (use c0(1) assms(3) in \<open>simp_all add: update_group_row_def same_catalog_def\<close>)
  then have c2: "catalog_ok ?s2" by (rule catalog_delete_children)
  obtain news where n: "markets s' = markets ?s2 @ news" "new_children slugify now g ddl (mg_category g) None s' news ocs"
    "same_books ?s2 s'" "bets s' = bets ?s2" "catalog_ok s'"
    using add_children_Inr [OF loop c2] by blast
  have m2: "markets ?s2 = filter (\<lambda>m. group_id m \<noteq> Some gid) (markets s)"
    using c0(1) by (simp add: delete_children_def Let_def update_group_row_def same_catalog_def)
  have kids: "group_children gid s' = news"
    using new_children_group [OF n(2)] by (simp add: group_children_def n(1) m2 id)
  have fields: "\<forall>m \<in> set news. resolution_criteria m = DEFAULT_EVENT_CHILD_CRITERIA \<and> mk_status m = OPEN"
    using n(2) event_row_fields by (fastforce simp: new_children_def list_all2_conv_all_nth in_set_conv_nth)
  show "\<exists>g ddl. mg_id g = gid \<and> new_children slugify now g ddl (mg_category g) None s' (group_children gid s') ocs"
    using id n(2) by (auto simp: kids)
  show "\<forall>m \<in> set (group_children gid s'). resolution_criteria m = DEFAULT_EVENT_CHILD_CRITERIA \<and> mk_status m = OPEN"
    using fields by (simp add: kids)
  have "filter (\<lambda>m. group_id m \<noteq> Some gid) news = []"
    using new_children_group [OF n(2)] unfolding id filter_id_conv by (simp add: filter_empty_conv)
  then show "filter (\<lambda>m. group_id m \<noteq> Some gid) (markets s') = filter (\<lambda>m. group_id m \<noteq> Some gid) (markets s)"
    by (simp add: n(1) m2)
  have "same_books s ?s2" by (simp add: same_books_def delete_children_def Let_def update_group_row_def begin_tx_def)
  then show "same_books s s'" using n(3) same_books_trans by blast
  show "bets s' = bets s" using n(4) c0(2) by (simp add: delete_children_def Let_def update_group_row_def)
  show "catalog_ok s'" by (rule n(5))
qed

subsection \<open>Sample requests\<close>

definition demo_event_request :: create_event_request where
  "demo_event_request = \<lparr>ce_title = ''cup'', ce_category = None, ce_deadline = 1000, ce_criteria = Some ''c'', ce_slug = Some ''cup-1'',
     ce_outcomes = [\<lparr>oi_label = ''a'', oi_odds = 3/10\<rparr>, \<lparr>oi_label = ''b'', oi_odds = 7/10\<rparr>]\<rparr>"

definition demo_kids :: "nat \<Rightarrow> event_child_ids" where
  "demo_kids k = (0xc0 + 4 * of_nat k, 0xab, 0xc1 + 4 * of_nat k, 0xc2 + 4 * of_nat k)"

lemma demo_event_created:
  "okE (\<lambda>(g, s'). mg_id g = 0x40) (post_event (\<lambda>q. q) [(0x40, 0xab)] demo_kids 0x91 20 4 demo_event_request demo_db)"
  by code_simp

lemma post_event_opens_witness:
  "okE (\<lambda>(g, s'). length (group_children 0x40 s') = 2 \<and> catalog_ok s')
     (post_event (\<lambda>q. q) [(0x40, 0xab)] demo_kids 0x91 20 4 demo_event_request demo_db)"
proof -
  obtain g s' where e: "post_event (\<lambda>q. q) [(0x40, 0xab)] demo_kids 0x91 20 4 demo_event_request demo_db = Inr (g, s')" "mg_id g = 0x40"
    using demo_event_created by (auto simp: okE_iff)
  have "groups_ok demo_db" by (simp add: groups_ok_def demo_db_def opt_all_def)
  from post_event_opens [OF e(1) demo_catalog this] e show ?thesis
    by (auto simp: okE_iff new_children_def demo_event_request_def dest: list_all2_lengthD)
qed

definition demo_event_edit :: update_event_request where
  "demo_event_edit = \<lparr>ue_title = None, ue_category = None, ue_deadline = None,
     ue_outcomes = Some [\<lparr>oi_label = ''a'', oi_odds = 1/2\<rparr>, \<lparr>oi_label = ''b'', oi_odds = 1/4\<rparr>]\<rparr>"

lemma patch_event_replaces_witness:
  "patch_event (\<lambda>q. q) demo_kids 20 0x30 demo_event_edit demo_event_db = Inl (HTTPException 423)
     \<and> okE (\<lambda>s'. \<forall>m \<in> set (group_children 0x30 s'). resolution_criteria m = DEFAULT_EVENT_CHILD_CRITERIA)
         (patch_event (\<lambda>q. q) demo_kids 20 0x30 demo_event_edit (demo_event_db\<lparr>bets := []\<rparr>))"
proof -
  have v: "validate_update_event 20 demo_event_edit = Inr demo_event_edit"
    by (simp add: validate_update_event_def demo_event_edit_def valid_outcome_input_def opt_all_def)
  have g: "get_group 0x30 demo_event_db \<noteq> None" "get_group 0x30 (demo_event_db\<lparr>bets := []\<rparr>) \<noteq> None"
    by (simp_all add: get_group_def demo_event_db_def)
  have c: "catalog_ok (demo_event_db\<lparr>bets := []\<rparr>)" by (rule catalog_ok_frame [OF _ _ _ demo_event_catalog]) simp_all
  have "event_has_bets 0x30 demo_event_db" by code_simp
  moreover have "okE (\<lambda>_. True) (patch_event (\<lambda>q. q) demo_kids 20 0x30 demo_event_edit (demo_event_db\<lparr>bets := []\<rparr>))" by code_simp
  then obtain s' where "patch_event (\<lambda>q. q) demo_kids 20 0x30 demo_event_edit (demo_event_db\<lparr>bets := []\<rparr>) = Inr s'"
    by (auto simp: okE_iff)
  moreover have "\<exists>ocs. ue_outcomes demo_event_edit = Some ocs" by (simp add: demo_event_edit_def)
  ultimately show ?thesis
    using patch_event_replaces [OF v g(1) demo_event_catalog, of "\<lambda>q. q" demo_kids]
      patch_event_replaces [OF v g(2) c, of "\<lambda>q. q" demo_kids] by (auto simp: okE_iff)
qed

end
