(* ===== verification/Aside.thy ===== *)
theory Aside
  imports EventEdits
begin

text \<open>
  Operations that leave the books, the bets and the tables of the live-bets bridge alone and only
  append to the audit log.
\<close>

definition audit_grows :: "'a db_scheme \<Rightarrow> 'a db_scheme \<Rightarrow> bool" where
  "audit_grows s s' \<longleftrightarrow> (\<exists>rows. audit_log s' = audit_log s @ rows)"

lemma audit_grows_same [intro]: "audit_log s' = audit_log s \<Longrightarrow> audit_grows s s'"
  by (simp add: audit_grows_def)

lemma audit_grows_refl [simp]: "audit_grows s s"
  by (rule audit_grows_same) (rule refl)

lemma audit_grows_trans [trans]: "audit_grows s t \<Longrightarrow> audit_grows t u \<Longrightarrow> audit_grows s u"
  by (auto simp: audit_grows_def)

lemma audit_grows_record: "audit_record i now ac ev body ip s = Inr s' \<Longrightarrow> audit_grows s s'"
  by (auto simp: audit_record_Inr audit_grows_def)

definition aside :: "'a db_scheme \<Rightarrow> 'a db_scheme \<Rightarrow> bool" where
  "aside s s' \<longleftrightarrow> same_books s s' \<and> bets s' = bets s \<and> db.more s' = db.more s \<and> audit_grows s s'"

named_theorems asides \<open>operations that leave books, bets and the bridge alone\<close>

lemma aside_trans [trans]: "aside s t \<Longrightarrow> aside t u \<Longrightarrow> aside s u"
  by (auto simp: aside_def same_books_def intro: audit_grows_trans)

lemma aside_rows [asides, simp]: "aside s (begin_tx s)" "aside s (update_market_row u f s)" "aside s (update_outcome_row u g s)"
  "aside s (update_group_row u h s)" "aside s (delete_children u s)" "aside s s" "aside s (s\<lparr>markets := ms\<rparr>)"
  by (simp_all add: aside_def same_books_def begin_tx_def update_market_row_def update_outcome_row_def
      update_group_row_def delete_children_def Let_def audit_grows_def)

lemma aside_inserts [asides]: "insert_market m s = Inr (m', s') \<Longrightarrow> aside s s'" "insert_outcome oc s = Inr (oc', s') \<Longrightarrow> aside s s'"
  "insert_snapshot os s = Inr s' \<Longrightarrow> aside s s'" "insert_group g s = Inr s' \<Longrightarrow> aside s s'"
  by (auto simp: aside_def same_books_def insert_group_def audit_grows_def elim!: insert_market_Inr insert_outcome_Inr insert_snapshot_Inr split: if_splits)

lemma aside_groups: "aside s (s\<lparr>market_groups := gs\<rparr>)"
  by (simp add: aside_def same_books_def audit_grows_def)

lemma aside_audit [asides]: "audit_record i now ac ev body ip s = Inr s' \<Longrightarrow> aside s s'"
  by (auto simp: aside_def audit_record_Inr same_books_def audit_grows_def)

lemma aside_fold: "foldE f xs s = Inr s' \<Longrightarrow> (\<And>x u v. x \<in> set xs \<Longrightarrow> f x u = Inr v \<Longrightarrow> aside u v) \<Longrightarrow> aside s s'"
  by (rule foldE_invariant [where P = "aside s"]) (auto intro: aside_trans)

end
