(* ===== verification/GammaRules.thy ===== *)
theory GammaRules
  imports GammaTasks Aside
begin

text \<open>
  What the mirror can and cannot change.  \<open>mirror_writes\<close> is the interface of a relation between states
  that the primitive writes of the adapter respect; the polls then respect it whatever Gamma answers.
  Its interpretations say that a poll keeps the catalogue invariant and the rows of the house markets.
\<close>

subsection \<open>The writes of the adapter\<close>

locale mirror_writes =
  fixes rel :: "'a db_scheme \<Rightarrow> 'a db_scheme \<Rightarrow> bool"
  assumes rel_refl: "rel s s"
    and rel_trans: "rel s t \<Longrightarrow> rel t u \<Longrightarrow> rel s u"
    and rel_begin: "rel s (begin_tx s)"
    and rel_insert_market: "insert_market m s = Inr (m', s') \<Longrightarrow> mk_source m = POLYMARKET \<Longrightarrow> rel s s'"
    and rel_update_market: "m \<in> set (markets s) \<Longrightarrow> mk_source m = POLYMARKET \<Longrightarrow>
      (\<And>n. mk_id (f n) = mk_id n \<and> mk_slug (f n) = mk_slug n \<and> mk_source (f n) = mk_source n) \<Longrightarrow>
      rel s (update_market_row (mk_id m) f s)"
    and rel_insert_outcome: "insert_outcome oc s = Inr (oc', s') \<Longrightarrow> rel s s'"
    and rel_set_odds: "probability_column v = Inr c \<Longrightarrow> rel s (update_outcome_row i (\<lambda>oc. oc\<lparr>current_odds := c\<rparr>) s)"
    and rel_insert_group: "insert_group g s = Inr s' \<Longrightarrow> rel s s'"
    and rel_update_groups: "rel s (s\<lparr>market_groups := gs\<rparr>)"
    and rel_insert_snapshot: "insert_snapshot os s = Inr s' \<Longrightarrow> rel s s'"
begin

lemma rel_foldE:
  "foldE f xs st = Inr st' \<Longrightarrow> (\<And>x u v. f x u = Inr v \<Longrightarrow> rel (p u) (p v)) \<Longrightarrow> rel (p st) (p st')"
proof (induction xs arbitrary: st)
  case (Cons x xs)
  then obtain u where "f x st = Inr u" "foldE f xs u = Inr st'" by auto
  then show ?case using Cons.IH [of u] Cons.prems(2) by (blast intro: rel_trans)
qed (simp add: rel_refl)

lemma rel_upsert_market: "upsert_market src row s = Inr s' \<Longrightarrow> mk_source row = POLYMARKET \<Longrightarrow> rel s s'"
proof -
  assume u: "upsert_market src row s = Inr s'" and p: "mk_source row = POLYMARKET"
  show ?thesis
  proof (cases "filter (mirrored_row src) (markets s)")
    case Nil
    then obtain m' where "insert_market row s = Inr (m', s')" using u by (auto simp: upsert_market_def)
    then show ?thesis using p by (rule rel_insert_market)
  next
    case (Cons m ms)
    then have m: "m \<in> set (filter (mirrored_row src) (markets s))" by simp
    then have m: "m \<in> set (markets s)" "mk_source m = POLYMARKET" by (simp_all add: mirrored_row_def)
    obtain v v24 where "s' = update_market_row (mk_id m) (overwrite row v v24) s"
      using u Cons by (auto simp: upsert_market_def)
    then show ?thesis using m by (auto intro!: rel_update_market simp: overwrite_def)
  qed
qed

lemma rel_flush: "flush w s = Inr s' \<Longrightarrow> rel s s'"
proof (cases w)
  case (SetOdds u p)
  then show "flush w s = Inr s' \<Longrightarrow> rel s s'"
    by (cases p) (auto simp: price_column_def intro: rel_set_odds)
next
  case (AddOutcome i mid lbl p)
  then show "flush w s = Inr s' \<Longrightarrow> rel s s'"
    by (cases p) (auto simp: price_column_def intro: rel_insert_outcome)
qed (auto intro: rel_refl)

lemma rel_sync_outcome: "sync_outcome oids mid prices x (w, ds, s) = Inr (w', ds', s') \<Longrightarrow> rel s s'"
  by (cases x) (auto simp: sync_outcome_def intro: rel_flush split: option.splits if_splits)

lemma rel_sync_outcomes: "sync_outcomes oids mid g s = Inr (ds, s') \<Longrightarrow> rel s s'"
proof (cases "outcomes_raw g = [] \<or> outcome_prices_raw g = []")
  case False
  assume "sync_outcomes oids mid g s = Inr (ds, s')"
  then obtain w t where f: "foldE (sync_outcome oids mid (outcome_prices_raw g))
      (List.enumerate 0 (take 2 (outcomes_raw g))) (NoWrite, [], s) = Inr (w, ds, t)" "flush w t = Inr s'"
    using False by (auto simp: sync_outcomes_def)
  have "rel s t" using rel_foldE [where p = "\<lambda>st. snd (snd st)", OF f(1)] rel_sync_outcome by fastforce
  with rel_flush [OF f(2)] show ?thesis by (auto intro: rel_trans)
qed (auto simp: sync_outcomes_def intro: rel_refl)

lemma rel_upsert_one: "upsert_one_market slugify iso_parse now draw gid cat g s = Inr (ok, ds, s') \<Longrightarrow> rel s s'"
proof -
  obtain c i u oids where d: "draw = (c, i, u, oids)" by (cases draw)
  have src: "mk_source (gamma_row slugify iso_parse now draw gid cat g) = POLYMARKET" by (simp add: gamma_row_def d)
  have body: "rel s t" if "upsert_body slugify iso_parse now draw gid cat g s = Inr (Some x, t)" for x t
    using that rel_upsert_market [OF _ src] rel_sync_outcomes
    by (fastforce simp: upsert_body_def d split: option.splits intro: rel_trans)
  assume "upsert_one_market slugify iso_parse now draw gid cat g s = Inr (ok, ds, s')"
  then show ?thesis
    by (auto simp: upsert_one_market_def intro: rel_refl body split: sum.splits exn.splits option.splits prod.splits)
qed

lemma rel_sync_child: "sync_child slugify iso_parse now draws gid cat x (n, ch, s) = Inr (n', ch', s') \<Longrightarrow> rel s s'"
  by (cases x) (auto simp: sync_child_def intro: rel_upsert_one)

lemma rel_sync_children:
  "foldE (sync_child slugify iso_parse now draws gid cat) xs (n, ch, s) = Inr (n', ch', s') \<Longrightarrow> rel s s'"
  by (drule rel_foldE [where p = "\<lambda>st. snd (snd st)"]) (auto intro: rel_sync_child)

lemma rel_upsert_group: "upsert_group now i slug cat ev s = Inr s' \<Longrightarrow> rel s s'"
  by (auto simp: upsert_group_def intro: rel_update_groups rel_insert_group split: if_splits)

lemma rel_upsert_market_group: "upsert_market_group slugify now draw cat ev s = Inr (gid, s') \<Longrightarrow> rel s s'"
  by (cases draw) (auto simp: upsert_market_group_def Let_def intro: rel_upsert_group split: sum.splits exn.splits)

lemma rel_sync_event: "sync_event slugify iso_parse now draws cat x (n, ch, s) = Inr (n', ch', s') \<Longrightarrow> rel s s'"
proof -
  obtain k ev where x: "x = (k, ev)" by (cases x)
  obtain gd cd where d: "draws k = (gd, cd)" by (cases "draws k")
  assume "sync_event slugify iso_parse now draws cat x (n, ch, s) = Inr (n', ch', s')"
  then show ?thesis
    by (auto simp: sync_event_def x d simp del: foldE.simps enumerate_simps split: list.splits if_splits
        intro: rel_refl rel_sync_child rel_trans [OF rel_upsert_market_group rel_sync_children])
qed

lemma rel_sync_events: "sync_events slugify iso_parse now draws cat evs s = Inr (n, ch, s') \<Longrightarrow> rel s s'"
  unfolding sync_events_def
  by (drule rel_foldE [where p = "\<lambda>st. snd (snd st)"]) (auto intro: rel_sync_event)

lemma rel_poll_sync: "poll_sync fetched validate slugify iso_parse now draws s = (ch, s') \<Longrightarrow> rel s s'"
  by (auto simp: poll_sync_def sync_top25_def split: sum.splits
      intro: rel_refl rel_trans [OF rel_begin rel_sync_children])

lemma rel_poll_category:
  "poll_category fetch validate slugify iso_parse fl n draws x (seen, pub, s) = (seen', pub', s') \<Longrightarrow> rel s s'"
  by (cases x) (auto simp: poll_category_def Let_def split: sum.splits prod.splits if_splits
      intro: rel_refl rel_trans [OF rel_begin rel_sync_events])

lemma rel_poll_events:
  assumes "poll_events cats fetch validate slugify iso_parse fl n draws s = (ch, s')"
  shows "rel s s'"
proof -
  have "rel (snd (snd st)) (snd (snd (fold (poll_category fetch validate slugify iso_parse fl n draws) xs st)))" for xs st
  proof (induction xs arbitrary: st)
    case (Cons x xs)
    have "rel (snd (snd st)) (snd (snd (poll_category fetch validate slugify iso_parse fl n draws x st)))"
      using rel_poll_category by (metis prod.collapse)
    from rel_trans [OF this Cons] show ?case by simp
  qed (simp add: rel_refl)
  from this [of "([], [], s)" "List.enumerate 0 cats"] show ?thesis using assms by (simp add: poll_events_def)
qed

lemma rel_snapshot: "rel s (run_snapshot_odds gen now s)"
proof (cases "foldE (\<lambda>(k, oc). insert_snapshot (new_snapshot (gen k) (oc_market_id oc) (oc_id oc) (current_odds oc) now))
             (List.enumerate 0 (open_outcomes s)) (begin_tx s)")
  case (Inr s')
  then have "rel (begin_tx s) s'"
    by (rule rel_foldE [where p = id, simplified]) (auto intro: rel_insert_snapshot)
  with Inr show ?thesis by (auto simp: run_snapshot_odds_def intro: rel_refl rel_trans [OF rel_begin])
qed (auto simp: run_snapshot_odds_def intro: rel_refl)

end

text \<open>The catalogue invariant, and the rows of the house markets.\<close>

definition keeps_catalog :: "'a db_scheme \<Rightarrow> 'a db_scheme \<Rightarrow> bool" where
  "keeps_catalog s s' \<longleftrightarrow> (catalog_ok s \<longrightarrow> catalog_ok s'
     \<and> filter (\<lambda>m. mk_source m = HOUSE) (markets s') = filter (\<lambda>m. mk_source m = HOUSE) (markets s))"

lemma house_rows_update:
  assumes "distinct (map mk_id ms)" "m \<in> set ms" "mk_source m = POLYMARKET" "\<And>n. mk_source (f n) = mk_source n"
  shows "filter (\<lambda>m. mk_source m = HOUSE) (update_where (\<lambda>n. mk_id n = mk_id m) f ms) = filter (\<lambda>m. mk_source m = HOUSE) ms"
proof -
  have "\<forall>n \<in> set ms. mk_id n = mk_id m \<longrightarrow> n = m" using assms(1,2) distinct_key_eq by metis
  moreover have "(\<forall>n \<in> set xs. mk_id n = mk_id m \<longrightarrow> n = m) \<Longrightarrow> filter (\<lambda>m. mk_source m = HOUSE) (update_where (\<lambda>n. mk_id n = mk_id m) f xs)
      = filter (\<lambda>m. mk_source m = HOUSE) xs" for xs
    using assms(3,4) by (induction xs) auto
  ultimately show ?thesis by blast
qed

lemma house_rows_inserts:
  "insert_market m s = Inr (m', s') \<Longrightarrow> mk_source m = POLYMARKET \<Longrightarrow>
    filter (\<lambda>m. mk_source m = HOUSE) (markets s') = filter (\<lambda>m. mk_source m = HOUSE) (markets s)"
  "insert_outcome oc s = Inr (oc', s') \<Longrightarrow> markets s' = markets s"
  "insert_snapshot os s = Inr s' \<Longrightarrow> markets s' = markets s"
  by (auto elim!: insert_market_Inr insert_outcome_Inr insert_snapshot_Inr)

interpretation catalog: mirror_writes keeps_catalog
proof unfold_locales
  fix s :: "'a db_scheme" and m :: market and f :: "market \<Rightarrow> market"
  assume m: "m \<in> set (markets s)" "mk_source m = POLYMARKET"
    and f: "\<And>n. mk_id (f n) = mk_id n \<and> mk_slug (f n) = mk_slug n \<and> mk_source (f n) = mk_source n"
  show "keeps_catalog s (update_market_row (mk_id m) f s)"
    using catalog_update_market [of f s "mk_id m"] house_rows_update [OF _ m, of f] f
    by (auto simp: keeps_catalog_def update_market_row_def catalog_ok_def)
qed (auto simp: keeps_catalog_def insert_group_def house_rows_inserts
    intro: catalog_ok_frame catalog_begin_tx catalog_insert_market catalog_insert_outcome catalog_insert_snapshot
    catalog_update_outcome probability_column_Inr split: if_splits, simp add: update_outcome_row_def)


interpretation untouched: mirror_writes aside
  by unfold_locales (auto intro: asides aside_trans simp: aside_groups)


subsection \<open>The resolution detector\<close>

text \<open>The winner the detector would settle a candidate on.\<close>

definition detect_decision ::
  "(string \<Rightarrow> json_object option result) \<Rightarrow> (json_object \<Rightarrow> gamma_market option) \<Rightarrow> int \<Rightarrow> int
    \<Rightarrow> market \<times> outcome list \<Rightarrow> uuid option" where
  "detect_decision fetch validate grace now x = (case source_market_id (fst x) of None \<Rightarrow> None
     | Some src \<Rightarrow> (case fetch src of Inl e \<Rightarrow> None
       | Inr raw \<Rightarrow> (case Option.bind raw validate of None \<Rightarrow> None | Some g \<Rightarrow> settle_winner grace now g x)))"

lemma start_grace_frame: "aside s (start_grace mid now s)"
  by (simp add: start_grace_def)

lemma detect_one_cases:
  fixes s s' :: "'a db_scheme"
  assumes "detect_one fetch validate grace now ids x s = Inr s'"
  obtains (same) "s' = s" | (grace) "s' = start_grace (mk_id (fst x)) now s"
    | (settled) w gen aid tx t plan where "detect_decision fetch validate grace now x = Some w"
      "resolve_market (house_resolver t) gen aid tx (mk_id (fst x)) w
         ''Auto-resolved: Polymarket UMA oracle confirmed resolution'' None s = Inr (plan, s')"
proof (cases "source_market_id (fst x)")
  case None then show thesis using assms same by (simp add: detect_one_def)
next
  case src: (Some src)
  obtain raw where raw: "fetch src = Inr raw" using assms by (auto simp: detect_one_def src)
  show thesis
  proof (cases "Option.bind raw validate")
    case None then show thesis using assms same by (simp add: detect_one_def src raw)
  next
    case g: (Some g)
    have one: "(if internal_status g = RESOLVED \<and> uma_resolved_at (fst x) = None then Inr (start_grace (mk_id (fst x)) now s)
         else case settle_winner grace now g x of
           None \<Rightarrow> Inr s
         | Some w \<Rightarrow> (case ids (mk_id (fst x)) of (gen, audit_id, tx_now, t) \<Rightarrow>
             case resolve_market (house_resolver t) gen audit_id tx_now (mk_id (fst x)) w
                    ''Auto-resolved: Polymarket UMA oracle confirmed resolution'' None s of
               Inl e \<Rightarrow> Inr s | Inr (plan, s') \<Rightarrow> Inr s')) = (Inr s' :: 'a db_scheme result)"
      using assms by (simp add: detect_one_def src raw g)
    have d: "detect_decision fetch validate grace now x = settle_winner grace now g x"
      by (simp add: detect_decision_def src raw g)
    obtain gen aid tx t where i: "ids (mk_id (fst x)) = (gen, aid, tx, t)" by (cases "ids (mk_id (fst x))")
    show thesis
      using one same grace settled [unfolded d] unfolding i by (auto split: if_splits option.splits sum.splits prod.splits)
  qed
qed

lemma detect_one_effect:
  fixes s s' :: "'a db_scheme"
  assumes "detect_one fetch validate grace now ids x s = Inr s'" "platform_ok s"
  shows "platform_ok s' \<and> (\<exists>f. bets s' = map (settle_by f) (bets s)
     \<and> (f = Map.empty \<or> (\<exists>w. f = [mk_id (fst x) \<mapsto> w] \<and> detect_decision fetch validate grace now x = Some w)))"
proof -
  have id: "\<exists>f. bets s = map (settle_by f) (bets s) \<and> f = Map.empty" by (simp add: map_idI)
  show ?thesis using assms(1)
  proof (cases rule: detect_one_cases)
    case same with id assms(2) show ?thesis by auto
  next
    case grace
    then have a: "aside s s'" using start_grace_frame by simp
    then have "platform_ok s'" using platform_frame assms(2) by (auto simp: aside_def)
    with a id show ?thesis by (auto simp: aside_def)
  next
    case (settled w gen aid tx t plan)
    note e = house.resolve_effect [OF settled(2) assms(2)]
    have "bets s' = map (settle_by [mk_id (fst x) \<mapsto> w]) (bets s)" using e(4) by (simp add: settle_by_single)
    with e(1) settled(1) show ?thesis by blast
  qed
qed

lemma detect_loop_effect:
  fixes s s' :: "'a db_scheme"
  assumes "detect_loop fetch validate grace now ids xs s = s'" "platform_ok s" "distinct (map (mk_id \<circ> fst) xs)"
  shows "platform_ok s' \<and> (\<exists>f. bets s' = map (settle_by f) (bets s)
     \<and> (\<forall>mid w. f mid = Some w \<longrightarrow> (\<exists>x \<in> set xs. mk_id (fst x) = mid \<and> detect_decision fetch validate grace now x = Some w)))"
  using assms
proof (induction xs arbitrary: s)
  case Nil
  then have "bets s' = map (settle_by Map.empty) (bets s)" by (simp add: map_idI)
  with Nil show ?case by (metis detect_loop.simps(1) option.distinct(1))
next
  case (Cons x xs)
  show ?case
  proof (cases "detect_one fetch validate grace now ids x s")
    case (Inl e)
    then have "bets s' = map (settle_by Map.empty) (bets s)" "s' = s" using Cons.prems(1) by (simp_all add: map_idI)
    with Cons.prems(2) show ?thesis by (metis option.distinct(1))
  next
    case (Inr s1)
    note one = detect_one_effect [OF Inr Cons.prems(2)]
    obtain h where h: "bets s1 = map (settle_by h) (bets s)"
      "h = Map.empty \<or> (\<exists>w. h = [mk_id (fst x) \<mapsto> w] \<and> detect_decision fetch validate grace now x = Some w)"
      using one by blast
    have rest: "detect_loop fetch validate grace now ids xs s1 = s'" using Cons.prems(1) Inr by simp
    obtain f where f: "platform_ok s'" "bets s' = map (settle_by f) (bets s1)"
      "\<forall>mid w. f mid = Some w \<longrightarrow> (\<exists>y \<in> set xs. mk_id (fst y) = mid \<and> detect_decision fetch validate grace now y = Some w)"
      using Cons.IH [OF rest conjunct1 [OF one]] Cons.prems(3) by auto
    show ?thesis
    proof (cases "h = Map.empty")
      case True
      then have "bets s1 = bets s" using h(1) by (simp add: map_idI)
      with f show ?thesis by auto
    next
      case False
      then obtain w where w: "h = [mk_id (fst x) \<mapsto> w]" "detect_decision fetch validate grace now x = Some w" using h(2) by blast
      have "mk_id (fst x) \<notin> (mk_id \<circ> fst) ` set xs" using Cons.prems(3) by simp
      then have nd: "mk_id (fst x) \<notin> dom f" using f(3) by (metis comp_apply domD imageI)
      have "bets s' = map (settle_by (f(mk_id (fst x) \<mapsto> w))) (bets s)"
        unfolding f(2) h(1) w(1) by (simp add: settle_by_upd [OF nd])
      moreover have "\<forall>mid u. (f(mk_id (fst x) \<mapsto> w)) mid = Some u \<longrightarrow>
          (\<exists>y \<in> set (x # xs). mk_id (fst y) = mid \<and> detect_decision fetch validate grace now y = Some u)"
        using f(3) w(2) by auto
      ultimately show ?thesis using f(1) by blast
    qed
  qed
qed


lemma candidates_distinct: "distinct (map mk_id (markets s)) \<Longrightarrow> distinct (map (mk_id \<circ> fst) (detect_candidates now s))"
  by (simp add: detect_candidates_def comp_def distinct_map_filter)

lemma detect_effect:
  fixes s :: "'a db_scheme"
  assumes "platform_ok s" "catalog_ok s"
  obtains f where "platform_ok (detect_resolutions fetch validate grace now ids s)"
    "bets (detect_resolutions fetch validate grace now ids s) = map (settle_by f) (bets s)"
    "\<And>mid w. f mid = Some w \<Longrightarrow> \<exists>m \<in> set (markets s). mk_id m = mid \<and> detect_candidate now m
       \<and> detect_decision fetch validate grace now (m, market_outcomes mid s) = Some w"
proof -
  have d: "distinct (map (mk_id \<circ> fst) (detect_candidates now s))"
    using assms(2) by (intro candidates_distinct) (simp add: catalog_ok_def)
  obtain f where f: "platform_ok (detect_resolutions fetch validate grace now ids s)"
    "bets (detect_resolutions fetch validate grace now ids s) = map (settle_by f) (bets s)"
    "\<forall>mid w. f mid = Some w \<longrightarrow> (\<exists>x \<in> set (detect_candidates now s). mk_id (fst x) = mid
       \<and> detect_decision fetch validate grace now x = Some w)"
    using detect_loop_effect [OF refl assms(1) d] unfolding detect_resolutions_def by blast
  show thesis
  proof (rule that [OF f(1,2)])
    fix mid w assume "f mid = Some w"
    then obtain x where x: "x \<in> set (detect_candidates now s)" "mk_id (fst x) = mid"
        "detect_decision fetch validate grace now x = Some w" using f(3) by blast
    then obtain m where "m \<in> set (markets s)" "detect_candidate now m" "x = (m, market_outcomes (mk_id m) s)"
      by (auto simp: detect_candidates_def)
    with x(2,3) show "\<exists>m \<in> set (markets s). mk_id m = mid \<and> detect_candidate now m
       \<and> detect_decision fetch validate grace now (m, market_outcomes mid s) = Some w" by auto
  qed
qed

lemma derived_resolved:
  "internal_status g = RESOLVED \<longleftrightarrow> uma_resolution_status g = Some ''resolved''
     \<and> (gm_closed g \<longrightarrow> (\<exists>p \<in> set (outcome_prices_raw g). p \<in> {''0'', ''1'', ''0.0'', ''1.0''}))"
  by (auto simp: internal_status_def derive_gamma_status_def list_ex_iff)

lemma detect_decision_Some:
  assumes "detect_decision fetch validate grace now (m, ocs) = Some w"
  obtains src raw g ts where "source_market_id m = Some src" "fetch src = Inr (Some raw)" "validate raw = Some g"
    "uma_resolution_status g = Some ''resolved''" "uma_resolved_at m = Some ts" "grace \<le> now - ts"
    "map_winning_outcome (outcome_prices_raw g) (outcomes_raw g) ocs = Inr w"
  using assms by (auto simp: detect_decision_def settle_winner_def derived_resolved not_less bind_eq_Some_conv
      split: option.splits sum.splits if_splits)

text \<open>
  C17: the detector pays confirmed resolutions only.  A run of it changes a bet only by settling it
  while it is pending, on the outcome that Gamma names as the winner, and only in a mirrored market
  past its deadline that Gamma reports as resolved by UMA and whose grace period, started by an
  earlier run, has elapsed; the platform invariant holds afterwards.
\<close>

theorem detector_settles_only_confirmed:
  fixes s :: "'a db_scheme"
  assumes "platform_ok s" "catalog_ok s"
  shows "\<exists>won. platform_ok (detect_resolutions fetch validate grace now ids s)
     \<and> bets (detect_resolutions fetch validate grace now ids s) = map (settle_by won) (bets s)
     \<and> (\<forall>mid w. won mid = Some w \<longrightarrow> (\<exists>m \<in> set (markets s). \<exists>src raw g ts.
          mk_id m = mid \<and> mk_source m = POLYMARKET \<and> deadline m < now \<and> mk_status m \<in> {OPEN, CLOSED}
        \<and> source_market_id m = Some src \<and> fetch src = Inr (Some raw) \<and> validate raw = Some g
        \<and> uma_resolution_status g = Some ''resolved'' \<and> uma_resolved_at m = Some ts \<and> grace \<le> now - ts
        \<and> map_winning_outcome (outcome_prices_raw g) (outcomes_raw g) (market_outcomes mid s) = Inr w))"
proof -
  obtain f where f: "platform_ok (detect_resolutions fetch validate grace now ids s)"
    "bets (detect_resolutions fetch validate grace now ids s) = map (settle_by f) (bets s)"
    "\<And>mid w. f mid = Some w \<Longrightarrow> \<exists>m \<in> set (markets s). mk_id m = mid \<and> detect_candidate now m
       \<and> detect_decision fetch validate grace now (m, market_outcomes mid s) = Some w"
    using detect_effect [OF assms] by metis
  show ?thesis
  proof (intro exI [of _ f] conjI f(1,2) allI impI)
    fix mid w assume "f mid = Some w"
    then obtain m where m: "m \<in> set (markets s)" "mk_id m = mid" "detect_candidate now m"
        "detect_decision fetch validate grace now (m, market_outcomes mid s) = Some w" using f(3) by blast
    from detect_decision_Some [OF m(4)] m(1-3)
    show "\<exists>m \<in> set (markets s). \<exists>src raw g ts.
          mk_id m = mid \<and> mk_source m = POLYMARKET \<and> deadline m < now \<and> mk_status m \<in> {OPEN, CLOSED}
        \<and> source_market_id m = Some src \<and> fetch src = Inr (Some raw) \<and> validate raw = Some g
        \<and> uma_resolution_status g = Some ''resolved'' \<and> uma_resolved_at m = Some ts \<and> grace \<le> now - ts
        \<and> map_winning_outcome (outcome_prices_raw g) (outcomes_raw g) (market_outcomes mid s) = Inr w"
      unfolding detect_candidate_def by (metis (no_types, lifting))
  qed
qed

text \<open>The row an upsert leaves.\<close>

lemma overwrite_fields [simp]: "mk_id (overwrite r v v24 m) = mk_id m" "mk_source (overwrite r v v24 m) = mk_source m"
  "source_market_id (overwrite r v v24 m) = source_market_id m" "mk_status (overwrite r v v24 m) = mk_status r"
  by (simp_all add: overwrite_def)

lemma flush_markets: "flush w s = Inr s' \<Longrightarrow> markets s' = markets s \<and> market_groups s' = market_groups s"
proof (cases w)
  case (SetOdds u p)
  then show "flush w s = Inr s' \<Longrightarrow> markets s' = markets s \<and> market_groups s' = market_groups s"
    by (auto simp: update_outcome_row_def)
next
  case (AddOutcome i mid lbl p)
  then show "flush w s = Inr s' \<Longrightarrow> markets s' = markets s \<and> market_groups s' = market_groups s"
    by (cases p) (auto simp: price_column_def elim!: insert_outcome_Inr)
qed simp

lemma sync_outcome_markets: "sync_outcome oids mid prices x (w, ds, s) = Inr (w', ds', s') \<Longrightarrow>
    markets s' = markets s \<and> market_groups s' = market_groups s"
  by (cases x) (auto simp: sync_outcome_def dest: flush_markets split: option.splits if_splits)

lemma sync_outcomes_markets: "sync_outcomes oids mid g s = Inr (ds, s') \<Longrightarrow>
    markets s' = markets s \<and> market_groups s' = market_groups s"
proof (cases "outcomes_raw g = [] \<or> outcome_prices_raw g = []")
  case False
  assume "sync_outcomes oids mid g s = Inr (ds, s')"
  then obtain w t where f: "foldE (sync_outcome oids mid (outcome_prices_raw g))
      (List.enumerate 0 (take 2 (outcomes_raw g))) (NoWrite, [], s) = Inr (w, ds, t)" "flush w t = Inr s'"
    using False by (auto simp: sync_outcomes_def)
  have "(\<lambda>st. markets (snd (snd st)) = markets s \<and> market_groups (snd (snd st)) = market_groups s) (w, ds, t)"
    by (rule foldE_invariant [OF f(1)]) (auto dest: sync_outcome_markets)
  with flush_markets [OF f(2)] show ?thesis by simp
qed (auto simp: sync_outcomes_def)

lemma upsert_market_status:
  assumes "upsert_market src row s = Inr s'" "source_market_id row = Some src" "mk_source row = POLYMARKET" "catalog_ok s"
  shows "\<exists>m \<in> set (markets s'). mirrored_row src m \<and> mk_status m = mk_status row"
proof (cases "filter (mirrored_row src) (markets s)")
  case Nil
  then obtain m' where "insert_market row s = Inr (m', s')" using assms(1) by (auto simp: upsert_market_def)
  then show ?thesis using assms(2,3) by (elim insert_market_Inr) (simp add: mirrored_row_def)
next
  case (Cons m ms)
  then have m: "m \<in> set (filter (mirrored_row src) (markets s))" by simp
  obtain v v24 where s': "s' = update_market_row (mk_id m) (overwrite row v v24) s"
    using assms(1) Cons by (auto simp: upsert_market_def)
  have "overwrite row v v24 m \<in> set (markets s')"
    using m by (force simp: s' update_market_row_def set_update_where)
  then show ?thesis using m by (intro bexI [of _ "overwrite row v v24 m"]) (auto simp: mirrored_row_def)
qed



subsection \<open>A sample mirror\<close>

text \<open>The sample market with its pending bet, as a mirrored market whose grace period started at 1100.\<close>

definition demo_gamma_db :: db where
  "demo_gamma_db = demo_bet_db\<lparr>markets := map (\<lambda>m. m\<lparr>mk_source := POLYMARKET, source_market_id := Some ''g1'',
     uma_resolved_at := Some 1100\<rparr>) (markets demo_bet_db)\<rparr>"

definition demo_gamma :: "string list \<Rightarrow> gamma_market" where
  "demo_gamma prices = \<lparr>gm_id = ''g1'', gm_question = ''q'', gm_slug = ''rain'', gm_condition_id = [],
     outcomes_raw = [''YES'', ''NO''], outcome_prices_raw = prices, volume_str = ''12.5'', gm_volume_24hr = None,
     gm_closed = True, uma_resolution_status = Some ''resolved'', end_date_raw = None, gm_description = [],
     gm_item_title = None\<rparr>"

abbreviation demo_validate :: "json_object \<Rightarrow> gamma_market option" where
  "demo_validate \<equiv> (\<lambda>_. Some (demo_gamma [''1'', ''0'']))"

definition demo_draw :: "nat \<Rightarrow> gamma_draw" where
  "demo_draw k = (2000, 0x90 + of_nat k, 0xab, \<lambda>i. 0xa0 + of_nat i)"

lemma demo_gamma_platform: "platform_ok demo_gamma_db"
  by (rule platform_frame [OF _ _ demo_bet_db_ok]) (simp_all add: demo_gamma_db_def same_books_def)

lemma demo_gamma_catalog: "catalog_ok demo_gamma_db"
proof -
  have e: "map mk_id (markets demo_gamma_db) = map mk_id (markets demo_db)" "map mk_slug (markets demo_gamma_db) = map mk_slug (markets demo_db)"
    "outcomes demo_gamma_db = outcomes demo_db" "odds_snapshots demo_gamma_db = odds_snapshots demo_db"
    by (simp_all add: demo_gamma_db_def demo_bet_db_def)
  from e(1) have "mk_id ` set (markets demo_gamma_db) = mk_id ` set (markets demo_db)" by (metis list.set_map)
  with e demo_catalog show ?thesis by (simp add: catalog_ok_def market_outcomes_def)
qed


definition demo_detected :: db where
  "demo_detected = detect_resolutions (\<lambda>_. Inr (Some [])) demo_validate 1000 5000
     (\<lambda>_. (demo_gen 0x100, 0x200, 5000, 5000)) demo_gamma_db"

lemma detector_settles_only_confirmed_witness:
  "platform_ok demo_detected \<and> map bet_status (bets demo_detected) = [BET_SETTLED_WON]"
proof -
  have "platform_ok demo_detected"
    using detector_settles_only_confirmed [OF demo_gamma_platform demo_gamma_catalog] unfolding demo_detected_def by blast
  moreover have "map bet_status (bets demo_detected) = [BET_SETTLED_WON]" by code_simp
  ultimately show ?thesis by blast
qed


end
