(* ===== verification/LiveBets.thy ===== *)
theory LiveBets
  imports Settling Text
begin

text \<open>
  The live-bets bridge (\<open>integrations/livebets\<close>): the mirror table, the parser of the bet the external
  service reports, placing and settling a mirrored bet in the ledger, and the operator's recovery
  endpoint.  The external service is a parameter: \<open>client u\<close> is the answer of \<open>GET /v2/bets/u\<close>.
\<close>

subsection \<open>Constants (\<open>constants.py\<close>)\<close>

definition LIVEBETS_ESCROW_ACCOUNT_ID :: uuid where
  "LIVEBETS_ESCROW_ACCOUNT_ID = 0xb1"

abbreviation "TRANSFER_LIVEBETS_PLACED \<equiv> ''livebets_placed''"
abbreviation "TRANSFER_LIVEBETS_SETTLE_STAKE_RETURN \<equiv> ''livebets_settle_stake_return''"
abbreviation "TRANSFER_LIVEBETS_SETTLE_WINNINGS \<equiv> ''livebets_settle_winnings''"
abbreviation "TRANSFER_LIVEBETS_SETTLE_LOSS \<equiv> ''livebets_settle_loss''"
abbreviation "TRANSFER_LIVEBETS_VOID_REFUND \<equiv> ''livebets_void_refund''"
abbreviation "LIVEBETS_PENDING \<equiv> ''PENDING''"
abbreviation "LIVEBETS_WON \<equiv> ''WON''"
abbreviation "LIVEBETS_LOST \<equiv> ''LOST''"
abbreviation "LIVEBETS_REFUNDED \<equiv> ''REFUNDED''"
abbreviation "LIVEBETS_VOIDED \<equiv> ''VOIDED''"

definition LIVEBETS_REFUND_STATUSES :: "string set" where
  "LIVEBETS_REFUND_STATUSES = {LIVEBETS_REFUNDED, LIVEBETS_VOIDED}"

definition LIVEBETS_SETTLED_STATUSES :: "string set" where
  "LIVEBETS_SETTLED_STATUSES = {LIVEBETS_WON, LIVEBETS_LOST, LIVEBETS_REFUNDED, LIVEBETS_VOIDED}"

text \<open>The key of one leg: \<open>placed\<close>, \<open>settled\<close>, \<open>settled:stake\<close> or \<open>settled:winnings\<close>.\<close>

definition livebets_key :: "uuid \<Rightarrow> string \<Rightarrow> string" where
  "livebets_key b leg = ''livebets:'' @ uuid_str b @ '':'' @ leg"

subsection \<open>The mirror table (\<open>models.py\<close>) and the verified bet (\<open>schemas.py\<close>)\<close>

record live_bet =
  lb_bet_id :: uuid
  lb_user_id :: uuid
  lb_table_id :: "uuid option"
  lb_market_id :: "uuid option"
  lb_stake :: rat
  lb_status :: string
  lb_created_at :: int
  lb_settled_at :: "int option"

record live_db = db +
  live_bets :: "live_bet list"

record verified_bet =
  vb_bet_id :: uuid
  vb_status :: string
  vb_stake :: rat
  vb_market_id :: "uuid option"
  vb_payout :: "rat option"

record mirror_result =
  mr_bet_id :: uuid
  mr_status :: string
  applied :: bool

definition parse_verified_bet :: "json_object \<Rightarrow> verified_bet result" where
  "parse_verified_bet raw =
     (case safe_uuid (map_of raw ''id'') of
        None \<Rightarrow> Inl (ValueError ''missing/invalid id'')
      | Some i \<Rightarrow> (case map_of raw ''status'' of
          Some (JStr st) \<Rightarrow> if st = [] then Inl (ValueError ''missing status'')
            else (case safe_decimal (map_of raw ''stake'') of
              None \<Rightarrow> Inl (ValueError ''missing/invalid stake'')
            | Some stk \<Rightarrow> Inr \<lparr>vb_bet_id = i, vb_status = st, vb_stake = stk,
                vb_market_id = safe_uuid (map_of raw ''market_id''),
                vb_payout = safe_decimal (map_of raw ''payout'')\<rparr>)
        | _ \<Rightarrow> Inl (ValueError ''missing status'')))"

type_synonym live_client = "uuid \<Rightarrow> json_object result"

subsection \<open>\<open>record_placed\<close>\<close>

definition placed_tx ::
  "post_ids \<Rightarrow> int \<Rightarrow> uuid \<Rightarrow> uuid \<Rightarrow> uuid option \<Rightarrow> verified_bet \<Rightarrow> 'a live_db_scheme
    \<Rightarrow> (mirror_result \<times> 'a live_db_scheme) result" where
  "placed_tx ids now user_id b_id table_id v s =
     (let s = begin_tx s in
      bindE (numeric_18_4 (vb_stake v)) (\<lambda>st.
      if b_id \<in> lb_bet_id ` set (live_bets s)
      then Inr (\<lparr>mr_bet_id = b_id, mr_status = LIVEBETS_PENDING, applied = False\<rparr>, s)
      else
        let row = \<lparr>lb_bet_id = b_id, lb_user_id = user_id, lb_table_id = table_id,
                    lb_market_id = vb_market_id v, lb_stake = st, lb_status = LIVEBETS_PENDING,
                    lb_created_at = now, lb_settled_at = None\<rparr>;
            s = s\<lparr>live_bets := live_bets s @ [row]\<rparr> in
        bindE (resolve_user_wallet_id user_id s) (\<lambda>wallet_id.
        let s = lock_account wallet_id s in
        bindE (balance_of wallet_id s) (\<lambda>wallet_balance.
        if wallet_balance < vb_stake v then Inl InsufficientBalance
        else
          bindE (post_transfer ids now TRANSFER_LIVEBETS_PLACED (Some (livebets_key b_id ''placed''))
              (Some user_id) wallet_id LIVEBETS_ESCROW_ACCOUNT_ID (vb_stake v)
              (Some [(''bet_id'', JUuid b_id), (''table_id'', JOpt JUuid table_id)]) s) (\<lambda>(t, s).
          Inr (\<lparr>mr_bet_id = b_id, mr_status = LIVEBETS_PENDING, applied = True\<rparr>, s))))))"

definition record_placed ::
  "rat \<times> rat \<Rightarrow> live_client \<Rightarrow> post_ids \<Rightarrow> int \<Rightarrow> uuid \<Rightarrow> uuid \<Rightarrow> uuid option \<Rightarrow> 'a live_db_scheme
    \<Rightarrow> (mirror_result \<times> 'a live_db_scheme) result" where
  "record_placed limits client ids now user_id b_id table_id s =
     bindE (bindE (client b_id) parse_verified_bet) (\<lambda>v.
     if vb_status v \<noteq> LIVEBETS_PENDING then Inl LiveBetsVerificationError
     else if \<not> (fst limits \<le> vb_stake v \<and> vb_stake v \<le> snd limits) then Inl LiveBetsVerificationError
     else placed_tx ids now user_id b_id table_id v s)"

subsection \<open>\<open>record_settled\<close>\<close>

text \<open>The legs by outcome.\<close>

definition live_specs :: "uuid \<Rightarrow> uuid \<Rightarrow> rat \<Rightarrow> verified_bet \<Rightarrow> 'a ledger_scheme \<Rightarrow> transfer_spec list result" where
  "live_specs user_id b stk v s =
     (if vb_status v = LIVEBETS_WON then
        bindE (resolve_user_wallet_id user_id s) (\<lambda>wallet_id.
        case vb_payout v of
          None \<Rightarrow> Inl LiveBetsVerificationError
        | Some payout \<Rightarrow>
          let winnings = dec_sub payout stk in
          if winnings < 0 then Inl LiveBetsVerificationError
          else Inr ((TRANSFER_LIVEBETS_SETTLE_STAKE_RETURN, ''settled:stake'', b, LIVEBETS_ESCROW_ACCOUNT_ID, wallet_id, stk) #
            (if winnings > 0
             then [(TRANSFER_LIVEBETS_SETTLE_WINNINGS, ''settled:winnings'', b, HOUSE_PROMO_ACCOUNT_ID, wallet_id, winnings)]
             else [])))
      else if vb_status v \<in> LIVEBETS_REFUND_STATUSES then
        bindE (resolve_user_wallet_id user_id s) (\<lambda>wallet_id.
        Inr [(TRANSFER_LIVEBETS_VOID_REFUND, ''settled'', b, LIVEBETS_ESCROW_ACCOUNT_ID, wallet_id, stk)])
      else Inr [(TRANSFER_LIVEBETS_SETTLE_LOSS, ''settled'', b, LIVEBETS_ESCROW_ACCOUNT_ID, HOUSE_REVENUE_ACCOUNT_ID, stk)])"

definition settled_tx ::
  "(nat \<Rightarrow> post_ids) \<Rightarrow> int \<Rightarrow> uuid \<Rightarrow> uuid \<Rightarrow> verified_bet \<Rightarrow> 'a live_db_scheme
    \<Rightarrow> (mirror_result \<times> 'a live_db_scheme) result" where
  "settled_tx gen now user_id b_id v s =
     (let s = begin_tx s in
      bindE (scalar_one_or_none (filter (\<lambda>m. lb_bet_id m = b_id) (live_bets s))) (\<lambda>found.
      case found of
        None \<Rightarrow> Inl LiveBetsVerificationError
      | Some m \<Rightarrow>
        if lb_user_id m \<noteq> user_id then Inl LiveBetsOwnershipError
        else if lb_status m \<noteq> LIVEBETS_PENDING
          then Inr (\<lparr>mr_bet_id = b_id, mr_status = lb_status m, applied = False\<rparr>, s)
        else if vb_stake v \<noteq> lb_stake m then Inl LiveBetsVerificationError
        else
          bindE (live_specs user_id b_id (lb_stake m) v s) (\<lambda>specs.
          let s = lock_touched specs s in
          bindE (post_specs livebets_key gen now (Some user_id) None specs s) (\<lambda>s.
          Inr (\<lparr>mr_bet_id = b_id, mr_status = vb_status v, applied = True\<rparr>,
            s\<lparr>live_bets := update_where (\<lambda>m. lb_bet_id m = b_id)
                (\<lambda>m. m\<lparr>lb_status := vb_status v, lb_settled_at := Some now\<rparr>) (live_bets s)\<rparr>)))))"

definition record_settled ::
  "live_client \<Rightarrow> (nat \<Rightarrow> post_ids) \<Rightarrow> int \<Rightarrow> uuid \<Rightarrow> uuid \<Rightarrow> 'a live_db_scheme
    \<Rightarrow> (mirror_result \<times> 'a live_db_scheme) result" where
  "record_settled client gen now user_id b_id s =
     bindE (bindE (client b_id) parse_verified_bet) (\<lambda>v.
     if vb_status v \<notin> LIVEBETS_SETTLED_STATUSES then Inl LiveBetsVerificationError
     else case settled_tx gen now user_id b_id v s of
         Inl (IntegrityError UniqueViolation) \<Rightarrow>
           Inr (\<lparr>mr_bet_id = b_id, mr_status = vb_status v, applied = False\<rparr>, s)
       | r \<Rightarrow> r)"

subsection \<open>The endpoints (\<open>router.py\<close>, \<open>admin_router.py\<close>)\<close>

definition mirror_error :: "exn \<Rightarrow> exn" where
  "mirror_error e = (case e of
     LiveBetsOwnershipError \<Rightarrow> HTTPException 404
   | LiveBetsVerificationError \<Rightarrow> HTTPException 409
   | ValueError _ \<Rightarrow> HTTPException 409
   | NoResultFound \<Rightarrow> HTTPException 404
   | InsufficientBalance \<Rightarrow> HTTPException 402
   | _ \<Rightarrow> e)"

definition bridge_error :: "exn \<Rightarrow> exn" where
  "bridge_error e = (case e of
     RuntimeError \<Rightarrow> HTTPException 503
   | HTTPStatusError _ \<Rightarrow> HTTPException 502
   | NetworkError \<Rightarrow> HTTPException 504
   | _ \<Rightarrow> e)"

definition map_error :: "('e \<Rightarrow> 'f) \<Rightarrow> 'e + 'a \<Rightarrow> 'f + 'a" where
  "map_error h r = (case r of Inl e \<Rightarrow> Inl (h e) | Inr x \<Rightarrow> Inr x)"

definition post_placed ::
  "rat \<times> rat \<Rightarrow> live_client \<Rightarrow> post_ids \<Rightarrow> int \<Rightarrow> uuid \<Rightarrow> uuid \<Rightarrow> uuid option \<Rightarrow> 'a live_db_scheme
    \<Rightarrow> (mirror_result \<times> 'a live_db_scheme) result" where
  "post_placed limits client ids now user_id b_id table_id s =
     map_error (bridge_error \<circ> mirror_error) (record_placed limits client ids now user_id b_id table_id s)"

definition post_settled ::
  "live_client \<Rightarrow> (nat \<Rightarrow> post_ids) \<Rightarrow> int \<Rightarrow> uuid \<Rightarrow> uuid \<Rightarrow> 'a live_db_scheme
    \<Rightarrow> (mirror_result \<times> 'a live_db_scheme) result" where
  "post_settled client gen now user_id b_id s =
     map_error (bridge_error \<circ> mirror_error) (record_settled client gen now user_id b_id s)"

text \<open>The recovery asks the service twice; \<open>client'\<close> answers the second time.\<close>

definition reconcile_bet ::
  "live_client \<Rightarrow> live_client \<Rightarrow> (nat \<Rightarrow> post_ids) \<Rightarrow> int \<Rightarrow> uuid \<Rightarrow> 'a live_db_scheme
    \<Rightarrow> (mirror_result \<times> 'a live_db_scheme) result" where
  "reconcile_bet client client' gen now b_id s =
     bindE (scalar_one_or_none (filter (\<lambda>m. lb_bet_id m = b_id) (live_bets s))) (\<lambda>found.
     case found of
       None \<Rightarrow> Inl (HTTPException 404)
     | Some m \<Rightarrow>
       if lb_status m \<noteq> LIVEBETS_PENDING
       then Inr (\<lparr>mr_bet_id = b_id, mr_status = lb_status m, applied = False\<rparr>, s)
       else case bindE (client b_id) parse_verified_bet of
         Inl e \<Rightarrow> Inl (HTTPException 502)
       | Inr v \<Rightarrow>
         if vb_status v = LIVEBETS_PENDING then Inl (HTTPException 409)
         else post_settled client' gen now (lb_user_id m) b_id s)"

end
