(* ===== verification/LiveBetsRules.thy ===== *)
theory LiveBetsRules
  imports LiveBets
begin

text \<open>
  What the live-bets bridge guarantees: the escrow account holds exactly the stakes of the bets that
  are mirrored and not settled, a settlement moves the money of its outcome and nothing else, replays
  change nothing, and only the player who placed a bet can settle it.
\<close>

subsection \<open>Money that moves outside the market pools\<close>

lemma platform_neutral:
  fixes s s' :: "'a db_scheme"
  assumes "platform_ok s" "ledger_steps s s'" "map acct_key (accounts s') = map acct_key (accounts s)"
    and "\<And>a. bal s' a = bal s a + f a" "\<And>v j. v \<in> set (liability_ids j s) \<Longrightarrow> f v = 0" and "bets s' = bets s"
  shows "platform_ok s'"
proof -
  note P = assms(1) [unfolded platform_ok_def]
  have ids: "liability_ids m s' = liability_ids m s" for m by (rule liability_ids_key [OF assms(3)])
  have mb: "map (bal s') (liability_ids m s) = map (bal s) (liability_ids m s)" for m
    using assms(4,5) by simp
  have "liability_balance m s' = liability_balance m s" for m unfolding liability_balance_def ids mb ..
  moreover have "books_ok s'" using P assms(2) by (blast intro: steps_books_ok)
  ultimately show ?thesis
    using P ids house_seeded_key [OF assms(3)] assms(6)
    by (simp add: platform_ok_def pool_ok_def pending_bets_def bets_ok_def)
qed

subsection \<open>The bridge invariant\<close>

definition escrow_seeded :: "'a ledger_scheme \<Rightarrow> bool" where
  "escrow_seeded s \<longleftrightarrow> (\<exists>a \<in> set (accounts s). acc_id a = LIVEBETS_ESCROW_ACCOUNT_ID \<and> owner_type a = OWNER_SYSTEM)"

definition mirrored_stakes :: "'a live_db_scheme \<Rightarrow> rat" where
  "mirrored_stakes s = sum_list (map lb_stake (filter (\<lambda>m. lb_status m = LIVEBETS_PENDING) (live_bets s)))"

definition live_ok :: "'a live_db_scheme \<Rightarrow> bool" where
  "live_ok s \<longleftrightarrow> platform_ok s \<and> escrow_seeded s \<and> distinct (map lb_bet_id (live_bets s))
     \<and> (\<forall>m \<in> set (live_bets s). is_money (lb_stake m) \<and> 0 < lb_stake m)
     \<and> bal s LIVEBETS_ESCROW_ACCOUNT_ID = mirrored_stakes s"

lemma escrow_seeded_key:
  assumes "map acct_key (accounts s') = map acct_key (accounts s)" "escrow_seeded s"
  shows "escrow_seeded s'"
proof -
  obtain a where a: "a \<in> set (accounts s)" "acc_id a = LIVEBETS_ESCROW_ACCOUNT_ID" "owner_type a = OWNER_SYSTEM"
    using assms(2) by (auto simp: escrow_seeded_def)
  have "acct_key a \<in> acct_key ` set (accounts s')"
    using a(1) arg_cong [OF assms(1), of set] by simp
  then obtain b where "b \<in> set (accounts s')" "acct_key b = acct_key a" by auto
  then show ?thesis using a(2,3) by (auto simp: escrow_seeded_def acct_key_def)
qed

lemma escrow_not_liability:
  "ledger_wf s \<Longrightarrow> escrow_seeded s \<Longrightarrow> LIVEBETS_ESCROW_ACCOUNT_ID \<notin> set (liability_ids mid s)"
  by (auto simp: escrow_seeded_def dest: not_liability [where mid = mid])

lemma wallet_not_system:
  assumes "ledger_wf s" "resolve_user_wallet_id u s = Inr w" "a \<in> set (accounts s)" "owner_type a = OWNER_SYSTEM"
  shows "w \<noteq> acc_id a"
proof
  assume w: "w = acc_id a"
  obtain b where b: "b \<in> set (accounts s)" "acc_id b = w" "owner_type b = OWNER_USER"
    using assms(2) by (auto simp: resolve_user_wallet_id_def dest!: scalar_one_filter_mem)
  then have "a = b" using assms(1,3) w by (auto simp: ledger_wf_def dest: distinct_key_eq)
  with b(3) assms(4) show False by simp
qed

lemma escrow_differs: "LIVEBETS_ESCROW_ACCOUNT_ID \<noteq> HOUSE_PROMO_ACCOUNT_ID"
  "LIVEBETS_ESCROW_ACCOUNT_ID \<noteq> HOUSE_REVENUE_ACCOUNT_ID"
  by (simp_all add: LIVEBETS_ESCROW_ACCOUNT_ID_def HOUSE_PROMO_ACCOUNT_ID_def HOUSE_REVENUE_ACCOUNT_ID_def)

lemma more_live:
  fixes s s' :: "'a live_db_scheme"
  assumes "ledger.more s' = ledger.more s"
  shows "live_bets s' = live_bets s" "bets s' = bets s"
  using assms by (cases s; cases s'; simp)+

subsection \<open>The effect of a placement\<close>

definition mirror_row :: "uuid \<Rightarrow> uuid \<Rightarrow> uuid option \<Rightarrow> verified_bet \<Rightarrow> rat \<Rightarrow> int \<Rightarrow> live_bet" where
  "mirror_row b u t v st now = \<lparr>lb_bet_id = b, lb_user_id = u, lb_table_id = t, lb_market_id = vb_market_id v,
     lb_stake = st, lb_status = LIVEBETS_PENDING, lb_created_at = now, lb_settled_at = None\<rparr>"

lemma placed_tx_cases:
  fixes s s' :: "'a live_db_scheme"
  assumes "placed_tx ids now u b t v s = Inr (r, s')"
  obtains (replay) "b \<in> lb_bet_id ` set (live_bets s)" "\<not> applied r" "mr_status r = LIVEBETS_PENDING" "s' = begin_tx s"
  | (posted) w m tr where "b \<notin> lb_bet_id ` set (live_bets s)" "applied r" "mr_status r = LIVEBETS_PENDING"
      "resolve_user_wallet_id u s = Inr w" "numeric_18_4 (vb_stake v) = Inr m" "vb_stake v \<le> bal s w" "0 < m"
      "posted TRANSFER_LIVEBETS_PLACED (Some (livebets_key b ''placed'')) w LIVEBETS_ESCROW_ACCOUNT_ID m tr s s'"
      "live_bets s' = live_bets s @ [mirror_row b u t v m now]" "bets s' = bets s"
proof -
  obtain m where m: "numeric_18_4 (vb_stake v) = Inr m"
    using assms by (auto simp: placed_tx_def Let_def)
  have lb: "live_bets (begin_tx s) = live_bets s" by (simp add: begin_tx_def)
  show thesis
  proof (cases "b \<in> lb_bet_id ` set (live_bets s)")
    case True
    then have "r = \<lparr>mr_bet_id = b, mr_status = LIVEBETS_PENDING, applied = False\<rparr> \<and> s' = begin_tx s"
      using assms m by (simp add: placed_tx_def lb Let_def)
    then show thesis using True by (intro replay) simp_all
  next
    case False
    let ?s1 = "(begin_tx s)\<lparr>live_bets := live_bets s @ [mirror_row b u t v m now]\<rparr>"
    obtain w wb tr where x: "resolve_user_wallet_id u ?s1 = Inr w" "balance_of w (lock_account w ?s1) = Inr wb"
        "\<not> wb < vb_stake v" "applied r" "mr_status r = LIVEBETS_PENDING"
        "post_transfer ids now TRANSFER_LIVEBETS_PLACED (Some (livebets_key b ''placed'')) (Some u) w
           LIVEBETS_ESCROW_ACCOUNT_ID (vb_stake v) (Some [(''bet_id'', JUuid b), (''table_id'', JOpt JUuid t)])
           (lock_account w ?s1) = Inr (tr, s')"
      using assms m False by (auto simp: placed_tx_def lb Let_def mirror_row_def split: if_splits)
    have sb: "same_books s (lock_account w ?s1)"
      by (simp add: same_books_def begin_tx_def lock_account_def lock_row_def)
    have w: "resolve_user_wallet_id u s = Inr w" using x(1) resolve_frame [of ?s1 s u] by (simp add: begin_tx_def)
    have wb: "wb = bal s w"
      using balance_of_bal [OF x(2)] bal_same_books [OF sb] by simp
    obtain m' where "numeric_18_4 (vb_stake v) = Inr m'"
        "posted TRANSFER_LIVEBETS_PLACED (Some (livebets_key b ''placed'')) w LIVEBETS_ESCROW_ACCOUNT_ID m' tr s s'"
      using post_transfer_posted [OF x(6)] posted_frame [OF sb] by blast
    then have p: "posted TRANSFER_LIVEBETS_PLACED (Some (livebets_key b ''placed'')) w LIVEBETS_ESCROW_ACCOUNT_ID m tr s s'"
      using m by simp
    have mo: "ledger.more s' = ledger.more (lock_account w ?s1)" by (rule post_transfer_more [OF x(6)])
    have "live_bets s' = live_bets s @ [mirror_row b u t v m now]" "bets s' = bets s"
      using more_live [OF mo] by (simp_all add: begin_tx_def lock_account_def lock_row_def)
    moreover have "0 < m" using p by (auto simp: posted_def posts_def)
    ultimately show thesis using posted [OF False x(4,5) w m _ _ p] x(3) wb by simp
  qed
qed

lemma mirrored_stakes_append:
  "live_bets s' = live_bets s @ [mirror_row b u t v m now] \<Longrightarrow> mirrored_stakes s' = mirrored_stakes s + m"
  by (simp add: mirrored_stakes_def mirror_row_def)

lemma placed_tx_live_ok:
  fixes s s' :: "'a live_db_scheme"
  assumes "placed_tx ids now u b t v s = Inr (r, s')" "live_ok s"
  shows "live_ok s'"
  using assms(1)
proof (cases rule: placed_tx_cases)
  case replay
  have P: "platform_ok s" using assms(2) by (simp add: live_ok_def)
  have "platform_ok (begin_tx s)" by (rule platform_frame [OF same_books_locks(2) _ P]) (simp add: begin_tx_def)
  then show ?thesis
    using assms(2) by (simp add: replay(4) live_ok_def mirrored_stakes_def escrow_seeded_def begin_tx_def bal_def)
next
  case (posted w m tr)
  note L = assms(2) [unfolded live_ok_def] and wf = platform_wf [of s]
  have W: "ledger_wf s" using L wf by blast
  have seed: "escrow_seeded s" using L by blast
  obtain a where a: "a \<in> set (accounts s)" "acc_id a = LIVEBETS_ESCROW_ACCOUNT_ID" "owner_type a = OWNER_SYSTEM"
    using seed by (auto simp: escrow_seeded_def)
  have we: "w \<noteq> LIVEBETS_ESCROW_ACCOUNT_ID" using wallet_not_system [OF W posted(4) a(1,3)] a(2) by simp
  note keys = posted_transfers(2) [OF posted(8)]
  let ?f = "\<lambda>x. (if x = LIVEBETS_ESCROW_ACCOUNT_ID then m else 0) - (if x = w then m else 0)"
  have bal': "bal s' x = bal s x + ?f x" for x using posted_bal [OF posted(8) W, of x] by simp
  have "ledger_steps s s'" using posted_step [OF posted(8)] by blast
  then have "platform_ok s'"
  proof (rule platform_neutral [where f = ?f, OF conjunct1 [OF L] _ keys bal' _ posted(10)])
    show "?f x = 0" if "x \<in> set (liability_ids j s)" for x j
      using that wallet_not_liability [OF W posted(4)] escrow_not_liability [OF W seed] by auto
  qed
  moreover have "bal s' LIVEBETS_ESCROW_ACCOUNT_ID = mirrored_stakes s'"
    using L we by (simp add: bal' mirrored_stakes_append [OF posted(9)])
  moreover have "distinct (map lb_bet_id (live_bets s'))" "\<forall>m \<in> set (live_bets s'). is_money (lb_stake m) \<and> 0 < lb_stake m"
    using L posted(1,7) numeric_18_4_is_money [OF posted(5)] by (simp_all add: posted(9) mirror_row_def)
  ultimately show ?thesis
    using escrow_seeded_key [OF keys seed] unfolding live_ok_def by blast
qed

subsection \<open>The effect of a settlement\<close>

lemma live_specs_frame: "accounts s' = accounts s \<Longrightarrow> live_specs u b k v s' = live_specs u b k v s"
  using resolve_frame [of s' s] by (simp add: live_specs_def)

lemma settled_tx_cases:
  fixes s s' :: "'a live_db_scheme"
  assumes "settled_tx gen now u b v s = Inr (r, s')" "ledger_wf s"
  obtains (replay) m where "filter (\<lambda>m. lb_bet_id m = b) (live_bets s) = [m]" "lb_user_id m = u"
      "lb_status m \<noteq> LIVEBETS_PENDING" "\<not> applied r" "mr_status r = lb_status m" "s' = begin_tx s"
  | (settled) m specs where "filter (\<lambda>m. lb_bet_id m = b) (live_bets s) = [m]" "lb_user_id m = u"
      "lb_status m = LIVEBETS_PENDING" "vb_stake v = lb_stake m" "applied r" "mr_status r = vb_status v"
      "live_specs u b (lb_stake m) v s = Inr specs" "ledger_steps s s'"
      "map acct_key (accounts s') = map acct_key (accounts s)"
      "\<And>a. bal s' a = bal s a + net a (map cast_spec specs)" "bets s' = bets s"
      "live_bets s' = update_where (\<lambda>m. lb_bet_id m = b)
         (\<lambda>m. m\<lparr>lb_status := vb_status v, lb_settled_at := Some now\<rparr>) (live_bets s)"
proof -
  have lb: "live_bets (begin_tx s) = live_bets s" by (simp add: begin_tx_def)
  obtain m where m: "filter (\<lambda>m. lb_bet_id m = b) (live_bets s) = [m]" "lb_user_id m = u"
    using assms(1) by (auto simp: settled_tx_def lb Let_def scalar_one_or_none_Inr split: option.splits if_splits)
  show thesis
  proof (cases "lb_status m = LIVEBETS_PENDING")
    case False
    then have "r = \<lparr>mr_bet_id = b, mr_status = lb_status m, applied = False\<rparr> \<and> s' = begin_tx s"
      using assms(1) m by (simp add: settled_tx_def lb Let_def)
    then show thesis using m False by (intro replay [of m]) simp_all
  next
    case True
    obtain specs s1 where x: "vb_stake v = lb_stake m" "live_specs u b (lb_stake m) v (begin_tx s) = Inr specs"
        "post_specs livebets_key gen now (Some u) None specs (lock_touched specs (begin_tx s)) = Inr s1"
        "r = \<lparr>mr_bet_id = b, mr_status = vb_status v, applied = True\<rparr>"
        "s' = s1\<lparr>live_bets := update_where (\<lambda>m. lb_bet_id m = b)
                (\<lambda>m. m\<lparr>lb_status := vb_status v, lb_settled_at := Some now\<rparr>) (live_bets s1)\<rparr>"
      using assms(1) m True by (auto simp: settled_tx_def lb Let_def split: if_splits)
    note e = post_specs_cast_effect [OF x(3) same_books_lock_touched(1) assms(2)]
    have lb1: "live_bets s1 = live_bets s" "bets s1 = bets s"
      using more_live [of s1 "lock_touched specs (begin_tx s)"] more_live [of "lock_touched specs (begin_tx s)" "begin_tx s"] e(2)
      by (simp_all add: begin_tx_def)
    have sp: "live_specs u b (lb_stake m) v s = Inr specs"
      using x(2) live_specs_frame [of "begin_tx s" s] by (simp add: begin_tx_def)
    have sb: "same_books s1 s'" by (simp add: x(5) same_books_def)
    show thesis
    proof (rule settled [OF m True x(1) _ _ sp])
      show "ledger_steps s s'" using e(1) ledger_steps_frame [OF sb] by (rule ledger_steps_trans)
      show "map acct_key (accounts s') = map acct_key (accounts s)" using e(4) by (simp add: x(5))
      show "bal s' a = bal s a + net a (map cast_spec specs)" for a using e(3) bal_same_books [OF sb] by simp
      show "applied r" "mr_status r = vb_status v" by (simp_all add: x(4))
      show "bets s' = bets s" "live_bets s' = update_where (\<lambda>m. lb_bet_id m = b)
         (\<lambda>m. m\<lparr>lb_status := vb_status v, lb_settled_at := Some now\<rparr>) (live_bets s)"
        by (simp_all add: x(5) lb1)
    qed
  qed
qed

text \<open>The specification: the change of account \<open>a\<close> when a stake is settled with an outcome.\<close>

definition live_flow :: "string \<Rightarrow> uuid \<Rightarrow> rat \<Rightarrow> rat \<Rightarrow> uuid \<Rightarrow> rat" where
  "live_flow st w stk winnings a =
     (if st = LIVEBETS_WON then (if a = w then stk + winnings else 0) - (if a = HOUSE_PROMO_ACCOUNT_ID then winnings else 0)
      else if st \<in> LIVEBETS_REFUND_STATUSES then (if a = w then stk else 0)
      else (if a = HOUSE_REVENUE_ACCOUNT_ID then stk else 0))
     - (if a = LIVEBETS_ESCROW_ACCOUNT_ID then stk else 0)"

lemma cast_money: "is_money a \<Longrightarrow> cast_amount a = a"
  by (simp add: cast_amount_quantum is_money_quantum)

lemma winnings_exact:
  assumes "is_money p" "is_money k" "0 < p - k" "0 \<le> k"
  shows "cast_amount (p - k) = p - k"
proof (rule cast_money, rule is_money_diff [OF assms(1,2)])
  show "\<bar>p - k\<bar> < 10 ^ 14" using assms by (auto simp: is_money_def abs_less_iff)
qed

lemma live_specs_flow:
  assumes "live_specs u b k v s = Inr specs" "is_money k" "0 \<le> k"
  obtains w c where "\<And>a. net a (map cast_spec specs) = live_flow (vb_status v) w k c a"
    "vb_status v = LIVEBETS_WON \<or> vb_status v \<in> LIVEBETS_REFUND_STATUSES \<Longrightarrow> resolve_user_wallet_id u s = Inr w"
    "vb_status v = LIVEBETS_WON \<Longrightarrow> \<exists>p. vb_payout v = Some p \<and> (is_money p \<longrightarrow> k \<le> p \<and> c = p - k)"
proof (cases "vb_status v = LIVEBETS_WON")
  case True
  let ?d = "\<lambda>p. dec_sub p k"
  obtain w p where w: "resolve_user_wallet_id u s = Inr w" "vb_payout v = Some p" "0 \<le> ?d p"
    and specs: "specs = (TRANSFER_LIVEBETS_SETTLE_STAKE_RETURN, ''settled:stake'', b, LIVEBETS_ESCROW_ACCOUNT_ID, w, k) #
      (if ?d p > 0 then [(TRANSFER_LIVEBETS_SETTLE_WINNINGS, ''settled:winnings'', b, HOUSE_PROMO_ACCOUNT_ID, w, ?d p)] else [])"
    using assms(1) True by (auto simp: live_specs_def Let_def not_less split: option.splits if_splits)
  define c where "c = (if ?d p > 0 then cast_amount (?d p) else 0)"
  have n: "net a (map cast_spec specs) = live_flow (vb_status v) w k c a" for a
    by (simp add: specs True spec_net_def cast_spec_def cast_money [OF assms(2)] live_flow_def c_def)
  have "k \<le> p \<and> c = p - k" if "is_money p"
    using w(3) winnings_exact [OF that assms(2) _ assms(3)] by (simp add: dec_sub_money [OF that assms(2)] c_def)
  then show thesis using n w(1,2) by (intro that [of w c]) auto
next
  case False
  show thesis
  proof (cases "vb_status v \<in> LIVEBETS_REFUND_STATUSES")
    case True
    then obtain w where w: "resolve_user_wallet_id u s = Inr w"
        "specs = [(TRANSFER_LIVEBETS_VOID_REFUND, ''settled'', b, LIVEBETS_ESCROW_ACCOUNT_ID, w, k)]"
      using assms(1) False by (auto simp: live_specs_def)
    have "net a (map cast_spec specs) = live_flow (vb_status v) w k 0 a" for a
      using False True by (simp add: w(2) spec_net_def cast_spec_def cast_money [OF assms(2)] live_flow_def)
    then show thesis using w(1) False by (intro that [of w 0]) auto
  next
    case NR: False
    then have sp: "specs = [(TRANSFER_LIVEBETS_SETTLE_LOSS, ''settled'', b, LIVEBETS_ESCROW_ACCOUNT_ID, HOUSE_REVENUE_ACCOUNT_ID, k)]"
      using assms(1) False by (simp add: live_specs_def)
    have "net a (map cast_spec specs) = live_flow (vb_status v) 0 k 0 a" for a
      using False NR by (simp add: sp spec_net_def cast_spec_def cast_money [OF assms(2)] live_flow_def)
    then show thesis using False NR by (intro that [of 0 0]) auto
  qed
qed

lemma settled_tx_live_ok:
  fixes s s' :: "'a live_db_scheme"
  assumes "settled_tx gen now u b v s = Inr (r, s')" "live_ok s" "vb_status v \<in> LIVEBETS_SETTLED_STATUSES"
  shows "live_ok s'"
proof -
  note L = assms(2) [unfolded live_ok_def]
  have P: "platform_ok s" and seed: "escrow_seeded s" using L by blast+
  have W: "ledger_wf s" by (rule platform_wf [OF P])
  show ?thesis
    using assms(1) W
  proof (cases rule: settled_tx_cases)
    case (replay m)
    have "platform_ok (begin_tx s)" by (rule platform_frame [OF same_books_locks(2) _ P]) (simp add: begin_tx_def)
    then show ?thesis
      using assms(2) by (simp add: replay(6) live_ok_def mirrored_stakes_def escrow_seeded_def begin_tx_def bal_def)
  next
    case (settled m specs)
    have m: "m \<in> set (live_bets s)" "lb_bet_id m = b" using settled(1) by (metis (mono_tags) filter_eq_Cons_iff in_set_conv_decomp)+
    then have k: "is_money (lb_stake m)" "0 < lb_stake m" using L by blast+
    obtain w c where flow: "\<And>a. net a (map cast_spec specs) = live_flow (vb_status v) w (lb_stake m) c a"
      and w: "vb_status v = LIVEBETS_WON \<or> vb_status v \<in> LIVEBETS_REFUND_STATUSES \<Longrightarrow> resolve_user_wallet_id u s = Inr w"
      by (rule live_specs_flow [OF settled(7) k(1) less_imp_le [OF k(2)]]) blast
    obtain e where e: "e \<in> set (accounts s)" "acc_id e = LIVEBETS_ESCROW_ACCOUNT_ID" "owner_type e = OWNER_SYSTEM"
      using seed by (auto simp: escrow_seeded_def)
    have we: "vb_status v = LIVEBETS_WON \<or> vb_status v \<in> LIVEBETS_REFUND_STATUSES \<Longrightarrow> w \<noteq> LIVEBETS_ESCROW_ACCOUNT_ID"
      using wallet_not_system [OF W w e(1,3)] e(2) by simp
    have "platform_ok s'"
    proof (rule platform_neutral [OF P settled(8-10) _ settled(11)])
      fix x j assume x: "x \<in> set (liability_ids j s)"
      have "x \<noteq> HOUSE_PROMO_ACCOUNT_ID" "x \<noteq> HOUSE_REVENUE_ACCOUNT_ID" "x \<noteq> LIVEBETS_ESCROW_ACCOUNT_ID"
        using x P house_not_liability [OF W, of j] escrow_not_liability [OF W seed, of j] by (auto simp: platform_ok_def)
      moreover have "x \<noteq> w" if "vb_status v = LIVEBETS_WON \<or> vb_status v \<in> LIVEBETS_REFUND_STATUSES"
        using x wallet_not_liability [OF W w [OF that], of j] by auto
      ultimately show "net x (map cast_spec specs) = 0" unfolding flow by (auto simp: live_flow_def)
    qed
    moreover have "bal s' LIVEBETS_ESCROW_ACCOUNT_ID = bal s LIVEBETS_ESCROW_ACCOUNT_ID - lb_stake m"
      using we escrow_differs unfolding settled(10) flow by (auto simp: live_flow_def)
    moreover have "mirrored_stakes s' = mirrored_stakes s - lb_stake m"
    proof -
      let ?g = "\<lambda>x. if lb_status x = LIVEBETS_PENDING then lb_stake x else 0"
      have "sum_list (map ?g (update_where (\<lambda>x. lb_bet_id x = b) (\<lambda>x. x\<lparr>lb_status := vb_status v, lb_settled_at := Some now\<rparr>) xs))
          = sum_list (map ?g xs) - sum_list (map ?g (filter (\<lambda>x. lb_bet_id x = b) xs))" for xs :: "live_bet list"
        using assms(3) by (induction xs) (auto simp: LIVEBETS_SETTLED_STATUSES_def)
      from this [of "live_bets s"] have "sum_list (map ?g (live_bets s')) = sum_list (map ?g (live_bets s)) - lb_stake m"
        using settled(1,3) by (simp add: settled(12))
      then show ?thesis by (simp add: mirrored_stakes_def sum_list_map_filter')
    qed
    moreover have "distinct (map lb_bet_id (live_bets s'))" "\<forall>x \<in> set (live_bets s'). is_money (lb_stake x) \<and> 0 < lb_stake x"
      using L by (auto simp: settled(12) map_update_where_same set_update_where)
    ultimately show ?thesis
      using L escrow_seeded_key [OF settled(9) seed] unfolding live_ok_def by simp
  qed
qed

subsection \<open>The bridge operations\<close>

lemma record_placed_Inr:
  assumes "record_placed limits client ids now u b t s = Inr (r, s')"
  obtains v where "bindE (client b) parse_verified_bet = Inr v" "vb_status v = LIVEBETS_PENDING"
    "fst limits \<le> vb_stake v" "vb_stake v \<le> snd limits" "placed_tx ids now u b t v s = Inr (r, s')"
  using assms by (auto simp: record_placed_def split: if_splits)

lemma on_unique_violation:
  "(case x of Inl (IntegrityError UniqueViolation) \<Rightarrow> Inr d | r \<Rightarrow> r) = Inr y
    \<longleftrightarrow> (x = Inl (IntegrityError UniqueViolation) \<and> d = y) \<or> x = Inr y"
  by (cases x) (auto split: exn.split sqlstate.split)

lemma record_settled_cases:
  assumes "record_settled client gen now u b s = Inr (r, s')"
  obtains (collision) v where "bindE (client b) parse_verified_bet = Inr v" "\<not> applied r" "s' = s"
  | (reported) v where "bindE (client b) parse_verified_bet = Inr v" "vb_status v \<in> LIVEBETS_SETTLED_STATUSES"
      "settled_tx gen now u b v s = Inr (r, s')"
proof -
  obtain v where v: "bindE (client b) parse_verified_bet = Inr v" "vb_status v \<in> LIVEBETS_SETTLED_STATUSES"
      "(case settled_tx gen now u b v s of
         Inl (IntegrityError UniqueViolation) \<Rightarrow> Inr (\<lparr>mr_bet_id = b, mr_status = vb_status v, applied = False\<rparr>, s)
       | r \<Rightarrow> r) = Inr (r, s')"
    using assms unfolding record_settled_def bindE_eq_Inr if_Inl_eq_Inr by blast
  from v(3) show thesis
    unfolding on_unique_violation using collision [OF v(1)] reported [OF v(1,2)] by auto
qed

lemma update_where_all:
  assumes "\<And>x. x \<in> set xs \<Longrightarrow> p x \<Longrightarrow> Q (f x)" "\<And>x. x \<in> set xs \<Longrightarrow> \<not> p x \<Longrightarrow> Q x"
  shows "\<forall>x \<in> set (update_where p f xs). Q x"
  using assms by (auto simp: set_update_where)

lemma record_placed_live_ok:
  fixes s s' :: "'a live_db_scheme"
  assumes "record_placed limits client ids now u b t s = Inr (r, s')" "live_ok s"
  shows "live_ok s'"
  by (rule record_placed_Inr [OF assms(1)]) (rule placed_tx_live_ok [OF _ assms(2)])

lemma record_settled_live_ok:
  fixes s s' :: "'a live_db_scheme"
  assumes "record_settled client gen now u b s = Inr (r, s')" "live_ok s"
  shows "live_ok s'"
  using assms(1)
proof (cases rule: record_settled_cases)
  case (reported v)
  show ?thesis by (rule settled_tx_live_ok [OF reported(3) assms(2) reported(2)])
qed (use assms(2) in simp)

text \<open>
  C18: the escrow invariant of the bridge.  Mirroring a placement and mirroring a settlement both keep
  the escrow account equal to the stakes of the mirrored bets that are still pending, and keep the
  whole platform invariant: the books balance and no market pool is touched.
\<close>

theorem livebets_escrow_invariant:
  fixes s s' :: "'a live_db_scheme"
  assumes "record_placed limits client ids now u b t s = Inr (r, s') \<or> record_settled client gen now u b s = Inr (r, s')"
    and "live_ok s"
  shows "live_ok s' \<and> bal s' LIVEBETS_ESCROW_ACCOUNT_ID = mirrored_stakes s' \<and> platform_ok s'"
proof -
  have "live_ok s'"
    using assms(1) record_placed_live_ok [OF _ assms(2)] record_settled_live_ok [OF _ assms(2)] by blast
  then show ?thesis by (simp add: live_ok_def)
qed


text \<open>
  Only the player who placed a mirrored bet can settle it.  A settle request by anybody else for
  a mirrored bet never succeeds, whatever the service answers, and when the service reports a settled
  bet it is answered 404, as if the bet did not exist.
\<close>

theorem livebets_foreign_settle_rejected:
  assumes "filter (\<lambda>m. lb_bet_id m = b) (live_bets s) = [m]" "lb_user_id m \<noteq> u"
  shows "(\<exists>e. record_settled client gen now u b s = Inl e)
     \<and> (bindE (client b) parse_verified_bet = Inr v \<and> vb_status v \<in> LIVEBETS_SETTLED_STATUSES
          \<longrightarrow> post_settled client gen now u b s = Inl (HTTPException 404))"
proof -
  have tx: "settled_tx gen now u b v s = Inl LiveBetsOwnershipError" for v
    using assms by (simp add: settled_tx_def begin_tx_def)
  have "\<exists>e. record_settled client gen now u b s = Inl e"
  proof (cases "bindE (client b) parse_verified_bet")
    case (Inr v)
    show ?thesis unfolding record_settled_def Inr
      by (cases "vb_status v \<in> LIVEBETS_SETTLED_STATUSES") (simp_all add: tx)
  next
    case (Inl e)
    show ?thesis unfolding record_settled_def Inl by simp
  qed
  moreover have "post_settled client gen now u b s = Inl (HTTPException 404)"
    if "bindE (client b) parse_verified_bet = Inr v" "vb_status v \<in> LIVEBETS_SETTLED_STATUSES"
    unfolding post_settled_def record_settled_def that(1)
    using that(2) by (simp add: tx map_error_def mirror_error_def bridge_error_def)
  ultimately show ?thesis by blast
qed

text \<open>
  Settlements are not replayed.  After a settlement was applied, no later settle request for the
  bet, by anyone and whatever the service then reports, is applied or changes a balance, a transfer or
  a mirror row.
\<close>

theorem livebets_settle_once:
  fixes s s' s2 :: "'a live_db_scheme"
  assumes "record_settled client gen now u b s = Inr (r, s')" "applied r" "live_ok s"
    and "record_settled client2 gen2 now2 u2 b s' = Inr (r2, s2)"
  shows "\<not> applied r2 \<and> same_books s' s2 \<and> live_bets s2 = live_bets s'"
proof -
  obtain v where v: "vb_status v \<in> LIVEBETS_SETTLED_STATUSES" "settled_tx gen now u b v s = Inr (r, s')"
    using assms(2) by (cases rule: record_settled_cases [OF assms(1)]) simp_all
  have ok: "live_ok s'" by (rule settled_tx_live_ok [OF v(2) assms(3) v(1)])
  have W: "ledger_wf s" "ledger_wf s'" using assms(3) ok by (simp_all add: live_ok_def platform_wf)
  have st: "\<forall>m \<in> set (live_bets s'). lb_bet_id m = b \<longrightarrow> lb_status m \<noteq> LIVEBETS_PENDING"
    using v(2) W(1)
  proof (cases rule: settled_tx_cases)
    case (settled m specs)
    have "vb_status v \<noteq> LIVEBETS_PENDING" using v(1) by (auto simp: LIVEBETS_SETTLED_STATUSES_def)
    then show ?thesis unfolding settled(12) by (intro update_where_all) simp_all
  qed (use assms(2) in simp)
  show ?thesis
    using assms(4)
  proof (cases rule: record_settled_cases)
    case (reported v2)
    show ?thesis
      using reported(3) W(2)
    proof (cases rule: settled_tx_cases)
      case (settled m specs)
      have "m \<in> set (live_bets s')" "lb_bet_id m = b" using settled(1) by (metis (mono_tags) filter_eq_Cons_iff in_set_conv_decomp)+
      then show ?thesis using st settled(3) by blast
    qed (simp add: begin_tx_def same_books_def)
  qed simp
qed

text \<open>
  A stake finer than the ledger's four decimals gets stuck.  Such a placement is mirrored with the
  rounded stake, so every later settle request that reports the same bet fails the stake check: the
  money stays in escrow, and the operator's recovery endpoint answers 409.
\<close>

theorem livebets_fine_stake_is_stuck:
  fixes s s' :: "'a live_db_scheme"
  assumes "record_placed limits client ids now u b t s = Inr (r, s')" "applied r"
    and "bindE (client b) parse_verified_bet = Inr v" "\<not> is_money (vb_stake v)" "live_ok s"
    and "bindE (client2 b) parse_verified_bet = Inr v2" "vb_stake v2 = vb_stake v"
    and "vb_status v2 \<in> LIVEBETS_SETTLED_STATUSES"
  shows "record_settled client2 gen now2 u b s' = Inl LiveBetsVerificationError
     \<and> reconcile_bet client2 client2 gen now2 b s' = Inl (HTTPException 409)"
proof -
  have "placed_tx ids now u b t v s = Inr (r, s')" using assms(1,3) by (auto elim: record_placed_Inr)
  then obtain w m tr where p: "b \<notin> lb_bet_id ` set (live_bets s)" "numeric_18_4 (vb_stake v) = Inr m"
      "live_bets s' = live_bets s @ [mirror_row b u t v m now]"
    using assms(2) by (cases rule: placed_tx_cases) auto
  have "filter (\<lambda>x. lb_bet_id x = b) (live_bets s) = []" using p(1) by (rule filter_key_none)
  then have row: "filter (\<lambda>x. lb_bet_id x = b) (live_bets s') = [mirror_row b u t v m now]"
    by (simp add: p(3) mirror_row_def)
  have "m \<noteq> vb_stake v" using numeric_18_4_is_money [OF p(2)] assms(4) by auto
  then have tx: "settled_tx gen now2 u b v2 s' = Inl LiveBetsVerificationError"
    using row assms(7) by (simp add: settled_tx_def begin_tx_def mirror_row_def)
  have rs: "record_settled client2 gen now2 u b s' = Inl LiveBetsVerificationError"
    unfolding record_settled_def assms(6) using assms(8) by (simp add: tx)
  have "vb_status v2 \<noteq> LIVEBETS_PENDING" using assms(8) by (auto simp: LIVEBETS_SETTLED_STATUSES_def)
  then have "reconcile_bet client2 client2 gen now2 b s' = Inl (HTTPException 409)"
    unfolding reconcile_bet_def row assms(6)
    using rs by (simp add: mirror_row_def post_settled_def map_error_def mirror_error_def bridge_error_def)
  with rs show ?thesis by blast
qed

subsection \<open>A sample bridge\<close>

definition demo_live_db :: live_db where
  "demo_live_db = \<lparr>accounts = accounts demo_db @ [demo_account LIVEBETS_ESCROW_ACCOUNT_ID OWNER_SYSTEM None ''livebets_escrow'' 0],
     transfers = transfers demo_db, entries = entries demo_db, row_locks = [], audit_log = [],
     markets = markets demo_db, market_groups = [], outcomes = outcomes demo_db, odds_snapshots = [], bets = [],
     live_bets = []\<rparr>"

definition demo_client :: "string \<Rightarrow> rat \<Rightarrow> json \<Rightarrow> live_client" where
  "demo_client st stk pay b = Inr [(''id'', JUuid b), (''status'', JStr st), (''stake'', JDec stk), (''payout'', pay)]"

definition demo_mirror_db :: live_db where
  "demo_mirror_db = demo_live_db\<lparr>
     accounts := [demo_account HOUSE_PROMO_ACCOUNT_ID OWNER_SYSTEM None KIND_HOUSE_PROMO 999999900,
       demo_account HOUSE_REVENUE_ACCOUNT_ID OWNER_SYSTEM None KIND_HOUSE_REVENUE 0,
       (demo_account 1 OWNER_USER (Some 5) KIND_USER_WALLET 75)\<lparr>version := 1\<rparr>,
       demo_account LIVEBETS_ESCROW_ACCOUNT_ID OWNER_SYSTEM None ''livebets_escrow'' 25],
     transfers := transfers demo_ledger @ [demo_transfer 0x20 TRANSFER_LIVEBETS_PLACED (Some (livebets_key 0x77 ''placed'')) (Some 5)
       [(''bet_id'', JUuid 0x77), (''table_id'', JNull)] 10],
     entries := entries demo_ledger @ demo_entries 0x20 1 LIVEBETS_ESCROW_ACCOUNT_ID 25 10,
     row_locks := [AccountRow 1, AccountRow LIVEBETS_ESCROW_ACCOUNT_ID],
     live_bets := [\<lparr>lb_bet_id = 0x77, lb_user_id = 5, lb_table_id = None, lb_market_id = None, lb_stake = 25,
       lb_status = LIVEBETS_PENDING, lb_created_at = 10, lb_settled_at = None\<rparr>]\<rparr>"

lemma demo_live_ok: "live_ok demo_live_db"
proof -
  have "ledger_wf demo_live_db" "reconciled_except {HOUSE_PROMO_ACCOUNT_ID} demo_live_db" "house_seeded demo_live_db"
    "escrow_seeded demo_live_db" "bal demo_live_db LIVEBETS_ESCROW_ACCOUNT_ID = 0" by code_simp+
  moreover have "double_entry demo_live_db"
    by (simp add: double_entry_def demo_live_db_def demo_db_def demo_ledger_def)
  moreover have "liability_ids m demo_live_db = []" for m
    by (simp add: liability_ids_def demo_live_db_def demo_db_def demo_ledger_def demo_account_def is_liability_of_def)
  ultimately show ?thesis
    by (simp add: live_ok_def mirrored_stakes_def platform_ok_def books_ok_def pool_ok_def liability_balance_def
        pending_bets_def bets_ok_def) (simp add: demo_live_db_def)
qed

lemma demo_mirrored: "record_placed demo_limits (demo_client LIVEBETS_PENDING 25 JNull) (0x20, 0x21, 0x22) 10 5 0x77 None demo_live_db
    = Inr (\<lparr>mr_bet_id = 0x77, mr_status = LIVEBETS_PENDING, applied = True\<rparr>, demo_mirror_db)"
  by code_simp

lemma demo_mirror_ok: "live_ok demo_mirror_db"
  by (rule record_placed_live_ok [OF demo_mirrored demo_live_ok])

lemma livebets_escrow_invariant_witness: "live_ok demo_mirror_db \<and> mirrored_stakes demo_mirror_db = 25"
proof -
  have "bal demo_mirror_db LIVEBETS_ESCROW_ACCOUNT_ID = 25" by code_simp
  then show ?thesis using livebets_escrow_invariant [OF disjI1 [OF demo_mirrored] demo_live_ok] by simp
qed

definition demo_win :: live_client where
  "demo_win = demo_client LIVEBETS_WON 25 (JDec 60)"

definition demo_won_db :: live_db where
  "demo_won_db = demo_mirror_db\<lparr>
     accounts := [(demo_account HOUSE_PROMO_ACCOUNT_ID OWNER_SYSTEM None KIND_HOUSE_PROMO 999999865)\<lparr>version := 1\<rparr>,
       demo_account HOUSE_REVENUE_ACCOUNT_ID OWNER_SYSTEM None KIND_HOUSE_REVENUE 0,
       (demo_account 1 OWNER_USER (Some 5) KIND_USER_WALLET 135)\<lparr>version := 1\<rparr>,
       (demo_account LIVEBETS_ESCROW_ACCOUNT_ID OWNER_SYSTEM None ''livebets_escrow'' 0)\<lparr>version := 1\<rparr>],
     transfers := transfers demo_mirror_db @
       [demo_transfer 0x100 TRANSFER_LIVEBETS_SETTLE_STAKE_RETURN (Some (livebets_key 0x77 ''settled:stake'')) (Some 5) [(''bet_id'', JUuid 0x77)] 20,
        demo_transfer 0x103 TRANSFER_LIVEBETS_SETTLE_WINNINGS (Some (livebets_key 0x77 ''settled:winnings'')) (Some 5) [(''bet_id'', JUuid 0x77)] 20],
     entries := entries demo_mirror_db @ demo_entries 0x100 LIVEBETS_ESCROW_ACCOUNT_ID 1 25 20 @ demo_entries 0x103 HOUSE_PROMO_ACCOUNT_ID 1 35 20,
     row_locks := [AccountRow 1, AccountRow HOUSE_PROMO_ACCOUNT_ID, AccountRow LIVEBETS_ESCROW_ACCOUNT_ID],
     live_bets := [\<lparr>lb_bet_id = 0x77, lb_user_id = 5, lb_table_id = None, lb_market_id = None, lb_stake = 25,
       lb_status = LIVEBETS_WON, lb_created_at = 10, lb_settled_at = Some 20\<rparr>]\<rparr>"

lemma demo_settled_win: "record_settled demo_win (demo_gen 0x100) 20 5 0x77 demo_mirror_db
    = Inr (\<lparr>mr_bet_id = 0x77, mr_status = LIVEBETS_WON, applied = True\<rparr>, demo_won_db)"
  by code_simp


lemma livebets_settle_once_witness:
  "okE (\<lambda>(r, s2). \<not> applied r \<and> live_bets s2 = live_bets demo_won_db) (record_settled demo_win (demo_gen 0x200) 30 5 0x77 demo_won_db)"
proof -
  have "okE (\<lambda>_. True) (record_settled demo_win (demo_gen 0x200) 30 5 0x77 demo_won_db)" by code_simp
  then obtain r2 s2 where r: "record_settled demo_win (demo_gen 0x200) 30 5 0x77 demo_won_db = Inr (r2, s2)"
    by (auto simp: okE_iff)
  show ?thesis using livebets_settle_once [OF demo_settled_win _ demo_mirror_ok r] r by (simp add: okE_iff)
qed

lemma livebets_foreign_settle_rejected_witness:
  "post_settled demo_win (demo_gen 0x100) 20 6 0x77 demo_mirror_db = Inl (HTTPException 404)"
proof -
  have "\<exists>m. filter (\<lambda>m. lb_bet_id m = 0x77) (live_bets demo_mirror_db) = [m] \<and> lb_user_id m \<noteq> 6"
    by (simp add: demo_mirror_db_def)
  then obtain m where m: "filter (\<lambda>m. lb_bet_id m = 0x77) (live_bets demo_mirror_db) = [m]" "lb_user_id m \<noteq> 6" by blast
  have "okE (\<lambda>v. vb_status v = LIVEBETS_WON) (bindE (demo_win 0x77) parse_verified_bet)" by code_simp
  then obtain v where "bindE (demo_win 0x77) parse_verified_bet = Inr v" "vb_status v \<in> LIVEBETS_SETTLED_STATUSES"
    by (auto simp: okE_iff LIVEBETS_SETTLED_STATUSES_def)
  then show ?thesis using livebets_foreign_settle_rejected [OF m, of demo_win] by blast
qed

lemma livebets_fine_stake_is_stuck_witness:
  "okE (\<lambda>(r, s'). record_settled (demo_client LIVEBETS_LOST (1000005/100000) JNull) (demo_gen 0x100) 20 5 0x77 s'
       = Inl LiveBetsVerificationError)
     (record_placed demo_limits (demo_client LIVEBETS_PENDING (1000005/100000) JNull) (0x20, 0x21, 0x22) 10 5 0x77 None demo_live_db)"
proof -
  let ?c = "demo_client LIVEBETS_PENDING (1000005/100000) JNull" and ?d = "demo_client LIVEBETS_LOST (1000005/100000) JNull"
  have "okE (\<lambda>(r, s'). applied r) (record_placed demo_limits ?c (0x20, 0x21, 0x22) 10 5 0x77 None demo_live_db)" by code_simp
  then obtain r s' where p: "record_placed demo_limits ?c (0x20, 0x21, 0x22) 10 5 0x77 None demo_live_db = Inr (r, s')" "applied r"
    by (auto simp: okE_iff)
  have "okE (\<lambda>v. vb_stake v = 1000005/100000) (bindE (?c 0x77) parse_verified_bet)"
    "okE (\<lambda>v. vb_stake v = 1000005/100000 \<and> vb_status v = LIVEBETS_LOST) (bindE (?d 0x77) parse_verified_bet)" by code_simp+
  then obtain v v2 where v: "bindE (?c 0x77) parse_verified_bet = Inr v" "vb_stake v = 1000005/100000"
      "bindE (?d 0x77) parse_verified_bet = Inr v2" "vb_stake v2 = vb_stake v" "vb_status v2 \<in> LIVEBETS_SETTLED_STATUSES"
    by (auto simp: okE_iff LIVEBETS_SETTLED_STATUSES_def)
  have fine: "\<not> is_money (vb_stake v)" unfolding v(2) by code_simp
  then show ?thesis
    using livebets_fine_stake_is_stuck [where ?client2.0 = ?d, OF p v(1) fine demo_live_ok v(3-5)] p(1)
    by (simp add: okE_iff)
qed

end
