(* ===== verification/Platform.thy ===== *)
theory Platform
  imports GammaRules LiveBetsRules
begin

text \<open>
  The components together.  \<open>platform_step\<close> is one committed transaction of any modelled operation;
  its reachable states keep the bridge and platform invariants, conserve money and only append to the
  ledger and the audit log.  Event settlement is a sequence of such steps.
\<close>

subsection \<open>Operations that leave the bridge alone\<close>

text \<open>The tables the core services do not know of.\<close>

lemma more_rest:
  fixes s s' :: "'a db_scheme"
  assumes "ledger.more s' = ledger.more s"
  shows "db.more s' = db.more s"
  using assms by (cases s; cases s'; simp)

definition quiet :: "'a live_db_scheme \<Rightarrow> 'a live_db_scheme \<Rightarrow> bool" where
  "quiet s s' \<longleftrightarrow> db.more s' = db.more s \<and> ledger_steps s s' \<and> platform_ok s'
     \<and> bal s' LIVEBETS_ESCROW_ACCOUNT_ID = bal s LIVEBETS_ESCROW_ACCOUNT_ID \<and> audit_grows s s'"

interpretation escrow: ledger_invariant escrow_seeded
proof
  fix t d c and s s' :: "'a ledger_scheme"
  assume "posts t d c s s'" "escrow_seeded s"
  then show "escrow_seeded s'" using escrow_seeded_key posts_keys by blast
qed (auto simp: escrow_seeded_def opens_def same_books_def)

lemma quiet_live_ok:
  fixes s s' :: "'a live_db_scheme"
  assumes "quiet s s'" "live_ok s"
  shows "live_ok s'"
proof -
  have "live_bets s' = live_bets s" using assms(1) by (cases s; cases s') (simp add: quiet_def)
  moreover have "escrow_seeded s'"
    using assms platform_wf by (auto simp: quiet_def live_ok_def intro: escrow.steps_keep)
  ultimately show ?thesis using assms by (simp add: quiet_def live_ok_def mirrored_stakes_def)
qed

lemma escrow_apart:
  assumes "live_ok s"
  shows "resolve_user_wallet_id u s = Inr w \<Longrightarrow> w \<noteq> LIVEBETS_ESCROW_ACCOUNT_ID"
    "l \<in> set (liability_ids mid s) \<Longrightarrow> l \<noteq> LIVEBETS_ESCROW_ACCOUNT_ID"
proof -
  have wf: "ledger_wf s" and e: "escrow_seeded s" using assms by (auto simp: live_ok_def platform_wf)
  then obtain a where "a \<in> set (accounts s)" "acc_id a = LIVEBETS_ESCROW_ACCOUNT_ID" "owner_type a = OWNER_SYSTEM"
    by (auto simp: escrow_seeded_def)
  then show "w \<noteq> LIVEBETS_ESCROW_ACCOUNT_ID" if "resolve_user_wallet_id u s = Inr w"
    using wallet_not_system [OF wf that] by fastforce
  show "l \<noteq> LIVEBETS_ESCROW_ACCOUNT_ID" if "l \<in> set (liability_ids mid s)"
    using escrow_not_liability [OF wf e, of mid] that by auto
qed

lemma quiet_frame:
  assumes "same_books s s'" "bets s' = bets s" "db.more s' = db.more s" "platform_ok s" "audit_grows s s'"
  shows "quiet s s'"
  using assms platform_frame [OF assms(1,2,4)] ledger_steps_frame [OF assms(1)]
  by (simp add: quiet_def bal_same_books [OF assms(1)])

lemma quiet_refl: "platform_ok s \<Longrightarrow> quiet s s"
  by (rule quiet_frame) simp_all

subsection \<open>Wallet operations\<close>

lemma quiet_posted:
  assumes "posted kind key da ca m t s s'" "ledger.more s' = ledger.more s" "platform_ok s"
    and "\<And>v j. v \<in> set (liability_ids j s) \<Longrightarrow> v \<noteq> da \<and> v \<noteq> ca"
    and "da \<noteq> LIVEBETS_ESCROW_ACCOUNT_ID" "ca \<noteq> LIVEBETS_ESCROW_ACCOUNT_ID"
  shows "quiet s s'"
proof -
  note b = posted_bal [OF assms(1) platform_wf [OF assms(3)]]
  have "platform_ok s'"
  proof (rule platform_neutral [OF assms(3) _ posted_transfers(2) [OF assms(1)], where f = "\<lambda>u. (if u = ca then m else 0) - (if u = da then m else 0)"])
    show "ledger_steps s s'" using posted_step [OF assms(1)] by blast
    show "bets s' = bets s" by (rule more_fields(1) [OF assms(2)])
  qed (use b assms(4) in auto)
  then show ?thesis
    using posted_step [OF assms(1)] more_rest [OF assms(2)] more_fields(3) [OF assms(2)] b assms(5,6) by (auto simp: quiet_def)
qed

lemma fund_from_house_more: "fund_from_house ids now kind key u amt r s = Inr (t, s') \<Longrightarrow> ledger.more s' = ledger.more s"
  by (auto simp: fund_from_house_def Let_def dest!: post_transfer_more)

lemma quiet_fund:
  fixes s s' :: "'a live_db_scheme"
  assumes "or_existing key s (fund_from_house ids now kind key u amt r s) = Inr (t, s')" "live_ok s"
  shows "quiet s s'"
  using or_existing_Inr [OF assms(1)]
proof (elim disjE conjE)
  assume f: "fund_from_house ids now kind key u amt r s = Inr (t, s')"
  have ok: "platform_ok s" and wf: "ledger_wf s" "house_seeded s"
    using assms(2) by (simp_all add: live_ok_def platform_ok_def platform_wf)
  obtain w m where w: "resolve_user_wallet_id u s = Inr w" and p: "posted kind (Some key) HOUSE_PROMO_ACCOUNT_ID w m t s s'"
    using fund_from_house_Inr [OF f] by blast
  show ?thesis
  proof (rule quiet_posted [OF p fund_from_house_more [OF f] ok])
    show "v \<noteq> HOUSE_PROMO_ACCOUNT_ID \<and> v \<noteq> w" if "v \<in> set (liability_ids j s)" for v j
      using that house_not_liability [OF wf] wallet_not_liability [OF wf(1) w] by blast
    show "HOUSE_PROMO_ACCOUNT_ID \<noteq> LIVEBETS_ESCROW_ACCOUNT_ID" using escrow_differs by metis
    show "w \<noteq> LIVEBETS_ESCROW_ACCOUNT_ID" by (rule escrow_apart(1) [OF assms(2) w])
  qed
qed (use assms(2) in \<open>simp add: quiet_refl live_ok_def\<close>)

lemma quiet_recharge: "recharge ids now u amt reason key prov s = Inr (t, s') \<Longrightarrow> live_ok s \<Longrightarrow> quiet s s'"
  by (auto simp: recharge_def intro: quiet_fund split: if_splits)

lemma quiet_bonus: "grant_signup_bonus ids now u amt s = Inr (t, s') \<Longrightarrow> live_ok s \<Longrightarrow> quiet s s'"
  by (auto simp: grant_signup_bonus_def intro: quiet_fund split: if_splits)

lemma quiet_wallet:
  fixes s s' :: "'a live_db_scheme"
  assumes "create_wallet i u s = Inr (a, s')" "platform_ok s"
  shows "quiet s s'"
proof -
  have o: "opens a s s'" by (rule create_wallet_opens [OF assms(1)])
  have m: "ledger.more s' = ledger.more s" and k: "owner_type a = OWNER_USER"
    using assms(1) by (auto simp: create_wallet_def insert_account_def Let_def split: if_splits)
  have acc: "accounts s' = accounts s @ [a]" using o by (simp add: opens_def)
  have ids: "liability_ids j s' = liability_ids j s" for j
    using k by (simp add: liability_ids_def acc is_liability_of_def)
  have b: "bal s' = bal s" using bal_opens [OF o] by (simp add: fun_eq_iff)
  have st: "ledger_steps s s'" using ledger_step.open_account [OF o] by blast
  have "platform_ok s'"
    using assms(2) steps_books_ok [OF st] more_fields(1) [OF m] o
    by (auto simp: platform_ok_def pool_ok_def liability_balance_def ids b pending_bets_def bets_ok_def house_seeded_def acc opens_def)
  then show ?thesis using st more_rest [OF m] more_fields(3) [OF m] b by (simp add: quiet_def audit_grows_same)
qed

subsection \<open>Bets\<close>

lemma place_bet_tx_rest:
  assumes "place_bet_tx nb ids now u mid chosen stk l s = Inr (b, s')"
  shows "db.more s' = db.more s" "audit_log s' = audit_log s"
proof -
  obtain w r u1 t md where ins: "insert_bet r (lock_accounts [w, l] (begin_tx s)) = Inr u1"
    and post: "post_transfer ids now TRANSFER_BET_PLACED None (Some u) w l stk md u1 = Inr (t, s')"
    using assms by (auto simp: place_bet_tx_def Let_def split: if_splits)
  note p = post_transfer_more [OF post]
  have i: "db.more u1 = db.more (lock_accounts [w, l] (begin_tx s))" "audit_log u1 = audit_log (lock_accounts [w, l] (begin_tx s))"
    using ins by (auto simp: insert_bet_Inr)
  have l: "ledger.more (lock_accounts [w, l] (begin_tx s)) = ledger.more s" by simp
  show "db.more s' = db.more s" using more_rest [OF p] i(1) more_rest [OF l] by simp
  show "audit_log s' = audit_log s" using more_fields(3) [OF p] i(2) more_fields(3) [OF l] by simp
qed

lemma quiet_place:
  fixes s s' :: "'a live_db_scheme"
  assumes "place_bet limits get_market na nb ids now u mid oc stk s = (r, s')" "live_ok s"
  shows "quiet s s'"
proof -
  have ok: "platform_ok s" and wf: "ledger_wf s" using assms(2) by (simp_all add: live_ok_def platform_wf)
  show ?thesis
    using assms(1)
  proof (cases rule: place_bet_cases)
    case (tx m chosen l s1)
    have u1: "\<forall>k. length (liability_ids k s) \<le> 1" using ok by (simp add: platform_ok_def)
    have ok1: "platform_ok s1" by (rule ensure_platform [OF tx(5) ok])
    note e = ensure_effect [OF tx(5) u1]
    have q1: "quiet s s1" using e(1,3) more_rest [OF e(4)] more_fields(3) [OF e(4)] ok1 by (simp add: quiet_def audit_grows_same)
    show ?thesis
    proof (cases "place_bet_tx nb ids now u mid chosen stk l s1")
      case (Inl x) then show ?thesis using tx(8) q1 by simp
    next
      case (Inr bs)
      obtain b where b: "place_bet_tx nb ids now u mid chosen stk l s1 = Inr (b, s')"
        using Inr tx(8) by (cases bs) simp
      obtain w m' t where w: "resolve_user_wallet_id u s1 = Inr w" and p: "posted TRANSFER_BET_PLACED None w l m' t s1 s'"
        using place_bet_tx_effect [OF b] by blast
      have lo1: "live_ok s1" by (rule quiet_live_ok [OF q1 assms(2)])
      have "w \<noteq> LIVEBETS_ESCROW_ACCOUNT_ID" "l \<noteq> LIVEBETS_ESCROW_ACCOUNT_ID"
        using escrow_apart(1) [OF lo1 w] escrow_apart(2) [OF lo1, of l mid] e(2) by simp_all
      then have "bal s' LIVEBETS_ESCROW_ACCOUNT_ID = bal s1 LIVEBETS_ESCROW_ACCOUNT_ID"
        using posted_bal [OF p platform_wf [OF ok1]] by simp
      moreover have "ledger_steps s1 s'" using posted_step [OF p] by blast
      ultimately show ?thesis
        using q1 place_bet_tx_rest [OF b] place_bet_platform [OF assms(1) ok]
        by (auto simp: quiet_def audit_grows_def intro: ledger_steps_trans)
    qed
  qed (use ok in \<open>simp add: quiet_refl\<close>)
qed

lemma quiet_sell:
  fixes s s' :: "'a live_db_scheme"
  assumes "sell_position get_market gen now i u s = Inr (cr, s')" "live_ok s"
  shows "quiet s s'"
proof -
  have ok: "platform_ok s" and wf: "ledger_wf s" and bok: "bets_ok s" using assms(2) by (simp_all add: live_ok_def platform_wf platform_ok_def)
  obtain w l and b :: bet where w: "resolve_user_wallet_id u s = Inr w" and l: "resolve_market_liability_id (bet_market_id b) s = Inr l"
    and bl: "\<forall>a. bal s' a = bal s a + (if a = w then cr_payout cr else 0) - (if a = l then stake b else 0)
           - (if a = HOUSE_PROMO_ACCOUNT_ID then max 0 (cr_payout cr - stake b) else 0)
           + (if a = HOUSE_REVENUE_ACCOUNT_ID then max 0 (stake b - cr_payout cr) else 0)"
    and ok': "platform_ok s'"
    using sell_position_posted [OF assms(1) ok] by blast
  obtain specs u1 mid f where post: "post_specs close_idempotency_key gen now (Some u) (Some mid) specs
         (lock_touched specs (lock_row (BetRow i) (begin_tx s))) = Inr u1" and s': "s' = update_bet_row i f u1"
    using sell_position_effect [OF assms(1) bok] by blast
  have sb: "same_books s (lock_touched specs (lock_row (BetRow i) (begin_tx s)))" by (simp add: same_books_def lock_touched_def)
  have "ledger_steps s u1" by (rule post_specs_cast_effect(1) [OF post sb wf])
  then have st: "ledger_steps s s'" using ledger_steps_trans [OF _ ledger_steps_frame, of s u1 s'] by (simp add: s')
  have "ledger.more u1 = ledger.more s" using post_specs_more [OF post] by simp
  then have m: "db.more s' = db.more s" "audit_log s' = audit_log s"
    using more_rest [of u1 s] more_fields(3) [of u1 s] by (simp_all add: s' update_bet_row_def)
  have "w \<noteq> LIVEBETS_ESCROW_ACCOUNT_ID" "l \<noteq> LIVEBETS_ESCROW_ACCOUNT_ID"
    using escrow_apart(1) [OF assms(2) w] escrow_apart(2) [OF assms(2), of l "bet_market_id b"] l
    by (simp_all add: resolve_liability_ids)
  then show ?thesis using bl st m ok' escrow_differs by (simp add: quiet_def audit_grows_same)
qed

subsection \<open>Settlement\<close>

lemma rest_bet_updates: "db.more (fold (\<lambda>b. update_bet_row (k b) (g b)) bs s) = db.more s"
  "audit_log (fold (\<lambda>b. update_bet_row (k b) (g b)) bs s) = audit_log s"
  by (induction bs arbitrary: s) (simp_all add: update_bet_row_def)

lemma settle_bets_rest:
  assumes "settle_bets gen now actor mid bs plan s = Inr s'"
  shows "db.more s' = db.more s" "audit_log s' = audit_log s"
proof -
  obtain specs where "post_specs settle_idempotency_key gen now actor (Some mid) specs
      (lock_touched specs (set_statuses (plan_settled plan) s)) = Inr s'"
    using assms by (auto simp: settle_bets_def Let_def)
  note p = post_specs_more [OF this]
  show "db.more s' = db.more s"
    using more_rest [OF p] by (simp add: set_statuses_def rest_bet_updates more_rest [OF more_lock_touched])
  show "audit_log s' = audit_log s"
    using more_fields(3) [OF p] by (simp add: set_statuses_def rest_bet_updates more_fields(3) [OF more_lock_touched])
qed

lemma house_mark_rest:
  "house_mark_resolved t mid w src j s = Inr s' \<Longrightarrow> db.more s' = db.more s"
  "house_mark_unresolved mid s = Inr s' \<Longrightarrow> db.more s' = db.more s"
  by (auto simp: house_mark_resolved_def house_mark_unresolved_def update_market_row_def split: option.splits if_splits)

lemma lock_bets_rest: "db.more (lock_bets bs (begin_tx s)) = db.more s" "audit_log (lock_bets bs (begin_tx s)) = audit_log s"
  by (rule more_rest more_fields(3); simp)+

lemma resolve_rest:
  assumes "resolve_market (house_resolver t) gen aid now mid w j actor s = Inr (plan, s')"
  shows "db.more s' = db.more s"
    "\<exists>r. audit_log s' = audit_log s @ [r] \<and> event_type r = ''settlement.resolved'' \<and> occurred_at r = now"
proof -
  let ?bs = "pending_bets mid s"
  obtain s1 s2 body where s1: "(if ?bs = [] then Inr (lock_bets ?bs (begin_tx s))
        else settle_bets gen now actor mid ?bs plan (lock_bets ?bs (begin_tx s))) = Inr s1"
    and s2: "house_mark_resolved t mid w (if actor = None then ''POLYMARKET_UMA'' else ''HOUSE'') j s1 = Inr s2"
    and a: "audit_record aid now (actor_string actor) ''settlement.resolved'' body None s2 = Inr s'"
    using assms unfolding resolve_market_def Let_def bindE_eq_Inr house_resolver_def by auto
  have m: "db.more s1 = db.more s" "audit_log s1 = audit_log s"
    using s1 by (cases "?bs = []"; auto simp: lock_bets_rest dest: settle_bets_rest)+
  show "db.more s' = db.more s" using m house_mark_rest(1) [OF s2] a by (simp add: audit_record_Inr)
  show "\<exists>r. audit_log s' = audit_log s @ [r] \<and> event_type r = ''settlement.resolved'' \<and> occurred_at r = now"
    using m house_frame(1) [OF s2] a by (auto simp: audit_record_Inr)
qed

lemma quiet_resolve:
  fixes s s' :: "'a live_db_scheme"
  assumes "resolve_market (house_resolver t) gen aid now mid w j actor s = Inr (plan, s')" "live_ok s"
  shows "quiet s s'"
proof -
  have ok: "platform_ok s" using assms(2) by (simp add: live_ok_def)
  note e = house.resolve_effect [OF assms(1) ok]
  obtain l where l: "pending_bets mid s \<noteq> [] \<longrightarrow> resolve_market_liability_id mid s = Inr l"
    and wl: "\<forall>b \<in> set (pending_bets mid s). bet_won w b \<longrightarrow> resolve_user_wallet_id (bet_user_id b) s = Inr (wal s (bet_user_id b))"
    and bl: "\<forall>a. bal s' a = bal s a + (\<Sum>b\<leftarrow>pending_bets mid s. settle_net w l (wal s) a b)"
    using e(7) by blast
  have "settle_net w l (wal s) LIVEBETS_ESCROW_ACCOUNT_ID b = 0" if b: "b \<in> set (pending_bets mid s)" for b
  proof -
    have "pending_bets mid s \<noteq> []" using b by auto
    then have "l \<in> set (liability_ids mid s)" using l by (simp add: resolve_liability_ids)
    from escrow_apart(2) [OF assms(2) this] have "l \<noteq> LIVEBETS_ESCROW_ACCOUNT_ID" .
    moreover have "bet_won w b \<Longrightarrow> wal s (bet_user_id b) \<noteq> LIVEBETS_ESCROW_ACCOUNT_ID"
      using wl b escrow_apart(1) [OF assms(2)] by blast
    ultimately show ?thesis using escrow_differs by (auto simp: settle_net_def)
  qed
  then have "(\<Sum>b\<leftarrow>pending_bets mid s. settle_net w l (wal s) LIVEBETS_ESCROW_ACCOUNT_ID b) = (\<Sum>b\<leftarrow>pending_bets mid s. 0)"
    by (rule sum_cong_list)
  then show ?thesis using e(1,5) bl resolve_rest [OF assms(1)] by (auto simp: quiet_def audit_grows_def)
qed

lemma reverse_bets_rest:
  assumes "reverse_bets (house_resolver t) gen now actor mid bs s = Inr s'"
  shows "db.more s' = db.more s" "audit_log s' = audit_log s"
proof -
  obtain specs s3 where p: "post_specs reverse_idempotency_key gen now actor (Some mid) specs
      (lock_touched specs (reopen_bets bs s)) = Inr s3" and u: "house_mark_unresolved mid s3 = Inr s'"
    using assms by (auto simp: reverse_bets_def Let_def house_resolver_def)
  have l: "ledger.more (lock_bets bs s) = ledger.more s" by simp
  have "db.more s3 = db.more (reopen_bets bs s)" "audit_log s3 = audit_log (reopen_bets bs s)"
    using more_rest [OF post_specs_more [OF p]] more_fields(3) [OF post_specs_more [OF p]]
    by (simp_all add: more_rest [OF more_lock_touched] more_fields(3) [OF more_lock_touched])
  moreover have "db.more (reopen_bets bs s) = db.more s" "audit_log (reopen_bets bs s) = audit_log s"
    using more_rest [OF l] more_fields(3) [OF l] by (simp_all add: reopen_bets_def rest_bet_updates)
  ultimately show "db.more s' = db.more s" "audit_log s' = audit_log s"
    using house_mark_rest(2) [OF u] house_frame(2) [OF u] by simp_all
qed

lemma quiet_reverse:
  fixes s s' :: "'a live_db_scheme"
  assumes "reverse_settlement (house_resolver t) gen aid now mid j actor s = Inr (n, s')" "live_ok s"
  shows "quiet s s'"
proof -
  have ok: "platform_ok s" using assms(2) by (simp add: live_ok_def)
  let ?bs = "settled_bets mid s"
  have q0: "quiet s (begin_tx s)" by (rule quiet_frame [OF _ _ _ ok]) (simp_all add: begin_tx_def same_books_def audit_grows_def)
  have lo0: "live_ok (begin_tx s)" by (rule quiet_live_ok [OF q0 assms(2)])
  have sb: "settled_bets mid (begin_tx s) = settled_bets mid s" by (simp add: settled_bets_def begin_tx_def)
  obtain s1 body where s1: "(if ?bs = [] then Inr (begin_tx s)
       else reverse_bets (house_resolver t) gen now actor mid ?bs (begin_tx s)) = Inr s1"
    and a: "audit_record aid now (actor_string actor) ''settlement.reversed'' body None s1 = Inr s'"
    using assms(1) unfolding reverse_settlement_def Let_def bindE_eq_Inr sb by blast
  have f: "same_books s1 s'" "db.more s' = db.more s1" "audit_grows s1 s'" using a by (simp_all add: audit_record_Inr audit_grows_def)
  have "bal s1 LIVEBETS_ESCROW_ACCOUNT_ID = bal s LIVEBETS_ESCROW_ACCOUNT_ID \<and> db.more s1 = db.more s \<and> audit_log s1 = audit_log s"
  proof (cases "?bs = []")
    case True then show ?thesis using s1 q0 by (auto simp: quiet_def begin_tx_def)
  next
    case False
    then have r: "reverse_bets (house_resolver t) gen now actor mid ?bs (begin_tx s) = Inr s1" using s1 by simp
    obtain l where l: "liability_ids mid (begin_tx s) = [l]"
      and wl: "\<forall>b \<in> set ?bs. bet_status b = BET_SETTLED_WON \<longrightarrow> resolve_user_wallet_id (bet_user_id b) (begin_tx s) = Inr (wal (begin_tx s) (bet_user_id b))"
      and bl: "\<forall>a. bal s1 a = bal (begin_tx s) a + (\<Sum>b\<leftarrow>?bs. reverse_net l (wal (begin_tx s)) a b)"
      using house.reverse_bets_effect [OF r _ sb [symmetric]] lo0 by (auto simp: live_ok_def)
    have "l \<noteq> LIVEBETS_ESCROW_ACCOUNT_ID" using escrow_apart(2) [OF lo0, of l mid] l by simp
    then have "reverse_net l (wal (begin_tx s)) LIVEBETS_ESCROW_ACCOUNT_ID b = 0" if b: "b \<in> set ?bs" for b
      using wl b escrow_apart(1) [OF lo0] escrow_differs by (fastforce simp: reverse_net_def)
    then have "(\<Sum>b\<leftarrow>?bs. reverse_net l (wal (begin_tx s)) LIVEBETS_ESCROW_ACCOUNT_ID b) = (\<Sum>b\<leftarrow>?bs. 0)"
      by (rule sum_cong_list)
    then show ?thesis using bl q0 reverse_bets_rest [OF r] by (simp add: quiet_def begin_tx_def)
  qed
  then show ?thesis
    using house.reverse_settlement_platform [OF assms(1) ok] f bal_same_books [OF f(1)] by (simp add: quiet_def audit_grows_def)
qed

subsection \<open>Operations that never touch books or bets\<close>

lemma quiet_aside:
  fixes s s' :: "'a live_db_scheme"
  shows "aside s s' \<Longrightarrow> live_ok s \<Longrightarrow> quiet s s'"
  by (auto simp: aside_def live_ok_def intro: quiet_frame)

lemma aside_create_market:
  assumes "create_market slugify draws ids now admin b ip s = Inr (m, s')"
  shows "aside s s'"
proof -
  obtain yi ni sy sn ai where ids: "ids = (yi, ni, sy, sn, ai)" by (cases ids)
  obtain s1 yes s2 no s3 s4 s5 body where m: "insert_with_slug slugify (take 3 draws) False now b s = Inr (m, s1)"
    and c: "insert_outcome (new_outcome yi (mk_id m) ''YES'' (mc_odds_yes b)) s1 = Inr (yes, s2)"
    "insert_outcome (new_outcome ni (mk_id m) ''NO'' (dec_sub 1 (mc_odds_yes b))) s2 = Inr (no, s3)"
    "insert_snapshot (new_snapshot sy (mk_id m) yi (mc_odds_yes b) now) s3 = Inr s4"
    "insert_snapshot (new_snapshot sn (mk_id m) ni (dec_sub 1 (mc_odds_yes b)) now) s4 = Inr s5"
    "audit_record ai now (actor_string (Some admin)) ''market.created'' body ip s5 = Inr s'"
    using assms by (auto simp: create_market_def ids Let_def)
  have "aside s s1" using m by (auto elim!: insert_with_slug_Inr dest: aside_inserts(1))
  also note aside_inserts(2) [OF c(1)] also note aside_inserts(2) [OF c(2)]
  also note aside_inserts(3) [OF c(3)] also note aside_inserts(3) [OF c(4)]
  also note aside_audit [OF c(5)]
  finally show ?thesis .
qed

lemma aside_post_market: "post_market slugify draws ids now admin b ip s = Inr (m, s') \<Longrightarrow> aside s s'"
  by (auto simp: post_market_def dest!: validate_create_Inr aside_create_market intro: aside_trans [OF aside_rows(1)])

lemma aside_reprice: "reprice gen now p x s = Inr s' \<Longrightarrow> aside s s'"
  by (cases x) (auto simp: reprice_def Let_def intro: aside_trans [OF aside_rows(3)] dest!: aside_inserts(3))

lemma aside_update_market:
  assumes "update_market gen ai now m b admin ip s = Inr (ds, s')"
  shows "aside s s'"
proof -
  let ?s1 = "\<lambda>lo hi. update_market_row (mk_id m) (patch_row b lo hi) s"
  obtain lo hi s2 where u: "(case mu_odds_yes b of None \<Rightarrow> Inr (?s1 lo hi)
         | Some p \<Rightarrow> foldE (reprice gen now p) (List.enumerate 0 (market_outcomes (mk_id m) s)) (?s1 lo hi)) = Inr s2"
      "(if changed_fields b = [] then Inr s2
        else audit_record ai now (actor_string (Some admin)) ''market.updated''
          [(''market_id'', JUuid (mk_id m)), (''changed_fields'', JList (map JStr (changed_fields b)))] ip s2) = Inr s'"
    using assms by (auto simp: update_market_def Let_def split: if_splits)
  have "aside s (?s1 lo hi)" by simp
  also have "aside (?s1 lo hi) s2"
    using u(1) by (cases "mu_odds_yes b") (auto intro: aside_fold aside_reprice)
  also have "aside s2 s'" using u(2) by (cases "changed_fields b = []") (auto dest: aside_audit)
  finally show ?thesis .
qed

lemma aside_patch_market:
  assumes "patch_market gen ai now mid b admin ip s = Inr (ds, s')"
  shows "aside s s'"
proof -
  obtain m where "update_market gen ai now m b admin ip (begin_tx s) = Inr (ds, s')"
    using assms by (auto simp: patch_market_def dest!: validate_update_Inr split: option.splits)
  from aside_trans [OF aside_rows(1) aside_update_market [OF this]] show ?thesis .
qed

lemma aside_post_close:
  assumes "post_close_market ai now mid admin ip s = Inr s'"
  shows "aside s s'"
proof -
  let ?f = "\<lambda>m :: market. m\<lparr>mk_status := CLOSED, mk_closed_at := Some now\<rparr>"
  obtain m :: market and body where a: "audit_record ai now (actor_string (Some admin)) ''market.closed'' body ip (update_market_row (mk_id m) ?f (begin_tx s)) = Inr s'"
    using assms by (auto simp: post_close_market_def close_market_def split: option.splits if_splits)
  have "aside s (begin_tx s)" by simp
  also have "aside (begin_tx s) (update_market_row (mk_id m) ?f (begin_tx s))" by simp
  also note aside_audit [OF a]
  finally show ?thesis .
qed

lemma aside_add_child: "add_event_child slugify now g ddl cat crit x s = Inr s' \<Longrightarrow> aside s s'"
proof -
  assume a: "add_event_child slugify now g ddl cat crit x s = Inr s'"
  obtain i u y n inp where x: "x = ((i, u, y, n), inp)" by (cases x) auto
  obtain mk m s1 oc yes s2 oc' no where c: "insert_market mk s = Inr (m, s1)" "insert_outcome oc s1 = Inr (yes, s2)"
    "insert_outcome oc' s2 = Inr (no, s')"
    using a by (auto simp: add_event_child_def x)
  show ?thesis using aside_trans [OF aside_trans [OF aside_inserts(1) [OF c(1)] aside_inserts(2) [OF c(2)]] aside_inserts(2) [OF c(3)]] .
qed

lemma aside_add_children:
  "foldE (\<lambda>(k, inp). add_event_child slugify now g ddl cat crit (kids k, inp)) xs s = Inr s' \<Longrightarrow> aside s s'"
  by (erule aside_fold) (auto dest: aside_add_child)

lemma aside_post_event:
  assumes "post_event slugify draws kids aid now admin b s = Inr (g, s')"
  shows "aside s s'"
proof -
  have "create_house_event slugify draws kids aid now admin b s = Inr (g, s')"
    using assms by (auto simp: post_event_def validate_create_event_def split: if_splits)
  then obtain s1 s2 body where g: "insert_group_with_slug slugify (take 3 draws) False now b (begin_tx s) = Inr (g, s1)"
    and loop: "foldE (\<lambda>(k, inp). add_event_child slugify now g (ce_deadline b) (ce_category b) (ce_criteria b) (kids k, inp))
        (List.enumerate 0 (ce_outcomes b)) s1 = Inr s2"
    and a: "audit_record aid now (actor_string (Some admin)) ''event.created'' body None s2 = Inr s'"
    by (auto simp: create_house_event_def)
  have "aside s (begin_tx s)" by simp
  also have "aside (begin_tx s) s1" using insert_group_with_slug_Inr [OF g] by (simp add: aside_def same_books_def audit_grows_def)
  also note aside_add_children [OF loop] also note aside_audit [OF a]
  finally show ?thesis .
qed

lemma aside_patch_event:
  assumes "patch_event slugify kids now gid b s = Inr s'"
  shows "aside s s'"
proof -
  have u: "update_house_event slugify kids now gid b (begin_tx s) = Inr s'"
    using assms by (auto simp: patch_event_def validate_update_event_def split: if_splits)
  have "aside (begin_tx s) s'"
  proof (cases "ue_outcomes b")
    case None
    then obtain g f where "s' = (update_group_row gid g (begin_tx s))\<lparr>markets := f\<rparr>"
      using u by (auto simp: update_house_event_def Let_def split: option.splits)
    then show ?thesis using aside_trans [OF aside_rows(4) aside_rows(7)] by simp
  next
    case (Some ocs)
    show ?thesis
    proof (rule update_house_event_replace [OF u Some])
      fix g0 g ddl
      assume "foldE (\<lambda>(k, inp). add_event_child slugify now g ddl (mg_category g) None (kids k, inp)) (List.enumerate 0 ocs)
       (delete_children gid (update_group_row gid (\<lambda>_. g) (begin_tx s))) = Inr s'"
      from aside_trans [OF aside_trans [OF aside_rows(4) aside_rows(5)] aside_add_children [OF this]] show ?thesis .
    qed
  qed
  with aside_rows(1) show ?thesis by (rule aside_trans)
qed

lemma aside_event_audit: "record_event_audit aid now ty gid wo n failed j actor s = Inr s' \<Longrightarrow> aside s s'"
  unfolding record_event_audit_def using aside_audit aside_rows(1) aside_trans by blast

subsection \<open>The platform as a transition system\<close>

text \<open>
  One step is one committed transaction, with any arguments, identifiers, times and answers of the
  external service.  \<open>limits\<close> are the stake limits of the settings.
\<close>

inductive platform_step :: "live_db \<Rightarrow> live_db \<Rightarrow> bool" where
  wallet_opened: "create_wallet i u s = Inr (a, s') \<Longrightarrow> platform_step s s'"
| recharged: "recharge ids now u amt reason key prov s = Inr (t, s') \<Longrightarrow> platform_step s s'"
| bonus_granted: "grant_signup_bonus ids now u amt s = Inr (t, s') \<Longrightarrow> platform_step s s'"
| bet_placed: "place_bet limits house_get_market na nb ids now u mid oc stk s = (r, s') \<Longrightarrow> platform_step s s'"
| position_sold: "sell_position house_get_market gen now i u s = Inr (cr, s') \<Longrightarrow> platform_step s s'"
| market_resolved: "resolve_market (house_resolver t) gen aid now mid w j actor s = Inr (plan, s') \<Longrightarrow> platform_step s s'"
| market_reversed: "reverse_settlement (house_resolver t) gen aid now mid j actor s = Inr (n, s') \<Longrightarrow> platform_step s s'"
| market_created: "post_market slugify draws cids now admin b ip s = Inr (m, s') \<Longrightarrow> platform_step s s'"
| market_patched: "patch_market ugen aid now mid mu admin ip s = Inr (ds, s') \<Longrightarrow> platform_step s s'"
| market_closed: "post_close_market aid now mid admin ip s = Inr s' \<Longrightarrow> platform_step s s'"
| event_created: "post_event slugify draws kids aid now admin ce s = Inr (g, s') \<Longrightarrow> platform_step s s'"
| event_patched: "patch_event slugify kids now gid ue s = Inr s' \<Longrightarrow> platform_step s s'"
| event_audited: "record_event_audit aid now ty gid wo n failed j actor s = Inr s' \<Longrightarrow> platform_step s s'"
| live_placed: "record_placed limits client ids now u b tid s = Inr (mr, s') \<Longrightarrow> platform_step s s'"
| top_markets_polled: "poll_sync fetched validate slugify iso_parse now draws s = (ch, s') \<Longrightarrow> platform_step s s'"
| events_polled: "poll_events cats fetched_by validate_event slugify iso_parse fl n cdraws s = (ch, s') \<Longrightarrow> platform_step s s'"
| odds_snapshotted: "platform_step s (run_snapshot_odds gen now s)"
| grace_started: "platform_step s (start_grace mid now s)"
| live_settled: "record_settled client gen now u b s = Inr (mr, s') \<Longrightarrow> platform_step s s'"

abbreviation platform_steps :: "live_db \<Rightarrow> live_db \<Rightarrow> bool" where
  "platform_steps \<equiv> platform_step\<^sup>*\<^sup>*"

lemma placed_tx_steps:
  fixes s s' :: "'a live_db_scheme"
  assumes "placed_tx ids now u b t v s = Inr (r, s')"
  shows "ledger_steps s s'"
  using assms
proof (cases rule: placed_tx_cases)
  case (posted w m tr)
  from posted_step [OF posted(8)] show ?thesis by blast
qed (auto intro: ledger_steps_frame)

lemma begin_tx_audit [simp]: "audit_log (begin_tx s) = audit_log s"
  by (simp add: begin_tx_def)

lemma placed_tx_audit:
  assumes "placed_tx ids now u b t v s = Inr (r, s')"
  shows "audit_log s' = audit_log s"
proof (cases "b \<in> lb_bet_id ` set (live_bets (begin_tx s))")
  case True
  then show ?thesis using assms by (auto simp: placed_tx_def Let_def)
next
  case False
  then obtain w rows md tr where "post_transfer ids now TRANSFER_LIVEBETS_PLACED (Some (livebets_key b ''placed'')) (Some u) w
      LIVEBETS_ESCROW_ACCOUNT_ID (vb_stake v) md (lock_account w ((begin_tx s)\<lparr>live_bets := rows\<rparr>)) = Inr (tr, s')"
    using assms by (auto simp: placed_tx_def Let_def split: if_splits)
  from more_fields(3) [OF post_transfer_more [OF this]]
  show ?thesis by (simp add: lock_account_def lock_row_def)
qed

lemma settled_tx_audit:
  fixes s s' :: "'a live_db_scheme"
  assumes "settled_tx gen now u b v s = Inr (r, s')"
  shows "audit_log s' = audit_log s"
proof -
  have "audit_log s1 = audit_log s" if "post_specs livebets_key gen now (Some u) None specs (lock_touched specs (begin_tx s)) = Inr s1"
    for specs and s1 :: "'a live_db_scheme"
  proof -
    have "ledger.more (lock_touched specs (begin_tx s)) = ledger.more s" by (simp add: more_lock_touched)
    with post_specs_more [OF that] show ?thesis by (intro more_fields(3)) simp
  qed
  then show ?thesis using assms by (auto simp: settled_tx_def Let_def split: option.splits if_splits)
qed


lemma live_steps:
  fixes s s' :: "'a live_db_scheme"
  assumes "record_placed limits client ids now u b t s = Inr (r, s') \<or> record_settled client2 gen now u b s = Inr (r, s')"
    and "live_ok s"
  shows "ledger_steps s s'"
  using assms(1)
proof
  assume "record_placed limits client ids now u b t s = Inr (r, s')"
  then show ?thesis by (rule record_placed_Inr) (rule placed_tx_steps)
next
  assume "record_settled client2 gen now u b s = Inr (r, s')"
  then show ?thesis
  proof (cases rule: record_settled_cases)
    case (reported v)
    have "ledger_wf s" using assms(2) by (simp add: live_ok_def platform_wf)
    with reported(3) show ?thesis by (cases rule: settled_tx_cases) (auto intro: ledger_steps_frame)
  qed simp
qed

lemma platform_step_keeps:
  assumes "platform_step s s'" "live_ok s"
  shows "live_ok s' \<and> ledger_steps s s' \<and> audit_grows s s'"
proof -
  have ok: "platform_ok s" using assms(2) by (simp add: live_ok_def)
  have q: "live_ok s' \<and> ledger_steps s s' \<and> audit_grows s s'" if "quiet s s'"
    using quiet_live_ok [OF that assms(2)] that by (simp add: quiet_def)
  have a: "live_ok s' \<and> ledger_steps s s' \<and> audit_grows s s'" if "aside s s'" by (rule q [OF quiet_aside [OF that assms(2)]])
  show ?thesis using assms(1)
  proof cases
    case wallet_opened then show ?thesis by (intro q quiet_wallet ok)
  next
    case recharged then show ?thesis by (intro q quiet_recharge assms(2))
  next
    case bonus_granted then show ?thesis by (intro q quiet_bonus assms(2))
  next
    case bet_placed then show ?thesis by (intro q quiet_place assms(2))
  next
    case position_sold then show ?thesis by (intro q quiet_sell assms(2))
  next
    case market_resolved then show ?thesis by (intro q quiet_resolve assms(2))
  next
    case market_reversed then show ?thesis by (intro q quiet_reverse assms(2))
  next
    case market_created then show ?thesis by (intro a aside_post_market)
  next
    case market_patched then show ?thesis by (intro a aside_patch_market)
  next
    case market_closed then show ?thesis by (intro a aside_post_close)
  next
    case event_created then show ?thesis by (intro a aside_post_event)
  next
    case event_patched then show ?thesis by (intro a aside_patch_event)
  next
    case event_audited then show ?thesis by (intro a aside_event_audit)
  next
    case top_markets_polled then show ?thesis by (intro a untouched.rel_poll_sync)
  next
    case events_polled then show ?thesis by (intro a untouched.rel_poll_events)
  next
    case odds_snapshotted then show ?thesis using untouched.rel_snapshot by (intro a) simp
  next
    case grace_started then show ?thesis using start_grace_frame by (intro a) simp
  next
    case live_placed
    then have "audit_log s' = audit_log s" by (auto elim!: record_placed_Inr dest: placed_tx_audit)
    then show ?thesis
      using live_placed record_placed_live_ok [OF _ assms(2)] live_steps [OF disjI1 assms(2)] audit_grows_same by blast
  next
    case live_settled
    then have "audit_log s' = audit_log s" by (cases rule: record_settled_cases) (auto dest: settled_tx_audit)
    then show ?thesis
      using live_settled record_settled_live_ok [OF _ assms(2)] live_steps [OF disjI2 assms(2)] audit_grows_same by blast
  qed
qed

lemma platform_steps_keep: "platform_steps s s' \<Longrightarrow> live_ok s \<Longrightarrow> live_ok s' \<and> ledger_steps s s' \<and> audit_grows s s'"
proof (induction rule: rtranclp_induct)
  case (step y z)
  then have "live_ok y" "ledger_steps s y" "audit_grows s y" by blast+
  with platform_step_keeps [OF step.hyps(2)] show ?case using ledger_steps_trans audit_grows_trans by blast
qed simp



subsection \<open>Events are sequences of steps\<close>

lemma settle_children_steps: "platform_steps s (snd (settle_children ids cs j actor s))"
proof (induction cs arbitrary: s)
  case (Cons c cs)
  obtain mid w where c: "c = (mid, w)" by (cases c)
  obtain gen aid now t where i: "ids mid = (gen, aid, now, t)" by (cases "ids mid") auto
  show ?case
  proof (cases "resolve_market (house_resolver t) gen aid now mid w j actor s")
    case (Inl e)
    then show ?thesis using Cons [of s] by (simp add: c i case_prod_beta)
  next
    case (Inr r)
    obtain plan s1 where r: "r = (plan, s1)" by (cases r)
    have "platform_step s s1" by (rule platform_step.market_resolved [OF Inr [unfolded r]])
    then show ?thesis using Cons [of s1] by (simp add: c i Inr r)
  qed
qed simp

lemma reverse_children_steps: "platform_steps s (snd (reverse_children ids cs j actor s))"
proof (induction cs arbitrary: s)
  case (Cons mid cs)
  obtain gen aid now t where i: "ids mid = (gen, aid, now, t)" by (cases "ids mid") auto
  show ?case
  proof (cases "reverse_settlement (house_resolver t) gen aid now mid j actor s")
    case (Inl e)
    then show ?thesis using Cons [of s] by (simp add: i case_prod_beta)
  next
    case (Inr r)
    obtain n s1 where r: "r = (n, s1)" by (cases r)
    have "platform_step s s1" by (rule platform_step.market_reversed [OF Inr [unfolded r]])
    then show ?thesis using Cons [of s1] by (simp add: i Inr r)
  qed
qed simp

lemma finish_event_steps: "platform_steps (snd x) (snd (finish_event aid now ty gid wo n j actor x))"
proof -
  obtain failed s where x: "x = (failed, s)" by (cases x)
  show ?thesis
  proof (cases "record_event_audit aid now ty gid wo n failed j actor s")
    case (Inr s')
    have "platform_step s s'" by (rule platform_step.event_audited [OF Inr])
    then show ?thesis by (simp add: finish_event_def x Inr)
  qed (simp add: finish_event_def x)
qed

lemma detect_steps: "platform_steps s (detect_loop fetch validate grace now ids xs s)"
proof (induction xs arbitrary: s)
  case (Cons x xs)
  show ?case
  proof (cases "detect_one fetch validate grace now ids x s")
    case (Inr s1)
    then have "platform_steps s s1"
      by (cases rule: detect_one_cases)
        (auto intro: r_into_rtranclp platform_step.grace_started platform_step.market_resolved)
    with Cons [of s1] Inr show ?thesis by simp
  qed simp
qed simp


end
