(* ===== verification/Locks.thy ===== *)
theory Locks
  imports Platform
begin

text \<open>
  The order in which the money operations lock account rows.  The services lock every account a
  transaction touches in the order of its id's text before they post; transactions that do so cannot
  deadlock on accounts.  The live-bets placement does not, and can.
\<close>

subsection \<open>Lock sequences\<close>

text \<open>The accounts a transaction locked, in order of acquisition.\<close>

fun locked_accounts :: "row_lock list \<Rightarrow> uuid list" where
  "locked_accounts [] = []"
| "locked_accounts (AccountRow u # ls) = u # locked_accounts ls"
| "locked_accounts (BetRow b # ls) = locked_accounts ls"

definition account_locks :: "'a ledger_scheme \<Rightarrow> uuid list" where
  "account_locks s = locked_accounts (row_locks s)"

definition canonical :: "uuid list \<Rightarrow> bool" where
  "canonical us \<longleftrightarrow> sorted_wrt (\<lambda>u v. uuid_str u < uuid_str v) us"

named_theorems lock_simps

lemma locked_accounts_append: "locked_accounts (ls @ ms) = locked_accounts ls @ locked_accounts ms"
  by (induction ls rule: locked_accounts.induct) simp_all

lemma mem_locked_accounts: "u \<in> set (locked_accounts ls) \<longleftrightarrow> AccountRow u \<in> set ls"
  by (induction ls rule: locked_accounts.induct) auto

lemma account_locks_bet [lock_simps]: "account_locks (lock_row (BetRow b) s) = account_locks s"
  by (simp add: account_locks_def lock_row_def locked_accounts_append)

lemma account_locks_lock: "account_locks (lock_account u s)
    = (if u \<notin> acc_id ` set (accounts s) \<or> u \<in> set (account_locks s) then account_locks s else account_locks s @ [u])"
  by (simp add: account_locks_def lock_account_def lock_row_def locked_accounts_append mem_locked_accounts)

lemma account_locks_begin [lock_simps]: "account_locks (begin_tx s) = []"
  by (simp add: account_locks_def)

lemma account_locks_bets [lock_simps]: "account_locks (lock_bets bs s) = account_locks s"
  unfolding lock_bets_def by (induction bs arbitrary: s) (simp_all add: lock_simps)

lemma account_locks_fold_bets [lock_simps]: "account_locks (fold (\<lambda>b. update_bet_row (k b) (g b)) bs s) = account_locks s"
  by (induction bs arbitrary: s) (simp_all add: update_bet_row_def account_locks_def)

lemma account_locks_rows [lock_simps]: "account_locks (update_bet_row i f t) = account_locks t"
  "account_locks (update_market_row i g t) = account_locks t" "account_locks (s\<lparr>live_bets := ls\<rparr>) = account_locks s"
  by (simp_all add: update_bet_row_def update_market_row_def account_locks_def)

text \<open>Locking a sorted list takes the locks in that order, leaving out ids without a row.\<close>

lemma account_locks_fold: "distinct us \<Longrightarrow> set us \<inter> set (account_locks s) = {} \<Longrightarrow>
    account_locks (fold lock_account us s) = account_locks s @ filter (\<lambda>u. u \<in> acc_id ` set (accounts s)) us"
proof (induction us arbitrary: s)
  case (Cons u us)
  have "set us \<inter> set (account_locks (lock_account u s)) = {}" using Cons.prems by (auto simp: account_locks_lock)
  with Cons show ?case by (simp add: account_locks_lock)
qed simp

lemma canonical_filter: "canonical us \<Longrightarrow> canonical (filter P us)"
  unfolding canonical_def by (rule sorted_wrt_filter)

lemma canonical_sort: "distinct us \<Longrightarrow> canonical (sort_key uuid_str us)"
proof -
  assume "distinct us"
  then have "sorted (map uuid_str (sort_key uuid_str us))" "distinct (map uuid_str (sort_key uuid_str us))"
    by (simp_all add: distinct_map inj_on_def uuid_str_inj)
  then have "sorted_wrt (<) (map uuid_str (sort_key uuid_str us))" by (simp add: strict_sorted_iff)
  then show ?thesis by (simp add: canonical_def sorted_wrt_map)
qed

lemma locks_after_accounts:
  assumes "account_locks s = []"
  shows "canonical (account_locks (lock_accounts us s))"
    "set (account_locks (lock_accounts us s)) = set us \<inter> acc_id ` set (accounts s)"
proof -
  have e: "account_locks (lock_accounts us s) = filter (\<lambda>u. u \<in> acc_id ` set (accounts s)) (sort_key uuid_str (remdups us))"
    using account_locks_fold [of "sort_key uuid_str (remdups us)" s] assms by (simp add: lock_accounts_def)
  show "canonical (account_locks (lock_accounts us s))" unfolding e by (intro canonical_filter canonical_sort) simp
  show "set (account_locks (lock_accounts us s)) = set us \<inter> acc_id ` set (accounts s)" unfolding e by auto
qed

subsection \<open>The locks of a posting\<close>

lemma locked_again: "{da, ca} \<inter> acc_id ` set (accounts s) \<subseteq> set (account_locks s) \<Longrightarrow>
    row_locks (lock_account ca (lock_account da s)) = row_locks s"
  by (auto simp: lock_account_def lock_row_def account_locks_def mem_locked_accounts)

lemma post_transfer_ids: "post_transfer ids now kind key actor da ca amt md s = Inr (t, s') \<Longrightarrow>
    row_locks s' = row_locks (lock_account ca (lock_account da s)) \<and> acc_id ` set (accounts s') = acc_id ` set (accounts s)
    \<and> {da, ca} \<subseteq> acc_id ` set (accounts s)"
proof -
  obtain ti di ci where i: "ids = (ti, di, ci)" by (cases ids) auto
  assume "post_transfer ids now kind key actor da ca amt md s = Inr (t, s')"
  from post_transfer_Inr [OF this [unfolded i]] show ?thesis unfolding posts_def by (elim exE conjE) (simp del: set_map)
qed

lemma post_transfer_locks:
  assumes "post_transfer ids now kind key actor da ca amt md s = Inr (t, s')"
    and "{da, ca} \<inter> acc_id ` set (accounts s) \<subseteq> set (account_locks s)"
  shows "account_locks s' = account_locks s"
  using post_transfer_ids [OF assms(1)] locked_again [OF assms(2)] by (simp add: account_locks_def)

lemma post_loop_locks:
  "foldE (post_spec key gen now actor mid) (enumerate n specs) s = Inr s' \<Longrightarrow>
    (spec_debit ` set specs \<union> spec_credit ` set specs) \<inter> acc_id ` set (accounts s) \<subseteq> set (account_locks s) \<Longrightarrow>
    account_locks s' = account_locks s"
proof (induction specs arbitrary: n s)
  case (Cons sp specs)
  obtain k l b d c a where sp: "sp = (k, l, b, d, c, a)" by (cases sp) auto
  obtain s1 where s1: "post_spec key gen now actor mid (n, sp) s = Inr s1"
    "foldE (post_spec key gen now actor mid) (enumerate (Suc n) specs) s1 = Inr s'"
    using Cons.prems(1) by auto
  then obtain t where p: "post_transfer (gen n) now k (Some (key b l)) actor d c a (Some (leg_metadata mid b)) s = Inr (t, s1)"
    by (auto simp: post_spec_def sp)
  have "account_locks s1 = account_locks s" using Cons.prems(2) by (intro post_transfer_locks [OF p]) (auto simp: sp)
  moreover have "account_locks s' = account_locks s1"
    using Cons.prems(2) post_transfer_ids [OF p] calculation by (intro Cons.IH [OF s1(2)]) auto
  ultimately show ?case by simp
qed simp

lemma post_loop_ids:
  "foldE (post_spec key gen now actor mid) (enumerate n specs) s = Inr s' \<Longrightarrow>
    spec_debit ` set specs \<union> spec_credit ` set specs \<subseteq> acc_id ` set (accounts s)"
proof (induction specs arbitrary: n s)
  case (Cons sp specs)
  obtain k l b d c a where sp: "sp = (k, l, b, d, c, a)" by (cases sp) auto
  obtain s1 where s1: "post_spec key gen now actor mid (n, sp) s = Inr s1"
    "foldE (post_spec key gen now actor mid) (enumerate (Suc n) specs) s1 = Inr s'"
    using Cons.prems by auto
  then obtain t where p: "post_transfer (gen n) now k (Some (key b l)) actor d c a (Some (leg_metadata mid b)) s = Inr (t, s1)"
    by (auto simp: post_spec_def sp)
  show ?case using Cons.IH [OF s1(2)] post_transfer_ids [OF p] by (simp add: sp)
qed simp

lemma post_specs_locks:
  assumes "post_specs key gen now actor mid specs (lock_touched specs u) = Inr s'" "account_locks u = []"
  shows "canonical (account_locks s')"
    "set (account_locks s') = spec_debit ` set specs \<union> spec_credit ` set specs"
proof -
  note l = locks_after_accounts [OF assms(2), of "map spec_debit specs @ map spec_credit specs", folded lock_touched_def]
  have "account_locks s' = account_locks (lock_touched specs u)"
    using assms(1) l(2) by (intro post_loop_locks [OF assms(1) [unfolded post_specs_def]]) (simp add: lock_touched_def)
  moreover have "spec_debit ` set specs \<union> spec_credit ` set specs \<subseteq> acc_id ` set (accounts u)"
    using post_loop_ids [OF assms(1) [unfolded post_specs_def]] by (simp add: lock_touched_def)
  ultimately show "canonical (account_locks s')" "set (account_locks s') = spec_debit ` set specs \<union> spec_credit ` set specs"
    using l by auto
qed


subsection \<open>The transactions that lock in order\<close>

lemma canonical_Nil [simp]: "canonical []" by (simp add: canonical_def)

lemma fund_locks: "fund_from_house ids now kind key u amt r s = Inr (t, s') \<Longrightarrow> canonical (account_locks s')"
proof -
  assume "fund_from_house ids now kind key u amt r s = Inr (t, s')"
  then obtain w md where p: "post_transfer ids now kind (Some key) None HOUSE_PROMO_ACCOUNT_ID w amt md
      (lock_accounts [HOUSE_PROMO_ACCOUNT_ID, w] (begin_tx s)) = Inr (t, s')"
    by (auto simp: fund_from_house_def Let_def)
  note l = locks_after_accounts [OF account_locks_begin [of s], of "[HOUSE_PROMO_ACCOUNT_ID, w]"]
  have "account_locks s' = account_locks (lock_accounts [HOUSE_PROMO_ACCOUNT_ID, w] (begin_tx s))"
    by (rule post_transfer_locks [OF p]) (simp add: l(2) del: set_map)
  with l(1) show ?thesis by simp
qed

lemma transfer_locks: "transfer_funds ids now kind da ca amt actor key reason s = Inr (t, s') \<Longrightarrow> canonical (account_locks s')"
proof -
  assume "transfer_funds ids now kind da ca amt actor key reason s = Inr (t, s')"
  then obtain md where p: "post_transfer ids now kind key actor da ca amt md (lock_accounts [da, ca] (begin_tx s)) = Inr (t, s')"
    by (auto simp: transfer_funds_def Let_def split: if_splits)
  note l = locks_after_accounts [OF account_locks_begin [of s], of "[da, ca]"]
  have "account_locks s' = account_locks (lock_accounts [da, ca] (begin_tx s))"
    by (rule post_transfer_locks [OF p]) (simp add: l(2))
  with l(1) show ?thesis by simp
qed

lemma place_locks: "place_bet_tx nb ids now u mid chosen stk l s = Inr (b, s') \<Longrightarrow> canonical (account_locks s')"
proof -
  assume "place_bet_tx nb ids now u mid chosen stk l s = Inr (b, s')"
  then obtain w r u1 t md where ins: "insert_bet r (lock_accounts [w, l] (begin_tx s)) = Inr u1"
    and p: "post_transfer ids now TRANSFER_BET_PLACED None (Some u) w l stk md u1 = Inr (t, s')"
    by (auto simp: place_bet_tx_def Let_def split: if_splits)
  note k = locks_after_accounts [OF account_locks_begin [of s], of "[w, l]"]
  have e: "account_locks u1 = account_locks (lock_accounts [w, l] (begin_tx s))" "accounts u1 = accounts s"
    using ins by (auto simp: insert_bet_Inr account_locks_def)
  have "account_locks s' = account_locks u1" by (rule post_transfer_locks [OF p]) (simp add: e k(2))
  with k(1) e show ?thesis by simp
qed

lemma sell_locks: "sell_position get_market gen now i u s = Inr (cr, s') \<Longrightarrow> canonical (account_locks s')"
proof -
  assume "sell_position get_market gen now i u s = Inr (cr, s')"
  then obtain specs u1 mid f where p: "post_specs close_idempotency_key gen now (Some u) mid specs
         (lock_touched specs (lock_row (BetRow i) (begin_tx s))) = Inr u1" and s': "s' = update_bet_row i f u1"
    by (fastforce simp: sell_position_def Let_def split: option.splits if_splits)
  show ?thesis using post_specs_locks(1) [OF p] by (simp add: s' lock_simps)
qed

lemma settle_locks:
  assumes "settle_bets gen now actor mid bs plan s = Inr s'" "account_locks s = []"
  shows "canonical (account_locks s')"
proof -
  obtain specs where p: "post_specs settle_idempotency_key gen now actor (Some mid) specs
      (lock_touched specs (set_statuses (plan_settled plan) s)) = Inr s'"
    using assms(1) by (auto simp: settle_bets_def Let_def)
  show ?thesis by (rule post_specs_locks(1) [OF p]) (simp add: set_statuses_def lock_simps assms(2))
qed

lemma house_mark_locks:
  "house_mark_resolved t mid w src j s = Inr s' \<Longrightarrow> account_locks s' = account_locks s"
  "house_mark_unresolved mid s = Inr s' \<Longrightarrow> account_locks s' = account_locks s"
  by (auto simp: house_mark_resolved_def house_mark_unresolved_def lock_simps split: option.splits if_splits)

lemma audit_locks: "audit_record i now ac ev body ip s = Inr s' \<Longrightarrow> account_locks s' = account_locks s"
  by (auto simp: audit_record_Inr account_locks_def)

lemma resolve_locks: "resolve_market (house_resolver t) gen aid now mid w j actor s = Inr (plan, s') \<Longrightarrow> canonical (account_locks s')"
proof -
  let ?bs = "pending_bets mid s"
  assume "resolve_market (house_resolver t) gen aid now mid w j actor s = Inr (plan, s')"
  then obtain s1 s2 body where s1: "(if ?bs = [] then Inr (lock_bets ?bs (begin_tx s))
        else settle_bets gen now actor mid ?bs plan (lock_bets ?bs (begin_tx s))) = Inr s1"
    and s2: "house_mark_resolved t mid w (if actor = None then ''POLYMARKET_UMA'' else ''HOUSE'') j s1 = Inr s2"
    and a: "audit_record aid now (actor_string actor) ''settlement.resolved'' body None s2 = Inr s'"
    unfolding resolve_market_def Let_def bindE_eq_Inr house_resolver_def by auto
  have z: "account_locks (lock_bets ?bs (begin_tx s)) = []" by (simp add: lock_simps)
  have "canonical (account_locks s1)"
    using s1 by (cases "?bs = []") (auto simp: lock_simps intro: settle_locks [OF _ z])
  then show ?thesis using house_mark_locks(1) [OF s2] audit_locks [OF a] by simp
qed

lemma reverse_locks: "reverse_settlement (house_resolver t) gen aid now mid j actor s = Inr (n, s') \<Longrightarrow> canonical (account_locks s')"
proof -
  let ?bs = "settled_bets mid (begin_tx s)"
  assume "reverse_settlement (house_resolver t) gen aid now mid j actor s = Inr (n, s')"
  then obtain s1 body where s1: "(if ?bs = [] then Inr (begin_tx s)
       else reverse_bets (house_resolver t) gen now actor mid ?bs (begin_tx s)) = Inr s1"
    and a: "audit_record aid now (actor_string actor) ''settlement.reversed'' body None s1 = Inr s'"
    unfolding reverse_settlement_def Let_def bindE_eq_Inr by blast
  have "canonical (account_locks s1)"
  proof (cases "?bs = []")
    case False
    then obtain specs s3 where p: "post_specs reverse_idempotency_key gen now actor (Some mid) specs
        (lock_touched specs (reopen_bets ?bs (begin_tx s))) = Inr s3" and u: "house_mark_unresolved mid s3 = Inr s1"
      using s1 by (auto simp: reverse_bets_def Let_def house_resolver_def)
    have "canonical (account_locks s3)"
      by (rule post_specs_locks(1) [OF p]) (simp add: reopen_bets_def lock_simps)
    then show ?thesis by (simp add: house_mark_locks(2) [OF u])
  qed (use s1 in \<open>auto simp: lock_simps\<close>)
  then show ?thesis by (simp add: audit_locks [OF a])
qed

lemma settled_locks:
  assumes "settled_tx gen now u b v s = Inr (r, s')"
  obtains (replay) "\<not> applied r" "account_locks s' = []"
    | (applied) m :: live_bet and specs where "applied r" "live_specs u b (lb_stake m) v (begin_tx s) = Inr specs" "canonical (account_locks s')"
        "set (account_locks s') = spec_debit ` set specs \<union> spec_credit ` set specs"
proof -
  have lb: "live_bets (begin_tx s) = live_bets s" by (simp add: begin_tx_def)
  obtain m where m: "filter (\<lambda>m. lb_bet_id m = b) (live_bets s) = [m]" "lb_user_id m = u"
    using assms by (auto simp: settled_tx_def lb Let_def scalar_one_or_none_Inr split: option.splits if_splits)
  show thesis
  proof (cases "lb_status m = LIVEBETS_PENDING")
    case False
    then show thesis using assms m by (intro replay) (auto simp: settled_tx_def lb Let_def lock_simps)
  next
    case True
    obtain specs s1 ls where x: "live_specs u b (lb_stake m) v (begin_tx s) = Inr specs"
        "post_specs livebets_key gen now (Some u) None specs (lock_touched specs (begin_tx s)) = Inr s1"
        "applied r" "s' = s1\<lparr>live_bets := ls\<rparr>"
      using assms m True by (auto simp: settled_tx_def lb Let_def split: if_splits)
    show thesis using post_specs_locks [OF x(2) account_locks_begin] x by (intro applied [OF x(3,1)]) (simp_all add: lock_simps)
  qed
qed


subsection \<open>Deadlock\<close>

text \<open>
  A configuration of running transactions: the sequence of account locks of each and how many of them
  it holds.  It is deadlocked if every transaction waits for a lock that one of them holds.
\<close>

type_synonym running = "(uuid list \<times> nat) list"

definition deadlocked :: "running \<Rightarrow> bool" where
  "deadlocked D \<longleftrightarrow> D \<noteq> [] \<and> (\<forall>(us, p) \<in> set D. p < length us \<and> (\<exists>(vs, q) \<in> set D. us ! p \<in> set (take q vs)))"

lemma canonical_later:
  assumes "canonical vs" "x \<in> set (take q vs)" "q < length vs"
  shows "uuid_str x < uuid_str (vs ! q)"
proof -
  obtain i where "i < q" "x = vs ! i" using assms(2,3) by (auto simp: in_set_conv_nth)
  then show ?thesis using sorted_wrt_nth_less [OF assms(1) [unfolded canonical_def], of i q] assms(3) by simp
qed

lemma canonical_not_deadlocked:
  assumes "\<forall>(us, p) \<in> set D. canonical us"
  shows "\<not> deadlocked D"
proof
  assume d: "deadlocked D"
  define awaited where "awaited = (\<lambda>x. uuid_str (fst x ! snd x :: uuid)) ` set D"
  have f: "finite awaited" and "awaited \<noteq> {}" using d by (auto simp: awaited_def deadlocked_def)
  then have "Max awaited \<in> awaited" by (intro Max_in)
  then obtain x where x: "x \<in> set D" "Max awaited = uuid_str (fst x ! snd x)" by (auto simp: awaited_def)
  have w: "\<forall>x \<in> set D. snd x < length (fst x) \<and> (\<exists>y \<in> set D. fst x ! snd x \<in> set (take (snd y) (fst y)))"
    using d by (simp add: deadlocked_def case_prod_beta)
  obtain y where y: "y \<in> set D" "fst x ! snd x \<in> set (take (snd y) (fst y))" using bspec [OF w x(1)] by auto
  have "canonical (fst y)" "snd y < length (fst y)" using bspec [OF assms y(1)] bspec [OF w y(1)] by (simp_all add: case_prod_beta)
  then have "Max awaited < uuid_str (fst y ! snd y)" unfolding x(2) using y(2) by (intro canonical_later)
  moreover have "uuid_str (fst y ! snd y) \<le> Max awaited" using y(1) by (intro Max_ge [OF f]) (auto simp: awaited_def)
  ultimately show False by simp
qed

text \<open>The transactions that lock before they post, with their parameters free.\<close>

inductive locking_run :: "live_db \<Rightarrow> bool" where
  "recharge ids now u amt reason key prov s = Inr (t, s') \<Longrightarrow> s' \<noteq> s \<Longrightarrow> locking_run s'"
| "grant_signup_bonus ids now u amt s = Inr (t, s') \<Longrightarrow> s' \<noteq> s \<Longrightarrow> locking_run s'"
| "transfer_funds ids now kind da ca amt actor key reason s = Inr (t, s') \<Longrightarrow> locking_run s'"
| "place_bet_tx nb ids now u mid chosen stk l s = Inr (b, s') \<Longrightarrow> locking_run s'"
| "sell_position get_market gen now i u s = Inr (cr, s') \<Longrightarrow> locking_run s'"
| "resolve_market (house_resolver t) gen aid now mid w j actor s = Inr (plan, s') \<Longrightarrow> locking_run s'"
| "reverse_settlement (house_resolver t) gen aid now mid j actor s = Inr (n, s') \<Longrightarrow> locking_run s'"
| "settled_tx gen now u b v s = Inr (r, s') \<Longrightarrow> locking_run s'"

lemma existing_or_funded:
  fixes s s' :: live_db
  shows "or_existing key s (fund_from_house ids now kind key u amt r s) = Inr (t, s') \<Longrightarrow> s' \<noteq> s \<Longrightarrow> canonical (account_locks s')"
  by (drule or_existing_Inr) (auto intro: fund_locks)

lemma locking_run_canonical: "locking_run s \<Longrightarrow> canonical (account_locks s)"
proof (induction rule: locking_run.induct)
  case (8 gen now u b v s r s')
  from 8 show ?case by (cases rule: settled_locks) simp_all
qed (auto simp: recharge_def grant_signup_bonus_def split: if_splits
      intro: transfer_locks place_locks sell_locks resolve_locks reverse_locks existing_or_funded)

text \<open>
  C27: no deadlock among the services.  However many recharges, bonuses, transfers, bets, early
  closes, settlements, reversals and live-bets settlements run at once, and whatever account locks
  each of them holds so far, they never all wait for one another.
\<close>

theorem services_never_deadlock:
  assumes "\<forall>(us, p) \<in> set D. \<exists>s. locking_run s \<and> us = account_locks s"
  shows "\<not> deadlocked D"
  using assms by (intro canonical_not_deadlocked) (fastforce intro: locking_run_canonical)

lemma placed_locks:
  assumes "placed_tx ids now u b t v s = Inr (r, s')" "applied r" "resolve_user_wallet_id u s = Inr w"
    and "w \<noteq> LIVEBETS_ESCROW_ACCOUNT_ID"
  shows "account_locks s' = [w, LIVEBETS_ESCROW_ACCOUNT_ID]"
proof -
  obtain w' md key tr ls where r: "resolve_user_wallet_id u ((begin_tx s)\<lparr>live_bets := ls\<rparr>) = Inr w'"
    and p: "post_transfer ids now TRANSFER_LIVEBETS_PLACED key (Some u) w' LIVEBETS_ESCROW_ACCOUNT_ID (vb_stake v) md
      (lock_account w' ((begin_tx s)\<lparr>live_bets := ls\<rparr>)) = Inr (tr, s')"
    using assms(1,2) by (fastforce simp: placed_tx_def Let_def split: if_splits)
  have "w' = w" using r assms(3) resolve_frame [of "(begin_tx s)\<lparr>live_bets := ls\<rparr>" s u] by (simp add: begin_tx_def)
  have "account_locks s' = account_locks (lock_account LIVEBETS_ESCROW_ACCOUNT_ID (lock_account w (lock_account w (begin_tx s))))"
    using post_transfer_ids [OF p] \<open>w' = w\<close>
    by (simp add: account_locks_def lock_account_def lock_row_def begin_tx_def)
  moreover have "{w, LIVEBETS_ESCROW_ACCOUNT_ID} \<subseteq> acc_id ` set (accounts s)"
    using post_transfer_ids [OF p] \<open>w' = w\<close> by (simp add: begin_tx_def)
  ultimately show ?thesis using assms(4) by (simp add: account_locks_lock lock_simps)
qed

lemma live_won_specs: "live_specs u b stk v s = Inr specs \<Longrightarrow> vb_status v = LIVEBETS_WON \<Longrightarrow>
    \<exists>w a. resolve_user_wallet_id u s = Inr w \<and> (TRANSFER_LIVEBETS_SETTLE_STAKE_RETURN, ''settled:stake'', b, LIVEBETS_ESCROW_ACCOUNT_ID, w, a) \<in> set specs"
  by (fastforce simp: live_specs_def Let_def split: option.splits if_splits)

text \<open>Two runs on one database: a placement of a second live bet, and a win of the first one.\<close>

definition demo_placed_verified :: verified_bet where
  "demo_placed_verified = \<lparr>vb_bet_id = 0x99, vb_status = LIVEBETS_PENDING, vb_stake = 10, vb_market_id = None, vb_payout = None\<rparr>"

definition demo_won_verified :: verified_bet where
  "demo_won_verified = \<lparr>vb_bet_id = 0x77, vb_status = LIVEBETS_WON, vb_stake = 25, vb_market_id = None, vb_payout = Some 60\<rparr>"

text \<open>
  C28: the live-bets placement breaks the order.  It locks the wallet first and the escrow when it
  posts; if the escrow's id comes first in the order of the ids' texts, a placement and a settlement
  that pays the same player reach a deadlock.
\<close>

theorem livebets_placement_can_deadlock:
  fixes s1 s1' s2 s2' :: live_db
  assumes "placed_tx ids now u b t v s1 = Inr (r, s1')" "applied r"
    and "settled_tx gen now' u b' v' s2 = Inr (r', s2')" "applied r'" "vb_status v' = LIVEBETS_WON"
    and "resolve_user_wallet_id u s1 = Inr w" "resolve_user_wallet_id u s2 = Inr w"
    and "uuid_str LIVEBETS_ESCROW_ACCOUNT_ID < uuid_str w"
  shows "\<exists>p q. deadlocked [(account_locks s1', p), (account_locks s2', q)]"
proof -
  have one: "account_locks s1' = [w, LIVEBETS_ESCROW_ACCOUNT_ID]"
    by (rule placed_locks [OF assms(1,2,6)]) (use assms(8) in auto)
  have two: "canonical (account_locks s2') \<and> {w, LIVEBETS_ESCROW_ACCOUNT_ID} \<subseteq> set (account_locks s2')"
    using assms(3)
  proof (cases rule: settled_locks)
    case (applied m specs)
    obtain w' a where w': "resolve_user_wallet_id u (begin_tx s2) = Inr w'"
      "(TRANSFER_LIVEBETS_SETTLE_STAKE_RETURN, ''settled:stake'', b', LIVEBETS_ESCROW_ACCOUNT_ID, w', a) \<in> set specs"
      using live_won_specs [OF applied(2) assms(5)] by blast
    have "w' = w" using w'(1) assms(7) resolve_frame [of "begin_tx s2" s2 u] by simp
    then have "LIVEBETS_ESCROW_ACCOUNT_ID \<in> spec_debit ` set specs" "w \<in> spec_credit ` set specs"
      using imageI [OF w'(2), of spec_debit] imageI [OF w'(2), of spec_credit] by simp_all
    then show ?thesis using applied(3,4) by simp
  qed (use assms(4) in simp)
  obtain q where q: "q < length (account_locks s2')" "account_locks s2' ! q = w"
    using two by (auto simp: in_set_conv_nth)
  obtain e where e: "e < length (account_locks s2')" "account_locks s2' ! e = LIVEBETS_ESCROW_ACCOUNT_ID"
    using two by (auto simp: in_set_conv_nth)
  have "e < q"
  proof (rule ccontr)
    assume "\<not> e < q"
    then have "q < e \<or> q = e" by auto
    then have "uuid_str w \<le> uuid_str LIVEBETS_ESCROW_ACCOUNT_ID"
      using sorted_wrt_nth_less [OF conjunct1 [OF two, unfolded canonical_def], of q e] e q by auto
    with assms(8) show False by simp
  qed
  then have "LIVEBETS_ESCROW_ACCOUNT_ID \<in> set (take q (account_locks s2'))"
    using e by (force simp: in_set_conv_nth)
  then have "deadlocked [(account_locks s1', 1), (account_locks s2', q)]"
    using q by (simp add: deadlocked_def one)
  then show ?thesis by blast
qed


lemma services_never_deadlock_witness:
  "\<exists>s1 s2. locking_run s1 \<and> locking_run s2 \<and> account_locks s1 \<noteq> [] \<and> account_locks s2 \<noteq> []
     \<and> \<not> deadlocked [(account_locks s1, 1), (account_locks s2, 1)]"
proof -
  have "okE (\<lambda>(t, s). account_locks s \<noteq> []) (transfer_funds (0x20, 0x21, 0x22) 10 ''x'' 1 HOUSE_REVENUE_ACCOUNT_ID 5 None None None demo_live_db)"
    "okE (\<lambda>(r, s). account_locks s \<noteq> []) (settled_tx (demo_gen 0x100) 20 5 0x77 demo_won_verified demo_mirror_db)" by code_simp+
  then obtain t s1 r s2 where s: "transfer_funds (0x20, 0x21, 0x22) 10 ''x'' 1 HOUSE_REVENUE_ACCOUNT_ID 5 None None None demo_live_db = Inr (t, s1)"
      "settled_tx (demo_gen 0x100) 20 5 0x77 demo_won_verified demo_mirror_db = Inr (r, s2)"
      "account_locks s1 \<noteq> []" "account_locks s2 \<noteq> []"
    by (auto simp: okE_iff)
  have "locking_run s1" "locking_run s2" using s(1,2) by (auto intro: locking_run.intros)
  then show ?thesis using services_never_deadlock [of "[(account_locks s1, 1), (account_locks s2, 1)]"] s(3,4) by auto
qed

text \<open>A player whose wallet id comes after the escrow's.\<close>

definition demo_late_db :: live_db where
  "demo_late_db = demo_mirror_db\<lparr>
     accounts := [demo_account HOUSE_PROMO_ACCOUNT_ID OWNER_SYSTEM None KIND_HOUSE_PROMO 999999900,
       demo_account HOUSE_REVENUE_ACCOUNT_ID OWNER_SYSTEM None KIND_HOUSE_REVENUE 0,
       demo_account 0xc1 OWNER_USER (Some 5) KIND_USER_WALLET 75,
       demo_account LIVEBETS_ESCROW_ACCOUNT_ID OWNER_SYSTEM None ''livebets_escrow'' 25]\<rparr>"

lemma livebets_placement_can_deadlock_witness:
  "\<exists>s1 s2 p q. okE (\<lambda>x. snd x = s1) (placed_tx (0x30, 0x31, 0x32) 15 5 0x99 None demo_placed_verified demo_late_db)
     \<and> okE (\<lambda>x. snd x = s2) (settled_tx (demo_gen 0x100) 20 5 0x77 demo_won_verified demo_late_db)
     \<and> deadlocked [(account_locks s1, p), (account_locks s2, q)]"
proof -
  have "okE (\<lambda>x. applied (fst x)) (placed_tx (0x30, 0x31, 0x32) 15 5 0x99 None demo_placed_verified demo_late_db)"
    "okE (\<lambda>x. applied (fst x)) (settled_tx (demo_gen 0x100) 20 5 0x77 demo_won_verified demo_late_db)" by code_simp+
  then obtain r s1 r' s2 where s: "placed_tx (0x30, 0x31, 0x32) 15 5 0x99 None demo_placed_verified demo_late_db = Inr (r, s1)" "applied r"
      "settled_tx (demo_gen 0x100) 20 5 0x77 demo_won_verified demo_late_db = Inr (r', s2)" "applied r'"
    by (auto simp: okE_iff)
  have w: "resolve_user_wallet_id 5 demo_late_db = Inr 0xc1" by code_simp
  have l: "uuid_str LIVEBETS_ESCROW_ACCOUNT_ID < uuid_str 0xc1" by code_simp
  have "vb_status demo_won_verified = LIVEBETS_WON" by (simp add: demo_won_verified_def)
  from livebets_placement_can_deadlock [OF s this w w l]
  obtain p q where "deadlocked [(account_locks s1, p), (account_locks s2, q)]" by blast
  then show ?thesis unfolding s(1,3) okE_iff by (metis snd_conv)
qed

end
