(* ===== verification/GammaReplay.thy ===== *)
theory GammaReplay
  imports GammaRules
begin

text \<open>
  Replaying a payload, and the locks of the tasks.  The upsert is idempotent when the prices have at most
  six decimals; a finer price is written and published again by every poll.
\<close>

subsection \<open>The market row\<close>

definition same_payload :: "market \<Rightarrow> market \<Rightarrow> bool" where
  "same_payload r r' \<longleftrightarrow> question r' = question r \<and> mk_status r' = mk_status r \<and> volume r' = volume r
     \<and> volume_24hr r' = volume_24hr r \<and> polymarket_slug r' = polymarket_slug r \<and> mk_category r' = mk_category r
     \<and> group_id r' = group_id r \<and> group_item_title r' = group_item_title r"

lemma gamma_row_payload: "same_payload (gamma_row slugify iso_parse t draw gid cat g) (gamma_row slugify' iso_parse' t' draw' gid cat g)"
  by (cases draw; cases draw') (simp add: same_payload_def gamma_row_def)

lemma filter_single: "filter P xs = [x] \<Longrightarrow> x \<in> set xs \<and> P x"
  by (metis list.set_intros(1) mem_Collect_eq set_filter)

lemma update_where_id: "(\<And>x. x \<in> set xs \<Longrightarrow> p x \<Longrightarrow> f x = x) \<Longrightarrow> update_where p f xs = xs"
  by (induction xs) auto

text \<open>After an upsert that leaves one row for the source id, the same payload changes nothing.\<close>

lemma upsert_market_again:
  fixes s s1 s2 :: "'a db_scheme"
  assumes u: "upsert_market src row s = Inr s1" and one: "filter (mirrored_row src) (markets s1) = [m]"
    and "source_market_id row = Some src" "mk_source row = POLYMARKET" "catalog_ok s1" "same_payload row row'"
    and same: "markets s2 = markets s1" "market_groups s2 = market_groups s1"
  shows "upsert_market src row' s2 = Inr s2"
proof -
  obtain v v24 where v: "numeric_18_4 (volume row) = Inr v" "numeric_18_4 (volume_24hr row) = Inr v24"
    using u by (auto simp: upsert_market_def)
  have v': "numeric_18_4 (volume row') = Inr v" "numeric_18_4 (volume_24hr row') = Inr v24"
    using v assms(6) by (simp_all add: same_payload_def)
  have m1: "m \<in> set (markets s1)" "mirrored_row src m" using filter_single [OF one] by simp_all
  have key: "overwrite row' v v24 m = m \<and> (group_id row' \<noteq> None \<longrightarrow> group_id row' \<in> Some ` mg_id ` set (market_groups s1))"
  proof (cases "filter (mirrored_row src) (markets s)")
    case Nil
    then obtain m' where i: "insert_market row s = Inr (m', s1)" using u by (auto simp: upsert_market_def)
    then obtain lo hi where m': "m' = row\<lparr>volume := v, volume_24hr := v24, min_stake := lo, max_stake := hi\<rparr>"
        "s1 = s\<lparr>markets := markets s @ [m']\<rparr>" using v by (elim insert_market_Inr) auto
    have "filter (mirrored_row src) (markets s1) = [m']" using Nil assms(3,4) by (simp add: m' mirrored_row_def)
    then have "m = m'" using one by simp
    moreover have "group_id row \<noteq> None \<longrightarrow> group_id row \<in> Some ` mg_id ` set (market_groups s)"
      using i by (auto simp: insert_market_def Let_def)
    ultimately show ?thesis using assms(6) m' by (simp add: overwrite_def same_payload_def)
  next
    case (Cons n ns)
    have s1: "s1 = update_market_row (mk_id n) (overwrite row v v24) s"
      and g: "group_id row \<noteq> None \<longrightarrow> group_id row \<in> Some ` mg_id ` set (market_groups s)"
      using u Cons v by (auto simp: upsert_market_def)
    have n: "n \<in> set (filter (mirrored_row src) (markets s))" by (simp add: Cons)
    then have "overwrite row v v24 n \<in> set (filter (mirrored_row src) (markets s1))"
      by (force simp: s1 update_market_row_def set_update_where mirrored_row_def)
    then have "m = overwrite row v v24 n" using one by simp
    then show ?thesis using assms(6) g by (simp add: overwrite_def same_payload_def s1 update_market_row_def)
  qed
  have "overwrite row' v v24 n = n" if "n \<in> set (markets s1)" "mk_id n = mk_id m" for n
  proof -
    have "n = m" using that m1(1) assms(5) by (auto simp: catalog_ok_def intro: distinct_key_eq)
    with key show ?thesis by simp
  qed
  then have "update_market_row (mk_id m) (overwrite row' v v24) s2 = s2"
    by (simp add: update_market_row_def same update_where_id)
  with key one v' show ?thesis by (auto simp: upsert_market_def same)
qed

subsection \<open>The outcomes\<close>

definition with_label :: "uuid \<Rightarrow> string \<Rightarrow> outcome \<Rightarrow> bool" where
  "with_label mid lbl oc \<longleftrightarrow> oc_market_id oc = mid \<and> label oc = take 50 lbl"

text \<open>The outcome of a label is stored with price \<open>p\<close>.\<close>

definition stored :: "uuid \<Rightarrow> string \<Rightarrow> rat \<Rightarrow> 'a db_scheme \<Rightarrow> bool" where
  "stored mid lbl p s \<longleftrightarrow> (\<exists>oc. filter (with_label mid lbl) (outcomes s) = [oc] \<and> current_odds oc = p)"

lemma filter_set_odds:
  assumes "filter (with_label mid lbl) ocs = [oc]"
  shows "filter (with_label mid lbl) (update_where (\<lambda>x. oc_id x = u) (\<lambda>x. x\<lparr>current_odds := c\<rparr>) ocs)
    = [if oc_id oc = u then oc\<lparr>current_odds := c\<rparr> else oc]"
proof -
  have "filter (with_label mid lbl) (update_where (\<lambda>x. oc_id x = u) (\<lambda>x. x\<lparr>current_odds := c\<rparr>) xs)
    = update_where (\<lambda>x. oc_id x = u) (\<lambda>x. x\<lparr>current_odds := c\<rparr>) (filter (with_label mid lbl) xs)" for xs
    by (induction xs) (auto simp: with_label_def)
  then show ?thesis by (simp add: assms)
qed

text \<open>One round: the price is parsed, the earlier write flushed, then this one.\<close>

lemma sync_outcome_Inr:
  assumes "sync_outcome oids mid prices (i, lbl) (w, ds, s) = Inr (w', ds', s1)" "price_at prices i = Inr (Finite p)"
  obtains (kept) "flush w s = Inr s1" "w' = NoWrite" "ds' = ds" "stored mid lbl p s1"
    | (set_odds) oc where "flush w s = Inr s1" "filter (with_label mid lbl) (outcomes s1) = [oc]" "current_odds oc \<noteq> p"
        "w' = SetOdds (oc_id oc) (Finite p)" "ds' \<noteq> []"
    | (added) "flush w s = Inr s1" "filter (with_label mid lbl) (outcomes s1) = []" "ds' = ds"
        "w' = AddOutcome (oids i) mid (take 50 lbl) (Finite p)"
proof -
  have W: "(\<lambda>oc. oc_market_id oc = mid \<and> label oc = take 50 lbl) = with_label mid lbl"
    by (simp add: with_label_def fun_eq_iff)
  show thesis
    using assms(1) kept set_odds added unfolding sync_outcome_def prod.case W assms(2)
    by (auto simp: scalar_one_or_none_Inr stored_def odds_differ_def split: if_splits)
qed

lemma flushed_stored:
  fixes s s1 s2 :: "'a db_scheme"
  assumes "sync_outcome oids mid prices (i, lbl) (w, ds, s) = Inr (w', ds', s1)" "price_at prices i = Inr (Finite p)"
    and "is_probability p" "flush w' s1 = Inr s2"
  shows "stored mid lbl p s2"
  using assms(1,2)
proof (cases rule: sync_outcome_Inr)
  case kept
  with assms(4) show ?thesis by simp
next
  case (set_odds oc)
  have "s2 = update_outcome_row (oc_id oc) (\<lambda>oc. oc\<lparr>current_odds := p\<rparr>) s1"
    using assms(4) set_odds(4) by (simp add: price_column_def probability_column_id [OF assms(3)])
  with filter_set_odds [OF set_odds(2)] show ?thesis by (simp add: stored_def update_outcome_row_def)
next
  case added
  obtain oc where "insert_outcome (new_outcome (oids i) mid (take 50 lbl) p) s1 = Inr (oc, s2)"
    using assms(4) added(4) by auto
  then have "s2 = s1\<lparr>outcomes := outcomes s1 @ [oc]\<rparr> \<and> current_odds oc = p \<and> with_label mid lbl oc"
    by (elim insert_outcome_Inr)
      (use assms(3) in \<open>auto simp: new_outcome_def probability_column_id with_label_def\<close>)
  with added(2) show ?thesis by (simp add: stored_def)
qed

lemma stored_flush:
  fixes s s1 s2 s3 :: "'a db_scheme"
  assumes "stored mid l0 p0 s1" "sync_outcome oids mid prices (i, lbl) (w, ds, s) = Inr (w', ds', s1)"
    and "price_at prices i = Inr (Finite p)" "flush w' s1 = Inr s2" "take 50 l0 \<noteq> take 50 lbl" "catalog_ok s1"
  shows "stored mid l0 p0 s2"
  using assms(2,3)
proof (cases rule: sync_outcome_Inr)
  case kept
  with assms(1,4) show ?thesis by simp
next
  case (set_odds oc)
  obtain oc0 where o0: "filter (with_label mid l0) (outcomes s1) = [oc0]" "current_odds oc0 = p0"
    using assms(1) by (auto simp: stored_def)
  have mem: "oc0 \<in> set (outcomes s1)" "with_label mid l0 oc0" "oc \<in> set (outcomes s1)" "with_label mid lbl oc"
    using filter_single [OF o0(1)] filter_single [OF set_odds(2)] by simp_all
  have "oc_id oc0 \<noteq> oc_id oc"
  proof
    assume "oc_id oc0 = oc_id oc"
    then have "oc0 = oc" using mem(1,3) assms(6) by (auto simp: catalog_ok_def intro: distinct_key_eq)
    with mem(2,4) assms(5) show False by (simp add: with_label_def)
  qed
  moreover obtain c where "s2 = update_outcome_row (oc_id oc) (\<lambda>oc. oc\<lparr>current_odds := c\<rparr>) s1"
    using assms(4) set_odds(4) by auto
  ultimately show ?thesis using filter_set_odds [OF o0(1)] o0(2) by (simp add: stored_def update_outcome_row_def)
next
  case added
  obtain oc where "insert_outcome (new_outcome (oids i) mid (take 50 lbl) p) s1 = Inr (oc, s2)"
    using assms(4) added(4) by auto
  then have "s2 = s1\<lparr>outcomes := outcomes s1 @ [oc]\<rparr> \<and> \<not> with_label mid l0 oc"
    by (elim insert_outcome_Inr) (use assms(5) in \<open>simp add: new_outcome_def with_label_def\<close>)
  with assms(1) show ?thesis by (auto simp: stored_def)
qed

lemma sync_stored:
  "stored mid lbl p s \<Longrightarrow> price_at prices i = Inr (Finite p) \<Longrightarrow>
    sync_outcome oids mid prices (i, lbl) (NoWrite, ds, s) = Inr (NoWrite, ds, s)"
  by (auto simp: sync_outcome_def stored_def with_label_def [abs_def] odds_differ_def)

text \<open>The labels and prices of a payload that fit the columns.\<close>

definition clean_prices :: "gamma_market \<Rightarrow> bool" where
  "clean_prices g \<longleftrightarrow> distinct (map (take 50) (take 2 (outcomes_raw g)))
     \<and> (\<forall>i < length (take 2 (outcomes_raw g)). \<exists>p. price_at (outcome_prices_raw g) i = Inr (Finite p) \<and> is_probability p)"

lemma all_less_two: "(\<forall>i < Suc (Suc 0). P i) \<longleftrightarrow> P 0 \<and> P (1 :: nat)"
  by (auto simp: less_Suc_eq)

lemma two_cases: obtains "take 2 xs = []" | x where "take 2 xs = [x]" | x y where "take 2 xs = [x, y]"
  by (cases xs; cases "tl xs") auto

lemma sync_outcomes_again:
  fixes s s' :: "'a db_scheme"
  assumes "sync_outcomes oids mid g s = Inr (ds, s')" "clean_prices g" "catalog_ok s"
  shows "sync_outcomes oids' mid g s' = Inr ([], s')"
proof (cases "outcomes_raw g = [] \<or> outcome_prices_raw g = []")
  case False
  let ?prices = "outcome_prices_raw g" and ?sync = "\<lambda>oids. sync_outcome oids mid (outcome_prices_raw g)"
  have eq: "sync_outcomes oids mid g s = bindE (foldE (?sync oids) (List.enumerate 0 (take 2 (outcomes_raw g))) (NoWrite, [], s))
      (\<lambda>(w, deltas, s). bindE (flush w s) (\<lambda>s. Inr (deltas, s)))" for oids and s :: "'a db_scheme"
    using False by (simp add: sync_outcomes_def)
  show ?thesis
  proof (cases rule: two_cases [of "outcomes_raw g"])
    case 1 with False show ?thesis by simp
  next
    case (2 l)
    obtain p where p: "price_at ?prices 0 = Inr (Finite p)" "is_probability p"
      using assms(2) 2 by (auto simp: clean_prices_def)
    obtain w1 d1 s1 where r: "?sync oids (0, l) (NoWrite, [], s) = Inr (w1, d1, s1)" "flush w1 s1 = Inr s'"
      using assms(1) unfolding eq 2 by auto
    from sync_stored [OF flushed_stored [OF r(1) p r(2)] p(1)] show ?thesis unfolding eq 2 by simp
  next
    case (3 l0 l1)
    obtain p0 p1 where p: "price_at ?prices 0 = Inr (Finite p0)" "is_probability p0"
        "price_at ?prices 1 = Inr (Finite p1)" "is_probability p1"
      using assms(2) 3 by (auto simp: clean_prices_def all_less_two)
    have ne: "take 50 l0 \<noteq> take 50 l1" using assms(2) 3 by (auto simp: clean_prices_def)
    obtain w1 d1 s1 w2 d2 s2 where r: "?sync oids (0, l0) (NoWrite, [], s) = Inr (w1, d1, s1)"
        "?sync oids (1, l1) (w1, d1, s1) = Inr (w2, d2, s2)" "flush w2 s2 = Inr s'"
      using assms(1) unfolding eq 3 by auto
    have f: "flush w1 s1 = Inr s2" using r(2) p(3) by (cases rule: sync_outcome_Inr)
    have cat: "catalog_ok s2"
      using catalog.rel_sync_outcome [OF r(1)] catalog.rel_flush [OF f] assms(3) by (simp add: keeps_catalog_def)
    note a = sync_stored [OF stored_flush [OF flushed_stored [OF r(1) p(1,2) f] r(2) p(3) r(3) ne cat] p(1)]
    note b = sync_stored [OF flushed_stored [OF r(2) p(3,4) r(3)] p(3)]
    show ?thesis unfolding eq 3 using a b by simp
  qed
qed (use assms(1) in \<open>auto simp: sync_outcomes_def\<close>)


subsection \<open>The upsert\<close>

lemma upsert_one_parts:
  assumes "upsert_one_market slugify iso_parse t draw gid cat g s = Inr (True, ds, s')" "draw = (c, i, u, oids)"
  obtains s1 m deltas where "upsert_market (gm_id g) (gamma_row slugify iso_parse t draw gid cat g) s = Inr s1"
    "filter (mirrored_row (gm_id g)) (markets s1) = [m]" "sync_outcomes oids (mk_id m) g s1 = Inr (deltas, s')"
    "ds = (if deltas = [] then [] else [(mk_id m, deltas)])"
proof -
  obtain mid deltas where b: "upsert_body slugify iso_parse t draw gid cat g s = Inr (Some (mid, deltas), s')"
    and ds: "ds = (if deltas = [] then [] else [(mid, deltas)])"
    using assms(1) by (auto simp: upsert_one_market_def split: sum.splits exn.splits option.splits)
  obtain s1 found where s1: "upsert_market (gm_id g) (gamma_row slugify iso_parse t draw gid cat g) s = Inr s1"
      "scalar_one_or_none (filter (mirrored_row (gm_id g)) (markets s1)) = Inr found"
      "(case found of None \<Rightarrow> Inr (None, s1)
        | Some m \<Rightarrow> bindE (sync_outcomes oids (mk_id m) g s1) (\<lambda>(deltas, s). Inr (Some (mk_id m, deltas), s)))
        = (Inr (Some (mid, deltas), s') :: (_ \<times> _) result)"
    using b unfolding upsert_body_def assms(2) by auto
  obtain m where m: "found = Some m" "mk_id m = mid" "sync_outcomes oids (mk_id m) g s1 = Inr (deltas, s')"
    using s1(3) by (cases found) auto
  have "filter (mirrored_row (gm_id g)) (markets s1) = [m]"
    using s1(2) m(1) by (auto simp: scalar_one_or_none_Inr)
  then show thesis using that [OF s1(1) _ m(3)] ds m(2) by simp
qed


lemma labelled_flush: "flush w s = Inr s' \<Longrightarrow> filter (with_label mid lbl) (outcomes s) \<noteq> [] \<Longrightarrow>
    filter (with_label mid lbl) (outcomes s') \<noteq> []"
proof (cases w)
  case (SetOdds u p)
  assume "flush w s = Inr s'" and ne: "filter (with_label mid lbl) (outcomes s) \<noteq> []"
  then obtain c where s': "s' = update_outcome_row u (\<lambda>oc. oc\<lparr>current_odds := c\<rparr>) s" using SetOdds by auto
  obtain oc where "oc \<in> set (outcomes s)" "with_label mid lbl oc" using ne by (auto simp: filter_empty_conv)
  then have "(if oc_id oc = u then oc\<lparr>current_odds := c\<rparr> else oc) \<in> set (outcomes s')
      \<and> with_label mid lbl (if oc_id oc = u then oc\<lparr>current_odds := c\<rparr> else oc)"
    by (auto simp: s' update_outcome_row_def set_update_where with_label_def)
  then show ?thesis by (auto simp: filter_empty_conv)
next
  case (AddOutcome i m l p)
  assume "flush w s = Inr s'" and "filter (with_label mid lbl) (outcomes s) \<noteq> []"
  then show ?thesis using AddOutcome by (cases p) (auto simp: price_column_def elim!: insert_outcome_Inr)
qed simp

text \<open>A step on a fine price of a stored outcome records a change; no later step drops one.\<close>

lemma sync_fine:
  fixes s s1 :: "'a db_scheme"
  assumes "sync_outcome oids mid prices (i, lbl) (w, ds, s) = Inr (w', ds', s1)" "price_at prices i = Inr (Finite p)"
    and "\<not> is_odds p" "filter (with_label mid lbl) (outcomes s) \<noteq> []" "catalog_ok s"
  shows "ds' \<noteq> []"
  using assms(1,2)
proof (cases rule: sync_outcome_Inr)
  case kept
  then obtain oc where "filter (with_label mid lbl) (outcomes s1) = [oc]" "current_odds oc = p" by (auto simp: stored_def)
  moreover have "catalog_ok s1" using catalog.rel_flush [OF kept(1)] assms(5) by (simp add: keeps_catalog_def)
  ultimately have "is_odds p" using filter_single by (fastforce simp: catalog_ok_def is_probability_def)
  with assms(3) show ?thesis by simp
next
  case added
  with labelled_flush [OF added(1) assms(4)] show ?thesis by simp
qed

lemma sync_outcome_deltas: "sync_outcome oids mid prices x (w, ds, s) = Inr (w', ds', s1) \<Longrightarrow> ds \<noteq> [] \<Longrightarrow> ds' \<noteq> []"
  by (cases x) (auto simp: sync_outcome_def split: option.splits if_splits)

lemma sync_outcome_flushes: "sync_outcome oids mid prices x (w, ds, s) = Inr (w', ds', s1) \<Longrightarrow> flush w s = Inr s1"
  by (cases x) (auto simp: sync_outcome_def split: option.splits if_splits)

lemma sync_outcomes_fine:
  fixes s s' :: "'a db_scheme"
  assumes "sync_outcomes oids mid g s = Inr (ds, s')" "catalog_ok s" "i < 2" "i < length (outcomes_raw g)"
    and "price_at (outcome_prices_raw g) i = Inr (Finite p)" "\<not> is_odds p" "outcome_prices_raw g \<noteq> []"
    and "filter (with_label mid (outcomes_raw g ! i)) (outcomes s) \<noteq> []"
  shows "ds \<noteq> []"
proof -
  let ?sync = "sync_outcome oids mid (outcome_prices_raw g)"
  obtain w t where f: "foldE ?sync (List.enumerate 0 (take 2 (outcomes_raw g))) (NoWrite, [], s) = Inr (w, ds, t)"
    using assms(1,4,7) by (auto simp: sync_outcomes_def split: if_splits)
  show ?thesis
  proof (cases rule: two_cases [of "outcomes_raw g"])
    case 1 with assms(3,4) show ?thesis by auto
  next
    case (2 l)
    then have il: "i = 0" "outcomes_raw g ! i = l" using assms(3,4) by (cases "outcomes_raw g"; auto)+
    obtain w1 s1 where r: "?sync (0, l) (NoWrite, [], s) = Inr (w1, ds, s1)" using f unfolding 2 by auto
    show ?thesis using sync_fine [OF r assms(5) [unfolded il(1)] assms(6) assms(8) [unfolded il(2)] assms(2)] .
  next
    case (3 l0 l1)
    obtain w1 d1 s1 s2 where r: "?sync (0, l0) (NoWrite, [], s) = Inr (w1, d1, s1)" "?sync (1, l1) (w1, d1, s1) = Inr (w, ds, s2)"
      using f unfolding 3 by auto
    have nth: "outcomes_raw g ! 0 = l0" "outcomes_raw g ! 1 = l1"
      using 3 by (metis nth_take pos2 nth_Cons_0, metis nth_take one_less_numeral_iff semiring_norm(76) nth_Cons_0 nth_Cons_Suc One_nat_def)
    consider "i = 0" | "i = 1" using assms(3) by linarith
    then show ?thesis
    proof cases
      case 1
      have "d1 \<noteq> []" by (rule sync_fine [OF r(1) _ assms(6) _ assms(2)]) (use assms(5,8) 1 nth in simp_all)
      then show ?thesis by (rule sync_outcome_deltas [OF r(2)])
    next
      case 2
      note fl = sync_outcome_flushes [OF r(1)]
      have c: "catalog_ok s1" using catalog.rel_flush [OF fl] assms(2) by (simp add: keeps_catalog_def)
      have "filter (with_label mid l1) (outcomes s1) \<noteq> []" using assms(8) 2 nth by (intro labelled_flush [OF fl]) simp
      then show ?thesis using assms(5) 2 by (intro sync_fine [OF r(2) _ assms(6) _ c]) simp_all
    qed
  qed
qed

text \<open>
  A fine price is published by every poll.  The publication is meant for changed prices only,
  but a price with more than six decimals never equals the stored one, so every upsert of a
  mirrored market with such a price reports it as changed.
\<close>

theorem fine_price_republished:
  fixes s s' :: "'a db_scheme"
  assumes "upsert_one_market slugify iso_parse t draw gid cat g s = Inr (True, ds, s')" "catalog_ok s"
    and "m \<in> set (markets s)" "mirrored_row (gm_id g) m" "oc \<in> set (outcomes s)" "oc_market_id oc = mk_id m"
    and "i < 2" "i < length (outcomes_raw g)" "label oc = take 50 (outcomes_raw g ! i)"
    and "outcome_prices_raw g \<noteq> []" "price_at (outcome_prices_raw g) i = Inr (Finite p)" "\<not> is_odds p"
  shows "ds \<noteq> []"
proof -
  obtain c j u oids where d: "draw = (c, j, u, oids)" by (cases draw)
  let ?row = "gamma_row slugify iso_parse t draw gid cat g"
  have row: "mk_source ?row = POLYMARKET" by (simp add: gamma_row_def d)
  obtain s1 m1 deltas where q: "upsert_market (gm_id g) ?row s = Inr s1" "filter (mirrored_row (gm_id g)) (markets s1) = [m1]"
    "sync_outcomes oids (mk_id m1) g s1 = Inr (deltas, s')" "ds = (if deltas = [] then [] else [(mk_id m1, deltas)])"
    by (rule upsert_one_parts [OF assms(1) d])
  have k: "catalog_ok s1" using catalog.rel_upsert_market [OF q(1) row] assms(2) by (simp add: keeps_catalog_def)
  obtain n ns where n: "filter (mirrored_row (gm_id g)) (markets s) = n # ns"
    using assms(3,4) by (cases "filter (mirrored_row (gm_id g)) (markets s)") (auto simp: filter_empty_conv)
  then obtain v v24 where s1: "s1 = update_market_row (mk_id n) (overwrite ?row v v24) s"
    using q(1) by (auto simp: upsert_market_def)
  let ?m = "if mk_id m = mk_id n then overwrite ?row v v24 m else m"
  have "?m \<in> set (filter (mirrored_row (gm_id g)) (markets s1))" "mk_id ?m = mk_id m"
    using assms(3,4) by (auto simp: s1 update_market_row_def set_update_where mirrored_row_def)
  then have "?m = m1" by (simp add: q(2) del: set_filter split del: if_split)
  then have m1: "mk_id m1 = mk_id m" using \<open>mk_id ?m = mk_id m\<close> by simp
  have "outcomes s1 = outcomes s" by (simp add: s1 update_market_row_def)
  then have "filter (with_label (mk_id m1) (outcomes_raw g ! i)) (outcomes s1) \<noteq> []"
    using assms(5,6,9) m1 by (auto simp: filter_empty_conv with_label_def)
  from sync_outcomes_fine [OF q(3) k assms(7,8,11,12,10) this] q(4) show ?thesis by simp
qed



lemma fine_price_republished_witness:
  "okE (\<lambda>(synced, ds, s'). ds \<noteq> [])
     (upsert_one_market (\<lambda>q. q) (\<lambda>_. None) 2000 (demo_draw 0) None None (demo_gamma [''3e-8'', ''0.7'']) demo_gamma_db)"
proof -
  let ?g = "demo_gamma [''3e-8'', ''0.7'']"
  let ?u = "upsert_one_market (\<lambda>q. q) (\<lambda>_. None) 2000 (demo_draw 0) None None ?g demo_gamma_db"
  have "okE (\<lambda>(synced, ds, s'). synced) ?u" by code_simp
  then obtain ds s' where u: "?u = Inr (True, ds, s')" by (auto simp: okE_iff)
  have p: "price_at (outcome_prices_raw ?g) 0 = Inr (Finite (3 / 10 ^ 8))" and fine: "\<not> is_odds (3 / 10 ^ 8)"
    by code_simp+
  have "\<exists>m \<in> set (markets demo_gamma_db). mirrored_row ''g1'' m \<and> mk_id m = 3"
    "\<exists>oc \<in> set (outcomes demo_gamma_db). oc_market_id oc = 3 \<and> label oc = ''YES''"
    by (simp_all add: demo_gamma_db_def demo_bet_db_def demo_db_def mirrored_row_def)
  then obtain m oc where m: "m \<in> set (markets demo_gamma_db)" "mirrored_row (gm_id ?g) m" "mk_id m = 3"
    "oc \<in> set (outcomes demo_gamma_db)" "oc_market_id oc = mk_id m" "label oc = ''YES''"
    by (auto simp: demo_gamma_def)
  have l: "0 < length (outcomes_raw ?g)" "label oc = take 50 (outcomes_raw ?g ! 0)" "outcome_prices_raw ?g \<noteq> []"
    using m(6) by (simp_all add: demo_gamma_def)
  from fine_price_republished [OF u demo_gamma_catalog m(1,2,4,5) _ l p fine] u show ?thesis by (simp add: okE_iff)
qed

subsection \<open>The task locks\<close>

text \<open>
  What the other runs do to Redis while one holds the lock \<open>key\<close> with \<open>token\<close>: they try to take a lock
  or release the one they think is theirs, between the times \<open>lo\<close> and \<open>hi\<close>.
\<close>

inductive other_runs :: "string \<Rightarrow> string \<Rightarrow> int \<Rightarrow> int \<Rightarrow> redis \<Rightarrow> redis \<Rightarrow> bool" for key token lo hi where
  none: "other_runs key token lo hi r r"
| acquire: "other_runs key token lo hi r r1 \<Longrightarrow> lo \<le> t \<Longrightarrow> t < hi \<Longrightarrow>
    other_runs key token lo hi r (snd (acquire_lock k ttl tok t r1))"
| release: "other_runs key token lo hi r r1 \<Longrightarrow> lo \<le> t \<Longrightarrow> t < hi \<Longrightarrow> tok \<noteq> token \<Longrightarrow>
    other_runs key token lo hi r (release_lock k tok t r1)"

lemma other_runs_keep:
  assumes "other_runs key token lo hi r r1" "r key = Some (token, hi)"
  shows "r1 key = Some (token, hi)"
  using assms by (induction rule: other_runs.induct) (auto simp: acquire_lock_def release_lock_def redis_get_def)

text \<open>
  The task locks exclude.  Once a run has taken the lock, and until its time to live ends or it
  releases it, no other run of the task does anything: with whatever attempts and late releases of
  other tokens in between, its body is skipped.  The owner's release frees the lock, and a run that
  crashed blocks the next ones no longer than the time to live.
\<close>

theorem task_lock_excludes:
  assumes "acquire_lock key ttl token t0 r = (Some tok, r1)" "other_runs key token t0 (t0 + ttl) r1 r2"
  shows "(t0 \<le> t \<and> t < t0 + ttl \<longrightarrow> with_lock key (other, ttl', t, t') skipped body (r2, s) = (skipped, r2, s)
        \<and> fst (acquire_lock key ttl' other t (release_lock key token t r2)) = Some other)
     \<and> (t0 + ttl \<le> t \<longrightarrow> fst (acquire_lock key ttl' other t r2) = Some other)"
proof -
  have "r1 key = Some (token, t0 + ttl)" using assms(1) by (auto simp: acquire_lock_def split: if_splits)
  from other_runs_keep [OF assms(2) this] show ?thesis
    by (auto simp: acquire_lock_def release_lock_def redis_get_def with_lock_def)
qed

lemma task_lock_excludes_witness:
  "fst (with_lock LOCK_KEY (''b'', 25, 10, 12) [] (\<lambda>s. ([1 :: nat], s))
     (snd (acquire_lock LOCK_KEY 25 ''a'' 5 Map.empty), ())) = []"
proof -
  have a: "acquire_lock LOCK_KEY 25 ''a'' 5 Map.empty = (Some ''a'', snd (acquire_lock LOCK_KEY 25 ''a'' 5 Map.empty))"
    by (simp add: acquire_lock_def redis_get_def)
  show ?thesis using task_lock_excludes [OF a other_runs.none, of 10 "''b''" 25 12 "[]" "\<lambda>s. ([1 :: nat], s)" "()"] by simp
qed

end
