(* ===== verification/Realtime.thy ===== *)
theory Realtime
  imports Prelude
begin

text \<open>
  \<open>realtime/\<close>: the registry of WebSocket clients and its broadcast (\<open>manager.py\<close>), the handshake of
  \<open>/ws/markets/{market_id}\<close> (\<open>router.py\<close>), the payload and channel of a price change
  (\<open>publisher.py\<close>) and the Redis subscriber that fans it out (\<open>subscriber.py\<close>).  A socket is the
  number of its handshake; the members of a bucket are visited in that order.  Each block under the
  registry's lock is one operation; \<open>realtime_step\<close> interleaves them as the event loop does.
  JSON and UTF-8 decoding are parameters.
\<close>

subsection \<open>The registry (\<open>ConnectionManager\<close>)\<close>

definition MAX_TOTAL_CONNECTIONS :: nat where
  "MAX_TOTAL_CONNECTIONS = 5000"

definition MAX_PER_MARKET :: nat where
  "MAX_PER_MARKET = 1000"

record registry =
  connections :: "string \<rightharpoonup> nat set"
  socket_count :: nat

definition empty_registry :: registry where
  "empty_registry = \<lparr>connections = Map.empty, socket_count = 0\<rparr>"

definition bucket_of :: "string \<Rightarrow> registry \<Rightarrow> nat set" where
  "bucket_of m r = (case connections r m of None \<Rightarrow> {} | Some b \<Rightarrow> b)"

text \<open>\<open>AcceptRaised\<close>: the exception of \<open>ws.accept()\<close> leaves the method.\<close>

datatype handshake = Accepted | Refused | AcceptRaised

definition connect :: "bool \<Rightarrow> string \<Rightarrow> nat \<Rightarrow> registry \<Rightarrow> handshake \<times> registry" where
  "connect accepts m ws r =
     (if MAX_TOTAL_CONNECTIONS \<le> socket_count r then (Refused, r)
      else let b = bucket_of m r; r1 = r\<lparr>connections := (connections r)(m \<mapsto> b)\<rparr> in
        if MAX_PER_MARKET \<le> card b
          then (Refused, if b = {} then r1\<lparr>connections := (connections r1)(m := None)\<rparr> else r1)
        else if \<not> accepts then (AcceptRaised, r1)
        else (Accepted, r1\<lparr>connections := (connections r1)(m \<mapsto> insert ws b),
                 socket_count := socket_count r + 1\<rparr>))"

definition disconnect :: "string \<Rightarrow> nat \<Rightarrow> registry \<Rightarrow> registry" where
  "disconnect m ws r = (case connections r m of
     None \<Rightarrow> r
   | Some b \<Rightarrow>
      (let b' = b - {ws};
           n = (if ws \<in> b then socket_count r - 1 else socket_count r)
       in r\<lparr>connections := (connections r)(m := if b' = {} then None else Some b'), socket_count := n\<rparr>))"

text \<open>The loop of \<open>broadcast\<close> over the snapshot: what was delivered, and the sockets that raised.\<close>

fun send_all :: "(nat \<Rightarrow> bool) \<Rightarrow> 'd \<Rightarrow> nat list \<Rightarrow> (nat \<times> 'd) list \<times> nat list" where
  "send_all alive d [] = ([], [])"
| "send_all alive d (ws # rest) = (case send_all alive d rest of (out, stale) \<Rightarrow>
     if alive ws then ((ws, d) # out, stale) else (out, ws # stale))"

definition broadcast ::
  "(nat \<Rightarrow> bool) \<Rightarrow> string \<Rightarrow> 'd \<Rightarrow> registry \<Rightarrow> (nat \<times> nat) \<times> (nat \<times> 'd) list \<times> registry" where
  "broadcast alive m d r =
     (case send_all alive d (sorted_list_of_set (bucket_of m r)) of (out, stale) \<Rightarrow>
        ((length out, length stale), out, fold (disconnect m) stale r))"

subsection \<open>The handshake (\<open>ws_market\<close>)\<close>

definition MAX_MARKET_ID_LEN :: nat where
  "MAX_MARKET_ID_LEN = 128"

definition origin_allowed :: "string \<Rightarrow> string option \<Rightarrow> bool" where
  "origin_allowed frontend origin = (case origin of None \<Rightarrow> True | Some u \<Rightarrow> u = frontend)"

datatype ws_outcome = Open | ClosedWith nat | Failed

definition ws_market ::
  "string \<Rightarrow> string option \<Rightarrow> bool \<Rightarrow> string \<Rightarrow> nat \<Rightarrow> registry \<Rightarrow> ws_outcome \<times> registry" where
  "ws_market frontend origin accepts m ws r =
     (if m = [] \<or> MAX_MARKET_ID_LEN < length m then (ClosedWith 1008, r)
      else if \<not> origin_allowed frontend origin then (ClosedWith 1008, r)
      else case connect accepts m ws r of
        (Accepted, r') \<Rightarrow> (Open, r')
      | (Refused, r') \<Rightarrow> (ClosedWith 1013, r')
      | (AcceptRaised, r') \<Rightarrow> (Failed, r'))"

text \<open>The only reply of the receive loop.\<close>

definition ws_reply :: "string \<Rightarrow> bool" where
  "ws_reply msg \<longleftrightarrow> msg = ''ping''"

subsection \<open>The event loop\<close>

text \<open>
  A broadcast in progress (\<open>flight\<close>) holds its snapshot; a handler is a socket whose
  \<open>ws_market\<close> call has not reached its \<open>finally\<close>.  \<open>accepted\<close> and \<open>delivered\<close> are the history.
\<close>

record 'd flight =
  fl_market :: string
  fl_data :: 'd
  fl_clients :: "nat list"
  fl_stale :: "nat list"

record 'd realtime =
  reg :: registry
  arrivals :: nat
  handlers :: "(string \<times> nat) set"
  flights :: "'d flight list"
  accepted :: "(string \<times> nat) set"
  delivered :: "(string \<times> nat \<times> 'd) list"

definition realtime_init :: "'d realtime" where
  "realtime_init = \<lparr>reg = empty_registry, arrivals = 0, handlers = {}, flights = [], accepted = {}, delivered = []\<rparr>"

inductive realtime_step :: "string \<Rightarrow> 'd realtime \<Rightarrow> 'd realtime \<Rightarrow> bool" for frontend where
  opened: "ws_market frontend origin accepts m (arrivals s) (reg s) = (Open, r') \<Longrightarrow>
     realtime_step frontend s (s\<lparr>reg := r', arrivals := arrivals s + 1,
       handlers := insert (m, arrivals s) (handlers s), accepted := insert (m, arrivals s) (accepted s)\<rparr>)"
| rejected: "ws_market frontend origin accepts m (arrivals s) (reg s) = (res, r') \<Longrightarrow> res \<noteq> Open \<Longrightarrow>
     realtime_step frontend s (s\<lparr>reg := r', arrivals := arrivals s + 1\<rparr>)"
| hangup: "(m, ws) \<in> handlers s \<Longrightarrow>
     realtime_step frontend s (s\<lparr>reg := disconnect m ws (reg s), handlers := handlers s - {(m, ws)}\<rparr>)"
| snapshot: "realtime_step frontend s (s\<lparr>flights := flights s @ [\<lparr>fl_market = m, fl_data = d,
       fl_clients = sorted_list_of_set (bucket_of m (reg s)), fl_stale = []\<rparr>]\<rparr>)"
| sent: "flights s = pre @ f # post \<Longrightarrow> fl_clients f = ws # rest \<Longrightarrow>
     realtime_step frontend s (s\<lparr>flights := pre @ f\<lparr>fl_clients := rest\<rparr> # post,
       delivered := delivered s @ [(fl_market f, ws, fl_data f)]\<rparr>)"
| send_raised: "flights s = pre @ f # post \<Longrightarrow> fl_clients f = ws # rest \<Longrightarrow>
     realtime_step frontend s (s\<lparr>flights := pre @ f\<lparr>fl_clients := rest, fl_stale := fl_stale f @ [ws]\<rparr> # post\<rparr>)"
| pruned: "flights s = pre @ f # post \<Longrightarrow> fl_clients f = [] \<Longrightarrow> fl_stale f = ws # rest \<Longrightarrow>
     realtime_step frontend s (s\<lparr>reg := disconnect (fl_market f) ws (reg s),
       flights := pre @ f\<lparr>fl_stale := rest\<rparr> # post\<rparr>)"

inductive realtime_reachable :: "string \<Rightarrow> 'd realtime \<Rightarrow> bool" for frontend where
  start: "realtime_reachable frontend realtime_init"
| step: "realtime_reachable frontend s \<Longrightarrow> realtime_step frontend s t \<Longrightarrow> realtime_reachable frontend t"

subsection \<open>Publishing (\<open>publisher.py\<close>)\<close>

record price_update =
  pu_market_id :: string
  pu_outcomes :: "(string \<times> string) list"
  pu_ts :: int

definition build_price_update_payload :: "uuid \<Rightarrow> (string \<times> string) list \<Rightarrow> int \<Rightarrow> price_update" where
  "build_price_update_payload market_id deltas now =
     \<lparr>pu_market_id = uuid_str market_id, pu_outcomes = deltas, pu_ts = now\<rparr>"

definition CHANNEL_PREFIX :: string where
  "CHANNEL_PREFIX = ''prices:''"

record 'raw pubsub_message =
  pm_type :: string
  pm_channel :: string
  pm_data :: 'raw

text \<open>The message Redis passes to a pattern subscriber for one \<open>PUBLISH\<close>.\<close>

definition publish_odds_change ::
  "(price_update \<Rightarrow> 'raw) \<Rightarrow> uuid \<Rightarrow> (string \<times> string) list \<Rightarrow> int \<Rightarrow> 'raw pubsub_message" where
  "publish_odds_change dumps market_id deltas now =
     \<lparr>pm_type = ''pmessage'', pm_channel = ''prices:'' @ uuid_str market_id,
      pm_data = dumps (build_price_update_payload market_id deltas now)\<rparr>"

subsection \<open>Subscribing (\<open>subscriber.py\<close>)\<close>

definition removeprefix :: "string \<Rightarrow> string \<Rightarrow> string" where
  "removeprefix p s = (if take (length p) s = p then drop (length p) s else s)"

text \<open>How one connection ends; the messages carry the sockets that accept data at that moment.\<close>

datatype lifetime_end = StreamEnded | StreamRaised | StreamCancelled

type_synonym 'raw connection = "('raw pubsub_message \<times> (nat \<Rightarrow> bool)) list \<times> lifetime_end"

fun fan_out ::
  "('raw \<Rightarrow> 't option) \<Rightarrow> ('t \<Rightarrow> 'd option) \<Rightarrow> 'raw connection \<Rightarrow> registry
     \<Rightarrow> lifetime_end \<times> (nat \<times> 'd) list \<times> registry" where
  "fan_out decode loads ([], fate) r = (fate, [], r)"
| "fan_out decode loads ((msg, alive) # rest, fate) r =
     (if pm_type msg \<noteq> ''pmessage'' then fan_out decode loads (rest, fate) r
      else case decode (pm_data msg) of
        None \<Rightarrow> (StreamRaised, [], r)
      | Some raw \<Rightarrow> (case loads raw of
          None \<Rightarrow> fan_out decode loads (rest, fate) r
        | Some d \<Rightarrow>
           (case broadcast alive (removeprefix CHANNEL_PREFIX (pm_channel msg)) d r of (_, out, r') \<Rightarrow>
             (case fan_out decode loads (rest, fate) r' of (res, outs, r'') \<Rightarrow> (res, out @ outs, r'')))))"

text \<open>
  The reconnect loop over the connections \<open>world n\<close>; \<open>shutdown n\<close> is a cancellation that arrives in
  the pause after connection \<open>n\<close>.  \<open>None\<close> is the loop that never returns.
\<close>

partial_function (option) redis_subscriber ::
  "('raw \<Rightarrow> 't option) \<Rightarrow> ('t \<Rightarrow> 'd option) \<Rightarrow> (nat \<Rightarrow> 'raw connection) \<Rightarrow> (nat \<Rightarrow> bool)
     \<Rightarrow> nat \<Rightarrow> (nat \<times> 'd) list \<Rightarrow> registry \<Rightarrow> (nat \<times> (nat \<times> 'd) list \<times> registry) option" where
  "redis_subscriber decode loads world shutdown n acc r =
     (case fan_out decode loads (world n) r of (fate, out, r') \<Rightarrow>
        if fate = StreamCancelled \<or> shutdown n then Some (n, acc @ out, r')
        else redis_subscriber decode loads world shutdown (n + 1) (acc @ out) r')"

end
