(* ===== verification/RealtimeRules.thy ===== *)
theory RealtimeRules
  imports Realtime
begin

text \<open>
  What the registry guarantees: its counter and its ceilings under every interleaving, delivery to
  the sockets of one market only, the path of a published change, the buckets an aborted handshake
  leaves behind, and when the subscriber stops.
\<close>

subsection \<open>The counter and the ceilings\<close>

definition registered :: "registry \<Rightarrow> (string \<times> nat) set" where
  "registered r = {(m, ws). ws \<in> bucket_of m r}"

text \<open>
  \<open>registry_inv\<close>: finitely many buckets of finitely many sockets, the counter is the number of
  registered sockets, and the ceilings and the length limit hold.
\<close>

definition registry_inv :: "registry \<Rightarrow> bool" where
  "registry_inv r \<longleftrightarrow> finite (registered r) \<and> socket_count r = card (registered r)
     \<and> socket_count r \<le> MAX_TOTAL_CONNECTIONS
     \<and> (\<forall>m. card (bucket_of m r) \<le> MAX_PER_MARKET)
     \<and> (\<forall>m \<in> dom (connections r). m \<noteq> [] \<and> length m \<le> MAX_MARKET_ID_LEN)"

lemma bucket_of_upd [simp]:
  "bucket_of k (r\<lparr>connections := (connections r)(m := v)\<rparr>) = (if k = m then (case v of None \<Rightarrow> {} | Some b \<Rightarrow> b) else bucket_of k r)"
  "bucket_of k (r\<lparr>connections := (connections r)(m := v), socket_count := n\<rparr>)
     = (if k = m then (case v of None \<Rightarrow> {} | Some b \<Rightarrow> b) else bucket_of k r)"
  by (simp_all add: bucket_of_def)

lemma finite_bucket: "finite (registered r) \<Longrightarrow> finite (bucket_of m r)"
  by (rule finite_subset [of _ "snd ` registered r"]) (force simp: registered_def)+

lemma registry_inv_empty: "registry_inv empty_registry"
  by (simp add: registry_inv_def empty_registry_def registered_def bucket_of_def)

lemma disconnect_registered: "registered (disconnect m ws r) = registered r - {(m, ws)}"
  by (auto simp: registered_def disconnect_def bucket_of_def Let_def split: option.splits if_splits)

lemma disconnect_count:
  "socket_count (disconnect m ws r) = (if (m, ws) \<in> registered r then socket_count r - 1 else socket_count r)"
  by (auto simp: registered_def disconnect_def bucket_of_def Let_def split: option.splits)

lemma disconnect_bucket: "bucket_of k (disconnect m ws r) = (if k = m then bucket_of m r - {ws} else bucket_of k r)"
  by (auto simp: disconnect_def bucket_of_def Let_def split: option.splits)

lemma disconnect_dom: "dom (connections (disconnect m ws r)) \<subseteq> dom (connections r)"
  by (auto simp: disconnect_def Let_def split: option.splits if_splits)

lemma disconnect_inv: "registry_inv r \<Longrightarrow> registry_inv (disconnect m ws r)"
proof -
  assume inv: "registry_inv r"
  have fin: "finite (registered r)" and keys: "\<forall>k \<in> dom (connections r). k \<noteq> [] \<and> length k \<le> MAX_MARKET_ID_LEN"
    using inv by (simp_all add: registry_inv_def)
  have "card (bucket_of k (disconnect m ws r)) \<le> card (bucket_of k r)" for k
    using finite_bucket [OF fin] by (simp add: disconnect_bucket card_mono)
  then have "\<forall>k. card (bucket_of k (disconnect m ws r)) \<le> MAX_PER_MARKET"
    using inv le_trans unfolding registry_inv_def by blast
  moreover have "socket_count (disconnect m ws r) = card (registered (disconnect m ws r))"
    "socket_count (disconnect m ws r) \<le> MAX_TOTAL_CONNECTIONS"
    using inv by (auto simp: registry_inv_def disconnect_registered disconnect_count card_Diff_singleton)
  moreover have "\<forall>k \<in> dom (connections (disconnect m ws r)). k \<noteq> [] \<and> length k \<le> MAX_MARKET_ID_LEN"
    using keys disconnect_dom [of m ws r] by blast
  ultimately show ?thesis using fin by (simp add: registry_inv_def disconnect_registered)
qed

lemma connect_refused: "connect accepts m ws r = (Refused, r') \<Longrightarrow> r' = r"
  by (auto simp: connect_def Let_def MAX_PER_MARKET_def bucket_of_def map_upd_triv split: if_splits option.splits)

lemma connect_accepted:
  assumes "connect accepts m ws r = (Accepted, r')"
  shows "registered r' = insert (m, ws) (registered r)" "socket_count r' = socket_count r + 1"
    "socket_count r < MAX_TOTAL_CONNECTIONS" "card (bucket_of m r) < MAX_PER_MARKET"
    "dom (connections r') = insert m (dom (connections r))"
    "bucket_of k r' = (if k = m then insert ws (bucket_of m r) else bucket_of k r)" 
  using assms by (auto simp: connect_def Let_def registered_def bucket_of_def split: if_splits)

lemma connect_raised:
  assumes "connect accepts m ws r = (AcceptRaised, r')"
  shows "registered r' = registered r" "socket_count r' = socket_count r"
    "dom (connections r') = insert m (dom (connections r))" "bucket_of k r' = bucket_of k r"
  using assms by (auto simp: connect_def Let_def registered_def bucket_of_def split: if_splits)

lemma connect_inv:
  assumes "registry_inv r" "connect accepts m ws r = (h, r')" "m \<noteq> []" "length m \<le> MAX_MARKET_ID_LEN"
    "(m, ws) \<notin> registered r"
  shows "registry_inv r'"
proof (cases h)
  case Accepted
  note c = connect_accepted [OF assms(2) [unfolded Accepted]]
  have fin: "finite (registered r)" using assms(1) by (simp add: registry_inv_def)
  have "card (insert ws (bucket_of m r)) \<le> MAX_PER_MARKET"
    using c(4) finite_bucket [OF fin] by (simp add: card_insert_if)
  then have "\<forall>k. card (bucket_of k r') \<le> MAX_PER_MARKET"
    using assms(1) c(6) by (simp add: registry_inv_def)
  moreover have "socket_count r' = card (registered r')"
    using assms(1,5) fin c(1,2) by (simp add: registry_inv_def)
  moreover have "\<forall>k \<in> dom (connections r'). k \<noteq> [] \<and> length k \<le> MAX_MARKET_ID_LEN"
    using assms(1,3,4) c(5) by (auto simp: registry_inv_def)
  ultimately show ?thesis using fin c(1,2,3) by (simp add: registry_inv_def)
next
  case Refused
  then show ?thesis using assms(1) connect_refused [OF assms(2) [unfolded Refused]] by simp
next
  case AcceptRaised
  note c = connect_raised [OF assms(2) [unfolded AcceptRaised]]
  have "\<forall>k \<in> dom (connections r'). k \<noteq> [] \<and> length k \<le> MAX_MARKET_ID_LEN"
    using assms(1,3,4) c(3) by (auto simp: registry_inv_def)
  then show ?thesis using assms(1) c(1,2,4) by (simp add: registry_inv_def)
qed

definition realtime_inv :: "'d realtime \<Rightarrow> bool" where
  "realtime_inv s \<longleftrightarrow> registry_inv (reg s) \<and> registered (reg s) \<subseteq> handlers s
     \<and> handlers s \<subseteq> accepted s \<and> (\<forall>(m, ws) \<in> accepted s. ws < arrivals s)
     \<and> inj_on snd (accepted s)
     \<and> (\<forall>f \<in> set (flights s). \<forall>ws \<in> set (fl_clients f). (fl_market f, ws) \<in> accepted s)
     \<and> (\<forall>(m, ws, d) \<in> set (delivered s). (m, ws) \<in> accepted s)"

lemma ws_market_Open:
  "ws_market frontend origin accepts m ws r = (Open, r') \<longleftrightarrow> m \<noteq> [] \<and> length m \<le> MAX_MARKET_ID_LEN
     \<and> origin_allowed frontend origin \<and> connect accepts m ws r = (Accepted, r')"
  by (auto simp: ws_market_def split: if_splits prod.splits handshake.splits)

lemma ws_market_not_Open:
  "ws_market frontend origin accepts m ws r = (res, r') \<Longrightarrow> res \<noteq> Open \<Longrightarrow>
     r' = r \<or> (m \<noteq> [] \<and> length m \<le> MAX_MARKET_ID_LEN \<and> res = Failed \<and> connect accepts m ws r = (AcceptRaised, r'))"
  by (auto simp: ws_market_def dest: connect_refused split: if_splits prod.splits handshake.splits)

lemma realtime_step_inv:
  assumes "realtime_step frontend s t" "realtime_inv s"
  shows "realtime_inv t"
  using assms
proof (cases rule: realtime_step.cases)
  case (opened origin accepts m r')
  have fresh: "(m, arrivals s) \<notin> registered (reg s)" using assms(2) by (fastforce simp: realtime_inv_def)
  have c: "connect accepts m (arrivals s) (reg s) = (Accepted, r')"
    "m \<noteq> []" "length m \<le> MAX_MARKET_ID_LEN"
    using opened by (auto simp: ws_market_Open)
  have "registry_inv r'" using connect_inv [OF _ c(1) c(2) c(3) fresh] assms(2) by (simp add: realtime_inv_def)
  moreover have "inj_on snd (insert (m, arrivals s) (accepted s))"
    using assms(2) by (fastforce simp: realtime_inv_def)
  ultimately show ?thesis
    using opened(1) assms(2) connect_accepted(1) [OF c(1)] by (fastforce simp: realtime_inv_def)
next
  case (rejected origin accepts m res r')
  have fresh: "(m, arrivals s) \<notin> registered (reg s)" using assms(2) by (fastforce simp: realtime_inv_def)
  have "registry_inv r' \<and> registered r' = registered (reg s)"
    using ws_market_not_Open [OF rejected(2,3)] assms(2) connect_raised(1) connect_inv [OF _ _ _ _ fresh]
    by (auto simp: realtime_inv_def)
  then show ?thesis using rejected(1) assms(2) by (fastforce simp: realtime_inv_def)
next
  case (hangup m ws)
  then show ?thesis using assms(2) by (auto simp: realtime_inv_def disconnect_inv disconnect_registered)
next
  case (snapshot m d)
  have "finite (bucket_of m (reg s))" using assms(2) by (simp add: realtime_inv_def registry_inv_def finite_bucket)
  then show ?thesis using snapshot assms(2) by (auto simp: realtime_inv_def registered_def)
next
  case (sent pre f post ws rest)
  then show ?thesis using assms(2) by (auto simp: realtime_inv_def)
next
  case (send_raised pre f post ws rest)
  then show ?thesis using assms(2) by (auto simp: realtime_inv_def)
next
  case (pruned pre f post ws rest)
  then show ?thesis using assms(2) by (auto simp: realtime_inv_def disconnect_inv disconnect_registered)
qed

lemma realtime_reachable_inv: "realtime_reachable frontend s \<Longrightarrow> realtime_inv s"
proof (induction rule: realtime_reachable.induct)
  case start
  then show ?case
    by (auto simp: realtime_inv_def realtime_init_def registry_inv_empty registered_def bucket_of_def)
      (simp add: empty_registry_def)
next
  case (step s t)
  then show ?case using realtime_step_inv by blast
qed

text \<open>
  C8: in every reachable state of the event loop, whatever the interleaving of handshakes, hang-ups,
  broadcasts in progress and pruning, the registry's counter is the number of registered sockets,
  both ceilings hold, every key has 1 to 128 characters, no socket is registered without a live
  handler (so when every client has hung up the counter is back to zero), each socket belongs to one
  market, and every message was delivered only to a socket accepted for its market.
\<close>

theorem registry_bounded_and_isolated:
  assumes "realtime_reachable frontend s"
  shows "socket_count (reg s) = card {(m, ws). ws \<in> bucket_of m (reg s)}
    \<and> socket_count (reg s) \<le> MAX_TOTAL_CONNECTIONS
    \<and> (\<forall>m. card (bucket_of m (reg s)) \<le> MAX_PER_MARKET)
    \<and> (\<forall>m \<in> dom (connections (reg s)). 1 \<le> length m \<and> length m \<le> MAX_MARKET_ID_LEN)
    \<and> (\<forall>m. bucket_of m (reg s) \<subseteq> {ws. (m, ws) \<in> handlers s})
    \<and> (handlers s = {} \<longrightarrow> socket_count (reg s) = 0)
    \<and> (\<forall>m m' ws. (m, ws) \<in> accepted s \<longrightarrow> (m', ws) \<in> accepted s \<longrightarrow> m = m')
    \<and> (\<forall>m ws d. (m, ws, d) \<in> set (delivered s) \<longrightarrow> (m, ws) \<in> accepted s)"
proof -
  have inv: "realtime_inv s" using realtime_reachable_inv [OF assms] .
  then have keys: "\<forall>m \<in> dom (connections (reg s)). 1 \<le> length m \<and> length m \<le> MAX_MARKET_ID_LEN"
    by (auto simp: realtime_inv_def registry_inv_def Suc_le_eq)
  have "\<forall>m m' ws. (m, ws) \<in> accepted s \<longrightarrow> (m', ws) \<in> accepted s \<longrightarrow> m = m'"
    using inv by (fastforce simp: realtime_inv_def inj_on_def)
  moreover have "handlers s = {} \<longrightarrow> socket_count (reg s) = 0"
    using inv by (auto simp: realtime_inv_def registry_inv_def)
  moreover have "\<forall>m. bucket_of m (reg s) \<subseteq> {ws. (m, ws) \<in> handlers s}"
    using inv by (auto simp: realtime_inv_def registered_def)
  moreover have "\<forall>m ws d. (m, ws, d) \<in> set (delivered s) \<longrightarrow> (m, ws) \<in> accepted s"
    using inv by (auto simp: realtime_inv_def)
  ultimately show ?thesis
    using inv keys by (simp add: realtime_inv_def registry_inv_def registered_def)
qed

text \<open>One client connects and hangs up.\<close>

lemma hello_and_goodbye:
  "\<exists>s. realtime_reachable f s \<and> accepted s = {(''b'', 0)} \<and> handlers s = {} \<and> arrivals s = 1"
proof -
  let ?r = "\<lparr>connections = Map.empty(''b'' \<mapsto> {0}), socket_count = 1\<rparr> :: registry"
  let ?s = "realtime_init\<lparr>reg := ?r, arrivals := 1, handlers := {(''b'', 0)}, accepted := {(''b'', 0)}\<rparr>"
  have "ws_market f None True ''b'' 0 empty_registry = (Open, ?r)"
    by (simp add: ws_market_def connect_def empty_registry_def bucket_of_def origin_allowed_def
        MAX_TOTAL_CONNECTIONS_def MAX_PER_MARKET_def MAX_MARKET_ID_LEN_def Let_def)
  then have "realtime_step f realtime_init ?s"
    using realtime_step.opened [of f None True "''b''" realtime_init ?r] by (simp add: realtime_init_def)
  then have s: "realtime_reachable f ?s" using realtime_reachable.intros by blast
  have "realtime_step f ?s (?s\<lparr>reg := disconnect ''b'' 0 (reg ?s), handlers := handlers ?s - {(''b'', 0)}\<rparr>)"
    using realtime_step.hangup [of "''b''" 0 ?s f] by simp
  with s have "realtime_reachable f (?s\<lparr>reg := disconnect ''b'' 0 (reg ?s), handlers := handlers ?s - {(''b'', 0)}\<rparr>)"
    by (rule realtime_reachable.step)
  then show ?thesis
    by (intro exI [of _ "?s\<lparr>reg := disconnect ''b'' 0 (reg ?s), handlers := handlers ?s - {(''b'', 0)}\<rparr>"]) simp
qed

corollary registry_bounded_and_isolated_witness:
  "\<exists>s :: nat realtime. realtime_reachable ''http://localhost'' s \<and> accepted s = {(''b'', 0)} \<and> socket_count (reg s) = 0"
proof -
  obtain s :: "nat realtime" where s: "realtime_reachable ''http://localhost'' s" "accepted s = {(''b'', 0)}" "handlers s = {}"
    using hello_and_goodbye by blast
  have "socket_count (reg s) = 0"
    using registry_bounded_and_isolated [OF s(1)] s(3) by simp
  with s show ?thesis by (intro exI [of _ s]) simp
qed

subsection \<open>Buckets of aborted handshakes\<close>

text \<open>A handshake that is refused leaves the registry alone; one whose \<open>accept\<close> raises leaves an empty bucket.\<close>

lemma aborted_handshake:
  assumes "connections r m = None" "socket_count r < MAX_TOTAL_CONNECTIONS" "m \<noteq> []" "length m \<le> MAX_MARKET_ID_LEN"
  shows "ws_market frontend None False m ws r = (Failed, r\<lparr>connections := (connections r)(m \<mapsto> {})\<rparr>)"
  using assms by (simp add: ws_market_def connect_def bucket_of_def origin_allowed_def Let_def MAX_PER_MARKET_def)

lemma aborted_handshakes:
  "distinct ms \<Longrightarrow> \<forall>m \<in> set ms. m \<noteq> [] \<and> length m \<le> MAX_MARKET_ID_LEN \<Longrightarrow>
     \<exists>s :: 'd realtime. realtime_reachable frontend s \<and> socket_count (reg s) = 0 \<and> handlers s = {}
       \<and> connections (reg s) = (\<lambda>m. if m \<in> set ms then Some {} else None)"
proof (induction ms)
  case Nil
  have "realtime_reachable frontend (realtime_init :: 'd realtime)" by (rule realtime_reachable.start)
  then show ?case by (intro exI [of _ realtime_init]) (simp add: realtime_init_def empty_registry_def fun_eq_iff)
next
  case (Cons m ms)
  then obtain s :: "'d realtime" where s: "realtime_reachable frontend s" "socket_count (reg s) = 0"
    "handlers s = {}" "connections (reg s) = (\<lambda>m. if m \<in> set ms then Some {} else None)" by auto
  let ?t = "s\<lparr>reg := (reg s)\<lparr>connections := (connections (reg s))(m \<mapsto> {})\<rparr>, arrivals := arrivals s + 1\<rparr>"
  have "ws_market frontend None False m (arrivals s) (reg s) = (Failed, (reg s)\<lparr>connections := (connections (reg s))(m \<mapsto> {})\<rparr>)"
    by (rule aborted_handshake) (use s Cons.prems in \<open>simp_all add: MAX_TOTAL_CONNECTIONS_def\<close>)
  then have "realtime_step frontend s ?t" using realtime_step.rejected by blast
  with s(1) have "realtime_reachable frontend ?t" by (rule realtime_reachable.step)
  moreover have "connections (reg ?t) = (\<lambda>k. if k \<in> set (m # ms) then Some {} else None)"
    using s(4) by (simp add: fun_eq_iff)
  ultimately show ?case using s(2,3) by (intro exI [of _ ?t]) (simp del: fun_upd_apply)
qed

text \<open>
  C91: although the counter of sockets is bounded, the dictionary is not: for every list of distinct
  ids of 1 to 128 characters there is a run after which the registry holds an empty bucket for each
  of them, with no socket, no handler and nothing left to prune them (handshakes whose \<open>accept\<close>
  raises), while a refused handshake never changes the registry.
\<close>

theorem aborted_handshakes_leak_buckets:
  assumes "distinct ms" "\<forall>m \<in> set ms. 1 \<le> length m \<and> length m \<le> MAX_MARKET_ID_LEN"
  shows "(\<exists>s :: 'd realtime. realtime_reachable frontend s \<and> handlers s = {} \<and> socket_count (reg s) = 0
            \<and> dom (connections (reg s)) = set ms)
    \<and> (\<forall>accepts m ws r r'. connect accepts m ws r = (Refused, r') \<longrightarrow> r' = r)"
proof
  have "\<forall>m \<in> set ms. m \<noteq> [] \<and> length m \<le> MAX_MARKET_ID_LEN" using assms(2) by auto
  from aborted_handshakes [OF assms(1) this, of frontend]
  obtain s :: "'d realtime" where s: "realtime_reachable frontend s" "socket_count (reg s) = 0" "handlers s = {}"
    "connections (reg s) = (\<lambda>m. if m \<in> set ms then Some {} else None)" by auto
  then have "dom (connections (reg s)) = set ms" by (auto split: if_splits)
  with s show "\<exists>s :: 'd realtime. realtime_reachable frontend s \<and> handlers s = {} \<and> socket_count (reg s) = 0
      \<and> dom (connections (reg s)) = set ms" by blast
qed (use connect_refused in blast)

corollary aborted_handshakes_leak_buckets_witness:
  "\<exists>s :: nat realtime. realtime_reachable ''http://localhost'' s \<and> handlers s = {} \<and> socket_count (reg s) = 0
      \<and> dom (connections (reg s)) = {''junk-1'', ''junk-2'', ''junk-3''}"
  using aborted_handshakes_leak_buckets [where 'd = nat, of "[''junk-1'', ''junk-2'', ''junk-3'']" "''http://localhost''"]
  by (simp add: MAX_MARKET_ID_LEN_def)

subsection \<open>Delivery\<close>

lemma send_all_eq: "send_all alive d cs = (map (\<lambda>ws. (ws, d)) (filter alive cs), filter (\<lambda>ws. \<not> alive ws) cs)"
  by (induction cs) auto

lemma fold_disconnect_bucket:
  "bucket_of k (fold (disconnect m) ws r) = (if k = m then bucket_of m r - set ws else bucket_of k r)"
  by (induction ws arbitrary: r) (auto simp: disconnect_bucket)

lemma fold_disconnect_inv: "registry_inv r \<Longrightarrow> registry_inv (fold (disconnect m) ws r)"
  by (induction ws arbitrary: r) (simp_all add: disconnect_inv)

lemma broadcast_spec:
  assumes "registry_inv r" "broadcast alive m d r = ((sent_n, failed_n), out, r')"
  shows "set out = {(ws, d) | ws. ws \<in> bucket_of m r \<and> alive ws}" "distinct out" "sent_n = length out"
    "sent_n + failed_n = card (bucket_of m r)" "registry_inv r'"
    "bucket_of k r' = (if k = m then {ws \<in> bucket_of m r. alive ws} else bucket_of k r)"
proof -
  let ?cs = "sorted_list_of_set (bucket_of m r)"
  have fin: "finite (bucket_of m r)" using assms(1) by (simp add: registry_inv_def finite_bucket)
  have eqs: "out = map (\<lambda>ws. (ws, d)) (filter alive ?cs)" "sent_n = length (filter alive ?cs)"
    "failed_n = length (filter (\<lambda>ws. \<not> alive ws) ?cs)" "r' = fold (disconnect m) (filter (\<lambda>ws. \<not> alive ws) ?cs) r"
    using assms(2) by (auto simp: broadcast_def send_all_eq)
  show "set out = {(ws, d) | ws. ws \<in> bucket_of m r \<and> alive ws}" using fin by (auto simp: eqs(1))
  show "distinct out" by (simp add: eqs(1) distinct_map inj_on_def)
  show "sent_n = length out" by (simp add: eqs(1,2))
  show "sent_n + failed_n = card (bucket_of m r)"
    unfolding eqs(2,3) using sum_length_filter_compl [of alive ?cs] by simp
  show "registry_inv r'" unfolding eqs(4) using assms(1) by (rule fold_disconnect_inv)
  show "bucket_of k r' = (if k = m then {ws \<in> bucket_of m r. alive ws} else bucket_of k r)"
    using fin by (auto simp: eqs(4) fold_disconnect_bucket)
qed

lemma publish_odds_change_parts [simp]:
  "pm_type (publish_odds_change dumps u deltas now) = ''pmessage''"
  "removeprefix CHANNEL_PREFIX (pm_channel (publish_odds_change dumps u deltas now)) = uuid_str u"
  "pm_data (publish_odds_change dumps u deltas now) = dumps (build_price_update_payload u deltas now)"
  by (simp_all add: publish_odds_change_def removeprefix_def CHANNEL_PREFIX_def)

text \<open>
  C39: an odds change published for a market reaches, through its channel and the subscriber, exactly
  the live sockets registered under that market's id, once each, and carries that id and the given
  odds; sockets that fail are pruned, every other market keeps its sockets, and the registry stays
  within its ceilings.
\<close>

theorem published_change_reaches_its_market:
  fixes dumps :: "price_update \<Rightarrow> 'raw"
  assumes "registry_inv r"
    and "\<forall>p. Option.bind (decode (dumps p)) loads = Some p"
    and "fan_out decode loads ([(publish_odds_change dumps u deltas now, alive)], StreamEnded) r = (fate, out, r')"
  shows "fate = StreamEnded \<and> distinct out
    \<and> set out = {(ws, build_price_update_payload u deltas now) | ws. ws \<in> bucket_of (uuid_str u) r \<and> alive ws}
    \<and> bucket_of (uuid_str u) r' = {ws \<in> bucket_of (uuid_str u) r. alive ws}
    \<and> (\<forall>v. v \<noteq> u \<longrightarrow> bucket_of (uuid_str v) r' = bucket_of (uuid_str v) r)
    \<and> registry_inv r'"
proof -
  let ?p = "build_price_update_payload u deltas now"
  obtain raw where raw: "decode (dumps ?p) = Some raw" "loads raw = Some ?p"
    using assms(2) by (auto simp: bind_eq_Some_conv)
  obtain n k out' r'' where b: "broadcast alive (uuid_str u) ?p r = ((n, k), out', r'')"
    by (metis prod.exhaust)
  have "fate = StreamEnded" "out = out'" "r' = r''"
    using assms(3) raw b by simp_all
  moreover note broadcast_spec(1,2,5) [OF assms(1) b]
  moreover have "bucket_of (uuid_str v) r'' = bucket_of (uuid_str v) r" if "v \<noteq> u" for v
    using broadcast_spec(6) [OF assms(1) b, of "uuid_str v"] that by (simp add: uuid_str_inj)
  moreover have "bucket_of (uuid_str u) r'' = {ws \<in> bucket_of (uuid_str u) r. alive ws}"
    using broadcast_spec(6) [OF assms(1) b, of "uuid_str u"] by simp
  ultimately show ?thesis by simp
qed

definition demo_registry :: registry where
  "demo_registry = \<lparr>connections = Map.empty(uuid_str 1 \<mapsto> {0, 1}, uuid_str 2 \<mapsto> {2}), socket_count = 3\<rparr>"

lemma uuid_str_not_Nil: "uuid_str u \<noteq> []"
  using length_uuid_str [of u] by force

lemma demo_registry_inv: "registry_inv demo_registry"
proof -
  have "registered demo_registry = {(uuid_str 1, 0), (uuid_str 1, 1), (uuid_str 2, 2)}"
    by (auto simp: registered_def demo_registry_def bucket_of_def uuid_str_inj split: if_splits)
  then show ?thesis
    by (auto simp: registry_inv_def demo_registry_def bucket_of_def uuid_str_inj uuid_str_not_Nil
        MAX_TOTAL_CONNECTIONS_def MAX_PER_MARKET_def MAX_MARKET_ID_LEN_def)
qed

corollary published_change_reaches_its_market_witness:
  "case fan_out Some Some
      ([(publish_odds_change id 1 [(''yes'', ''0.700000'')] 9, \<lambda>ws. ws = 0)], StreamEnded) demo_registry of
    (fate, out, r') \<Rightarrow> out = [(0, build_price_update_payload 1 [(''yes'', ''0.700000'')] 9)]
      \<and> bucket_of (uuid_str 1) r' = {0} \<and> bucket_of (uuid_str 2) r' = {2}"
proof -
  obtain fate out r' where f: "fan_out Some Some
      ([(publish_odds_change id 1 [(''yes'', ''0.700000'')] 9, \<lambda>ws. ws = 0)], StreamEnded) demo_registry = (fate, out, r')"
    by (rule prod_cases3)
  have b: "bucket_of (uuid_str 1) demo_registry = {0, 1}" "bucket_of (uuid_str 2) demo_registry = {2}"
    by (simp_all add: demo_registry_def bucket_of_def uuid_str_inj)
  note reached = published_change_reaches_its_market [OF demo_registry_inv _ f]
  have "distinct out" "set out = {(0, build_price_update_payload 1 [(''yes'', ''0.700000'')] 9)}"
    "bucket_of (uuid_str 1) r' = {0}" "bucket_of (uuid_str 2) r' = {2}"
    using reached b by (simp_all, auto)
  then have "out = [(0, build_price_update_payload 1 [(''yes'', ''0.700000'')] 9)]"
    by (cases out; cases "tl out") auto
  then show ?thesis using f \<open>bucket_of (uuid_str 1) r' = {0}\<close> \<open>bucket_of (uuid_str 2) r' = {2}\<close> by simp
qed

subsection \<open>The reconnect loop\<close>

text \<open>Connection \<open>n\<close> is the last one: it is cancelled, or a cancellation arrives in the pause after it.\<close>

definition stops :: "('raw \<Rightarrow> 't option) \<Rightarrow> (nat \<Rightarrow> 'raw connection) \<Rightarrow> (nat \<Rightarrow> bool) \<Rightarrow> nat \<Rightarrow> bool" where
  "stops decode world shutdown n \<longleftrightarrow> shutdown n
     \<or> (snd (world n) = StreamCancelled
        \<and> list_all (\<lambda>(msg, alive). pm_type msg = ''pmessage'' \<longrightarrow> decode (pm_data msg) \<noteq> None) (fst (world n)))"

lemma fan_out_fate:
  "fst (fan_out decode loads (msgs, fate) r) =
     (if list_all (\<lambda>(msg, alive). pm_type msg = ''pmessage'' \<longrightarrow> decode (pm_data msg) \<noteq> None) msgs
      then fate else StreamRaised)"
  by (induction msgs arbitrary: r) (auto split: option.splits prod.splits, (metis fst_conv)+)

lemma stops_iff: "stops decode world shutdown n \<longleftrightarrow> shutdown n \<or> fst (fan_out decode loads (world n) r) = StreamCancelled"
  using fan_out_fate [of decode loads "fst (world n)" "snd (world n)" r]
  by (auto simp: stops_def)

lemma redis_subscriber_step:
  "redis_subscriber decode loads world shutdown n outs r =
     (case fan_out decode loads (world n) r of (fate, out, r') \<Rightarrow>
        if stops decode world shutdown n then Some (n, outs @ out, r')
        else redis_subscriber decode loads world shutdown (n + 1) (outs @ out) r')"
  using stops_iff [of decode world shutdown n loads r]
  by (subst redis_subscriber.simps) (auto split: prod.split)

definition first_stop :: "('raw \<Rightarrow> 't option) \<Rightarrow> (nat \<Rightarrow> 'raw connection) \<Rightarrow> (nat \<Rightarrow> bool) \<Rightarrow> nat \<Rightarrow> nat \<Rightarrow> bool" where
  "first_stop decode world shutdown n k \<longleftrightarrow> n \<le> k \<and> stops decode world shutdown k
     \<and> (\<forall>j. n \<le> j \<and> j < k \<longrightarrow> \<not> stops decode world shutdown j)"

lemma first_stop_Suc:
  "\<not> stops decode world shutdown n \<Longrightarrow> first_stop decode world shutdown (n + 1) k \<Longrightarrow> first_stop decode world shutdown n k"
  unfolding first_stop_def by (metis Suc_eq_plus1 Suc_leD Suc_leI le_neq_implies_less)

lemma subscriber_stops_first:
  fixes decode :: "'raw \<Rightarrow> 't option" and loads :: "'t \<Rightarrow> 'd option"
  assumes "redis_subscriber decode loads world shutdown n outs r = Some y"
  shows "first_stop decode world shutdown n (fst y)"
proof (rule redis_subscriber.raw_induct [OF _ assms,
      where P = "\<lambda>decode loads world shutdown n outs r y. first_stop decode world shutdown n (fst y)"])
  fix f :: "('raw \<Rightarrow> 't option) \<Rightarrow> ('t \<Rightarrow> 'd option) \<Rightarrow> (nat \<Rightarrow> 'raw connection) \<Rightarrow> (nat \<Rightarrow> bool) \<Rightarrow> nat
    \<Rightarrow> (nat \<times> 'd) list \<Rightarrow> registry \<Rightarrow> (nat \<times> (nat \<times> 'd) list \<times> registry) option"
    and decode loads world shutdown and n :: nat and outs r y
  assume IH: "\<And>decode loads world shutdown n outs r y. f decode loads world shutdown n outs r = Some y
      \<Longrightarrow> first_stop decode world shutdown n (fst y)"
    and y: "(case fan_out decode loads (world n) r of (fate, out, r') \<Rightarrow>
        if fate = StreamCancelled \<or> shutdown n then Some (n, outs @ out, r')
        else f decode loads world shutdown (n + 1) (outs @ out) r') = Some y"
  obtain fate out r' where f: "fan_out decode loads (world n) r = (fate, out, r')"
    by (rule prod_cases3)
  show "first_stop decode world shutdown n (fst y)"
  proof (cases "stops decode world shutdown n")
    case True
    then show ?thesis using y f stops_iff [of decode world shutdown n loads r] by (auto simp: first_stop_def)
  next
    case False
    then have "f decode loads world shutdown (n + 1) (outs @ out) r' = Some y"
      using y f stops_iff [of decode world shutdown n loads r] by auto
    from first_stop_Suc [OF False IH [OF this]] show ?thesis .
  qed
qed

lemma subscriber_returns:
  "stops decode world shutdown (n + k) \<Longrightarrow> \<exists>y. redis_subscriber decode loads world shutdown n outs r = Some y"
proof (induction k arbitrary: n outs r)
  case (Suc k)
  show ?case
    using Suc.IH [of "n + 1"] Suc.prems by (subst redis_subscriber_step) (auto split: prod.split)
qed (subst redis_subscriber_step, auto split: prod.split)

text \<open>
  C40: \<open>redis_subscriber\<close> returns only by cancellation: it terminates exactly when some connection is
  cancelled while it listens or a cancellation arrives in a pause, it stops at the first such
  connection, and no error or end of a stream stops it.
\<close>

theorem subscriber_stops_only_when_cancelled:
  "case redis_subscriber decode loads world shutdown 0 [] r of
     None \<Rightarrow> {n. stops decode world shutdown n} = {}
   | Some (n, outs, r') \<Rightarrow> stops decode world shutdown n \<and> n = (LEAST k. stops decode world shutdown k)"
proof (cases "redis_subscriber decode loads world shutdown 0 [] r")
  case None
  then show ?thesis using subscriber_returns [of decode world shutdown 0 _ loads "[]" r] by auto
next
  case (Some y)
  obtain n outs r' where y: "y = (n, outs, r')" by (rule prod_cases3)
  have "stops decode world shutdown n" "\<And>j. j < n \<Longrightarrow> \<not> stops decode world shutdown j"
    using subscriber_stops_first [OF Some [unfolded y]] by (auto simp: first_stop_def)
  moreover from this have "(LEAST k. stops decode world shutdown k) = n"
    by (intro Least_equality) (auto simp: not_less [symmetric])
  ultimately show ?thesis using Some y by simp
qed

end
