(* ===== verification/Search.thy ===== *)
theory Search
  imports Gamma
begin

text \<open>
  Text search as PostgreSQL evaluates it: \<open>LIKE\<close> with the escape character, case-insensitive
  \<open>ILIKE\<close>, and the escaping of \<open>admin/service.py\<close>.  \<open>lower\<close> maps the ASCII letters.  A pattern that
  ends in the escape character is an error in PostgreSQL; the patterns of the code all end in \<open>%\<close>.
\<close>

definition ESCAPE :: char where
  "ESCAPE = CHR 92"

function like_match :: "string \<Rightarrow> string \<Rightarrow> bool" where
  "like_match [] xs = (xs = [])"
| "like_match (c # p) xs =
     (if c = CHR ''%'' then like_match p xs \<or> (case xs of [] \<Rightarrow> False | _ # ys \<Rightarrow> like_match (c # p) ys)
      else case xs of
        [] \<Rightarrow> False
      | x # ys \<Rightarrow>
         (if c = ESCAPE then (case p of [] \<Rightarrow> False | e # p' \<Rightarrow> x = e \<and> like_match p' ys)
          else (c = CHR ''_'' \<or> x = c) \<and> like_match p ys))"
  by pat_completeness auto
termination by (relation "measure (\<lambda>(p, xs). length p + length xs)") auto

declare like_match.simps(2) [simp del]

definition lower :: "string \<Rightarrow> string" where
  "lower = map ascii_lower"

definition ilike :: "string \<Rightarrow> string \<Rightarrow> bool" where
  "ilike pattern x = like_match (lower pattern) (lower x)"

definition str_replace_char :: "char \<Rightarrow> string \<Rightarrow> string \<Rightarrow> string" where
  "str_replace_char c r s = concat (map (\<lambda>x. if x = c then r else [x]) s)"

definition escape_like :: "string \<Rightarrow> string" where
  "escape_like t = str_replace_char (CHR ''_'') [ESCAPE, CHR ''_'']
     (str_replace_char (CHR ''%'') [ESCAPE, CHR ''%''] (str_replace_char ESCAPE [ESCAPE, ESCAPE] t))"

subsection \<open>Matching with an escaped pattern is substring search\<close>

definition special :: "char \<Rightarrow> bool" where
  "special c \<longleftrightarrow> c = ESCAPE \<or> c = CHR ''%'' \<or> c = CHR ''_''"

lemma escape_like_eq: "escape_like t = concat (map (\<lambda>c. if special c then [ESCAPE, c] else [c]) t)"
  by (induction t) (auto simp: escape_like_def str_replace_char_def special_def ESCAPE_def)

lemma lower_append [simp]: "lower (xs @ ys) = lower xs @ lower ys"
  by (simp add: lower_def)

lemma ascii_lower_special [simp]: "special c \<Longrightarrow> ascii_lower c = c" 
  by (auto simp: special_def ascii_lower_def ESCAPE_def)

lemma special_ascii_lower [simp]: "special (ascii_lower c) \<longleftrightarrow> special c"
proof -
  have "of_char (ascii_lower c) = (if 65 \<le> (of_char c :: nat) \<and> (of_char c :: nat) \<le> 90 then of_char c + 32 else of_char c :: nat)"
    by (simp add: ascii_lower_def Let_def)
  moreover have "special d \<longleftrightarrow> (of_char d :: nat) = 92 \<or> (of_char d :: nat) = 37 \<or> (of_char d :: nat) = 95" for d
  proof -
    have "of_char ESCAPE = (92 :: nat)" "of_char (CHR ''%'') = (37 :: nat)" "of_char (CHR ''_'') = (95 :: nat)"
      by (simp_all add: ESCAPE_def)
    then show ?thesis unfolding special_def by (metis of_char_eq_iff)
  qed
  ultimately show ?thesis by auto
qed

lemma lower_escape_like: "lower (escape_like t) = escape_like (lower t)"
  by (induction t) (auto simp: escape_like_eq lower_def special_def [of ESCAPE])

lemma like_match_literal:
  "like_match (escape_like t @ p) xs \<longleftrightarrow> (\<exists>ys. xs = t @ ys \<and> like_match p ys)"
proof (induction t arbitrary: xs)
  case (Cons c t)
  have "escape_like (c # t) @ p = (if special c then [ESCAPE, c] else [c]) @ (escape_like t @ p)"
    by (simp add: escape_like_eq)
  then show ?case
    using Cons.IH by (cases xs) (auto simp: like_match.simps(2) special_def ESCAPE_def)
qed (simp add: escape_like_eq)

lemma like_match_percent: "like_match (CHR ''%'' # p) xs \<longleftrightarrow> (\<exists>pre ys. xs = pre @ ys \<and> like_match p ys)"
proof (induction xs)
  case Nil
  then show ?case by (simp add: like_match.simps(2))
next
  case (Cons x xs)
  have "like_match (CHR ''%'' # p) (x # xs) \<longleftrightarrow> like_match p (x # xs) \<or> like_match (CHR ''%'' # p) xs"
    by (subst like_match.simps(2)) simp
  moreover have "(\<exists>pre ys. x # xs = pre @ ys \<and> like_match p ys) \<longleftrightarrow>
      like_match p (x # xs) \<or> (\<exists>pre ys. xs = pre @ ys \<and> like_match p ys)"
    by (auto simp: Cons_eq_append_conv)
  ultimately show ?case using Cons by simp
qed

definition contains :: "string \<Rightarrow> string \<Rightarrow> bool" where
  "contains x t \<longleftrightarrow> (\<exists>pre post. x = pre @ t @ post)"

lemma ilike_escaped: "ilike (''%'' @ escape_like t @ ''%'') x \<longleftrightarrow> contains (lower x) (lower t)"
proof -
  have "lower (''%'' @ escape_like t @ ''%'') = CHR ''%'' # escape_like (lower t) @ [CHR ''%'']"
    unfolding lower_append lower_escape_like [symmetric] by (simp add: lower_def special_def)
  moreover have "like_match [CHR ''%''] ys" for ys
    using like_match_percent [of "[]" ys] by simp
  ultimately show ?thesis
    unfolding ilike_def contains_def by (auto simp: like_match_percent like_match_literal)
qed

end
