(* ===== verification/Catalog.thy ===== *)
theory Catalog
  imports MarketViews Search
begin

text \<open>
  The public catalogue: \<open>catalog/service.py\<close> and \<open>catalog/router.py\<close>.  The row limits have no
  \<open>ORDER BY\<close>, so they take rows in table order.  The serialised item list in Redis is opaque:
  \<open>dump\<close> and \<open>validate\<close> are pydantic's adapter, and each Redis call may fail.
\<close>

definition CATALOG_LIMIT :: nat where
  "CATALOG_LIMIT = 100"

definition CLOSING_SOON_WINDOW :: int where
  "CLOSING_SOON_WINDOW = 48 * HOUR"

subsection \<open>Cards\<close>

record catalog_outcome =
  co_label :: string
  co_yes_id :: "uuid option"
  co_yes_price :: rat

datatype item_type = MarketItem | EventItem

record catalog_item =
  it_type :: item_type
  it_id :: uuid
  it_slug :: string
  it_title :: string
  it_category :: "string option"
  it_source :: market_source
  it_status :: string
  it_deadline :: "int option"
  it_volume :: rat
  it_created_at :: int
  it_outcomes :: "catalog_outcome list"

definition yes_leg :: "'a db_scheme \<Rightarrow> market \<Rightarrow> uuid option \<times> rat" where
  "yes_leg s m = (case List.find (\<lambda>oc. is_yes (label oc)) (market_outcomes (mk_id m) s) of
     None \<Rightarrow> (None, 0)
   | Some oc \<Rightarrow> (Some (oc_id oc), current_odds oc))"

definition card_status :: "'a db_scheme \<Rightarrow> market \<Rightarrow> child_status" where
  "card_status s m = (case yes_leg s m of (yes_id, _) \<Rightarrow>
     \<lparr>cs_status = mk_status m,
      is_yes_winner = (winning_outcome_id m \<noteq> None \<and> winning_outcome_id m = yes_id)\<rparr>)"

definition event_deadline :: "market list \<Rightarrow> int option" where
  "event_deadline children = (case map deadline (filter (\<lambda>c. mk_status c = OPEN) children) of
     [] \<Rightarrow> None
   | d # ds \<Rightarrow> Some (fold min ds d))"

definition closes_soon :: "int \<Rightarrow> int option \<Rightarrow> bool" where
  "closes_soon now d = (case d of None \<Rightarrow> False | Some t \<Rightarrow> t \<le> now + CLOSING_SOON_WINDOW)"

definition market_public_status :: "int \<Rightarrow> market \<Rightarrow> string" where
  "market_public_status now m =
     (if mk_status m \<in> {RESOLVED, CLOSED} then ''resolved''
      else if closes_soon now (Some (deadline m)) then ''closing_soon'' else ''open'')"

definition event_public_status :: "int \<Rightarrow> string \<Rightarrow> int option \<Rightarrow> string" where
  "event_public_status now derived d =
     (if derived \<in> {''resolved'', ''void''} then ''resolved''
      else if closes_soon now d then ''closing_soon'' else ''open'')"

text \<open>The values the router accepts for \<open>status\<close> and \<open>sort\<close>.\<close>

datatype status_filter = FOpen | FClosingSoon | FResolved

datatype catalog_sort = ByVolume | ByClosing | ByNewest

definition market_matches_status :: "int \<Rightarrow> status_filter option \<Rightarrow> market \<Rightarrow> bool" where
  "market_matches_status now st m = (case st of
     None \<Rightarrow> True
   | Some FOpen \<Rightarrow> mk_status m = OPEN
   | Some FClosingSoon \<Rightarrow> mk_status m = OPEN \<and> closes_soon now (Some (deadline m))
   | Some FResolved \<Rightarrow> mk_status m \<in> {RESOLVED, CLOSED})"

definition event_matches_status :: "int \<Rightarrow> status_filter option \<Rightarrow> string \<Rightarrow> int option \<Rightarrow> bool" where
  "event_matches_status now st derived d = (case st of
     None \<Rightarrow> True
   | Some FOpen \<Rightarrow> derived \<in> {''open'', ''partially_resolved''}
   | Some FClosingSoon \<Rightarrow> derived \<in> {''open'', ''partially_resolved''} \<and> closes_soon now d
   | Some FResolved \<Rightarrow> derived \<in> {''resolved'', ''void''})"

definition market_to_item :: "int \<Rightarrow> 'a db_scheme \<Rightarrow> market \<Rightarrow> catalog_item" where
  "market_to_item now s m = (case yes_leg s m of (yes_id, yes_price) \<Rightarrow>
     \<lparr>it_type = MarketItem, it_id = mk_id m, it_slug = mk_slug m, it_title = question m,
      it_category = mk_category m, it_source = mk_source m, it_status = market_public_status now m,
      it_deadline = Some (deadline m), it_volume = volume m, it_created_at = mk_created_at m,
      it_outcomes = [\<lparr>co_label = ''YES'', co_yes_id = yes_id, co_yes_price = yes_price\<rparr>]\<rparr>)"

text \<open>\<open>child.group_item_title or child.question\<close>\<close>

definition child_label :: "market \<Rightarrow> string" where
  "child_label c = (case group_item_title c of None \<Rightarrow> question c
     | Some t \<Rightarrow> if t = [] then question c else t)"

definition event_to_item :: "int \<Rightarrow> 'a db_scheme \<Rightarrow> market_group \<Rightarrow> market list \<Rightarrow> string \<Rightarrow> catalog_item" where
  "event_to_item now s g children derived =
     \<lparr>it_type = EventItem, it_id = mg_id g, it_slug = mg_slug g, it_title = mg_title g,
      it_category = mg_category g, it_source = mg_source g,
      it_status = event_public_status now derived (event_deadline children),
      it_deadline = event_deadline children, it_volume = foldl dec_add 0 (map volume children),
      it_created_at = mg_created_at g,
      it_outcomes = map (\<lambda>c. case yes_leg s c of (yes_id, yes_price) \<Rightarrow>
        \<lparr>co_label = child_label c, co_yes_id = yes_id, co_yes_price = yes_price\<rparr>) children\<rparr>"

subsection \<open>The query (\<open>_query_catalog\<close>)\<close>

text \<open>\<open>if q\<close> and \<open>if category\<close>: the empty string does not filter.\<close>

definition text_filter :: "string option \<Rightarrow> string \<Rightarrow> bool" where
  "text_filter q x = (case q of None \<Rightarrow> True | Some t \<Rightarrow> t = [] \<or> ilike (''%'' @ t @ ''%'') x)"

definition category_filter :: "string option \<Rightarrow> string option \<Rightarrow> bool" where
  "category_filter category c = (case category of None \<Rightarrow> True | Some t \<Rightarrow> t = [] \<or> c = Some t)"

definition market_where :: "int \<Rightarrow> string option \<Rightarrow> string option \<Rightarrow> status_filter option \<Rightarrow> market \<Rightarrow> bool" where
  "market_where now q category st m \<longleftrightarrow> group_id m = None
     \<and> (case st of
          Some FOpen \<Rightarrow> mk_status m = OPEN
        | Some FClosingSoon \<Rightarrow> mk_status m = OPEN \<and> deadline m \<le> now + CLOSING_SOON_WINDOW
        | Some FResolved \<Rightarrow> mk_status m \<in> {RESOLVED, CLOSED}
        | None \<Rightarrow> mk_status m \<in> {OPEN, CLOSED, RESOLVED})
     \<and> text_filter q (question m) \<and> category_filter category (mk_category m)"

definition group_where :: "string option \<Rightarrow> string option \<Rightarrow> market_group \<Rightarrow> bool" where
  "group_where q category g \<longleftrightarrow> text_filter q (mg_title g) \<and> category_filter category (mg_category g)"

definition event_items ::
  "int \<Rightarrow> status_filter option \<Rightarrow> 'a db_scheme \<Rightarrow> market_group list \<Rightarrow> catalog_item list" where
  "event_items now st s gs = concat (map (\<lambda>g.
     let children = group_children (mg_id g) s in
     if length children < 2 then []
     else let derived = derive_event_status (map (card_status s) children) in
       if \<not> event_matches_status now st derived (event_deadline children) then []
       else [event_to_item now s g children derived]) gs)"

text \<open>\<open>datetime.max\<close> in microseconds.\<close>

definition FAR :: int where
  "FAR = 253402300799999999"

definition catalog_order :: "catalog_sort \<Rightarrow> catalog_item list \<Rightarrow> catalog_item list" where
  "catalog_order sort_by items = (case sort_by of
     ByNewest \<Rightarrow> order_desc it_created_at items
   | ByClosing \<Rightarrow> sort_key (\<lambda>it. (it_deadline it = None, case it_deadline it of None \<Rightarrow> FAR | Some d \<Rightarrow> d)) items
   | ByVolume \<Rightarrow> order_desc it_volume items)"

definition query_catalog ::
  "int \<Rightarrow> string option \<Rightarrow> string option \<Rightarrow> status_filter option \<Rightarrow> catalog_sort \<Rightarrow> 'a db_scheme
     \<Rightarrow> catalog_item list" where
  "query_catalog now q category st sort_by s =
     (let ms = take CATALOG_LIMIT (filter (market_where now q category st) (markets s));
          gs = take CATALOG_LIMIT (filter (group_where q category) (market_groups s))
      in take CATALOG_LIMIT (catalog_order sort_by (map (market_to_item now s) ms @ event_items now st s gs)))"

subsection \<open>The cache\<close>

definition or_dash :: "string option \<Rightarrow> string" where
  "or_dash x = (case x of None \<Rightarrow> ''-'' | Some t \<Rightarrow> if t = [] then ''-'' else t)"

definition status_name :: "status_filter \<Rightarrow> string" where
  "status_name st = (case st of FOpen \<Rightarrow> ''open'' | FClosingSoon \<Rightarrow> ''closing_soon'' | FResolved \<Rightarrow> ''resolved'')"

definition sort_name :: "catalog_sort \<Rightarrow> string" where
  "sort_name x = (case x of ByVolume \<Rightarrow> ''volume'' | ByClosing \<Rightarrow> ''closing_soonest'' | ByNewest \<Rightarrow> ''newest'')"

definition cache_key :: "string option \<Rightarrow> status_filter option \<Rightarrow> catalog_sort \<Rightarrow> string" where
  "cache_key category st sort_by = ''catalog:list:v1:sort='' @ sort_name sort_by @ '':status=''
     @ or_dash (map_option status_name st) @ '':cat='' @ or_dash category"

text \<open>A key holds its expiry time and its value, a string of bytes \<open>'b\<close>.\<close>

type_synonym 'b cache = "string \<rightharpoonup> int \<times> 'b list"

definition read_cache :: "('b list \<Rightarrow> catalog_item list option) \<Rightarrow> bool \<Rightarrow> int \<Rightarrow> string \<Rightarrow> 'b cache \<Rightarrow> catalog_item list option" where
  "read_cache validate up now key cache = (if \<not> up then None else case cache key of
     None \<Rightarrow> None
   | Some (expiry, raw) \<Rightarrow> if expiry \<le> now \<or> raw = [] then None else validate raw)"

definition write_cache ::
  "(catalog_item list \<Rightarrow> 'b list) \<Rightarrow> bool \<Rightarrow> int \<Rightarrow> string \<Rightarrow> catalog_item list \<Rightarrow> int \<Rightarrow> 'b cache \<Rightarrow> 'b cache" where
  "write_cache dump up now key items ttl cache =
     (if up then cache(key \<mapsto> (now + ttl * 1000000, dump items)) else cache)"

record catalog_request =
  rq_q :: "string option"
  rq_category :: "string option"
  rq_status :: "status_filter option"
  rq_sort :: catalog_sort
  rq_now :: int
  can_read :: bool
  can_write :: bool

definition list_catalog ::
  "(catalog_item list \<Rightarrow> 'b list) \<Rightarrow> ('b list \<Rightarrow> catalog_item list option) \<Rightarrow> int \<Rightarrow> catalog_request
     \<Rightarrow> 'a db_scheme \<Rightarrow> 'b cache \<Rightarrow> catalog_item list \<times> 'b cache" where
  "list_catalog dump validate ttl r s cache =
     (let cacheable = rq_q r = None \<and> 0 < ttl;
          key = cache_key (rq_category r) (rq_status r) (rq_sort r);
          live = query_catalog (rq_now r) (rq_q r) (rq_category r) (rq_status r) (rq_sort r) s
      in case (if cacheable then read_cache validate (can_read r) (rq_now r) key cache else None) of
           Some hit \<Rightarrow> (hit, cache)
         | None \<Rightarrow> (live, if cacheable then write_cache dump (can_write r) (rq_now r) key live ttl cache else cache))"

subsection \<open>Event detail and categories\<close>

record event_outcome_row =
  eo_label :: string
  eo_yes_id :: "uuid option"
  eo_yes_price :: rat
  eo_market_id :: uuid
  eo_child_slug :: string
  eo_child_status :: market_status

definition event_outcome_rows :: "'a db_scheme \<Rightarrow> market list \<Rightarrow> event_outcome_row list" where
  "event_outcome_rows s children = map (\<lambda>c. case yes_leg s c of (yes_id, yes_price) \<Rightarrow>
     \<lparr>eo_label = child_label c, eo_yes_id = yes_id, eo_yes_price = yes_price, eo_market_id = mk_id c,
      eo_child_slug = mk_slug c, eo_child_status = mk_status c\<rparr>) children"

record event_detail =
  ed_group :: market_group
  ed_status :: string
  ed_deadline :: "int option"
  ed_outcomes :: "event_outcome_row list"

definition get_event :: "string \<Rightarrow> 'a db_scheme \<Rightarrow> market_group option" where
  "get_event slug s = List.find (\<lambda>g. mg_slug g = slug) (market_groups s)"

definition get_event_detail :: "string \<Rightarrow> 'a db_scheme \<Rightarrow> event_detail result" where
  "get_event_detail slug s = (case get_event slug s of
     None \<Rightarrow> Inl (HTTPException 404)
   | Some g \<Rightarrow>
      let children = group_children (mg_id g) s in
      if length children < 2 then Inl (HTTPException 404)
      else Inr \<lparr>ed_group = g, ed_status = derive_event_status (map (card_status s) children),
        ed_deadline = event_deadline children, ed_outcomes = event_outcome_rows s children\<rparr>)"

definition list_categories :: "'a db_scheme \<Rightarrow> string list" where
  "list_categories s =
     (let ms = filter (\<lambda>m. group_id m = None \<and> mk_category m \<noteq> None \<and> mk_category m \<noteq> Some []
                 \<and> mk_status m \<in> {OPEN, CLOSED, RESOLVED}) (markets s);
          gs = filter (\<lambda>g. mg_category g \<noteq> None \<and> mg_category g \<noteq> Some []) (market_groups s)
      in sort (remdups (map the (map mk_category ms) @ map the (map mg_category gs))))"

end
