(* ===== verification/CatalogRules.thy ===== *)
theory CatalogRules
  imports Catalog
begin

text \<open>
  The catalogue's filters and labels agree, its status is the settlement's, a listing is the head of
  the requested order unless a table exceeds the row limit, and a cached listing is a recent answer
  to the same question, up to the one category that shares a key with \<open>no category\<close>.
\<close>

subsection \<open>Filters and labels\<close>

text \<open>The labels a filter value stands for: an item closing soon is open too.\<close>

definition labels_of :: "status_filter \<Rightarrow> string set" where
  "labels_of st = (case st of FOpen \<Rightarrow> {''open'', ''closing_soon''} | FClosingSoon \<Rightarrow> {''closing_soon''}
     | FResolved \<Rightarrow> {''resolved''})"

lemma derive_event_status_cases:
  "derive_event_status cs \<in> {''open'', ''partially_resolved'', ''resolved'', ''void''}"
  by (simp add: derive_event_status_def Let_def)

lemma market_where_Some:
  "market_where now q c (Some st) m \<longleftrightarrow> market_where now q c None m \<and> market_public_status now m \<in> labels_of st"
  by (cases st) (auto simp: market_where_def market_public_status_def labels_of_def closes_soon_def)

lemma event_matches_label:
  assumes "derived \<in> {''open'', ''partially_resolved'', ''resolved'', ''void''}"
  shows "event_matches_status now (Some st) derived d \<longleftrightarrow> event_public_status now derived d \<in> labels_of st"
  using assms by (cases st) (auto simp: event_matches_status_def event_public_status_def labels_of_def)

lemma event_items_Cons:
  "event_items now st s (g # gs) = event_items now st s [g] @ event_items now st s gs"
  by (simp add: event_items_def)

lemma event_items_filter:
  "event_items now (Some st) s gs = filter (\<lambda>it. it_status it \<in> labels_of st) (event_items now None s gs)"
proof (induction gs)
  case (Cons g gs)
  have "event_items now (Some st) s [g] = filter (\<lambda>it. it_status it \<in> labels_of st) (event_items now None s [g])"
    using event_matches_label [OF derive_event_status_cases]
    by (simp add: event_items_def Let_def event_to_item_def event_matches_status_def [of now None])
  then show ?case using Cons by (simp only: event_items_Cons [of now _ s g gs] filter_append)
qed (simp add: event_items_def)

text \<open>
  C30: a status filter keeps exactly the cards whose displayed status is one of its labels, for
  standalone markets (where SQL evaluates it) and for events (where Python does), and the SQL
  condition is the helper \<open>_market_matches_status\<close> on the visible markets.
\<close>

theorem filters_agree_with_labels:
  "map (market_to_item now s) (filter (market_where now q c (Some st)) ms)
      = filter (\<lambda>it. it_status it \<in> labels_of st) (map (market_to_item now s) (filter (market_where now q c None) ms))
   \<and> event_items now (Some st) s gs = filter (\<lambda>it. it_status it \<in> labels_of st) (event_items now None s gs)
   \<and> (\<forall>m. market_where now q c (Some st) m = (market_where now q c None m \<and> market_matches_status now (Some st) m))"
proof -
  have "filter (market_where now q c (Some st)) ms
      = filter (\<lambda>m. market_where now q c None m \<and> it_status (market_to_item now s m) \<in> labels_of st) ms"
    by (rule filter_cong) (simp_all add: market_where_Some market_to_item_def split: prod.split)
  then have "map (market_to_item now s) (filter (market_where now q c (Some st)) ms)
      = filter (\<lambda>it. it_status it \<in> labels_of st) (map (market_to_item now s) (filter (market_where now q c None) ms))"
    by (simp add: filter_map comp_def conj_commute)
  moreover have "market_where now q c (Some st) m = (market_where now q c None m \<and> market_matches_status now (Some st) m)" for m
    by (cases st) (auto simp: market_where_def market_matches_status_def closes_soon_def)
  ultimately show ?thesis using event_items_filter by blast
qed

subsection \<open>One status for the catalogue and the settlement\<close>

lemma card_status_eq: "card_status s m = child_status_of s m"
  by (auto simp: card_status_def child_status_of_def yes_leg_def first_yes_def split: option.split)

text \<open>
  The event page answers 404 exactly for a slug without a group of at least two markets; otherwise
  it shows the status the settlement derives for that group and one row per child, in order.
\<close>

theorem event_page_shows_settlement_status:
  "case get_event_detail slug s of
     Inl e \<Rightarrow> e = HTTPException 404 \<and> (case get_event slug s of None \<Rightarrow> True
        | Some g \<Rightarrow> length (group_children (mg_id g) s) < 2)
   | Inr d \<Rightarrow> get_event slug s = Some (ed_group d)
        \<and> ed_status d = derive_status (mg_id (ed_group d)) s
        \<and> map eo_market_id (ed_outcomes d) = map mk_id (group_children (mg_id (ed_group d)) s)
        \<and> 2 \<le> length (ed_outcomes d)"
proof (cases "get_event slug s")
  case None
  then show ?thesis by (simp add: get_event_detail_def)
next
  case (Some g)
  then have g: "g \<in> set (market_groups s)" by (auto simp: get_event_def find_Some_iff)
  obtain h where "get_group (mg_id g) s = Some h"
    using g by (cases "get_group (mg_id g) s") (auto simp: get_group_def find_None_iff)
  then have st: "derive_status (mg_id g) s = derive_event_status (map (card_status s) (group_children (mg_id g) s))"
    by (simp add: derive_status_def card_status_eq [abs_def])
  have rows: "map eo_market_id (event_outcome_rows s cs) = map mk_id cs" for cs
    by (simp add: event_outcome_rows_def split: prod.split)
  have n: "length (event_outcome_rows s cs) = length cs" for cs
    by (simp add: event_outcome_rows_def)
  show ?thesis
    using Some st rows n unfolding get_event_detail_def by (simp add: Let_def not_less)
qed

subsection \<open>The listing\<close>

text \<open>\<open>ranks_before b x y\<close>: the order \<open>b\<close> may show \<open>x\<close> before \<open>y\<close>.\<close>

definition ranks_before :: "catalog_sort \<Rightarrow> catalog_item \<Rightarrow> catalog_item \<Rightarrow> bool" where
  "ranks_before b x y = (case b of
     ByVolume \<Rightarrow> it_volume y \<le> it_volume x
   | ByNewest \<Rightarrow> it_created_at y \<le> it_created_at x
   | ByClosing \<Rightarrow> (case it_deadline x of None \<Rightarrow> it_deadline y = None
       | Some d \<Rightarrow> (case it_deadline y of None \<Rightarrow> True | Some e \<Rightarrow> d \<le> e)))"

lemma mset_catalog_order [simp]: "mset (catalog_order b xs) = mset xs"
  by (cases b) (simp_all add: catalog_order_def)

lemma set_catalog_order: "set (catalog_order b xs) = set xs"
  by (rule mset_eq_setD) simp

lemma sorted_wrt_order_desc: "sorted_wrt (\<lambda>x y. f y \<le> f x) (order_desc f xs)"
  using sorted_order_desc [of f xs] by (simp add: rev_map sorted_wrt_rev sorted_wrt_map)

lemma sorted_catalog_order: "sorted_wrt (ranks_before b) (catalog_order b xs)"
proof (cases b)
  case ByClosing
  let ?k = "\<lambda>it. (it_deadline it = None, case it_deadline it of None \<Rightarrow> FAR | Some d \<Rightarrow> d)"
  have "sorted_wrt (\<lambda>x y. ?k x \<le> ?k y) (sort_key ?k xs)"
    using sorted_sort_key [of ?k xs] by (simp add: sorted_map)
  then show ?thesis
    unfolding ByClosing catalog_order_def catalog_sort.case
    by (rule sorted_wrt_mono_rel [rotated])
      (auto simp: ranks_before_def less_eq_prod_def less_bool_def split: option.splits)
next
  case ByVolume
  then show ?thesis
    using sorted_wrt_order_desc [of it_volume xs] by (simp add: catalog_order_def ranks_before_def [abs_def])
next
  case ByNewest
  then show ?thesis
    using sorted_wrt_order_desc [of it_created_at xs] by (simp add: catalog_order_def ranks_before_def [abs_def])
qed

lemma head_of_order:
  "length (take n (catalog_order b xs)) \<le> n \<and> sorted_wrt (ranks_before b) (take n (catalog_order b xs))
   \<and> (\<exists>omitted. mset (take n (catalog_order b xs) @ omitted) = mset xs
        \<and> (omitted \<noteq> [] \<longrightarrow> length (take n (catalog_order b xs)) = n)
        \<and> (\<forall>x \<in> set (take n (catalog_order b xs)). \<forall>y \<in> set omitted. ranks_before b x y))"
proof (intro conjI exI [of _ "drop n (catalog_order b xs)"])
  have "sorted_wrt (ranks_before b) (take n (catalog_order b xs) @ drop n (catalog_order b xs))"
    using sorted_catalog_order [of b xs] by simp
  then show "sorted_wrt (ranks_before b) (take n (catalog_order b xs))"
    "\<forall>x \<in> set (take n (catalog_order b xs)). \<forall>y \<in> set (drop n (catalog_order b xs)). ranks_before b x y"
    unfolding sorted_wrt_append by blast+
  show "mset (take n (catalog_order b xs) @ drop n (catalog_order b xs)) = mset xs"
    by (simp only: append_take_drop_id mset_catalog_order)
qed auto

text \<open>
  A listing has at most 100 cards, in the requested order.  When no more than 100 standalone
  markets and no more than 100 groups match, it is the head of the whole answer: listed and omitted
  cards together are all matching cards, nothing is omitted before the listing is full, and every
  listed card ranks before every omitted one.
\<close>

theorem listing_is_head_of_order:
  assumes "length (filter (market_where now q c st) (markets s)) \<le> CATALOG_LIMIT"
    and "length (filter (group_where q c) (market_groups s)) \<le> CATALOG_LIMIT"
  shows "length (query_catalog now q c st b s) \<le> CATALOG_LIMIT
    \<and> sorted_wrt (ranks_before b) (query_catalog now q c st b s)
    \<and> (\<exists>omitted. mset (query_catalog now q c st b s @ omitted)
          = mset (map (market_to_item now s) (filter (market_where now q c st) (markets s))
              @ event_items now st s (filter (group_where q c) (market_groups s)))
        \<and> (omitted \<noteq> [] \<longrightarrow> length (query_catalog now q c st b s) = CATALOG_LIMIT)
        \<and> (\<forall>x \<in> set (query_catalog now q c st b s). \<forall>y \<in> set omitted. ranks_before b x y))"
proof -
  have "query_catalog now q c st b s = take CATALOG_LIMIT (catalog_order b
      (map (market_to_item now s) (filter (market_where now q c st) (markets s))
        @ event_items now st s (filter (group_where q c) (market_groups s))))"
    using assms by (simp add: query_catalog_def)
  then show ?thesis by (simp only: head_of_order)
qed

subsection \<open>The cache\<close>

lemma or_dash_eq: "or_dash c = or_dash c' \<longleftrightarrow> c = c' \<or> {c, c'} \<subseteq> {None, Some [], Some ''-''}"
  by (auto simp: or_dash_def split: option.splits if_splits)

lemma cache_key_iff: "cache_key c st b = cache_key c' st' b' \<longleftrightarrow> b = b' \<and> st = st' \<and> or_dash c = or_dash c'"
  by (cases b; cases b'; cases st; cases st'; (cases "the st"; cases "the st'")?)
    (auto simp: cache_key_def sort_name_def status_name_def or_dash_def split: status_filter.splits)

text \<open>
  C93: a cache key identifies its question: two keys are equal exactly when sort and status are equal
  and the categories are equal or both among the absent, the empty and the one-character category
  \<open>-\<close>.  The first two ask the same question; the third does not.
\<close>

theorem cache_key_identifies_question:
  "cache_key c st b = cache_key c' st' b' \<longleftrightarrow>
     b = b' \<and> st = st' \<and> (c = c' \<or> {c, c'} \<subseteq> {None, Some [], Some ''-''})"
  by (simp only: cache_key_iff or_dash_eq)

text \<open>The answer of the time \<open>t\<close> to a browse request, over the history \<open>db_at\<close> of the database.\<close>

definition live_at :: "(int \<Rightarrow> 'a db_scheme) \<Rightarrow> string option \<Rightarrow> status_filter option \<Rightarrow> catalog_sort \<Rightarrow> int \<Rightarrow> catalog_item list" where
  "live_at db_at c st b t = query_catalog t None c st b (db_at t)"

fun serve ::
  "(catalog_item list \<Rightarrow> 'b list) \<Rightarrow> ('b list \<Rightarrow> catalog_item list option) \<Rightarrow> int \<Rightarrow> (int \<Rightarrow> 'a db_scheme)
     \<Rightarrow> catalog_request list \<Rightarrow> 'b cache \<Rightarrow> catalog_item list list" where
  "serve dump validate ttl db_at [] cache = []"
| "serve dump validate ttl db_at (r # rs) cache =
     (case list_catalog dump validate ttl r (db_at (rq_now r)) cache of (items, cache') \<Rightarrow>
        items # serve dump validate ttl db_at rs cache')"

text \<open>Every entry for a category other than \<open>-\<close> is the dump of an answer not older than its time to live.\<close>

definition cache_recent :: "(catalog_item list \<Rightarrow> 'b list) \<Rightarrow> int \<Rightarrow> (int \<Rightarrow> 'a db_scheme) \<Rightarrow> int \<Rightarrow> 'b cache \<Rightarrow> bool" where
  "cache_recent dump ttl db_at now cache \<longleftrightarrow> (\<forall>c st b expiry raw. c \<noteq> Some ''-'' \<longrightarrow>
     cache (cache_key c st b) = Some (expiry, raw) \<longrightarrow>
     (\<exists>t \<le> now. expiry = t + ttl * 1000000 \<and> raw = dump (live_at db_at c st b t)))"

lemma query_catalog_category: "query_catalog now q (Some []) st b s = query_catalog now q None st b s"
  by (simp add: query_catalog_def market_where_def [abs_def] group_where_def [abs_def] category_filter_def)

lemma live_at_category:
  "c = c' \<or> {c, c'} \<subseteq> {None, Some []} \<Longrightarrow> live_at db_at c st b t = live_at db_at c' st b t"
  by (auto simp: live_at_def query_catalog_category)

lemma cache_recent_mono: "cache_recent dump ttl db_at now cache \<Longrightarrow> now \<le> now' \<Longrightarrow> cache_recent dump ttl db_at now' cache"
  unfolding cache_recent_def by (meson order_trans)

lemma cache_recent_write:
  assumes "cache_recent dump ttl db_at now cache" "c \<noteq> Some ''-''"
  shows "cache_recent dump ttl db_at now (cache(cache_key c st b \<mapsto> (now + ttl * 1000000, dump (live_at db_at c st b now))))"
  unfolding cache_recent_def
proof (intro allI impI)
  fix c' st' b' expiry raw
  assume c': "c' \<noteq> Some ''-''"
    and look: "(cache(cache_key c st b \<mapsto> (now + ttl * 1000000, dump (live_at db_at c st b now)))) (cache_key c' st' b') = Some (expiry, raw)"
  show "\<exists>t \<le> now. expiry = t + ttl * 1000000 \<and> raw = dump (live_at db_at c' st' b' t)"
  proof (cases "cache_key c' st' b' = cache_key c st b")
    case True
    then have "b = b'" "st = st'" "c = c' \<or> {c, c'} \<subseteq> {None, Some []}"
      using assms(2) c' by (auto simp: cache_key_iff or_dash_eq)
    then have "live_at db_at c' st' b' now = live_at db_at c st b now" using live_at_category by metis
    then show ?thesis using look True by (intro exI [of _ now]) simp
  next
    case False
    then have "cache (cache_key c' st' b') = Some (expiry, raw)" using look by simp
    then show ?thesis using assms(1) c' unfolding cache_recent_def by blast
  qed
qed

text \<open>The time \<open>t\<close> of the answer a request may get.\<close>

definition recent_for :: "int \<Rightarrow> catalog_request \<Rightarrow> int \<Rightarrow> bool" where
  "recent_for ttl r t \<longleftrightarrow> t = rq_now r
     \<or> (t < rq_now r \<and> rq_now r - ttl * 1000000 < t \<and> can_read r \<and> 0 < ttl \<and> rq_q r = None)"

definition answer_at :: "(int \<Rightarrow> 'a db_scheme) \<Rightarrow> catalog_request \<Rightarrow> int \<Rightarrow> catalog_item list" where
  "answer_at db_at r t = query_catalog t (rq_q r) (rq_category r) (rq_status r) (rq_sort r) (db_at t)"

lemma list_catalog_recent:
  assumes "cache_recent dump ttl db_at (rq_now r) cache" "\<forall>xs. validate (dump xs) = Some xs"
    and "rq_category r \<noteq> Some ''-''"
    and "list_catalog dump validate ttl r (db_at (rq_now r)) cache = (items, cache')"
  shows "cache_recent dump ttl db_at (rq_now r) cache' \<and> (\<exists>t. recent_for ttl r t \<and> items = answer_at db_at r t)"
proof -
  let ?key = "cache_key (rq_category r) (rq_status r) (rq_sort r)"
  let ?live = "query_catalog (rq_now r) (rq_q r) (rq_category r) (rq_status r) (rq_sort r) (db_at (rq_now r))"
  have now: "recent_for ttl r (rq_now r)" "answer_at db_at r (rq_now r) = ?live"
    by (simp_all add: recent_for_def answer_at_def)
  show ?thesis
  proof (cases "rq_q r = None \<and> 0 < ttl")
    case False
    then have "items = ?live" "cache' = cache" using assms(4) by (auto simp: list_catalog_def Let_def)
    then show ?thesis using assms(1) now by metis
  next
    case True
    show ?thesis
    proof (cases "read_cache validate (can_read r) (rq_now r) ?key cache")
      case None
      then have items: "items = ?live"
        and c': "cache' = write_cache dump (can_write r) (rq_now r) ?key ?live ttl cache"
        using assms(4) True by (auto simp: list_catalog_def Let_def)
      have "cache_recent dump ttl db_at (rq_now r) cache'"
        using cache_recent_write [OF assms(1,3), of "rq_status r" "rq_sort r"] assms(1) True
        by (simp add: c' write_cache_def live_at_def)
      then show ?thesis using items now by metis
    next
      case (Some hit)
      then have items: "items = hit" "cache' = cache"
        using assms(4) True by (auto simp: list_catalog_def Let_def)
      obtain expiry raw where e: "can_read r" "cache ?key = Some (expiry, raw)" "rq_now r < expiry" "validate raw = Some hit"
        using Some by (auto simp: read_cache_def split: if_splits option.splits)
      then obtain t where t: "t \<le> rq_now r" "expiry = t + ttl * 1000000"
        "raw = dump (live_at db_at (rq_category r) (rq_status r) (rq_sort r) t)"
        using assms(1,3) unfolding cache_recent_def by blast
      have "hit = answer_at db_at r t" using e(4) t(3) assms(2) True by (simp add: answer_at_def live_at_def)
      moreover have "recent_for ttl r t" using e t True by (auto simp: recent_for_def)
      ultimately show ?thesis using items assms(1) by metis
    qed
  qed
qed

lemma serve_recent:
  assumes "\<forall>xs. validate (dump xs) = Some xs" "sorted (map rq_now rs)"
    and "\<forall>r \<in> set rs. rq_category r \<noteq> Some ''-'' \<and> cache_recent dump ttl db_at (rq_now r) cache"
  shows "list_all2 (\<lambda>r items. \<exists>t. recent_for ttl r t \<and> items = answer_at db_at r t) rs
     (serve dump validate ttl db_at rs cache)"
  using assms(2,3)
proof (induction rs arbitrary: cache)
  case (Cons r rs)
  obtain items cache' where l: "list_catalog dump validate ttl r (db_at (rq_now r)) cache = (items, cache')"
    by (rule prod.exhaust)
  have step: "cache_recent dump ttl db_at (rq_now r) cache' \<and> (\<exists>t. recent_for ttl r t \<and> items = answer_at db_at r t)"
    using list_catalog_recent [where db_at = db_at, OF _ assms(1) _ l] Cons.prems(2) by auto
  have "\<forall>r' \<in> set rs. rq_category r' \<noteq> Some ''-'' \<and> cache_recent dump ttl db_at (rq_now r') cache'"
  proof
    fix r' assume r': "r' \<in> set rs"
    then have "rq_now r \<le> rq_now r'" using Cons.prems(1) by auto
    then have "cache_recent dump ttl db_at (rq_now r') cache'"
      using step cache_recent_mono by blast
    then show "rq_category r' \<noteq> Some ''-'' \<and> cache_recent dump ttl db_at (rq_now r') cache'"
      using Cons.prems(2) r' by simp
  qed
  then show ?case using Cons.IH [of cache'] Cons.prems(1) l step by auto
qed simp


text \<open>
  C31: with the category \<open>-\<close> it fails: a browse of all categories shortly after a browse of the
  category \<open>-\<close> is served the answer for that category.
\<close>

theorem dash_category_poisons_cache:
  assumes "\<forall>xs. validate (dump xs) = Some xs" "dump (live_at db_at (Some ''-'') st b t0) \<noteq> []"
    and "t0 \<le> t1" "t1 < t0 + ttl * 1000000" "0 < ttl"
  shows "serve dump validate ttl db_at
      [\<lparr>rq_q = None, rq_category = Some ''-'', rq_status = st, rq_sort = b, rq_now = t0, can_read = True, can_write = True\<rparr>,
       \<lparr>rq_q = None, rq_category = None, rq_status = st, rq_sort = b, rq_now = t1, can_read = True, can_write = True\<rparr>] Map.empty
    = [live_at db_at (Some ''-'') st b t0, live_at db_at (Some ''-'') st b t0]"
proof -
  have "cache_key None st b = cache_key (Some ''-'') st b" by (simp add: cache_key_iff or_dash_def)
  then show ?thesis
    using assms by (simp add: list_catalog_def read_cache_def write_cache_def live_at_def Let_def)
qed

text \<open>The market closes at time 5.\<close>

definition demo_browse :: "string option \<Rightarrow> int \<Rightarrow> catalog_request" where
  "demo_browse c t = \<lparr>rq_q = None, rq_category = c, rq_status = None, rq_sort = ByVolume, rq_now = t,
     can_read = True, can_write = True\<rparr>"

definition demo_catalog_at :: "int \<Rightarrow> db" where
  "demo_catalog_at t = (if t < 5 then demo_db
     else demo_db\<lparr>markets := map (\<lambda>m. m\<lparr>mk_status := CLOSED\<rparr>) (markets demo_db)\<rparr>)"

abbreviation demo_serve :: "catalog_request list \<Rightarrow> catalog_item list list" where
  "demo_serve rs \<equiv> serve (\<lambda>xs. [xs]) (\<lambda>raw. Some (hd raw)) 10 demo_catalog_at rs Map.empty"


corollary dash_category_poisons_cache_witness:
  "demo_serve [demo_browse (Some ''-'') 0, demo_browse None 9] = [[], []]
   \<and> answer_at demo_catalog_at (demo_browse None 9) 9 \<noteq> []"
proof
  have l: "live_at demo_catalog_at (Some ''-'') None ByVolume 0 = []" by code_simp
  have "demo_serve [demo_browse (Some ''-'') 0, demo_browse None 9] =
      [live_at demo_catalog_at (Some ''-'') None ByVolume 0, live_at demo_catalog_at (Some ''-'') None ByVolume 0]"
    unfolding demo_browse_def by (rule dash_category_poisons_cache) simp_all
  then show "demo_serve [demo_browse (Some ''-'') 0, demo_browse None 9] = [[], []]" unfolding l .
  have "map it_status (answer_at demo_catalog_at (demo_browse None 9) 9) = [''resolved'']" by code_simp
  then show "answer_at demo_catalog_at (demo_browse None 9) 9 \<noteq> []" by auto
qed

corollary listing_is_head_of_order_witness:
  "length (query_catalog 0 None None None ByVolume demo_db) \<le> CATALOG_LIMIT"
proof (rule conjunct1 [OF listing_is_head_of_order])
  show "length (filter (market_where 0 None None None) (markets demo_db)) \<le> CATALOG_LIMIT"
    by (rule le_trans [OF length_filter_le]) (simp add: demo_db_def CATALOG_LIMIT_def)
  show "length (filter (group_where None None) (market_groups demo_db)) \<le> CATALOG_LIMIT"
    by (rule le_trans [OF length_filter_le]) (simp add: demo_db_def)
qed

subsection \<open>The row limit comes before the order\<close>

text \<open>
  A standalone market whose row comes after 100 other matching rows is in no listing, whatever
  the order asked for and however large its volume.
\<close>

theorem row_limit_precedes_order:
  assumes "CATALOG_LIMIT \<le> i" "i < length (filter (market_where now q c st) (markets s))"
    and "distinct (map mk_id (markets s))"
  shows "\<not> (\<exists>it \<in> set (query_catalog now q c st b s). it_type it = MarketItem
     \<and> it_id it = mk_id (filter (market_where now q c st) (markets s) ! i))"
proof
  let ?ms = "filter (market_where now q c st) (markets s)"
  assume "\<exists>it \<in> set (query_catalog now q c st b s). it_type it = MarketItem \<and> it_id it = mk_id (?ms ! i)"
  then obtain it where it: "it \<in> set (query_catalog now q c st b s)" "it_type it = MarketItem" "it_id it = mk_id (?ms ! i)"
    by blast
  let ?es = "event_items now st s (take CATALOG_LIMIT (filter (group_where q c) (market_groups s)))"
  have "it \<in> set (catalog_order b (map (market_to_item now s) (take CATALOG_LIMIT ?ms) @ ?es))"
    by (rule in_set_takeD [OF it(1) [unfolded query_catalog_def Let_def]])
  then have "it \<in> market_to_item now s ` set (take CATALOG_LIMIT ?ms) \<union> set ?es"
    by (simp only: set_catalog_order set_append set_map)
  moreover have "it_type e = EventItem" if "e \<in> set ?es" for e
    using that by (auto simp: event_items_def Let_def event_to_item_def split: if_splits)
  ultimately obtain m where m: "m \<in> set (take CATALOG_LIMIT ?ms)" "it = market_to_item now s m"
    using it(2) by auto
  then obtain j where j: "j < CATALOG_LIMIT" "j < length ?ms" "?ms ! j = m" by (auto simp: in_set_conv_nth)
  have "mk_id m = mk_id (?ms ! i)" using it(3) m(2) by (simp add: market_to_item_def split: prod.splits)
  moreover have "distinct (map mk_id ?ms)" using assms(3) by (rule distinct_map_filter)
  ultimately have "i = j"
    using nth_eq_iff_index_eq [of "map mk_id ?ms" i j] assms(2) j(2,3) by simp
  with assms(1) j(1) show False by simp
qed

definition crowded_db :: db where
  "crowded_db = demo_db\<lparr>markets := map (\<lambda>i. (hd (markets demo_db))\<lparr>mk_id := of_nat i, volume := (if i = 100 then 5 else 1)\<rparr>) [0..<101]\<rparr>"

corollary row_limit_precedes_order_witness:
  "\<not> (\<exists>it \<in> set (query_catalog 0 None None None ByVolume crowded_db). it_type it = MarketItem \<and> it_id it = 100)
   \<and> (\<exists>m \<in> set (markets crowded_db). mk_id m = 100 \<and> (\<forall>n \<in> set (markets crowded_db). n \<noteq> m \<longrightarrow> volume n < volume m))"
proof
  have all: "filter (market_where 0 None None None) (markets crowded_db) = markets crowded_db"
    by (rule filter_True) (auto simp: crowded_db_def demo_db_def market_where_def text_filter_def category_filter_def)
  have "distinct (map of_nat [0..<101] :: uuid list)"
    by (auto simp: distinct_map inj_on_def word_of_nat_eq_iff take_bit_nat_eq_self)
  then have "distinct (map mk_id (markets crowded_db))" by (simp add: crowded_db_def comp_def)
  moreover have "length (markets crowded_db) = 101" "mk_id (markets crowded_db ! 100) = 100"
    by (simp_all add: crowded_db_def del: upt_rec_numeral)
  ultimately show "\<not> (\<exists>it \<in> set (query_catalog 0 None None None ByVolume crowded_db). it_type it = MarketItem \<and> it_id it = 100)"
    using row_limit_precedes_order [of 100 0 None None None crowded_db ByVolume] by (simp add: all CATALOG_LIMIT_def)
  let ?m = "(hd (markets demo_db))\<lparr>mk_id := of_nat 100, volume := 5\<rparr>"
  have "?m \<in> set (markets crowded_db)" by (force simp: crowded_db_def)
  moreover have "\<forall>n \<in> set (markets crowded_db). n \<noteq> ?m \<longrightarrow> volume n < volume ?m" by (auto simp: crowded_db_def)
  ultimately show "\<exists>m \<in> set (markets crowded_db). mk_id m = 100 \<and> (\<forall>n \<in> set (markets crowded_db). n \<noteq> m \<longrightarrow> volume n < volume m)"
    by (intro bexI [of _ ?m]) simp_all
qed

end
