(* ===== verification/Csv.thy ===== *)
theory Csv
  imports Text
begin

text \<open>
  The CSV exports of \<open>admin/csv_export.py\<close>, with what they use of the standard library: \<open>csv.DictWriter\<close>
  in its default dialect and \<open>datetime.isoformat\<close>.  A timestamp is the number of microseconds since
  1970-01-01 in UTC.  A reader of RFC 4180 files serves as the reference for the writer.
\<close>

subsection \<open>Timestamps\<close>

definition pad :: "nat \<Rightarrow> nat \<Rightarrow> string" where
  "pad k n = replicate (k - length (digits n)) (digit_char 0) @ digits n"

text \<open>Year, month and day of a day number, in eras of 400 years that start on the first of March.\<close>

definition civil :: "int \<Rightarrow> int \<times> int \<times> int" where
  "civil days =
     (let z = days + 719468; era = z div 146097; doe = z mod 146097;
          yoe = (doe - doe div 1460 + doe div 36524 - doe div 146096) div 365;
          doy = doe - (365 * yoe + yoe div 4 - yoe div 100);
          mp = (5 * doy + 2) div 153;
          d = doy - (153 * mp + 2) div 5 + 1;
          m = (if mp < 10 then mp + 3 else mp - 9)
      in (yoe + era * 400 + (if m \<le> 2 then 1 else 0), m, d))"

definition isoformat :: "int \<Rightarrow> string" where
  "isoformat t =
     (let micros = nat (t mod 1000000); secs = t div 1000000;
          sod = nat (secs mod 86400)
      in case civil (secs div 86400) of (y, m, d) \<Rightarrow>
         pad 4 (nat y) @ ''-'' @ pad 2 (nat m) @ ''-'' @ pad 2 (nat d) @ ''T''
           @ pad 2 (sod div 3600) @ '':'' @ pad 2 (sod div 60 mod 60) @ '':'' @ pad 2 (sod mod 60)
           @ (if micros = 0 then [] else ''.'' @ pad 6 micros) @ ''+00:00'')"

definition iso_utc :: "int option \<Rightarrow> string" where
  "iso_utc v = (case v of None \<Rightarrow> [] | Some t \<Rightarrow> isoformat t)"

lemma digits_steps:
  "n < 10 \<Longrightarrow> digits n = [digit_char n]"
  "\<not> n < 10 \<Longrightarrow> digits n = digits (n div 10) @ [digit_char (n mod 10)]"
  by (subst digits.simps; simp)+

lemma civil_examples: "civil 0 = (1970, 1, 1)" "civil 11016 = (2000, 2, 29)"
  by code_simp+

lemma replicate_5: "replicate 5 x = [x, x, x, x, x]"
  by (simp add: numeral_eq_Suc)

lemma isoformat_examples:
  "isoformat 0 = ''1970-01-01T00:00:00+00:00''"
  "isoformat 951827696000001 = ''2000-02-29T12:34:56.000001+00:00''"
  unfolding isoformat_def Let_def
  by (simp_all add: civil_examples pad_def digits_steps digit_char_def char_of_def bit_Suc_0_iff replicate_5)

subsection \<open>Cells\<close>

definition FORMULA_TRIGGERS :: "char set" where
  "FORMULA_TRIGGERS = {CHR ''='', CHR ''+'', CHR ''-'', CHR ''@'', CHR 9, CHR 13}"

definition MAX_EXPORT_ROWS :: nat where
  "MAX_EXPORT_ROWS = 10000"

definition sanitize_csv_cell :: "string \<Rightarrow> string" where
  "sanitize_csv_cell v = (case v of [] \<Rightarrow> v
     | c # _ \<Rightarrow> if c \<in> FORMULA_TRIGGERS then CHR 39 # v else v)"

definition money_cell :: "rat option \<Rightarrow> string" where
  "money_cell v = (case v of None \<Rightarrow> [] | Some m \<Rightarrow> money_str m)"

definition csv_cell :: "string option \<Rightarrow> string" where
  "csv_cell v = (case v of None \<Rightarrow> [] | Some x \<Rightarrow> sanitize_csv_cell x)"

definition cap_rows :: "'r list \<Rightarrow> 'r list" where
  "cap_rows rows = (if MAX_EXPORT_ROWS < length rows then take MAX_EXPORT_ROWS rows else rows)"

subsection \<open>The writer\<close>

abbreviation CR :: char where "CR \<equiv> CHR 13"
abbreviation LF :: char where "LF \<equiv> CHR 10"
abbreviation DQ :: char where "DQ \<equiv> CHR 34"

definition needs_quotes :: "string \<Rightarrow> bool" where
  "needs_quotes f \<longleftrightarrow> (\<exists>c \<in> set f. c = CHR '','' \<or> c = DQ \<or> c = CR \<or> c = LF)"

definition csv_field :: "string \<Rightarrow> string" where
  "csv_field f = (if needs_quotes f
     then DQ # concat (map (\<lambda>c. if c = DQ then [DQ, DQ] else [c]) f) @ [DQ] else f)"

fun csv_fields :: "string list \<Rightarrow> string" where
  "csv_fields [] = []"
| "csv_fields [f] = csv_field f"
| "csv_fields (f # fs) = csv_field f @ CHR '','' # csv_fields fs"

text \<open>A row of one empty field is written as a quoted empty field.\<close>

definition csv_row :: "string list \<Rightarrow> string" where
  "csv_row fs = (if fs = [[]] then [DQ, DQ] else csv_fields fs) @ [CR, LF]"

text \<open>\<open>DictWriter\<close>: the cells of the record in the order of the columns; a missing one is empty.\<close>

definition record_cells :: "string list \<Rightarrow> (string \<times> string) list \<Rightarrow> string list" where
  "record_cells columns r = map (\<lambda>k. case map_of r k of None \<Rightarrow> [] | Some v \<Rightarrow> v) columns"

definition write_csv :: "string list \<Rightarrow> (string \<times> string) list list \<Rightarrow> string" where
  "write_csv columns records = concat (map csv_row (columns # map (record_cells columns) records))"

subsection \<open>The rows and the builders\<close>

text \<open>\<open>ur_wallet\<close> is the outer-joined balance; \<open>coalesce(balance, 0)\<close> prints a missing one as \<open>0\<close>.\<close>

record user_row =
  ur_id :: uuid
  ur_email :: string
  ur_display_name :: "string option"
  ur_banned_at :: "int option"
  ur_created_at :: int
  ur_last_activity :: "int option"
  ur_wallet :: "rat option"
  ur_verified :: bool

record transaction_row =
  xr_id :: uuid
  xr_user_email :: "string option"
  xr_kind :: string
  xr_amount :: rat
  xr_reason :: "string option"
  xr_created_at :: int

record bet_row =
  br_id :: uuid
  br_user_email :: "string option"
  br_question :: string
  br_outcome :: string
  br_stake :: rat
  br_status :: string
  br_pnl :: "rat option"
  br_created_at :: int

definition coalesced_str :: "rat option \<Rightarrow> string" where
  "coalesced_str b = (case b of None \<Rightarrow> ''0'' | Some m \<Rightarrow> money_str m)"

definition USERS_COLUMNS :: "string list" where
  "USERS_COLUMNS = [''email'', ''display_name'', ''status'', ''signup_date'', ''last_activity'', ''balance'']"

definition TRANSACTIONS_COLUMNS :: "string list" where
  "TRANSACTIONS_COLUMNS = [''id'', ''user_email'', ''kind'', ''amount'', ''reason'', ''created_at'']"

definition BETS_COLUMNS :: "string list" where
  "BETS_COLUMNS = [''id'', ''user_email'', ''market_question'', ''outcome'', ''stake'', ''status'', ''pnl'', ''created_at'']"

definition user_record :: "user_row \<Rightarrow> (string \<times> string) list" where
  "user_record r =
     [(''email'', csv_cell (Some (ur_email r))), (''display_name'', csv_cell (ur_display_name r)),
      (''status'', csv_cell (Some (if ur_banned_at r \<noteq> None then ''banned'' else ''active''))),
      (''signup_date'', csv_cell (Some (iso_utc (Some (ur_created_at r))))),
      (''last_activity'', csv_cell (Some (iso_utc (ur_last_activity r)))),
      (''balance'', csv_cell (Some (coalesced_str (ur_wallet r))))]"

definition transaction_record :: "transaction_row \<Rightarrow> (string \<times> string) list" where
  "transaction_record r =
     [(''id'', csv_cell (Some (uuid_str (xr_id r)))), (''user_email'', csv_cell (xr_user_email r)),
      (''kind'', csv_cell (Some (xr_kind r))), (''amount'', csv_cell (Some (money_cell (Some (xr_amount r))))),
      (''reason'', csv_cell (xr_reason r)), (''created_at'', csv_cell (Some (iso_utc (Some (xr_created_at r)))))]"

definition bet_record :: "bet_row \<Rightarrow> (string \<times> string) list" where
  "bet_record r =
     [(''id'', csv_cell (Some (uuid_str (br_id r)))), (''user_email'', csv_cell (br_user_email r)),
      (''market_question'', csv_cell (Some (br_question r))), (''outcome'', csv_cell (Some (br_outcome r))),
      (''stake'', csv_cell (Some (money_cell (Some (br_stake r))))), (''status'', csv_cell (Some (br_status r))),
      (''pnl'', csv_cell (Some (money_cell (br_pnl r)))),
      (''created_at'', csv_cell (Some (iso_utc (Some (br_created_at r)))))]"

definition build_users_csv :: "user_row list \<Rightarrow> string" where
  "build_users_csv rows = write_csv USERS_COLUMNS (map user_record (cap_rows rows))"

definition build_transactions_csv :: "transaction_row list \<Rightarrow> string" where
  "build_transactions_csv rows = write_csv TRANSACTIONS_COLUMNS (map transaction_record (cap_rows rows))"

definition build_bets_csv :: "bet_row list \<Rightarrow> string" where
  "build_bets_csv rows = write_csv BETS_COLUMNS (map bet_record (cap_rows rows))"

subsection \<open>A reader\<close>

datatype csv_mode = FieldStart | Bare | Quoted | QuoteSeen

text \<open>\<open>f\<close> is the field read so far, \<open>r\<close> the fields before it in the row.\<close>

fun csv_read :: "csv_mode \<Rightarrow> string \<Rightarrow> string list \<Rightarrow> string \<Rightarrow> string list list option" where
  "csv_read m f r [] = (if m = FieldStart \<and> r = [] then Some [] else None)"
| "csv_read m f r (c # cs) =
     (if m = Quoted then (if c = DQ then csv_read QuoteSeen f r cs else csv_read Quoted (f @ [c]) r cs)
      else if c = DQ then
        (case m of FieldStart \<Rightarrow> csv_read Quoted f r cs | QuoteSeen \<Rightarrow> csv_read Quoted (f @ [c]) r cs | _ \<Rightarrow> None)
      else if c = CHR '','' then csv_read FieldStart [] (r @ [f]) cs
      else if c = CR then (case cs of [] \<Rightarrow> None
        | d # ds \<Rightarrow> if d = LF then map_option (Cons (r @ [f])) (csv_read FieldStart [] [] ds) else None)
      else if c = LF \<or> m = QuoteSeen then None
      else csv_read Bare (f @ [c]) r cs)"

definition read_csv :: "string \<Rightarrow> string list list option" where
  "read_csv x = csv_read FieldStart [] [] x"

declare csv_read.simps(2) [simp del]

subsection \<open>What was written is read back\<close>

definition field_end :: "string \<Rightarrow> bool" where
  "field_end rest \<longleftrightarrow> (case rest of [] \<Rightarrow> False | c # _ \<Rightarrow> c = CHR '','' \<or> c = CR)"

lemma read_bare:
  "\<not> needs_quotes f \<Longrightarrow> m = FieldStart \<or> m = Bare \<Longrightarrow> field_end rest \<Longrightarrow>
     \<exists>m'. m' \<in> {FieldStart, Bare} \<and> csv_read m a r (f @ rest) = csv_read m' (a @ f) r rest"
proof (induction f arbitrary: m a)
  case (Cons c f)
  have "\<not> needs_quotes f" and c: "c \<noteq> DQ" "c \<noteq> CHR '',''" "c \<noteq> CR" "c \<noteq> LF"
    using Cons.prems(1) by (auto simp: needs_quotes_def)
  moreover have "csv_read m a r ((c # f) @ rest) = csv_read Bare (a @ [c]) r (f @ rest)"
    using Cons.prems(2) c by (auto simp: csv_read.simps(2))
  ultimately show ?case using Cons.IH [of Bare "a @ [c]"] Cons.prems(3) by simp
qed auto

lemma read_quoted:
  "csv_read Quoted a r (concat (map (\<lambda>c. if c = DQ then [DQ, DQ] else [c]) f) @ DQ # rest)
     = csv_read QuoteSeen (a @ f) r rest"
proof (induction f arbitrary: a)
  case (Cons c f)
  then show ?case by (simp add: csv_read.simps(2))
qed (simp add: csv_read.simps(2))

lemma read_field:
  assumes "field_end rest"
  shows "\<exists>m. m \<noteq> Quoted \<and> csv_read FieldStart [] r (csv_field f @ rest) = csv_read m f r rest"
proof (cases "needs_quotes f")
  case True
  have "csv_read FieldStart [] r (csv_field f @ rest) =
      csv_read Quoted [] r (concat (map (\<lambda>c. if c = DQ then [DQ, DQ] else [c]) f) @ DQ # rest)"
    using True by (simp add: csv_field_def csv_read.simps(2))
  then show ?thesis using read_quoted [of "[]" r f rest] by auto
next
  case False
  then show ?thesis using read_bare [OF False _ assms, of FieldStart "[]" r] by (auto simp: csv_field_def)
qed

lemma read_comma: "m \<noteq> Quoted \<Longrightarrow> csv_read m f r (CHR '','' # rest) = csv_read FieldStart [] (r @ [f]) rest"
  by (simp add: csv_read.simps(2))

lemma read_eol: "m \<noteq> Quoted \<Longrightarrow> csv_read m f r (CR # LF # rest) = map_option (Cons (r @ [f])) (csv_read FieldStart [] [] rest)"
  by (simp add: csv_read.simps(2))

lemma read_fields:
  "fs \<noteq> [] \<Longrightarrow> csv_read FieldStart [] r (csv_fields fs @ CR # LF # rest)
     = map_option (Cons (r @ fs)) (csv_read FieldStart [] [] rest)"
proof (induction fs arbitrary: r rule: csv_fields.induct)
  case 1
  then show ?case by simp
next
  case (2 f)
  obtain m where "m \<noteq> Quoted" "csv_read FieldStart [] r (csv_field f @ CR # LF # rest) = csv_read m f r (CR # LF # rest)"
    using read_field [of "CR # LF # rest" r f] by (auto simp: field_end_def)
  then show ?case by (simp add: read_eol)
next
  case (3 f g gs)
  obtain m where "m \<noteq> Quoted" "csv_read FieldStart [] r (csv_field f @ CHR '','' # csv_fields (g # gs) @ CR # LF # rest)
      = csv_read m f r (CHR '','' # csv_fields (g # gs) @ CR # LF # rest)"
    using read_field [of "CHR '','' # csv_fields (g # gs) @ CR # LF # rest" r f] by (auto simp: field_end_def)
  then show ?case using "3.IH" [of "r @ [f]"] by (simp add: read_comma)
qed

lemma read_row: "fs \<noteq> [] \<Longrightarrow> csv_read FieldStart [] [] (csv_row fs @ rest) = map_option (Cons fs) (csv_read FieldStart [] [] rest)"
  using read_fields [of fs "[]" rest]
  by (auto simp: csv_row_def csv_read.simps(2))

lemma read_rows: "\<forall>fs \<in> set rows. fs \<noteq> [] \<Longrightarrow> csv_read FieldStart [] [] (concat (map csv_row rows)) = Some rows"
  by (induction rows) (simp_all add: read_row)

lemma read_write_csv:
  "columns \<noteq> [] \<Longrightarrow> read_csv (write_csv columns records) = Some (columns # map (record_cells columns) records)"
  unfolding read_csv_def write_csv_def by (rule read_rows) (auto simp: record_cells_def)

subsection \<open>No cell is a formula\<close>

definition harmless :: "string \<Rightarrow> bool" where
  "harmless v \<longleftrightarrow> v = [] \<or> hd v \<notin> FORMULA_TRIGGERS"

lemma csv_cell_harmless [simp]: "harmless (csv_cell v)"
  by (auto simp: harmless_def csv_cell_def sanitize_csv_cell_def FORMULA_TRIGGERS_def split: option.split list.split)

lemma record_cells_harmless: "\<forall>v \<in> set (map snd r). harmless v \<Longrightarrow> \<forall>v \<in> set (record_cells columns r). harmless v"
  by (auto simp: record_cells_def harmless_def split: option.splits dest!: map_of_SomeD)

lemma records_harmless:
  "list_all (\<lambda>v. harmless (snd v)) (user_record ur)" "list_all (\<lambda>v. harmless (snd v)) (transaction_record xr)"
  "list_all (\<lambda>v. harmless (snd v)) (bet_record br)"
  by (simp_all add: user_record_def transaction_record_def bet_record_def)

end
