(* ===== verification/Auth.thy ===== *)
theory Auth
  imports LiveBets Search
begin

text \<open>
  Accounts and sessions: \<open>auth/models.py\<close>, \<open>manager.py\<close>, \<open>strategy.py\<close>, \<open>rate_limit.py\<close> and the endpoints
  of \<open>router.py\<close> and \<open>admin_router.py\<close>.  Parameters (\<open>env\<close>): the password hash, the digest of a token,
  the limiter, and what fastapi-users does itself (the user lookup by email, the fields a safe
  registration may set, its own refusals).  An endpoint commits in several transactions, so
  it returns its response or exception and the state committed by then.
\<close>

subsection \<open>Rows (\<open>models.py\<close>)\<close>

record user =
  us_id :: uuid
  us_email :: string
  hashed_password :: string
  is_active :: bool
  is_superuser :: bool
  is_verified :: bool
  display_name :: "string option"
  banned_at :: "int option"
  us_created_at :: int
  token_version :: int

record refresh_token =
  token_hash :: string
  rt_user_id :: uuid
  expires_at :: int
  revoked_at :: "int option"
  reuse_count :: int
  rt_token_version :: int

record site_db = live_db +
  users :: "user list"
  refresh_tokens :: "refresh_token list"

definition insert_user :: "user \<Rightarrow> 'a site_db_scheme \<Rightarrow> 'a site_db_scheme result" where
  "insert_user u s = (if us_id u \<in> us_id ` set (users s) \<or> us_email u \<in> us_email ` set (users s)
     then unique_violation else Inr (s\<lparr>users := users s @ [u]\<rparr>))"

definition insert_refresh_token :: "refresh_token \<Rightarrow> 'a site_db_scheme \<Rightarrow> 'a site_db_scheme result" where
  "insert_refresh_token r s = (if token_hash r \<in> token_hash ` set (refresh_tokens s) then unique_violation
     else if rt_user_id r \<notin> us_id ` set (users s) then Inl (IntegrityError ForeignKeyViolation)
     else Inr (s\<lparr>refresh_tokens := refresh_tokens s @ [r]\<rparr>))"

definition update_user_row :: "uuid \<Rightarrow> (user \<Rightarrow> user) \<Rightarrow> 'a site_db_scheme \<Rightarrow> 'a site_db_scheme" where
  "update_user_row i f s = s\<lparr>users := update_where (\<lambda>u. us_id u = i) f (users s)\<rparr>"

definition get_user :: "uuid \<Rightarrow> 'a site_db_scheme \<Rightarrow> user option" where
  "get_user i s = List.find (\<lambda>u. us_id u = i) (users s)"

subsection \<open>Exceptions, responses and parameters\<close>

datatype auth_exn =
    InvalidPassword string
  | UserAlreadyExists
  | UserNotExists
  | UserInactive
  | UserAlreadyVerified
  | RateLimitExceeded
  | Raised exn

definition liftE :: "'a result \<Rightarrow> auth_exn + 'a" where
  "liftE r = (case r of Inl e \<Rightarrow> Inl (Raised e) | Inr x \<Rightarrow> Inr x)"

lemma liftE_Inr [simp]: "liftE r = Inr x \<longleftrightarrow> r = Inr x"
  by (cases r) (simp_all add: liftE_def)

record user_create =
  uc_email :: string
  uc_password :: string
  uc_display_name :: "string option"

datatype response = CreatedUser user | SessionCookie string | BearerToken string | AcceptedStatus | NoContent

record env =
  hash_pw :: "string \<Rightarrow> string"
  verify_and_update :: "string \<Rightarrow> string \<Rightarrow> bool \<times> string option"
  find_by_email :: "string \<Rightarrow> user list \<Rightarrow> user option"
  payload_flags :: "bool \<Rightarrow> user_create \<Rightarrow> bool \<times> bool \<times> bool"
  forgot_guard :: "user \<Rightarrow> auth_exn + unit"
  verify_guard :: "user \<Rightarrow> auth_exn + unit"
  digest :: "string \<Rightarrow> string"
  hit :: "string \<Rightarrow> bool"
  DEMO_MODE :: bool
  SIGNUP_BONUS_AMOUNT :: rat
  LIFETIME :: int

text \<open>What a request draws: fresh ids, the token, the client address and the time.\<close>

record draw =
  dr_user :: uuid
  dr_wallet :: uuid
  dr_bonus :: post_ids
  dr_audit :: uuid
  dr_audit2 :: uuid
  dr_token :: string
  dr_ip :: "string option"
  dr_now :: int

definition audit_user :: "uuid \<Rightarrow> int \<Rightarrow> user \<Rightarrow> string \<Rightarrow> string option \<Rightarrow> 'a site_db_scheme \<Rightarrow> 'a site_db_scheme result" where
  "audit_user i now u ty ip s =
     audit_record i now (actor_string (Some (us_id u))) ty [(''email'', JStr (us_email u))] ip s"

subsection \<open>Passwords\<close>

definition char_in :: "nat \<Rightarrow> nat \<Rightarrow> char \<Rightarrow> bool" where
  "char_in lo hi c = (let n = of_char c :: nat in lo \<le> n \<and> n \<le> hi)"

fun is_substring :: "string \<Rightarrow> string \<Rightarrow> bool" where
  "is_substring t [] = (t = [])"
| "is_substring t (c # s) = (take (length t) (c # s) = t \<or> is_substring t s)"

definition local_part :: "string \<Rightarrow> string" where
  "local_part email = takeWhile (\<lambda>c. c \<noteq> CHR ''@'') email"

definition validate_password :: "bool \<Rightarrow> string \<Rightarrow> string \<Rightarrow> auth_exn + unit" where
  "validate_password demo password email =
     (if demo then
        (if length password < 6 then Inl (InvalidPassword ''Password must be at least 6 characters.'') else Inr ())
      else if length password < 12 then Inl (InvalidPassword ''Password must be at least 12 characters.'')
      else if \<not> list_ex (char_in 65 90) password
        then Inl (InvalidPassword ''Password must contain an uppercase letter.'')
      else if \<not> list_ex (char_in 97 122) password
        then Inl (InvalidPassword ''Password must contain a lowercase letter.'')
      else if \<not> list_ex is_digit password then Inl (InvalidPassword ''Password must contain a digit.'')
      else if email \<noteq> [] \<and> (let p = lower password; e = lower email; l = local_part e
             in is_substring e p \<or> (l \<noteq> [] \<and> is_substring l p))
        then Inl (InvalidPassword ''Password must not contain your email.'')
      else Inr ())"

subsection \<open>\<open>UserManager\<close>\<close>

definition create_tx :: "env \<Rightarrow> draw \<Rightarrow> bool \<Rightarrow> user_create \<Rightarrow> 'a site_db_scheme \<Rightarrow> auth_exn + (user \<times> 'a site_db_scheme)" where
  "create_tx env d safe uc s =
     bindE (validate_password (DEMO_MODE env) (uc_password uc) (uc_email uc)) (\<lambda>_.
     if find_by_email env (uc_email uc) (users s) \<noteq> None then Inl UserAlreadyExists
     else case payload_flags env safe uc of (active, superuser, verified) \<Rightarrow>
       let u = \<lparr>us_id = dr_user d, us_email = uc_email uc, hashed_password = hash_pw env (uc_password uc),
                is_active = active, is_superuser = superuser, is_verified = verified \<or> DEMO_MODE env,
                display_name = uc_display_name uc, banned_at = None, us_created_at = dr_now d, token_version = 0\<rparr>
       in bindE (liftE (insert_user u s)) (\<lambda>s.
          bindE (liftE (create_wallet (dr_wallet d) (us_id u) s)) (\<lambda>(w, s). Inr (u, s))))"

text \<open>\<open>try: \<dots> except Exception: log\<close> around the bonus.\<close>

definition try_signup_bonus :: "env \<Rightarrow> draw \<Rightarrow> user \<Rightarrow> 'a site_db_scheme \<Rightarrow> 'a site_db_scheme" where
  "try_signup_bonus env d u s =
     (case grant_signup_bonus (dr_bonus d) (dr_now d) (us_id u) (SIGNUP_BONUS_AMOUNT env) s of
        Inl e \<Rightarrow> s | Inr (t, s') \<Rightarrow> s')"

text \<open>Sending the verification mail changes no table, and its failures are logged.\<close>

definition on_after_register :: "env \<Rightarrow> draw \<Rightarrow> user \<Rightarrow> 'a site_db_scheme \<Rightarrow> (auth_exn + unit) \<times> 'a site_db_scheme" where
  "on_after_register env d u s =
     (case audit_user (dr_audit d) (dr_now d) u ''auth.guest_created'' (dr_ip d) s of
        Inl e \<Rightarrow> (Inl (Raised e), s)
      | Inr s1 \<Rightarrow> (Inr (), if DEMO_MODE env then try_signup_bonus env d u s1 else s1))"

definition create_user :: "env \<Rightarrow> draw \<Rightarrow> bool \<Rightarrow> user_create \<Rightarrow> 'a site_db_scheme \<Rightarrow> (auth_exn + user) \<times> 'a site_db_scheme" where
  "create_user env d safe uc s = (case create_tx env d safe uc s of
     Inl e \<Rightarrow> (Inl e, s)
   | Inr (u, s1) \<Rightarrow> (case on_after_register env d u s1 of
        (Inl e, s2) \<Rightarrow> (Inl e, s2) | (Inr _, s2) \<Rightarrow> (Inr u, s2)))"

definition on_after_verify :: "env \<Rightarrow> draw \<Rightarrow> user \<Rightarrow> 'a site_db_scheme \<Rightarrow> (auth_exn + unit) \<times> 'a site_db_scheme" where
  "on_after_verify env d u s =
     (case audit_user (dr_audit d) (dr_now d) u ''auth.email_verified'' (dr_ip d) s of
        Inl e \<Rightarrow> (Inl (Raised e), s)
      | Inr s1 \<Rightarrow> (Inr (), try_signup_bonus env d u s1))"

definition on_after_forgot_password :: "draw \<Rightarrow> user \<Rightarrow> 'a site_db_scheme \<Rightarrow> (auth_exn + unit) \<times> 'a site_db_scheme" where
  "on_after_forgot_password d u s =
     (case audit_user (dr_audit d) (dr_now d) u ''auth.password_reset_requested'' (dr_ip d) s of
        Inl e \<Rightarrow> (Inl (Raised e), s) | Inr s1 \<Rightarrow> (Inr (), s1))"

definition authenticate :: "env \<Rightarrow> string \<Rightarrow> string \<Rightarrow> 'a site_db_scheme \<Rightarrow> user option \<times> 'a site_db_scheme" where
  "authenticate env email password s = (case find_by_email env email (users s) of
     None \<Rightarrow> (None, s)
   | Some u \<Rightarrow> (case verify_and_update env password (hashed_password u) of (verified, upgraded) \<Rightarrow>
       if \<not> verified then (None, s)
       else case upgraded of
         None \<Rightarrow> (Some u, s)
       | Some h \<Rightarrow> (Some (u\<lparr>hashed_password := h\<rparr>), update_user_row (us_id u) (\<lambda>v. v\<lparr>hashed_password := h\<rparr>) s)))"

definition assert_not_banned :: "user \<Rightarrow> unit result" where
  "assert_not_banned u = (if banned_at u \<noteq> None then Inl (HTTPException 403) else Inr ())"

definition revoke_active :: "uuid \<Rightarrow> (refresh_token \<Rightarrow> refresh_token) \<Rightarrow> 'a site_db_scheme \<Rightarrow> 'a site_db_scheme" where
  "revoke_active i f s = s\<lparr>refresh_tokens :=
     update_where (\<lambda>r. rt_user_id r = i \<and> revoked_at r = None) f (refresh_tokens s)\<rparr>"

text \<open>\<open>u\<close> is the user object the reset request loaded; the update compares its version.\<close>

definition on_after_reset_password :: "uuid \<Rightarrow> int \<Rightarrow> user \<Rightarrow> 'a site_db_scheme \<Rightarrow> 'a site_db_scheme result" where
  "on_after_reset_password audit_id now u s =
     (let s1 = s\<lparr>users := update_where (\<lambda>v. us_id v = us_id u \<and> token_version v = token_version u)
                 (\<lambda>v. v\<lparr>token_version := token_version v + 1\<rparr>) (users s)\<rparr>;
          s2 = revoke_active (us_id u) (\<lambda>r. r\<lparr>revoked_at := Some now\<rparr>) s1
      in audit_user audit_id now u ''auth.password_reset_completed'' None s2)"

subsection \<open>\<open>DatabaseStrategy\<close>\<close>

definition write_token :: "env \<Rightarrow> int \<Rightarrow> string \<Rightarrow> user \<Rightarrow> 'a site_db_scheme \<Rightarrow> (string \<times> 'a site_db_scheme) result" where
  "write_token env now tok u s =
     bindE (insert_refresh_token \<lparr>token_hash = digest env tok, rt_user_id = us_id u,
        expires_at = now + LIFETIME env * 1000000, revoked_at = None, reuse_count = 0,
        rt_token_version = token_version u\<rparr> s) (\<lambda>s. Inr (tok, s))"

definition read_token :: "env \<Rightarrow> int \<Rightarrow> string option \<Rightarrow> 'a site_db_scheme \<Rightarrow> user option \<times> 'a site_db_scheme" where
  "read_token env now token s = (case token of
     None \<Rightarrow> (None, s)
   | Some tok \<Rightarrow> (case List.find (\<lambda>r. token_hash r = digest env tok) (refresh_tokens s) of
       None \<Rightarrow> (None, s)
     | Some row \<Rightarrow>
        if revoked_at row \<noteq> None then
          let s1 = revoke_active (rt_user_id row)
                (\<lambda>r. r\<lparr>revoked_at := Some now, reuse_count := reuse_count r + 1\<rparr>) s;
              s2 = s1\<lparr>refresh_tokens := update_where (\<lambda>r. token_hash r = token_hash row)
                (\<lambda>r. r\<lparr>reuse_count := reuse_count r + 1\<rparr>) (refresh_tokens s1)\<rparr>
          in (None, s2)
        else if expires_at row < now then (None, s)
        else case get_user (rt_user_id row) s of
          None \<Rightarrow> (None, s)
        | Some u \<Rightarrow> if rt_token_version row < token_version u then (None, s) else (Some u, s)))"

definition destroy_token :: "env \<Rightarrow> int \<Rightarrow> string \<Rightarrow> 'a site_db_scheme \<Rightarrow> 'a site_db_scheme" where
  "destroy_token env now tok s = s\<lparr>refresh_tokens :=
     update_where (\<lambda>r. token_hash r = digest env tok \<and> revoked_at r = None)
       (\<lambda>r. r\<lparr>revoked_at := Some now\<rparr>) (refresh_tokens s)\<rparr>"

subsection \<open>Endpoints\<close>

definition email_limit_key :: "string \<Rightarrow> string \<Rightarrow> string" where
  "email_limit_key email path = ''email:'' @ lower (strip email) @ '':'' @ path"

definition check_email_limit :: "env \<Rightarrow> string \<Rightarrow> string \<Rightarrow> auth_exn + unit" where
  "check_email_limit env path email = (if hit env (email_limit_key email path) then Inr () else Inl RateLimitExceeded)"

type_synonym 'a answer = "(auth_exn + response) \<times> 'a site_db_scheme"

definition register_proxy :: "env \<Rightarrow> draw \<Rightarrow> user_create \<Rightarrow> 'a site_db_scheme \<Rightarrow> 'a answer" where
  "register_proxy env d uc s = (case check_email_limit env ''/auth/register'' (uc_email uc) of
     Inl e \<Rightarrow> (Inl e, s)
   | Inr _ \<Rightarrow> (case create_user env d True uc s of
       (Inl UserAlreadyExists, s') \<Rightarrow> (Inl (Raised (HTTPException 400)), s')
     | (Inl (InvalidPassword m), s') \<Rightarrow> (Inl (Raised (HTTPException 400)), s')
     | (Inl e, s') \<Rightarrow> (Inl e, s')
     | (Inr u, s') \<Rightarrow> (Inr (CreatedUser u), s')))"

text \<open>Token, then the audit row in a transaction of its own.\<close>

definition start_session ::
  "(string \<Rightarrow> response) \<Rightarrow> string \<Rightarrow> uuid \<Rightarrow> env \<Rightarrow> draw \<Rightarrow> user \<Rightarrow> 'a site_db_scheme \<Rightarrow> 'a answer" where
  "start_session transport ty audit_id env d u s = (case write_token env (dr_now d) (dr_token d) u s of
     Inl e \<Rightarrow> (Inl (Raised e), s)
   | Inr (tok, s1) \<Rightarrow> (case audit_user audit_id (dr_now d) u ty (dr_ip d) s1 of
       Inl e \<Rightarrow> (Inl (Raised e), s1)
     | Inr s2 \<Rightarrow> (Inr (transport tok), s2)))"

definition login_proxy :: "env \<Rightarrow> draw \<Rightarrow> string \<Rightarrow> string \<Rightarrow> 'a site_db_scheme \<Rightarrow> 'a answer" where
  "login_proxy env d username password s = (case check_email_limit env ''/auth/login'' username of
     Inl e \<Rightarrow> (Inl e, s)
   | Inr _ \<Rightarrow> (case authenticate env username password s of
       (None, s1) \<Rightarrow> (Inl (Raised (HTTPException 400)), s1)
     | (Some u, s1) \<Rightarrow>
        if \<not> is_active u then (Inl (Raised (HTTPException 400)), s1)
        else case assert_not_banned u of
          Inl e \<Rightarrow> (Inl (Raised e), s1)
        | Inr _ \<Rightarrow> start_session SessionCookie ''auth.session_started'' (dr_audit d) env d u s1))"

definition demo_login_proxy :: "env \<Rightarrow> draw \<Rightarrow> string \<Rightarrow> string \<Rightarrow> 'a site_db_scheme \<Rightarrow> 'a answer" where
  "demo_login_proxy env d hex password s =
     (if \<not> DEMO_MODE env then (Inl (Raised (HTTPException 404)), s)
      else case create_user env d True \<lparr>uc_email = ''demo-'' @ hex @ ''@demo.example.com'', uc_password = password,
             uc_display_name = None\<rparr> s of
        (Inl e, s1) \<Rightarrow> (Inl e, s1)
      | (Inr u, s1) \<Rightarrow> start_session SessionCookie ''auth.demo_session_started'' (dr_audit2 d) env d u s1)"

definition forgot_password_proxy :: "env \<Rightarrow> draw \<Rightarrow> string \<Rightarrow> 'a site_db_scheme \<Rightarrow> 'a answer" where
  "forgot_password_proxy env d email s = (case check_email_limit env ''/auth/forgot-password'' email of
     Inl e \<Rightarrow> (Inl e, s)
   | Inr _ \<Rightarrow> (case find_by_email env email (users s) of
       None \<Rightarrow> (Inr AcceptedStatus, s)
     | Some u \<Rightarrow> (case forgot_guard env u of
         Inl UserNotExists \<Rightarrow> (Inr AcceptedStatus, s)
       | Inl e \<Rightarrow> (Inl e, s)
       | Inr _ \<Rightarrow> (case on_after_forgot_password d u s of
           (Inl e, s1) \<Rightarrow> (Inl e, s1) | (Inr _, s1) \<Rightarrow> (Inr AcceptedStatus, s1)))))"

definition request_verify_proxy :: "env \<Rightarrow> string \<Rightarrow> 'a site_db_scheme \<Rightarrow> 'a answer" where
  "request_verify_proxy env email s = (case check_email_limit env ''/auth/request-verify-token'' email of
     Inl e \<Rightarrow> (Inl e, s)
   | Inr _ \<Rightarrow> (case find_by_email env email (users s) of
       None \<Rightarrow> (Inr AcceptedStatus, s)
     | Some u \<Rightarrow> (case verify_guard env u of
         Inl UserNotExists \<Rightarrow> (Inr AcceptedStatus, s)
       | Inl UserAlreadyVerified \<Rightarrow> (Inr AcceptedStatus, s)
       | Inl e \<Rightarrow> (Inl e, s)
       | Inr _ \<Rightarrow> (Inr AcceptedStatus, s))))"

definition audit_admin_login_failed :: "draw \<Rightarrow> string \<Rightarrow> user option \<Rightarrow> 'a site_db_scheme \<Rightarrow> 'a site_db_scheme result" where
  "audit_admin_login_failed d email u s =
     (let actor = (case u of None \<Rightarrow> ''unknown:'' @ lower (strip email) | Some v \<Rightarrow> actor_string (Some (us_id v)));
          reason = (case u of None \<Rightarrow> ''unknown_email''
            | Some v \<Rightarrow> if \<not> is_active v then ''inactive'' else if \<not> is_superuser v then ''not_superuser'' else ''unknown'')
      in audit_record (dr_audit d) (dr_now d) actor ''auth.admin_login_failed''
           [(''email'', JStr email), (''reason'', JStr reason)] (dr_ip d) s)"

definition admin_login_proxy :: "env \<Rightarrow> draw \<Rightarrow> string \<Rightarrow> string \<Rightarrow> 'a site_db_scheme \<Rightarrow> 'a answer" where
  "admin_login_proxy env d username password s = (case check_email_limit env ''/admin/auth/login'' username of
     Inl e \<Rightarrow> (Inl e, s)
   | Inr _ \<Rightarrow> (case authenticate env username password s of (found, s1) \<Rightarrow>
       (case found of
          Some u \<Rightarrow>
            if is_active u \<and> is_superuser u
            then start_session BearerToken ''auth.admin_login_started'' (dr_audit d) env d u s1
            else (case audit_admin_login_failed d username found s1 of
                Inl e \<Rightarrow> (Inl (Raised e), s1) | Inr s2 \<Rightarrow> (Inl (Raised (HTTPException 401)), s2))
        | None \<Rightarrow> (case audit_admin_login_failed d username found s1 of
                Inl e \<Rightarrow> (Inl (Raised e), s1) | Inr s2 \<Rightarrow> (Inl (Raised (HTTPException 401)), s2)))))"

definition admin_logout_proxy :: "env \<Rightarrow> draw \<Rightarrow> string option \<Rightarrow> 'a site_db_scheme \<Rightarrow> 'a answer" where
  "admin_logout_proxy env d token s = (case token of
     None \<Rightarrow> (Inl (Raised (HTTPException 401)), s)
   | Some tok \<Rightarrow> (case read_token env (dr_now d) token s of
       (None, s1) \<Rightarrow> (Inr NoContent, s1)
     | (Some u, s1) \<Rightarrow>
        let s2 = destroy_token env (dr_now d) tok s1 in
        (case audit_record (dr_audit d) (dr_now d) (actor_string (Some (us_id u))) ''auth.session_revoked''
               [(''email'', JStr (us_email u)), (''surface'', JStr ''admin'')] (dr_ip d) s2 of
           Inl e \<Rightarrow> (Inl (Raised e), s2) | Inr s3 \<Rightarrow> (Inr NoContent, s3))))"

end
