(* ===== verification/Admin.thy ===== *)
theory Admin
  imports Csv Auth
begin

text \<open>
  The admin CRM: \<open>admin/service.py\<close>, the endpoints of \<open>admin/router.py\<close> and \<open>admin/export_router.py\<close>.  A
  query is a function of the tables.  \<open>collate\<close> ranks a text in the collation of the database, which
  the code does not choose; rows that tie keep the order of the table.  The admin a request
  is authenticated as is an argument.
\<close>

subsection \<open>Joins and orders\<close>

text \<open>A \<open>LEFT JOIN\<close>: the matching rows, or one row of nulls.\<close>

definition left_join :: "('b \<Rightarrow> bool) \<Rightarrow> 'b list \<Rightarrow> 'b option list" where
  "left_join p xs = (case filter p xs of [] \<Rightarrow> [None] | ys \<Rightarrow> map Some ys)"

text \<open>\<open>ORDER BY\<close> a nullable key: nulls come last ascending and first descending.\<close>

definition order_by :: "('r \<Rightarrow> rat option) \<Rightarrow> bool \<Rightarrow> 'r list \<Rightarrow> 'r list" where
  "order_by key ascending rows =
     (let known = filter (\<lambda>r. key r \<noteq> None) rows; nulls = filter (\<lambda>r. key r = None) rows
      in if ascending then sort_key (\<lambda>r. the (key r)) known @ nulls
         else nulls @ sort_key (\<lambda>r. - the (key r)) known)"

text \<open>\<open>ORDER BY created_at DESC, id DESC\<close>.\<close>

definition newest_first :: "('r \<Rightarrow> int) \<Rightarrow> ('r \<Rightarrow> uuid) \<Rightarrow> 'r list \<Rightarrow> 'r list" where
  "newest_first time key rows = rev (sort_key time (sort_key key rows))"

definition page_of :: "nat \<Rightarrow> nat \<Rightarrow> 'r list \<Rightarrow> 'r list" where
  "page_of page page_size rows = take page_size (drop ((page - 1) * page_size) rows)"

subsection \<open>The user list\<close>

definition is_wallet :: "uuid \<Rightarrow> account \<Rightarrow> bool" where
  "is_wallet u a \<longleftrightarrow> owner_type a = OWNER_USER \<and> owner_id a = Some u \<and> acc_kind a = KIND_USER_WALLET
     \<and> currency a = PLAY_USD"

definition last_activity :: "uuid \<Rightarrow> 'a db_scheme \<Rightarrow> int option" where
  "last_activity u s = (case map bet_created_at (filter (\<lambda>b. bet_user_id b = u) (bets s)) of
     [] \<Rightarrow> None | t # ts \<Rightarrow> Some (fold max ts t))"

definition user_row_to_dict :: "user \<Rightarrow> rat option \<Rightarrow> int option \<Rightarrow> user_row" where
  "user_row_to_dict u wallet active =
     \<lparr>ur_id = us_id u, ur_email = us_email u, ur_display_name = display_name u, ur_banned_at = banned_at u,
      ur_created_at = us_created_at u, ur_last_activity = active, ur_wallet = wallet, ur_verified = is_verified u\<rparr>"

record user_filter =
  uf_search :: "string option"
  uf_status :: "string option"
  uf_after :: "int option"
  uf_before :: "int option"

definition search_filter :: "string option \<Rightarrow> user \<Rightarrow> bool" where
  "search_filter search u = (case search of None \<Rightarrow> True
     | Some t \<Rightarrow> t = [] \<or>
        (let pattern = ''%'' @ escape_like t @ ''%''
         in ilike pattern (us_email u) \<or> (case display_name u of None \<Rightarrow> False | Some d \<Rightarrow> ilike pattern d)))"

definition apply_user_filters :: "user_filter \<Rightarrow> user \<Rightarrow> bool" where
  "apply_user_filters f u \<longleftrightarrow> search_filter (uf_search f) u
     \<and> (if uf_status f = Some ''banned'' then banned_at u \<noteq> None
        else if uf_status f = Some ''active'' then banned_at u = None else True)
     \<and> (case uf_after f of None \<Rightarrow> True | Some t \<Rightarrow> t \<le> us_created_at u)
     \<and> (case uf_before f of None \<Rightarrow> True | Some t \<Rightarrow> us_created_at u \<le> t)"

text \<open>The joined rows of the users that pass the filters, each with its user.\<close>

definition user_rows :: "user_filter \<Rightarrow> 'a site_db_scheme \<Rightarrow> (user \<times> user_row) list" where
  "user_rows f s = concat (map (\<lambda>u. map (\<lambda>w. (u, user_row_to_dict u (map_option balance w) (last_activity (us_id u) s)))
       (left_join (is_wallet (us_id u)) (accounts s)))
     (filter (apply_user_filters f) (users s)))"

definition sort_col :: "(string \<Rightarrow> rat) \<Rightarrow> string \<Rightarrow> user \<Rightarrow> rat option" where
  "sort_col collate sort_by u =
     (if sort_by = ''email'' then Some (collate (us_email u))
      else if sort_by = ''display_name'' then map_option collate (display_name u)
      else if sort_by = ''banned_at'' then map_option of_int (banned_at u)
      else Some (of_int (us_created_at u)))"

definition list_users ::
  "(string \<Rightarrow> rat) \<Rightarrow> user_filter \<Rightarrow> string \<Rightarrow> string \<Rightarrow> nat \<Rightarrow> nat \<Rightarrow> 'a site_db_scheme \<Rightarrow> user_row list \<times> nat" where
  "list_users collate f sort_by sort_order page page_size s =
     (let rows = user_rows f s;
          ordered = order_by (\<lambda>r. sort_col collate sort_by (fst r)) (sort_order = ''asc'') rows
      in (map snd (page_of page page_size ordered), length rows))"

subsection \<open>Exports\<close>

definition export_users :: "user_filter \<Rightarrow> 'a site_db_scheme \<Rightarrow> user_row list" where
  "export_users f s = map snd (take MAX_EXPORT_ROWS
     (order_by (\<lambda>r. Some (of_int (us_created_at (fst r)))) False (user_rows f s)))"

text \<open>\<open>(metadata or {}).get("reason")\<close>; the services record it as a text.\<close>

definition transfer_reason :: "transfer \<Rightarrow> string option" where
  "transfer_reason t = (case map_of (tr_metadata t) ''reason'' of Some (JStr r) \<Rightarrow> Some r | _ \<Rightarrow> None)"

definition transfer_of :: "entry \<Rightarrow> 'a ledger_scheme \<Rightarrow> transfer list" where
  "transfer_of e s = filter (\<lambda>t. tr_id t = en_transfer e) (transfers s)"

definition transaction_item :: "string option \<Rightarrow> transfer \<Rightarrow> entry \<Rightarrow> transaction_row" where
  "transaction_item email t e =
     \<lparr>xr_id = en_id e, xr_user_email = email, xr_kind = tr_kind t, xr_amount = amount e,
      xr_reason = transfer_reason t, xr_created_at = en_created_at e\<rparr>"

definition export_transactions :: "uuid option \<Rightarrow> 'a site_db_scheme \<Rightarrow> transaction_row list" where
  "export_transactions user_id s = take MAX_EXPORT_ROWS (newest_first xr_created_at xr_id
     (concat (map (\<lambda>e. concat (map (\<lambda>t. concat (map (\<lambda>a.
        map (\<lambda>u. transaction_item (map_option us_email u) t e)
          (left_join (\<lambda>u. Some (us_id u) = owner_id a) (users s)))
        (filter (\<lambda>a. acc_id a = en_account e \<and> owner_type a = OWNER_USER \<and> acc_kind a = KIND_USER_WALLET
            \<and> currency a = PLAY_USD \<and> (case user_id of None \<Rightarrow> True | Some v \<Rightarrow> owner_id a = Some v)) (accounts s))))
        (transfer_of e s))) (entries s))))"

definition bet_pnl :: "bet \<Rightarrow> rat option result" where
  "bet_pnl b =
     (if bet_status b = BET_PENDING then Inr None
      else bindE (if bet_status b = BET_SETTLED_WON then compute_payout (stake b) (odds_at_placement b)
                  else quantize_money 0) (\<lambda>payout.
           bindE (profit_or_loss (stake b) payout) (\<lambda>p. Inr (Some p))))"

definition or_default :: "string option \<Rightarrow> string \<Rightarrow> string" where
  "or_default v d = (case v of None \<Rightarrow> d | Some [] \<Rightarrow> d | Some t \<Rightarrow> t)"

type_synonym joined_bet = "bet \<times> user option \<times> market option \<times> outcome option"

definition joined_bets :: "(bet \<Rightarrow> bool) \<Rightarrow> 'a site_db_scheme \<Rightarrow> joined_bet list" where
  "joined_bets p s = concat (map (\<lambda>b. concat (map (\<lambda>u. concat (map (\<lambda>m. map (\<lambda>oc. (b, u, m, oc))
       (left_join (\<lambda>oc. oc_id oc = bet_outcome_id b) (outcomes s)))
       (left_join (\<lambda>m. mk_id m = bet_market_id b) (markets s))))
       (left_join (\<lambda>u. us_id u = bet_user_id b) (users s)))) (filter p (bets s)))"

definition bet_item :: "joined_bet \<Rightarrow> bet_row result" where
  "bet_item j = (case j of (b, u, m, oc) \<Rightarrow> bindE (bet_pnl b) (\<lambda>p. Inr
     \<lparr>br_id = bet_id b, br_user_email = map_option us_email u,
      br_question = or_default (map_option question m) ''(unknown market)'',
      br_outcome = or_default (map_option label oc) ''(unknown outcome)'',
      br_stake = stake b, br_status = bet_status b, br_pnl = p, br_created_at = bet_created_at b\<rparr>))"

definition export_bets :: "uuid option \<Rightarrow> 'a site_db_scheme \<Rightarrow> bet_row list result" where
  "export_bets user_id s = mapE bet_item (take MAX_EXPORT_ROWS
     (newest_first (\<lambda>j. bet_created_at (fst j)) (\<lambda>j. bet_id (fst j))
       (joined_bets (\<lambda>b. case user_id of None \<Rightarrow> True | Some v \<Rightarrow> bet_user_id b = v) s)))"

text \<open>The export endpoints; the response carries the text.\<close>

definition get_export_users :: "user_filter \<Rightarrow> 'a site_db_scheme \<Rightarrow> string" where
  "get_export_users f s = build_users_csv (export_users f s)"

definition get_export_transactions :: "uuid option \<Rightarrow> 'a site_db_scheme \<Rightarrow> string" where
  "get_export_transactions user_id s = build_transactions_csv (export_transactions user_id s)"

definition get_export_bets :: "uuid option \<Rightarrow> 'a site_db_scheme \<Rightarrow> string result" where
  "get_export_bets user_id s = bindE (export_bets user_id s) (\<lambda>rows. Inr (build_bets_csv rows))"

subsection \<open>One user\<close>

record user_detail =
  ud_row :: user_row
  transaction_count :: nat
  ud_bet_count :: nat

definition wallet_id_of :: "uuid \<Rightarrow> 'a ledger_scheme \<Rightarrow> uuid option result" where
  "wallet_id_of u s = bindE (scalar_one_or_none (filter (is_wallet u) (accounts s))) (\<lambda>a. Inr (map_option acc_id a))"

definition get_user_detail :: "uuid \<Rightarrow> 'a site_db_scheme \<Rightarrow> user_detail option result" where
  "get_user_detail u s =
     bindE (scalar_one_or_none (filter (\<lambda>v. us_id v = u) (users s))) (\<lambda>found.
     case found of None \<Rightarrow> Inr None
     | Some v \<Rightarrow>
       bindE (wallet_id_of u s) (\<lambda>w.
       bindE (case w of None \<Rightarrow> Inr (None, 0)
              | Some i \<Rightarrow> bindE (balance_of i s) (\<lambda>b.
                  Inr (Some b, length (filter (\<lambda>e. en_account e = i) (entries s))))) (\<lambda>(wallet, n).
       Inr (Some \<lparr>ud_row = user_row_to_dict v wallet None, transaction_count = n,
         ud_bet_count = length (filter (\<lambda>b. bet_user_id b = u) (bets s))\<rparr>))))"

definition get_user_transactions :: "uuid \<Rightarrow> nat \<Rightarrow> nat \<Rightarrow> 'a site_db_scheme \<Rightarrow> (transaction_row list \<times> nat) result" where
  "get_user_transactions u page page_size s = bindE (wallet_id_of u s) (\<lambda>w. case w of
     None \<Rightarrow> Inr ([], 0)
   | Some i \<Rightarrow>
      let mine = filter (\<lambda>e. en_account e = i) (entries s) in
      Inr (page_of page page_size (newest_first xr_created_at xr_id
             (concat (map (\<lambda>e. map (\<lambda>t. transaction_item None t e) (transfer_of e s)) mine))),
           length mine))"

definition get_user_bets :: "uuid \<Rightarrow> nat \<Rightarrow> nat \<Rightarrow> 'a site_db_scheme \<Rightarrow> (bet_row list \<times> nat) result" where
  "get_user_bets u page page_size s =
     bindE (mapE (\<lambda>(b, m, oc). bet_item (b, None, m, oc)) (page_of page page_size
       (newest_first (\<lambda>j. bet_created_at (fst j)) (\<lambda>j. bet_id (fst j))
         (concat (map (\<lambda>b. concat (map (\<lambda>m. map (\<lambda>oc. (b, m, oc))
             (left_join (\<lambda>oc. oc_id oc = bet_outcome_id b) (outcomes s)))
             (left_join (\<lambda>m. mk_id m = bet_market_id b) (markets s))))
           (filter (\<lambda>b. bet_user_id b = u) (bets s)))))))
       (\<lambda>items. Inr (items, length (filter (\<lambda>b. bet_user_id b = u) (bets s))))"

subsection \<open>Bans\<close>

definition load_user_or_404 :: "uuid \<Rightarrow> 'a site_db_scheme \<Rightarrow> user result" where
  "load_user_or_404 u s = bindE (scalar_one_or_none (filter (\<lambda>v. us_id v = u) (users s))) (\<lambda>found.
     case found of None \<Rightarrow> Inl (HTTPException 404) | Some v \<Rightarrow> Inr v)"

definition ban_user ::
  "uuid \<Rightarrow> int \<Rightarrow> uuid \<Rightarrow> string \<Rightarrow> user \<Rightarrow> string option \<Rightarrow> 'a site_db_scheme \<Rightarrow> 'a site_db_scheme result" where
  "ban_user audit_id now u reason admin ip s = bindE (load_user_or_404 u s) (\<lambda>v.
     if banned_at v \<noteq> None then Inl (HTTPException 409)
     else audit_record audit_id now (actor_string (Some (us_id admin))) ''admin.user_banned''
            [(''target_user_id'', JUuid u), (''reason'', JStr reason)] ip
            (update_user_row u (\<lambda>v. v\<lparr>banned_at := Some now\<rparr>) s))"

definition unban_user ::
  "uuid \<Rightarrow> int \<Rightarrow> uuid \<Rightarrow> string option \<Rightarrow> user \<Rightarrow> string option \<Rightarrow> 'a site_db_scheme \<Rightarrow> 'a site_db_scheme result" where
  "unban_user audit_id now u reason admin ip s = bindE (load_user_or_404 u s) (\<lambda>v.
     if banned_at v = None then Inl (HTTPException 409)
     else audit_record audit_id now (actor_string (Some (us_id admin))) ''admin.user_unbanned''
            [(''target_user_id'', JUuid u), (''reason'', JOpt JStr reason)] ip
            (update_user_row u (\<lambda>v. v\<lparr>banned_at := None\<rparr>) s))"

text \<open>The endpoints: a missing or empty reason of a ban is rejected with 422; the change is committed
  before the detail is read, so an exception of that read leaves it in place.\<close>

definition answer_detail :: "uuid \<Rightarrow> 'a site_db_scheme \<Rightarrow> user_detail result" where
  "answer_detail u s = bindE (get_user_detail u s) (\<lambda>d. case d of None \<Rightarrow> Inl (HTTPException 404) | Some x \<Rightarrow> Inr x)"

definition post_ban ::
  "uuid \<Rightarrow> int \<Rightarrow> uuid \<Rightarrow> string \<Rightarrow> user \<Rightarrow> string option \<Rightarrow> 'a site_db_scheme \<Rightarrow> user_detail result \<times> 'a site_db_scheme" where
  "post_ban audit_id now u reason admin ip s =
     (if reason = [] then (Inl (HTTPException 422), s)
      else case ban_user audit_id now u reason admin ip s of
        Inl e \<Rightarrow> (Inl e, s) | Inr s' \<Rightarrow> (answer_detail u s', s'))"

definition post_unban ::
  "uuid \<Rightarrow> int \<Rightarrow> uuid \<Rightarrow> string option \<Rightarrow> user \<Rightarrow> string option \<Rightarrow> 'a site_db_scheme \<Rightarrow> user_detail result \<times> 'a site_db_scheme" where
  "post_unban audit_id now u reason admin ip s =
     (case unban_user audit_id now u reason admin ip s of
        Inl e \<Rightarrow> (Inl e, s) | Inr s' \<Rightarrow> (answer_detail u s', s'))"

definition valid_page :: "nat \<Rightarrow> nat \<Rightarrow> bool" where
  "valid_page page page_size \<longleftrightarrow> 1 \<le> page \<and> 1 \<le> page_size \<and> page_size \<le> 100"

definition get_list_users ::
  "(string \<Rightarrow> rat) \<Rightarrow> user_filter \<Rightarrow> string \<Rightarrow> string \<Rightarrow> nat \<Rightarrow> nat \<Rightarrow> 'a site_db_scheme \<Rightarrow> (user_row list \<times> nat) result" where
  "get_list_users collate f sort_by sort_order page page_size s =
     (if \<not> valid_page page page_size \<or> uf_status f \<notin> {None, Some ''active'', Some ''banned''}
         \<or> sort_order \<notin> {''asc'', ''desc''} then Inl (HTTPException 422)
      else Inr (list_users collate f sort_by sort_order page page_size s))"

definition get_list_transactions :: "uuid \<Rightarrow> nat \<Rightarrow> nat \<Rightarrow> 'a site_db_scheme \<Rightarrow> (transaction_row list \<times> nat) result" where
  "get_list_transactions u page page_size s =
     (if \<not> valid_page page page_size then Inl (HTTPException 422) else get_user_transactions u page page_size s)"

definition get_list_bets :: "uuid \<Rightarrow> nat \<Rightarrow> nat \<Rightarrow> 'a site_db_scheme \<Rightarrow> (bet_row list \<times> nat) result" where
  "get_list_bets u page page_size s =
     (if \<not> valid_page page page_size then Inl (HTTPException 422) else get_user_bets u page page_size s)"

end
