(* ===== verification/Gates.thy ===== *)
theory Gates
  imports Admin
begin

text \<open>
  The money endpoints: \<open>bets/router.py\<close>, \<open>wallet/router.py\<close> and \<open>wallet/admin_router.py\<close>.  \<open>player\<close> is the user
  a request is authenticated as, active and verified.  Its guards run before the body is
  validated.  Serialisation of the responses is left out.
\<close>

subsection \<open>Bets\<close>

definition current_betting_player :: "user \<Rightarrow> user result" where
  "current_betting_player player = (if banned_at player \<noteq> None then Inl (HTTPException 403) else Inr player)"

text \<open>The \<open>except\<close> clauses of the endpoints; an exception without a clause propagates.\<close>

definition place_error :: "exn \<Rightarrow> exn" where
  "place_error e = (case e of
     MarketNotFound \<Rightarrow> HTTPException 404 | MarketClosed \<Rightarrow> HTTPException 409 | InvalidOutcome \<Rightarrow> HTTPException 422
   | StakeOutOfRange \<Rightarrow> HTTPException 422 | InsufficientBalance \<Rightarrow> HTTPException 402
   | NoResultFound \<Rightarrow> HTTPException 404 | _ \<Rightarrow> e)"

definition sell_error :: "exn \<Rightarrow> exn" where
  "sell_error e = (case e of
     BetNotFound \<Rightarrow> HTTPException 404 | BetNotClosable \<Rightarrow> HTTPException 409 | MarketClosed \<Rightarrow> HTTPException 409
   | MarketNotFound \<Rightarrow> HTTPException 404 | InvalidOutcome \<Rightarrow> HTTPException 422 | NoResultFound \<Rightarrow> HTTPException 404
   | _ \<Rightarrow> e)"

definition post_bet ::
  "rat \<times> rat \<Rightarrow> 'a site_db_scheme market_read_port \<Rightarrow> uuid \<Rightarrow> uuid \<Rightarrow> post_ids \<Rightarrow> int
    \<Rightarrow> user \<Rightarrow> uuid \<Rightarrow> uuid \<Rightarrow> rat \<Rightarrow> 'a site_db_scheme \<Rightarrow> bet result \<times> 'a site_db_scheme" where
  "post_bet limits get_market new_account new_bet ids now player mid outcome_id stk s =
     (case current_betting_player player of
        Inl e \<Rightarrow> (Inl e, s)
      | Inr p \<Rightarrow>
         if stk \<le> 0 then (Inl (HTTPException 422), s)
         else case place_bet limits get_market new_account new_bet ids now (us_id p) mid outcome_id stk s of
           (r, s') \<Rightarrow> (map_error place_error r, s'))"

definition read_portfolio :: "'a site_db_scheme market_read_port \<Rightarrow> user \<Rightarrow> 'a site_db_scheme \<Rightarrow> portfolio result" where
  "read_portfolio get_market player s =
     map_error (\<lambda>e. case e of ValueError m \<Rightarrow> HTTPException 500 | _ \<Rightarrow> e) (get_portfolio get_market (us_id player) s)"

definition post_sell ::
  "'a site_db_scheme market_read_port \<Rightarrow> (nat \<Rightarrow> post_ids) \<Rightarrow> int \<Rightarrow> uuid \<Rightarrow> user \<Rightarrow> 'a site_db_scheme
    \<Rightarrow> (close_result \<times> 'a site_db_scheme) result" where
  "post_sell get_market gen now b_id player s = map_error sell_error (sell_position get_market gen now b_id (us_id player) s)"

subsection \<open>The player's wallet\<close>

definition read_balance :: "user \<Rightarrow> 'a site_db_scheme \<Rightarrow> rat result" where
  "read_balance player s = (case get_balance (us_id player) s of Inl NoResultFound \<Rightarrow> Inr 0 | r \<Rightarrow> r)"

record history_item =
  ti_kind :: string
  ti_amount :: rat
  ti_direction :: direction
  ti_created_at :: int
  ti_reason :: "string option"

record transaction_page =
  tp_items :: "history_item list"
  tp_total :: nat
  has_next :: bool

definition read_transactions :: "user \<Rightarrow> nat \<Rightarrow> nat \<Rightarrow> 'a site_db_scheme \<Rightarrow> transaction_page result" where
  "read_transactions player page page_size s =
     (if \<not> (1 \<le> page \<and> 1 \<le> page_size \<and> page_size \<le> 200) then Inl (HTTPException 422)
      else bindE (case get_transactions (us_id player) page page_size s of
                    Inl NoResultFound \<Rightarrow> Inr ([], 0) | r \<Rightarrow> r) (\<lambda>(rows, n).
           Inr \<lparr>tp_items = map (\<lambda>(t, e). \<lparr>ti_kind = tr_kind t, ti_amount = amount e, ti_direction = direction e,
                    ti_created_at = en_created_at e, ti_reason = transfer_reason t\<rparr>) rows,
                tp_total = n, has_next = (page * page_size < n)\<rparr>))"

subsection \<open>Recharges by an admin\<close>

record recharge_request =
  rq_amount :: rat
  rq_reason :: string
  rq_key :: "string option"

record recharge_response =
  rr_transfer_id :: uuid
  rr_amount :: rat
  idempotent_replay :: bool

definition recharge_error :: "exn \<Rightarrow> exn" where
  "recharge_error e = (case e of NoResultFound \<Rightarrow> HTTPException 404 | InsufficientBalance \<Rightarrow> HTTPException 400
     | ValueError m \<Rightarrow> HTTPException 400 | _ \<Rightarrow> e)"

text \<open>The recharge commits on its own; the audit row follows in a second transaction.\<close>

definition recharge_wallet ::
  "post_ids \<Rightarrow> uuid \<Rightarrow> int \<Rightarrow> user \<Rightarrow> uuid \<Rightarrow> recharge_request \<Rightarrow> 'a site_db_scheme
    \<Rightarrow> recharge_response result \<times> 'a site_db_scheme" where
  "recharge_wallet ids audit_id now admin user_id rq s =
     (if rq_amount rq \<le> 0 \<or> rq_reason rq = [] then (Inl (HTTPException 422), s)
      else case rq_key rq of
        None \<Rightarrow> (Inl (HTTPException 400), s)
      | Some key \<Rightarrow>
         case bindE (scalar_one_or_none (filter (\<lambda>v. us_id v = user_id) (users s))) (\<lambda>found.
              bindE (if (case found of None \<Rightarrow> False | Some v \<Rightarrow> banned_at v \<noteq> None) then Inl (HTTPException 403) else Inr ()) (\<lambda>_.
              bindE (scalar_one_or_none (filter (\<lambda>t. idempotency_key t = Some key) (transfers s))) (\<lambda>pre_existing.
              bindE (map_error recharge_error
                 (recharge ids now user_id (rq_amount rq) (rq_reason rq) key PROVIDER_HOUSE s)) (\<lambda>(t, s1).
              Inr (pre_existing \<noteq> None, t, s1))))) of
           Inl e \<Rightarrow> (Inl e, s)
         | Inr (replay, t, s1) \<Rightarrow>
            (case audit_record audit_id now (actor_string (Some (us_id admin))) ''wallet.recharge''
                [(''target_user_id'', JUuid user_id), (''amount'', JDec (rq_amount rq)),
                 (''idempotency_key'', JStr key), (''idempotent_replay'', JBool replay)] None s1 of
               Inl e \<Rightarrow> (Inl e, s1)
             | Inr s2 \<Rightarrow> (Inr \<lparr>rr_transfer_id = tr_id t, rr_amount = rq_amount rq, idempotent_replay = replay\<rparr>, s2)))"

end
