(* ===== verification/AuthRules.thy ===== *)
theory AuthRules
  imports Auth Platform
begin

text \<open>
  Sessions as a transition system: every endpoint and hook moves the users and the refresh tokens
  forward in the sense of \<open>sessions_grow\<close> (rows are never lost, a revocation never taken back, a version
  never lowered), so a token that is once dead stays dead.
\<close>

subsection \<open>Growth of the session tables\<close>

definition sessions_ok :: "'a site_db_scheme \<Rightarrow> bool" where
  "sessions_ok s \<longleftrightarrow> distinct (map us_id (users s)) \<and> distinct (map token_hash (refresh_tokens s))"

definition token_grows :: "refresh_token \<Rightarrow> refresh_token \<Rightarrow> bool" where
  "token_grows r r' \<longleftrightarrow> token_hash r' = token_hash r \<and> rt_user_id r' = rt_user_id r
     \<and> rt_token_version r' = rt_token_version r \<and> (revoked_at r \<noteq> None \<longrightarrow> revoked_at r' \<noteq> None)"

definition sessions_grow :: "'a site_db_scheme \<Rightarrow> 'a site_db_scheme \<Rightarrow> bool" where
  "sessions_grow s t \<longleftrightarrow> (sessions_ok s \<longrightarrow> sessions_ok t)
     \<and> (\<forall>r \<in> set (refresh_tokens s). \<exists>r' \<in> set (refresh_tokens t). token_grows r r')
     \<and> (\<forall>u \<in> set (users s). \<exists>u' \<in> set (users t). us_id u' = us_id u \<and> token_version u \<le> token_version u')"

lemma token_grows_refl [simp]: "token_grows r r"
  by (simp add: token_grows_def)

lemma token_grows_mem [intro]: "r \<in> A \<Longrightarrow> \<exists>x \<in> A. token_grows r x"
  using token_grows_refl by blast

lemma token_grows_trans: "token_grows r r' \<Longrightarrow> token_grows r' r'' \<Longrightarrow> token_grows r r''"
  by (simp add: token_grows_def)

lemma sessions_grow_refl [simp]: "sessions_grow s s"
  by (auto simp: sessions_grow_def)

lemma sessions_grow_trans:
  assumes "sessions_grow s t" "sessions_grow t v"
  shows "sessions_grow s v"
  unfolding sessions_grow_def
proof (intro conjI ballI impI)
  show "sessions_ok v" if "sessions_ok s" using that assms by (simp add: sessions_grow_def)
  show "\<exists>r' \<in> set (refresh_tokens v). token_grows r r'" if "r \<in> set (refresh_tokens s)" for r
    using that assms token_grows_trans unfolding sessions_grow_def by blast
  show "\<exists>u' \<in> set (users v). us_id u' = us_id u \<and> token_version u \<le> token_version u'" if u: "u \<in> set (users s)" for u
  proof -
    obtain u1 where u1: "u1 \<in> set (users t)" "us_id u1 = us_id u" "token_version u \<le> token_version u1"
      using u assms(1) unfolding sessions_grow_def by blast
    obtain u2 where "u2 \<in> set (users v)" "us_id u2 = us_id u1" "token_version u1 \<le> token_version u2"
      using u1(1) assms(2) unfolding sessions_grow_def by blast
    with u1 show ?thesis by (intro bexI [of _ u2]) auto
  qed
qed

lemma sessions_grow_same: "users t = users s \<Longrightarrow> refresh_tokens t = refresh_tokens s \<Longrightarrow> sessions_grow s t"
  by (auto simp: sessions_grow_def sessions_ok_def)

lemma sessions_grow_users:
  assumes "\<And>u. P u \<Longrightarrow> us_id (f u) = us_id u \<and> token_version u \<le> token_version (f u)"
  shows "sessions_grow s (s\<lparr>users := update_where P f (users s)\<rparr>)"
proof -
  have "map us_id (update_where P f (users s)) = map us_id (users s)"
    using assms by (intro map_update_where_same) simp
  moreover have "\<exists>u' \<in> set (update_where P f (users s)). us_id u' = us_id u \<and> token_version u \<le> token_version u'"
    if "u \<in> set (users s)" for u
    using that assms unfolding set_update_where by (intro bexI [of _ "if P u then f u else u"]) auto
  ultimately show ?thesis by (auto simp: sessions_grow_def sessions_ok_def)
qed

lemma sessions_grow_tokens:
  assumes "\<And>r. P r \<Longrightarrow> token_grows r (f r)"
  shows "sessions_grow s (s\<lparr>refresh_tokens := update_where P f (refresh_tokens s)\<rparr>)"
proof -
  have "map token_hash (update_where P f (refresh_tokens s)) = map token_hash (refresh_tokens s)"
    using assms by (intro map_update_where_same) (simp add: token_grows_def)
  moreover have "\<exists>r' \<in> set (update_where P f (refresh_tokens s)). token_grows r r'" if "r \<in> set (refresh_tokens s)" for r
    using that assms unfolding set_update_where
    by (intro bexI [of _ "if P r then f r else r"]) auto
  ultimately show ?thesis by (auto simp: sessions_grow_def sessions_ok_def)
qed

lemma more_site:
  fixes s s' :: "'a site_db_scheme"
  assumes "ledger.more s' = ledger.more s"
  shows "users s' = users s" "refresh_tokens s' = refresh_tokens s"
  using assms by (cases s; cases s'; simp)+

lemma audit_user_site: "audit_user i now u ty ip s = Inr s' \<Longrightarrow> users s' = users s \<and> refresh_tokens s' = refresh_tokens s"
  by (auto simp: audit_user_def audit_record_Inr)

lemma audit_record_site:
  fixes s s' :: "'a site_db_scheme"
  shows "audit_record i now actor ty p ip s = Inr s' \<Longrightarrow> users s' = users s \<and> refresh_tokens s' = refresh_tokens s"
  by (auto simp: audit_record_Inr)

lemma bonus_site:
  fixes s :: "'a site_db_scheme"
  shows "users (try_signup_bonus env d u s) = users s \<and> refresh_tokens (try_signup_bonus env d u s) = refresh_tokens s"
proof (cases "grant_signup_bonus (dr_bonus d) (dr_now d) (us_id u) (SIGNUP_BONUS_AMOUNT env) s")
  case (Inr x)
  obtain t s' where x: "x = (t, s')" by (rule prod.exhaust)
  have "s' = s \<or> ledger.more s' = ledger.more s"
    using Inr x by (auto simp: grant_signup_bonus_def dest!: or_existing_Inr fund_from_house_more split: if_splits)
  then show ?thesis using Inr x more_site [of s' s] by (auto simp: try_signup_bonus_def)
qed (simp add: try_signup_bonus_def)

subsection \<open>Each operation\<close>

lemma grow_insert_user: "insert_user u s = Inr s' \<Longrightarrow> sessions_grow s s'"
  by (auto simp: insert_user_def sessions_grow_def sessions_ok_def split: if_splits)

lemma grow_audit: "audit_user i now u ty ip s = Inr s' \<Longrightarrow> sessions_grow s s'"
  by (rule sessions_grow_same) (auto dest: audit_user_site)

lemma grow_audit_record:
  fixes s s' :: "'a site_db_scheme"
  shows "audit_record i now actor ty p ip s = Inr s' \<Longrightarrow> sessions_grow s s'"
  by (rule sessions_grow_same) (auto dest: audit_record_site)

lemma grow_bonus: "sessions_grow s (try_signup_bonus env d u s)"
  by (rule sessions_grow_same) (simp_all add: bonus_site)

lemma grow_register_hook: "sessions_grow s (snd (on_after_register env d u s))"
  by (auto simp: on_after_register_def grow_audit intro: sessions_grow_trans [OF grow_audit grow_bonus] split: sum.split)

lemma grow_verify_hook: "sessions_grow s (snd (on_after_verify env d u s))"
  by (auto simp: on_after_verify_def intro: sessions_grow_trans [OF grow_audit grow_bonus] split: sum.split)

lemma grow_create:
  fixes s :: "'a site_db_scheme"
  shows "sessions_grow s (snd (create_user env d safe uc s))"
proof (cases "create_tx env d safe uc s")
  case (Inr x)
  obtain u s1 where x: "x = (u, s1)" by (rule prod.exhaust)
  obtain s0 w where s0: "insert_user u s = Inr s0" "create_wallet (dr_wallet d) (us_id u) s0 = Inr (w, s1)"
    using Inr x by (auto simp: create_tx_def Let_def split: if_splits prod.splits)
  have "ledger.more s1 = ledger.more s0"
    using s0(2) by (auto simp: create_wallet_def insert_account_def Let_def split: if_splits)
  then have "sessions_grow s s1"
    using grow_insert_user [OF s0(1)] sessions_grow_same more_site sessions_grow_trans by metis
  from sessions_grow_trans [OF this grow_register_hook]
  have "sessions_grow s (snd (on_after_register env d u s1))" .
  then show ?thesis using Inr x by (auto simp: create_user_def split: prod.split sum.split)
qed (simp add: create_user_def)

lemma grow_authenticate: "sessions_grow s (snd (authenticate env email password s))"
  by (auto simp: authenticate_def update_user_row_def intro!: sessions_grow_users split: option.split prod.split)

lemma grow_write: "write_token env now tok u s = Inr (k, s') \<Longrightarrow> sessions_grow s s'"
  by (auto simp: write_token_def insert_refresh_token_def sessions_grow_def sessions_ok_def split: if_splits)

lemma grow_start: "sessions_grow s (snd (start_session tr ty i env d u s))"
proof (cases "write_token env (dr_now d) (dr_token d) u s")
  case (Inr x)
  obtain k s1 where x: "x = (k, s1)" by (rule prod.exhaust)
  have "sessions_grow s1 (snd (start_session tr ty i env d u s))"
    using Inr x by (auto simp: start_session_def intro: grow_audit split: sum.split)
  with grow_write [OF Inr [unfolded x]] show ?thesis by (rule sessions_grow_trans)
qed (simp add: start_session_def)

lemma grow_revoke: "sessions_grow s (revoke_active i (\<lambda>r. r\<lparr>revoked_at := Some now, reuse_count := f r\<rparr>) s)"
  "sessions_grow s (revoke_active i (\<lambda>r. r\<lparr>revoked_at := Some now\<rparr>) s)"
  unfolding revoke_active_def by (rule sessions_grow_tokens, simp add: token_grows_def)+

lemma grow_read: "sessions_grow s (snd (read_token env now token s))"
proof -
  have "sessions_grow s1 (s1\<lparr>refresh_tokens := update_where (\<lambda>r. token_hash r = h)
      (\<lambda>r. r\<lparr>reuse_count := reuse_count r + 1\<rparr>) (refresh_tokens s1)\<rparr>)" for s1 :: "'a site_db_scheme" and h
    by (rule sessions_grow_tokens) (simp add: token_grows_def)
  note used = sessions_grow_trans [OF grow_revoke(1) this]
  show ?thesis by (auto simp: read_token_def Let_def used split: option.split)
qed

lemma grow_destroy: "sessions_grow s (destroy_token env now tok s)"
  unfolding destroy_token_def by (rule sessions_grow_tokens) (simp add: token_grows_def)

lemma grow_destroy_audit:
  fixes s s' :: "'a site_db_scheme"
  shows "audit_record i now actor ty p ip (destroy_token env t tok s) = Inr s' \<Longrightarrow> sessions_grow s s'"
  by (rule sessions_grow_trans [OF grow_destroy grow_audit_record])

definition bump_version :: "user \<Rightarrow> 'a site_db_scheme \<Rightarrow> 'a site_db_scheme" where
  "bump_version u s = s\<lparr>users := update_where (\<lambda>v. us_id v = us_id u \<and> token_version v = token_version u)
     (\<lambda>v. v\<lparr>token_version := token_version v + 1\<rparr>) (users s)\<rparr>"

definition reset_tables :: "int \<Rightarrow> user \<Rightarrow> 'a site_db_scheme \<Rightarrow> 'a site_db_scheme" where
  "reset_tables now u s = revoke_active (us_id u) (\<lambda>r. r\<lparr>revoked_at := Some now\<rparr>) (bump_version u s)"

lemma reset_parts: "on_after_reset_password i now u s = audit_user i now u ''auth.password_reset_completed'' None (reset_tables now u s)"
  by (simp add: on_after_reset_password_def reset_tables_def bump_version_def Let_def)

lemma grow_bump: "sessions_grow s (bump_version u s)"
  unfolding bump_version_def by (rule sessions_grow_users) simp

lemma grow_reset_tables: "sessions_grow s (reset_tables now u s)"
  unfolding reset_tables_def by (rule sessions_grow_trans [OF grow_bump grow_revoke(2)])

lemma grow_reset: "on_after_reset_password i now u s = Inr s' \<Longrightarrow> sessions_grow s s'"
  unfolding reset_parts by (rule sessions_grow_trans [OF grow_reset_tables grow_audit])

subsection \<open>Sessions as a transition system\<close>

text \<open>\<open>other\<close> is any operation outside authentication; a ban or an edited profile keeps id and version.\<close>

inductive session_step :: "env \<Rightarrow> 'a site_db_scheme \<Rightarrow> 'a site_db_scheme \<Rightarrow> bool" for env where
  registered: "session_step env s (snd (register_proxy env d uc s))"
| logged_in: "session_step env s (snd (login_proxy env d name password s))"
| demo: "session_step env s (snd (demo_login_proxy env d hex password s))"
| forgot: "session_step env s (snd (forgot_password_proxy env d email s))"
| verified: "session_step env s (snd (on_after_verify env d u s))"
| admin_logged_in: "session_step env s (snd (admin_login_proxy env d name password s))"
| admin_logged_out: "session_step env s (snd (admin_logout_proxy env d token s))"
| token_written: "write_token env now tok u s = Inr (k, s') \<Longrightarrow> session_step env s s'"
| token_read: "session_step env s (snd (read_token env now token s))"
| token_destroyed: "session_step env s (destroy_token env now tok s)"
| password_reset: "on_after_reset_password i now u s = Inr s' \<Longrightarrow> session_step env s s'"
| profile_edited: "(\<And>u. us_id (f u) = us_id u \<and> token_version (f u) = token_version u) \<Longrightarrow>
     session_step env s (update_user_row i f s)"
| other: "users s' = users s \<Longrightarrow> refresh_tokens s' = refresh_tokens s \<Longrightarrow> session_step env s s'"

abbreviation session_steps :: "env \<Rightarrow> 'a site_db_scheme \<Rightarrow> 'a site_db_scheme \<Rightarrow> bool" where
  "session_steps env \<equiv> (session_step env)\<^sup>*\<^sup>*"

lemma session_step_grows: "session_step env s t \<Longrightarrow> sessions_grow s t"
proof (induction rule: session_step.induct)
  case (registered s d uc)
  have "snd (register_proxy env d uc s) \<in> {s, snd (create_user env d True uc s)}"
    by (auto simp: register_proxy_def split: sum.split prod.split auth_exn.split)
  then show ?case using grow_create by auto
next
  case (logged_in s d name password)
  obtain f s1 where a: "authenticate env name password s = (f, s1)" by (rule prod.exhaust)
  have "snd (login_proxy env d name password s) \<in> {s, s1} \<union> {snd (start_session SessionCookie ''auth.session_started'' (dr_audit d) env d (the f) s1)}"
    by (auto simp: login_proxy_def a split: sum.split option.split)
  moreover have ga: "sessions_grow s s1" using grow_authenticate [of s env name password] by (simp add: a)
  ultimately show ?case using sessions_grow_trans [OF ga grow_start] by auto
next
  case (demo s d hex password)
  let ?uc = "\<lparr>uc_email = ''demo-'' @ hex @ ''@demo.example.com'', uc_password = password, uc_display_name = None\<rparr>"
  obtain r s1 where c: "create_user env d True ?uc s = (r, s1)" by (rule prod.exhaust)
  have "snd (demo_login_proxy env d hex password s) \<in> {s, s1} \<union> {snd (start_session SessionCookie ''auth.demo_session_started'' (dr_audit2 d) env d (projr r) s1)}"
    using c by (auto simp: demo_login_proxy_def split: sum.split)
  moreover have gc: "sessions_grow s s1" using grow_create [of s env d True ?uc] unfolding c by simp
  ultimately show ?case using sessions_grow_trans [OF gc grow_start] by auto
next
  case (forgot s d email)
  show ?case
    by (auto simp: forgot_password_proxy_def on_after_forgot_password_def grow_audit split: sum.split option.split auth_exn.split)
next
  case (verified s d u)
  show ?case by (rule grow_verify_hook)
next
  case (admin_logged_in s d name password)
  obtain f s1 where a: "authenticate env name password s = (f, s1)" by (rule prod.exhaust)
  have "sessions_grow s1 (snd (admin_login_proxy env d name password s)) \<or> snd (admin_login_proxy env d name password s) = s"
    by (auto simp: admin_login_proxy_def a audit_admin_login_failed_def Let_def grow_start grow_audit_record
        split: sum.split option.split)
  moreover have "sessions_grow s s1" using grow_authenticate [of s env name password] by (simp add: a)
  ultimately show ?case using sessions_grow_trans by fastforce
next
  case (admin_logged_out s d token)
  obtain f s1 where a: "read_token env (dr_now d) token s = (f, s1)" by (rule prod.exhaust)
  have "sessions_grow s1 (snd (admin_logout_proxy env d token s)) \<or> snd (admin_logout_proxy env d token s) = s"
    using a by (cases token) (auto simp: admin_logout_proxy_def Let_def grow_destroy grow_destroy_audit split: sum.split option.split)
  moreover have "sessions_grow s s1" using grow_read [of s env "dr_now d" token] by (simp add: a)
  ultimately show ?case using sessions_grow_trans by fastforce
next
  case (profile_edited f s i)
  then show ?case unfolding update_user_row_def by (intro sessions_grow_users) simp
qed (simp_all add: grow_write grow_read grow_destroy grow_reset sessions_grow_same)

lemma session_steps_grow: "session_steps env s t \<Longrightarrow> sessions_grow s t"
  by (induction rule: rtranclp_induct) (auto intro: sessions_grow_trans session_step_grows)

subsection \<open>Dead tokens\<close>

definition dead :: "string \<Rightarrow> 'a site_db_scheme \<Rightarrow> bool" where
  "dead h s \<longleftrightarrow> (\<exists>r \<in> set (refresh_tokens s). token_hash r = h \<and> (revoked_at r \<noteq> None
     \<or> (\<exists>u \<in> set (users s). us_id u = rt_user_id r \<and> rt_token_version r < token_version u)))"

lemma dead_grows:
  assumes "dead h s" "sessions_grow s t"
  shows "dead h t"
proof -
  obtain r where r: "r \<in> set (refresh_tokens s)" "token_hash r = h" "revoked_at r \<noteq> None
      \<or> (\<exists>u \<in> set (users s). us_id u = rt_user_id r \<and> rt_token_version r < token_version u)"
    using assms(1) by (auto simp: dead_def)
  obtain r' where r': "r' \<in> set (refresh_tokens t)" "token_grows r r'"
    using r(1) assms(2) unfolding sessions_grow_def by blast
  show ?thesis
  proof (cases "revoked_at r \<noteq> None")
    case True
    then show ?thesis using r(2) r' by (auto simp: dead_def token_grows_def)
  next
    case False
    then obtain u where u: "u \<in> set (users s)" "us_id u = rt_user_id r" "rt_token_version r < token_version u"
      using r(3) by blast
    obtain u' where "u' \<in> set (users t)" "us_id u' = us_id u" "token_version u \<le> token_version u'"
      using u(1) assms(2) unfolding sessions_grow_def by blast
    then show ?thesis using u r(2) r' unfolding dead_def token_grows_def by (intro bexI [of _ r']) auto
  qed
qed

lemma find_key:
  assumes "distinct (map key xs)" "x \<in> set xs"
  shows "List.find (\<lambda>r. key r = key x) xs = Some x"
proof (cases "List.find (\<lambda>r. key r = key x) xs")
  case None
  then show ?thesis using assms(2) by (auto simp: find_None_iff)
next
  case (Some y)
  then have "y \<in> set xs" "key y = key x" by (auto simp: find_Some_iff)
  then show ?thesis using Some distinct_key_eq [OF assms(1)] assms(2) by metis
qed

lemma dead_refused:
  assumes "dead (digest env tok) s" "sessions_ok s"
  shows "fst (read_token env now (Some tok) s) = None"
proof -
  obtain r where r: "r \<in> set (refresh_tokens s)" "token_hash r = digest env tok" "revoked_at r \<noteq> None
      \<or> (\<exists>u \<in> set (users s). us_id u = rt_user_id r \<and> rt_token_version r < token_version u)"
    using assms(1) by (auto simp: dead_def)
  have f: "List.find (\<lambda>r. token_hash r = digest env tok) (refresh_tokens s) = Some r"
    using find_key [of token_hash "refresh_tokens s" r] r(1,2) assms(2) by (simp add: sessions_ok_def)
  have "rt_token_version r < token_version v" if rn: "revoked_at r = None" and gu: "get_user (rt_user_id r) s = Some v" for v
  proof -
    obtain u where u: "u \<in> set (users s)" "us_id u = rt_user_id r" "rt_token_version r < token_version u"
      using r(3) rn by blast
    then have "get_user (rt_user_id r) s = Some u"
      using find_key [of us_id "users s" u] assms(2) by (simp add: get_user_def sessions_ok_def)
    with u(3) gu show ?thesis by simp
  qed
  then show ?thesis using f by (auto simp: read_token_def Let_def split: option.split)
qed

lemma reset_kills:
  assumes "r \<in> set (refresh_tokens s)" "rt_user_id r = us_id u"
  shows "dead (token_hash r) (reset_tables now u s)"
proof -
  let ?r = "if revoked_at r = None then r\<lparr>revoked_at := Some now\<rparr> else r"
  have "?r \<in> set (refresh_tokens (reset_tables now u s))"
    using assms unfolding reset_tables_def revoke_active_def bump_version_def
    by (simp add: set_update_where)
  then show ?thesis unfolding dead_def by (rule bexI [rotated]) simp
qed

text \<open>After a reset that observed version \<open>v\<close>, the stored version is above \<open>v\<close>.\<close>

lemma reset_raises:
  assumes "v \<in> set (users s)" "us_id v = us_id u" "token_version u \<le> token_version v"
  shows "\<exists>w \<in> set (users (reset_tables now u s)). us_id w = us_id u \<and> token_version u < token_version w"
proof -
  let ?w = "if token_version v = token_version u then v\<lparr>token_version := token_version v + 1\<rparr> else v"
  have "?w \<in> set (users (reset_tables now u s))"
    using assms unfolding reset_tables_def revoke_active_def bump_version_def
    by (simp add: set_update_where)
  then show ?thesis using assms by (intro bexI [of _ ?w]) auto
qed

text \<open>
  C7: a completed password reset ends every session of the user for good.  Any token that was issued
  to the user before it is refused after any later activity, and so is a token written after it by a
  login that had loaded the user before (a version no newer than the one the reset compared),
  whether or not the compare-and-set hit.
\<close>

theorem reset_ends_sessions:
  assumes "sessions_ok s" "v \<in> set (users s)" "us_id v = us_id u" "token_version u \<le> token_version v"
    and "on_after_reset_password i now u s = Inr s1" "session_steps env s1 s2"
  shows "(\<forall>r \<in> set (refresh_tokens s). rt_user_id r = us_id u \<longrightarrow> token_hash r = digest env tok \<longrightarrow>
      fst (read_token env t (Some tok) s2) = None)
    \<and> (\<forall>u' k s3 s4. us_id u' = us_id u \<longrightarrow> token_version u' \<le> token_version u \<longrightarrow>
      write_token env t' tok u' s2 = Inr (k, s3) \<longrightarrow> session_steps env s3 s4 \<longrightarrow>
      fst (read_token env t (Some tok) s4) = None)"
proof -
  have g: "sessions_grow (reset_tables now u s) s1" using assms(5) unfolding reset_parts by (rule grow_audit)
  have g2: "sessions_grow (reset_tables now u s) s2" by (rule sessions_grow_trans [OF g session_steps_grow [OF assms(6)]])
  have ok: "sessions_ok s2"
    using sessions_grow_trans [OF grow_reset_tables g2] assms(1) by (simp add: sessions_grow_def)
  have "fst (read_token env t (Some tok) s2) = None"
    if "r \<in> set (refresh_tokens s)" "rt_user_id r = us_id u" "token_hash r = digest env tok" for r
    using dead_refused [OF _ ok] dead_grows [OF reset_kills [OF that(1,2)] g2] that(3) by metis
  moreover have "fst (read_token env t (Some tok) s4) = None"
    if u': "us_id u' = us_id u" "token_version u' \<le> token_version u"
      and wr: "write_token env t' tok u' s2 = Inr (k, s3)" and st: "session_steps env s3 s4" for u' k s3 s4
  proof -
    obtain w where w: "w \<in> set (users (reset_tables now u s))" "us_id w = us_id u" "token_version u < token_version w"
      using reset_raises [OF assms(2-4)] by blast
    obtain w' where w': "w' \<in> set (users s2)" "us_id w' = us_id w" "token_version w \<le> token_version w'"
      using w(1) g2 unfolding sessions_grow_def by blast
    have "token_version u' < token_version w'" "us_id w' = us_id u'" using w w' u' by simp_all
    then have "dead (digest env tok) s3"
      using wr w'(1) by (auto simp: write_token_def insert_refresh_token_def dead_def split: if_splits)
    then have "dead (digest env tok) s4" using dead_grows session_steps_grow [OF st] by blast
    moreover have "sessions_ok s4"
      using ok sessions_grow_trans [OF grow_write [OF wr] session_steps_grow [OF st]] by (simp add: sessions_grow_def)
    ultimately show ?thesis by (rule dead_refused)
  qed
  ultimately show ?thesis by blast
qed

subsection \<open>A sample site\<close>

definition demo_env :: env where
  "demo_env = \<lparr>hash_pw = (\<lambda>p. CHR ''#'' # p), verify_and_update = (\<lambda>p h. (h = CHR ''#'' # p, None)),
     find_by_email = (\<lambda>e us. List.find (\<lambda>u. us_email u = e) us), payload_flags = (\<lambda>_ _. (True, False, False)),
     forgot_guard = (\<lambda>u. if is_active u then Inr () else Inl UserInactive), verify_guard = (\<lambda>u. Inr ()),
     digest = (\<lambda>t. CHR ''d'' # t), hit = (\<lambda>_. True), DEMO_MODE = False, SIGNUP_BONUS_AMOUNT = 10, LIFETIME = 100\<rparr>"

definition demo_player :: user where
  "demo_player = \<lparr>us_id = 5, us_email = ''p@x'', hashed_password = ''#pw'', is_active = True, is_superuser = False,
     is_verified = True, display_name = None, banned_at = None, us_created_at = 0, token_version = 0\<rparr>"

definition demo_boss :: user where
  "demo_boss = demo_player\<lparr>us_id := 6, us_email := ''b@x'', is_superuser := True, banned_at := Some 1\<rparr>"

definition demo_token :: "int option \<Rightarrow> refresh_token" where
  "demo_token gone = \<lparr>token_hash = ''dtok'', rt_user_id = 5, expires_at = 50, revoked_at = gone, reuse_count = 0,
     rt_token_version = 0\<rparr>"

definition demo_site :: "user list \<Rightarrow> refresh_token list \<Rightarrow> site_db" where
  "demo_site us rs = \<lparr>accounts = accounts demo_live_db, transfers = transfers demo_live_db, entries = entries demo_live_db,
     row_locks = [], audit_log = [], markets = markets demo_live_db, market_groups = [], outcomes = outcomes demo_live_db,
     odds_snapshots = [], bets = [], live_bets = [], users = us, refresh_tokens = rs\<rparr>"

definition demo_draw :: draw where
  "demo_draw = \<lparr>dr_user = 7, dr_wallet = 0x70, dr_bonus = (0x71, 0x72, 0x73), dr_audit = 0x74, dr_audit2 = 0x75,
     dr_token = ''new'', dr_ip = None, dr_now = 9\<rparr>"

lemma demo_site_books:
  "accounts (demo_site us rs) = accounts demo_live_db" "transfers (demo_site us rs) = transfers demo_live_db"
  "entries (demo_site us rs) = entries demo_live_db" "bets (demo_site us rs) = []" "live_bets (demo_site us rs) = []"
  "bal (demo_site us rs) = bal demo_live_db"
  by (simp_all add: demo_site_def bal_def fun_eq_iff)

lemma demo_site_live_ok: "live_ok (demo_site us rs)"
proof -
  have "bets demo_live_db = []" "live_bets demo_live_db = []" by (simp_all add: demo_live_db_def)
  then show ?thesis
    using demo_live_ok
    by (simp add: live_ok_def platform_ok_def books_ok_def house_seeded_def liability_ids_def bets_ok_def pool_ok_def
        liability_balance_def pending_bets_def escrow_seeded_def mirrored_stakes_def ledger_wf_def reconciled_except_def
        double_entry_def demo_site_books)
qed

corollary reset_ends_sessions_witness:
  "fst (read_token demo_env 7 (Some ''tok'') (demo_site [demo_player] [demo_token None])) = Some demo_player
   \<and> okE (\<lambda>s1. fst (read_token demo_env 7 (Some ''tok'') s1) = None)
      (on_after_reset_password 0x99 5 demo_player (demo_site [demo_player] [demo_token None]))"
proof
  let ?s = "demo_site [demo_player] [demo_token None]"
  show "fst (read_token demo_env 7 (Some ''tok'') ?s) = Some demo_player"
    by (simp add: read_token_def get_user_def demo_site_def demo_token_def demo_env_def demo_player_def)
  have "okE (\<lambda>_. True) (on_after_reset_password 0x99 5 demo_player ?s)"
    by (simp add: on_after_reset_password_def audit_user_def audit_record_def okE_def Let_def revoke_active_def demo_site_def)
  then obtain s1 where r: "on_after_reset_password 0x99 5 demo_player ?s = Inr s1" by (auto simp: okE_iff)
  have "sessions_ok ?s" by (simp add: sessions_ok_def demo_site_def)
  from reset_ends_sessions [OF this _ _ _ r, of demo_player demo_env s1 "''tok''" 7]
  have "fst (read_token demo_env 7 (Some ''tok'') s1) = None"
    by (simp add: demo_site_def demo_token_def demo_env_def demo_player_def)
  then show "okE (\<lambda>s1. fst (read_token demo_env 7 (Some ''tok'') s1) = None) (on_after_reset_password 0x99 5 demo_player ?s)"
    using r by (simp add: okE_iff)
qed

subsection \<open>Reuse of a revoked token\<close>

text \<open>
  C32: presenting a revoked token authenticates nobody and revokes every active token of its user in
  the same transaction, counting one reuse on each of them and one on the presented row; no other
  user's token and no other table changes.
\<close>

theorem stolen_token_revokes_all:
  assumes "sessions_ok s" "r \<in> set (refresh_tokens s)" "token_hash r = digest env tok" "revoked_at r \<noteq> None"
  shows "read_token env now (Some tok) s = (None, s\<lparr>refresh_tokens := map (\<lambda>x.
      if x = r then x\<lparr>reuse_count := reuse_count x + 1\<rparr>
      else if rt_user_id x = rt_user_id r \<and> revoked_at x = None
        then x\<lparr>revoked_at := Some now, reuse_count := reuse_count x + 1\<rparr>
      else x) (refresh_tokens s)\<rparr>)"
proof -
  have d: "distinct (map token_hash (refresh_tokens s))" using assms(1) by (simp add: sessions_ok_def)
  have f: "List.find (\<lambda>x. token_hash x = digest env tok) (refresh_tokens s) = Some r"
    using find_key [OF d assms(2)] assms(3) by simp
  have "update_where (\<lambda>x. token_hash x = token_hash r) (\<lambda>x. x\<lparr>reuse_count := reuse_count x + 1\<rparr>)
      (update_where (\<lambda>x. rt_user_id x = rt_user_id r \<and> revoked_at x = None)
        (\<lambda>x. x\<lparr>revoked_at := Some now, reuse_count := reuse_count x + 1\<rparr>) (refresh_tokens s))
    = map (\<lambda>x. if x = r then x\<lparr>reuse_count := reuse_count x + 1\<rparr>
      else if rt_user_id x = rt_user_id r \<and> revoked_at x = None
        then x\<lparr>revoked_at := Some now, reuse_count := reuse_count x + 1\<rparr> else x) (refresh_tokens s)"
    using distinct_key_eq [OF d] assms(2,4) by (auto simp: update_where_def)
  then show ?thesis using f assms(4) by (simp add: read_token_def revoke_active_def Let_def)
qed

corollary stolen_token_revokes_all_witness:
  "refresh_tokens (snd (read_token demo_env 7 (Some ''tok'') (demo_site [demo_player]
      [demo_token (Some 3), (demo_token None)\<lparr>token_hash := ''dtwo''\<rparr>])))
   = [(demo_token (Some 3))\<lparr>reuse_count := 1\<rparr>, (demo_token (Some 7))\<lparr>token_hash := ''dtwo'', reuse_count := 1\<rparr>]"
proof -
  let ?s = "demo_site [demo_player] [demo_token (Some 3), (demo_token None)\<lparr>token_hash := ''dtwo''\<rparr>]"
  have "sessions_ok ?s" "demo_token (Some 3) \<in> set (refresh_tokens ?s)"
    "token_hash (demo_token (Some 3)) = digest demo_env ''tok''" "revoked_at (demo_token (Some 3)) \<noteq> None"
    by (simp_all add: sessions_ok_def demo_site_def demo_token_def demo_env_def)
  from stolen_token_revokes_all [OF this] show ?thesis
    by (simp add: demo_site_def demo_token_def)
qed

subsection \<open>Logging in\<close>


text \<open>
  An administrator's login answers with a token only for an active superuser; every other
  combination of unknown address, wrong password, inactive account and missing privilege gets the
  same refusal 401, writes no token and is recorded in the audit log.
\<close>

theorem admin_login_only_superusers:
  "case admin_login_proxy env d name password s of
     (Inr resp, s') \<Rightarrow> (\<exists>u s1. authenticate env name password s = (Some u, s1) \<and> is_active u \<and> is_superuser u
        \<and> resp = BearerToken (dr_token d))
   | (Inl (Raised (HTTPException n)), s') \<Rightarrow> n = 401 \<and> refresh_tokens s' = refresh_tokens s
        \<and> map event_type (audit_log s') = map event_type (audit_log s) @ [''auth.admin_login_failed'']
   | (Inl e, s') \<Rightarrow> True"
proof -
  obtain f s1 where a: "authenticate env name password s = (f, s1)" by (rule prod.exhaust)
  have same: "refresh_tokens s1 = refresh_tokens s \<and> audit_log s1 = audit_log s"
    using a by (auto simp: authenticate_def update_user_row_def split: option.splits prod.splits if_splits)
  show ?thesis
    using same
    by (auto simp: admin_login_proxy_def a start_session_def write_token_def insert_refresh_token_def
        check_email_limit_def bindE_def audit_admin_login_failed_def audit_record_def audit_user_def Let_def
        split: option.split sum.split auth_exn.split exn.split)
qed

text \<open>
  The ban is not consulted on the administrators' surface: a banned superuser with valid
  credentials is given a token, while the same credentials are refused with 403 on the players'.
\<close>

theorem banned_superuser_logs_in:
  assumes "authenticate env name password s = (Some u, s)" "is_active u" "is_superuser u" "banned_at u \<noteq> None"
    and "\<And>k. hit env k" "us_id u \<in> us_id ` set (users s)"
    and "digest env (dr_token d) \<notin> token_hash ` set (refresh_tokens s)" "dr_audit d \<notin> au_id ` set (audit_log s)"
  shows "fst (admin_login_proxy env d name password s) = Inr (BearerToken (dr_token d))
    \<and> fst (login_proxy env d name password s) = Inl (Raised (HTTPException 403))"
  using assms by (simp add: admin_login_proxy_def login_proxy_def check_email_limit_def start_session_def write_token_def
      insert_refresh_token_def audit_user_def audit_record_def assert_not_banned_def)

corollary banned_superuser_logs_in_witness:
  "fst (admin_login_proxy demo_env demo_draw ''b@x'' ''pw'' (demo_site [demo_boss] [])) = Inr (BearerToken ''new'')
   \<and> fst (login_proxy demo_env demo_draw ''b@x'' ''pw'' (demo_site [demo_boss] [])) = Inl (Raised (HTTPException 403))"
proof -
  have "authenticate demo_env ''b@x'' ''pw'' (demo_site [demo_boss] []) = (Some demo_boss, demo_site [demo_boss] [])"
    by (simp add: authenticate_def demo_env_def demo_site_def demo_boss_def demo_player_def)
  from banned_superuser_logs_in [OF this, where d = demo_draw] show ?thesis
    by (simp add: demo_env_def demo_site_def demo_boss_def demo_player_def demo_draw_def)
qed

text \<open>
  C95: the endpoint for a forgotten password answers 202 whether or not the address is known, except
  for an account that fastapi-users refuses: if it raises \<open>UserInactive\<close> for inactive accounts, that
  exception reaches the client for an inactive account and for no other address.
\<close>

theorem forgot_password_reveals_inactive:
  assumes "\<And>k. hit env k" "\<And>u. forgot_guard env u = (if is_active u then Inr () else Inl UserInactive)"
    and "dr_audit d \<notin> au_id ` set (audit_log s)"
  shows "fst (forgot_password_proxy env d email s) =
    (case find_by_email env email (users s) of
       Some u \<Rightarrow> if is_active u then Inr AcceptedStatus else Inl UserInactive
     | None \<Rightarrow> Inr AcceptedStatus)"
  using assms by (auto simp: forgot_password_proxy_def check_email_limit_def on_after_forgot_password_def
      audit_user_def audit_record_def split: option.split)

corollary forgot_password_reveals_inactive_witness:
  "fst (forgot_password_proxy demo_env demo_draw ''p@x'' (demo_site [demo_player\<lparr>is_active := False\<rparr>] [])) = Inl UserInactive
   \<and> fst (forgot_password_proxy demo_env demo_draw ''q@x'' (demo_site [demo_player\<lparr>is_active := False\<rparr>] [])) = Inr AcceptedStatus"
  using forgot_password_reveals_inactive [of demo_env demo_draw "demo_site [demo_player\<lparr>is_active := False\<rparr>] []"]
  by (simp add: demo_env_def demo_site_def demo_player_def)

subsection \<open>Passwords\<close>

lemma is_substring_iff: "is_substring t s \<longleftrightarrow> contains s t"
proof (induction s)
  case (Cons c s)
  have "take (length t) (c # s) = t \<longleftrightarrow> (\<exists>post. c # s = t @ post)"
    by (metis append_eq_conv_conj append_take_drop_id)
  then show ?case using Cons by (simp add: contains_def) (metis append_Cons append_Nil list.exhaust list.inject)
qed (auto simp: contains_def)

lemma lower_takeWhile: "takeWhile (\<lambda>c. c \<noteq> CHR ''@'') s = pre \<Longrightarrow> \<exists>post. s = pre @ post"
  by (metis takeWhile_dropWhile_id)

text \<open>
  Outside the demo a password is accepted exactly when it has at least 12 characters, an upper-case
  and a lower-case letter and a digit, and contains, ignoring case, neither the local part of the
  address nor, when that part is empty, the address; in the demo, when it has at least 6 characters.
\<close>

theorem password_policy:
  "validate_password demo pw email = Inr () \<longleftrightarrow>
     (if demo then 6 \<le> length pw
      else 12 \<le> length pw \<and> (\<exists>c \<in> set pw. char_in 65 90 c) \<and> (\<exists>c \<in> set pw. char_in 97 122 c) \<and> (\<exists>c \<in> set pw. is_digit c)
        \<and> (email = [] \<or> \<not> contains (lower pw) (let l = local_part (lower email) in if l = [] then lower email else l)))"
proof -
  have "contains (lower pw) (local_part (lower email))" if c: "contains (lower pw) (lower email)"
  proof -
    obtain post where "lower email = local_part (lower email) @ post"
      using lower_takeWhile unfolding local_part_def by blast
    then show ?thesis using c unfolding contains_def by (metis append.assoc)
  qed
  then show ?thesis
    by (auto simp: validate_password_def is_substring_iff Let_def list_ex_iff not_less)
qed

subsection \<open>Registration\<close>

definition has_wallet :: "uuid \<Rightarrow> 'a ledger_scheme \<Rightarrow> bool" where
  "has_wallet u s \<longleftrightarrow> (\<exists>w. resolve_user_wallet_id u s = Inr w)"

lemma has_wallet_keys: "map acct_key (accounts s') = map acct_key (accounts s) \<Longrightarrow> has_wallet u s' = has_wallet u s"
  unfolding has_wallet_def using resolve_user_wallet_key [of s' s u] by simp

lemma has_wallet_created:
  assumes "create_wallet i u s = Inr (a, s')"
  shows "has_wallet u s'" "v \<noteq> u \<Longrightarrow> has_wallet v s' = has_wallet v s"
proof -
  have acc: "accounts s' = accounts s @ [a]" and a: "owner_type a = OWNER_USER" "owner_id a = Some u"
      "acc_kind a = KIND_USER_WALLET" "currency a = PLAY_USD"
    and none: "\<not> (\<exists>b \<in> set (accounts s). owner_type b = OWNER_USER \<and> owner_id b = Some u
      \<and> acc_kind b = KIND_USER_WALLET \<and> currency b = PLAY_USD)"
    using assms by (auto simp: create_wallet_def insert_account_def Let_def split: if_splits)
  have "filter (\<lambda>a. owner_type a = OWNER_USER \<and> owner_id a = Some u \<and> acc_kind a = KIND_USER_WALLET
      \<and> currency a = PLAY_USD) (accounts s) = []"
    using none by (auto simp: filter_empty_conv)
  then show "has_wallet u s'" using acc a by (simp add: has_wallet_def resolve_user_wallet_id_def)
  show "v \<noteq> u \<Longrightarrow> has_wallet v s' = has_wallet v s"
    using acc a by (simp add: has_wallet_def resolve_user_wallet_id_def)
qed

lemma live_ok_same:
  fixes s s' :: "'a live_db_scheme"
  assumes "same_books s s'" "bets s' = bets s" "live_bets s' = live_bets s" "live_ok s"
  shows "live_ok s'"
proof -
  have "platform_ok s'" using platform_frame [OF assms(1,2)] assms(4) by (simp add: live_ok_def)
  moreover have "escrow_seeded s'" using assms(1,4) by (simp add: live_ok_def escrow_seeded_def same_books_def)
  ultimately show ?thesis
    using assms(3,4) bal_same_books [OF assms(1)] by (simp add: live_ok_def mirrored_stakes_def)
qed

lemma same_books_site [simp]: "same_books s (s\<lparr>users := us\<rparr>)" "same_books s (s\<lparr>refresh_tokens := rs\<rparr>)"
  by (simp_all add: same_books_def)

lemma bonus_keeps:
  fixes s :: "'a site_db_scheme"
  assumes "live_ok s"
  shows "live_ok (try_signup_bonus env d u s) \<and> (\<forall>v. has_wallet v (try_signup_bonus env d u s) = has_wallet v s)"
proof (cases "grant_signup_bonus (dr_bonus d) (dr_now d) (us_id u) (SIGNUP_BONUS_AMOUNT env) s")
  case (Inr x)
  obtain t s' where x: "x = (t, s')" by (rule prod.exhaust)
  have ok: "live_ok s'" using quiet_live_ok [OF quiet_bonus [OF Inr [unfolded x] assms] assms] .
  have "s' = s \<or> map acct_key (accounts s') = map acct_key (accounts s)"
    using Inr x by (auto simp: grant_signup_bonus_def posted_def dest!: or_existing_Inr fund_from_house_Inr posts_keys split: if_splits)
  then show ?thesis using ok Inr x has_wallet_keys by (auto simp: try_signup_bonus_def)
qed (use assms in \<open>simp add: try_signup_bonus_def\<close>)

text \<open>
  C34: registration is atomic and leaves nobody without a wallet.  It adds the user at the end of the
  table together with a wallet of its own, or adds neither; every user who had a wallet still has
  it, the platform's invariants are kept, and a refused registration changes nothing.
\<close>

theorem registration_creates_wallet:
  fixes s s' :: "'a site_db_scheme"
  assumes "create_user env d safe uc s = (r, s')" "live_ok s" "\<forall>u \<in> set (users s). has_wallet (us_id u) s"
  shows "live_ok s' \<and> (\<forall>u \<in> set (users s'). has_wallet (us_id u) s')
    \<and> (case r of
         Inr u \<Rightarrow> users s' = users s @ [u] \<and> us_email u = uc_email uc \<and> banned_at u = None
           \<and> is_superuser u = fst (snd (payload_flags env safe uc))
       | Inl e \<Rightarrow> s' = s \<or> e = Raised (IntegrityError UniqueViolation) \<and> length (users s') = length (users s) + 1)"
proof (cases "create_tx env d safe uc s")
  case (Inl e)
  then show ?thesis using assms by (auto simp: create_user_def)
next
  case (Inr x)
  obtain u s1 where x: "x = (u, s1)" by (rule prod.exhaust)
  obtain s0 w where s0: "insert_user u s = Inr s0" "create_wallet (dr_wallet d) (us_id u) s0 = Inr (w, s1)"
    and u: "us_email u = uc_email uc" "banned_at u = None" "is_superuser u = fst (snd (payload_flags env safe uc))"
    using Inr x by (auto simp: create_tx_def Let_def split: if_splits prod.splits)
  have "s0 = s\<lparr>users := users s @ [u]\<rparr>" and new: "us_id u \<notin> us_id ` set (users s)"
    using s0(1) by (auto simp: insert_user_def split: if_splits)
  then have ok0: "live_ok s0" "users s0 = users s @ [u]" "\<forall>v. has_wallet v s0 = has_wallet v s"
    using live_ok_same [of s s0] assms(2) by (simp_all add: has_wallet_def resolve_user_wallet_id_def)
  have "ledger.more s1 = ledger.more s0"
    using s0(2) by (auto simp: create_wallet_def insert_account_def Let_def split: if_splits)
  then have us1: "users s1 = users s @ [u]" using more_site(1) [of s1 s0] ok0(2) by simp
  have ok1: "live_ok s1" using quiet_live_ok [OF quiet_wallet [OF s0(2)] ok0(1)] ok0(1) by (simp add: live_ok_def)
  have wal1: "\<forall>v \<in> set (users s1). has_wallet (us_id v) s1"
    using has_wallet_created [OF s0(2)] ok0(3) assms(3) us1 new by (auto simp: image_iff)
  show ?thesis
  proof (cases "audit_user (dr_audit d) (dr_now d) u ''auth.guest_created'' (dr_ip d) s1")
    case (Inl e)
    then have "r = Inl (Raised e)" "s' = s1" "e = IntegrityError UniqueViolation"
      using assms(1) Inr x by (auto simp: create_user_def on_after_register_def audit_user_def audit_record_def split: if_splits)
    then show ?thesis using ok1 wal1 us1 by simp
  next
    case (Inr s2)
    have "same_books s1 s2" "bets s2 = bets s1" "live_bets s2 = live_bets s1"
      using Inr by (auto simp: audit_user_def audit_record_Inr)
    then have ok2: "live_ok s2" "\<forall>v. has_wallet v s2 = has_wallet v s1"
      using live_ok_same ok1 by (blast, simp add: has_wallet_def resolve_user_wallet_id_def same_books_def)
    have us2: "users s2 = users s @ [u]" using audit_user_site [OF Inr] us1 by simp
    have r: "r = Inr u" "s' = (if DEMO_MODE env then try_signup_bonus env d u s2 else s2)"
      using assms(1) \<open>create_tx env d safe uc s = Inr x\<close> x Inr by (auto simp: create_user_def on_after_register_def)
    have "live_ok s' \<and> (\<forall>v. has_wallet v s' = has_wallet v s2) \<and> users s' = users s2"
      using r(2) bonus_keeps [OF ok2(1)] ok2(1) by (simp add: bonus_site)
    then show ?thesis using r(1) u us2 us1 ok2(2) wal1 by simp
  qed
qed

corollary registration_creates_wallet_witness:
  "case create_user demo_env demo_draw True \<lparr>uc_email = ''new@x'', uc_password = ''Correct-Horse-9'', uc_display_name = None\<rparr>
      (demo_site [demo_player] []) of
    (r, s') \<Rightarrow> map us_id (users s') = [5, 7] \<and> has_wallet 7 s' \<and> live_ok s'"
proof -
  let ?uc = "\<lparr>uc_email = ''new@x'', uc_password = ''Correct-Horse-9'', uc_display_name = None\<rparr>"
  obtain r s' where c: "create_user demo_env demo_draw True ?uc (demo_site [demo_player] []) = (r, s')"
    by (rule prod.exhaust)
  have "\<forall>u \<in> set (users (demo_site [demo_player] [])). has_wallet (us_id u) (demo_site [demo_player] [])"
    by (simp add: has_wallet_def resolve_user_wallet_id_def demo_site_def demo_live_db_def demo_db_def demo_ledger_def
        demo_account_def demo_player_def)
  note reg = registration_creates_wallet [OF c demo_site_live_ok this]
  have "map us_id (users (snd (create_user demo_env demo_draw True ?uc (demo_site [demo_player] [])))) = [5, 7]"
    by code_simp
  then have "map us_id (users s') = [5, 7]" by (simp only: c snd_conv)
  moreover from this have "has_wallet 7 s'" using reg by auto
  ultimately show ?thesis using reg c by simp
qed

end
