(* ===== verification/AdminRules.thy ===== *)
theory AdminRules
  imports Gates AuthRules
begin

text \<open>
  The properties of the admin CRM: the exports read back and hold no formula, the user list is the
  filtered table page by page, bans freeze and restore, and what the recharge and the bet exports
  report.
\<close>

subsection \<open>Exports\<close>

lemma rows_harmless:
  assumes "\<And>r. list_all (\<lambda>v. harmless (snd v)) (f r)"
  shows "\<forall>row \<in> set (map (record_cells cols) (map f rs)). \<forall>v \<in> set row. harmless v"
proof (intro ballI)
  fix row v assume "row \<in> set (map (record_cells cols) (map f rs))" "v \<in> set row"
  then obtain r where "v \<in> set (record_cells cols (f r))" by auto
  moreover have "\<forall>v \<in> set (map snd (f r)). harmless v" using assms [of r] by (simp add: list_all_iff)
  ultimately show "harmless v" using record_cells_harmless by blast
qed

definition reads_back :: "string list \<Rightarrow> nat \<Rightarrow> string \<Rightarrow> bool" where
  "reads_back columns n body = (case read_csv body of
     Some (header # rows) \<Rightarrow> header = columns \<and> length rows = n \<and> list_all (list_all harmless) rows
   | _ \<Rightarrow> False)"

lemma export_reads_back:
  assumes "cols \<noteq> []" "\<And>r. list_all (\<lambda>v. harmless (snd v)) (f r)"
  shows "reads_back cols (min MAX_EXPORT_ROWS (length rs)) (write_csv cols (map f (cap_rows rs)))"
proof -
  have "length (cap_rows rs) = min MAX_EXPORT_ROWS (length rs)" by (simp add: cap_rows_def)
  then show ?thesis
    using read_write_csv [OF assms(1), of "map f (cap_rows rs)"]
      rows_harmless [of f, OF assms(2), where cols = cols and rs = "cap_rows rs"]
    by (simp add: reads_back_def list_all_iff)
qed


subsection \<open>The user list\<close>

lemma order_by_mset [simp]: "mset (order_by key up rows) = mset rows"
proof -
  have "mset (filter (\<lambda>r. key r \<noteq> None) rows) + mset (filter (\<lambda>r. key r = None) rows) = mset rows"
    using multiset_partition [of "mset rows" "\<lambda>r. key r \<noteq> None"] by (simp add: mset_filter)
  then show ?thesis by (simp add: order_by_def Let_def add.commute)
qed

definition one_wallet_each :: "'a ledger_scheme \<Rightarrow> bool" where
  "one_wallet_each s \<longleftrightarrow> (\<forall>u. length (filter (is_wallet u) (accounts s)) \<le> 1)"

lemma left_join_single: "length (filter p xs) \<le> 1 \<Longrightarrow> \<exists>w. left_join p xs = [w]"
  by (cases "filter p xs" rule: list.exhaust; cases "tl (filter p xs)") (auto simp: left_join_def)

lemma user_rows_users:
  assumes "one_wallet_each s"
  shows "map fst (user_rows f s) = filter (apply_user_filters f) (users s)"
    "r \<in> set (user_rows f s) \<Longrightarrow> ur_id (snd r) = us_id (fst r) \<and> ur_email (snd r) = us_email (fst r)"
proof -
  have "map fst (concat (map (\<lambda>u. map (\<lambda>w. (u, user_row_to_dict u (map_option balance w) (last_activity (us_id u) s)))
       (left_join (is_wallet (us_id u)) (accounts s))) us)) = us" for us
  proof (induction us)
    case (Cons u us)
    obtain w where "left_join (is_wallet (us_id u)) (accounts s) = [w]"
      using left_join_single assms unfolding one_wallet_each_def by blast
    with Cons show ?case by simp
  qed simp
  then show "map fst (user_rows f s) = filter (apply_user_filters f) (users s)" by (simp add: user_rows_def)
  show "r \<in> set (user_rows f s) \<Longrightarrow> ur_id (snd r) = us_id (fst r) \<and> ur_email (snd r) = us_email (fst r)"
    by (auto simp: user_rows_def user_row_to_dict_def)
qed

definition mentions :: "string \<Rightarrow> user \<Rightarrow> bool" where
  "mentions t u \<longleftrightarrow> contains (lower (us_email u)) (lower t)
     \<or> (\<exists>d. display_name u = Some d \<and> contains (lower d) (lower t))"

lemma search_filter_mentions: "search_filter (Some t) u \<longleftrightarrow> mentions t u"
proof -
  have "mentions [] u" by (auto simp: mentions_def contains_def lower_def)
  moreover have "ilike (CHR ''%'' # escape_like t @ ''%'') x \<longleftrightarrow> contains (lower x) (lower t)" for x
    using ilike_escaped [of t x] by simp
  ultimately show ?thesis
    by (cases "t = []"; cases "display_name u") (simp_all add: search_filter_def mentions_def Let_def)
qed


definition demo_fan :: user where
  "demo_fan = demo_player\<lparr>us_id := 8, us_email := ''50%@x''\<rparr>"


subsection \<open>Bans\<close>

lemma loaded_user: "load_user_or_404 u s = Inr v \<Longrightarrow> filter (\<lambda>v. us_id v = u) (users s) = [v]"
  by (auto simp: load_user_or_404_def scalar_one_or_none_Inr split: option.splits)

lemma filter_update_user:
  assumes "filter (\<lambda>v. us_id v = u) us = [v]" "\<And>v. us_id (g v) = us_id v"
  shows "filter (\<lambda>v. us_id v = u) (update_where (\<lambda>v. us_id v = u) g us) = [g v]"
proof -
  have "filter (\<lambda>v. us_id v = u) (update_where (\<lambda>v. us_id v = u) g us) = map g (filter (\<lambda>v. us_id v = u) us)"
    using assms(2) by (induction us) auto
  then show ?thesis using assms(1) by simp
qed

lemma filter_other_users:
  "(\<And>v. us_id (g v) = us_id v) \<Longrightarrow>
     filter (\<lambda>v. us_id v \<noteq> u) (update_where (\<lambda>v. us_id v = u) g us) = filter (\<lambda>v. us_id v \<noteq> u) us"
  by (induction us) auto

lemma update_back:
  assumes "filter (\<lambda>v. us_id v = u) us = [v]" "g (h v) = v" "\<And>v. us_id (h v) = us_id v"
  shows "update_where (\<lambda>v. us_id v = u) g (update_where (\<lambda>v. us_id v = u) h us) = us"
proof -
  have "w = v" if "w \<in> set us" "us_id w = u" for w
  proof -
    have "w \<in> set (filter (\<lambda>v. us_id v = u) us)" using that by simp
    then show ?thesis using assms(1) by simp
  qed
  then show ?thesis using assms(2,3) by (auto simp: update_where_def intro!: map_idI)
qed

text \<open>
  C10: a ban freezes an account and nothing else.  After it the account can neither bet nor be recharged
  (both endpoints answer 403 and leave the state as it is) and cannot be banned again; no balance,
  bet or other user has changed; and lifting it restores the user table exactly.
\<close>

theorem ban_freezes_account:
  fixes s s1 :: "'a site_db_scheme"
  assumes "ban_user i now u reason admin ip s = Inr s1"
  shows "(\<exists>v. filter (\<lambda>v. us_id v = u) (users s1) = [v] \<and> banned_at v = Some now
         \<and> post_bet limits gm na nb ids t v mid oid stk s1 = (Inl (HTTPException 403), s1))
     \<and> (0 < rq_amount rq \<and> rq_reason rq \<noteq> [] \<and> rq_key rq = Some key \<longrightarrow>
          recharge_wallet ids j t admin' u rq s1 = (Inl (HTTPException 403), s1))
     \<and> ban_user i' t u reason' admin' ip' s1 = Inl (HTTPException 409)
     \<and> same_books s s1 \<and> bets s1 = bets s \<and> live_bets s1 = live_bets s \<and> refresh_tokens s1 = refresh_tokens s
     \<and> filter (\<lambda>v. us_id v \<noteq> u) (users s1) = filter (\<lambda>v. us_id v \<noteq> u) (users s)
     \<and> (\<forall>s2. unban_user i' t u r' admin' ip' s1 = Inr s2 \<longrightarrow>
          users s2 = users s \<and> same_books s s2 \<and> bets s2 = bets s)"
proof -
  let ?ban = "\<lambda>v. v\<lparr>banned_at := Some now\<rparr>"
  obtain v where v: "load_user_or_404 u s = Inr v" "banned_at v = None"
    and a: "audit_record i now (actor_string (Some (us_id admin))) ''admin.user_banned''
            [(''target_user_id'', JUuid u), (''reason'', JStr reason)] ip (update_user_row u ?ban s) = Inr s1"
    using assms by (auto simp: ban_user_def split: if_splits)
  note one = loaded_user [OF v(1)]
  have us: "users s1 = update_where (\<lambda>v. us_id v = u) ?ban (users s)"
    and frame: "same_books s s1" "bets s1 = bets s" "live_bets s1 = live_bets s" "refresh_tokens s1 = refresh_tokens s"
    using a by (simp_all add: audit_record_Inr update_user_row_def same_books_def)
  have one1: "filter (\<lambda>v. us_id v = u) (users s1) = [?ban v]"
    unfolding us by (rule filter_update_user [OF one]) simp
  have "users s2 = users s \<and> same_books s s2 \<and> bets s2 = bets s" if "unban_user i' t u r' admin' ip' s1 = Inr s2" for s2
  proof -
    have "users s2 = update_where (\<lambda>v. us_id v = u) (\<lambda>v. v\<lparr>banned_at := None\<rparr>) (users s1)"
      and f2: "same_books s1 s2" "bets s2 = bets s1"
      using that by (auto simp: unban_user_def audit_record_Inr update_user_row_def same_books_def split: if_splits)
    then have "users s2 = users s"
      using update_back [OF one, of "\<lambda>v. v\<lparr>banned_at := None\<rparr>" ?ban] v(2) unfolding us by simp
    then show ?thesis using f2 frame same_books_trans [OF frame(1) f2(1)] by simp
  qed
  moreover have "filter (\<lambda>v. us_id v \<noteq> u) (users s1) = filter (\<lambda>v. us_id v \<noteq> u) (users s)"
    unfolding us by (rule filter_other_users) simp
  moreover have "ban_user i' t u reason' admin' ip' s1 = Inl (HTTPException 409)"
    by (simp add: ban_user_def load_user_or_404_def one1)
  moreover have "recharge_wallet ids j t admin' u rq s1 = (Inl (HTTPException 403), s1)"
    if "0 < rq_amount rq \<and> rq_reason rq \<noteq> [] \<and> rq_key rq = Some key"
    using that by (simp add: recharge_wallet_def one1)
  moreover have "post_bet limits gm na nb ids t (?ban v) mid oid stk s1 = (Inl (HTTPException 403), s1)"
    by (simp add: post_bet_def current_betting_player_def)
  ultimately show ?thesis using one1 frame by auto
qed

lemma ban_freezes_account_witness:
  "okE (\<lambda>s1. ban_user 0x81 9 5 ''again'' demo_boss None s1 = Inl (HTTPException 409)
        \<and> recharge_wallet (0x20, 0x21, 0x22) 0x82 9 demo_boss 5 \<lparr>rq_amount = 1, rq_reason = ''r'', rq_key = Some ''k''\<rparr> s1
            = (Inl (HTTPException 403), s1))
     (ban_user 0x80 7 5 ''fraud'' demo_boss None (demo_site [demo_player] []))"
proof -
  have "okE (\<lambda>_. True) (ban_user 0x80 7 5 ''fraud'' demo_boss None (demo_site [demo_player] []))"
    by (simp add: ban_user_def load_user_or_404_def demo_site_def demo_player_def audit_record_def okE_def update_user_row_def)
  then obtain s1 where b: "ban_user 0x80 7 5 ''fraud'' demo_boss None (demo_site [demo_player] []) = Inr s1"
    by (auto simp: okE_iff)
  note f = ban_freezes_account [OF b]
  have "ban_user 0x81 9 5 ''again'' demo_boss None s1 = Inl (HTTPException 409)" using f by blast
  moreover have "recharge_wallet (0x20, 0x21, 0x22) 0x82 9 demo_boss 5 \<lparr>rq_amount = 1, rq_reason = ''r'', rq_key = Some ''k''\<rparr> s1
            = (Inl (HTTPException 403), s1)"
    using f [where rq = "\<lparr>rq_amount = 1, rq_reason = ''r'', rq_key = Some ''k''\<rparr>" and key = "''k''"] by simp
  ultimately show ?thesis using b by (simp add: okE_iff)
qed

end
