(* ===== verification/GateRules.thy ===== *)
theory GateRules
  imports AdminRules
begin

text \<open>
  What the money endpoints and the admin views report where they differ from what happened: the replay of
  a recharge, the export of a closed bet, and the mirrored bets of a banned player.
\<close>

text \<open>
  C37: a replayed recharge reports an amount it did not pay.  Whatever amount and whichever unbanned user
  a request names, if its key belongs to an earlier transfer, the endpoint answers success with that
  transfer's id and the requested amount, writes an audit row, and moves no money.
\<close>

theorem recharge_replay_reports_request:
  fixes s :: "'a site_db_scheme"
  assumes "ledger_wf s" "t \<in> set (transfers s)" "idempotency_key t = Some key"
    and "filter (\<lambda>v. us_id v = u) (users s) = [v]" "banned_at v = None" "resolve_user_wallet_id u s = Inr w"
    and "rq_key rq = Some key" "0 < rq_amount rq" "rq_reason rq \<noteq> []" "i \<notin> au_id ` set (audit_log s)"
  shows "\<exists>s'. recharge_wallet ids i now admin u rq s =
       (Inr \<lparr>rr_transfer_id = tr_id t, rr_amount = rq_amount rq, idempotent_replay = True\<rparr>, s')
     \<and> same_books s s' \<and> length (audit_log s') = Suc (length (audit_log s))"
proof -
  have "recharge ids now u (rq_amount rq) (rq_reason rq) key PROVIDER_HOUSE s = Inr (t, s)"
    using fund_from_house_replay [OF assms(6,2,3)] or_existing_replay [OF assms(1-3)] assms(8) by (simp add: recharge_def)
  then show ?thesis
    using assms key_row_unique [OF assms(1-3)] by (simp add: recharge_wallet_def map_error_def audit_record_def)
qed

text \<open>
  The admin views call every early close a total loss.  After a close that pays the player, the bet's
  profit and loss in the admin list and in the export is minus the whole stake, although the player
  realised the payout minus the stake.
\<close>

theorem closed_bet_exported_as_loss:
  fixes s s' :: "'a site_db_scheme"
  assumes "post_sell get_market gen now i player s = Inr (cr, s')" "platform_ok s"
  shows "\<exists>b. filter (\<lambda>b. bet_id b = i) (bets s') = [b] \<and> bet_status b = BET_CLOSED
     \<and> bet_pnl b = Inr (Some (- stake b)) \<and> cr_pnl cr = cr_payout cr - stake b"
proof -
  have sold: "sell_position get_market gen now i (us_id player) s = Inr (cr, s')"
    using assms(1) by (auto simp: post_sell_def map_error_def split: sum.splits)
  obtain b0 x where b: "b0 \<in> set (bets s)" "bet_id b0 = i"
     "bets s' = update_where (\<lambda>b. bet_id b = i)
         (\<lambda>b. b\<lparr>bet_status := BET_CLOSED, bet_closed_at := Some now, exit_odds := Some x\<rparr>) (bets s)"
     "cr_pnl cr = cr_payout cr - stake b0" "platform_ok s'"
    using sell_position_posted [OF sold assms(2)] by blast
  let ?b = "b0\<lparr>bet_status := BET_CLOSED, bet_closed_at := Some now, exit_odds := Some x\<rparr>"
  have mem: "?b \<in> set (bets s')" using b(1,2) unfolding b(3) by (force simp: set_update_where)
  have ok: "bets_ok s'" using b(5) by (simp add: platform_ok_def)
  then have "filter (\<lambda>b. bet_id b = i) (bets s') = [?b]"
    using filter_key_distinct [of bet_id "bets s'" ?b] mem b(2) by (simp add: bets_ok_def)
  moreover have "bet_pnl ?b = Inr (Some (- stake b0))"
  proof -
    have st: "is_money (stake b0)" "0 < stake b0" using ok mem by (auto simp: bets_ok_def)
    then have q: "is_quantum (stake b0)" "\<bar>0 - stake b0\<bar> < 10 ^ 21"
      by (auto simp: is_money_quantum is_money_def)
    have z: "is_quantum 0" by (simp add: is_quantum_def)
    show ?thesis
      using profit_or_loss_exact [OF z q] by (simp add: bet_pnl_def quantize_money_quantum [OF z])
  qed
  ultimately show ?thesis using b(4) by simp
qed

text \<open>
  A ban does not stop mirrored bets.  A banned player is refused by the bet endpoint, yet a placement
  through the live-bets bridge still takes the stake out of his wallet.
\<close>

theorem banned_player_places_livebets:
  fixes s s' :: "'a site_db_scheme"
  assumes "post_placed limits client ids now (us_id player) b t s = Inr (r, s')" "applied r" "live_ok s"
    and "banned_at player \<noteq> None"
  shows "\<exists>w m. resolve_user_wallet_id (us_id player) s = Inr w \<and> 0 < m \<and> bal s' w = bal s w - m
     \<and> post_bet limits2 gm na nb ids2 now player mid oid stk s = (Inl (HTTPException 403), s)"
proof -
  have "record_placed limits client ids now (us_id player) b t s = Inr (r, s')"
    using assms(1) by (auto simp: post_placed_def map_error_def split: sum.splits)
  then obtain v where "placed_tx ids now (us_id player) b t v s = Inr (r, s')" by (rule record_placed_Inr)
  then obtain w m tr where p: "resolve_user_wallet_id (us_id player) s = Inr w" "0 < m"
      "posted TRANSFER_LIVEBETS_PLACED (Some (livebets_key b ''placed'')) w LIVEBETS_ESCROW_ACCOUNT_ID m tr s s'"
    using assms(2) by (cases rule: placed_tx_cases) auto
  have wf: "ledger_wf s" using assms(3) by (simp add: live_ok_def platform_wf)
  have "w \<noteq> LIVEBETS_ESCROW_ACCOUNT_ID"
  proof -
    obtain a where "a \<in> set (accounts s)" "acc_id a = LIVEBETS_ESCROW_ACCOUNT_ID" "owner_type a = OWNER_SYSTEM"
      using assms(3) by (auto simp: live_ok_def escrow_seeded_def)
    then show ?thesis using wallet_not_system [OF wf p(1), of a] by simp
  qed
  then have "bal s' w = bal s w - m" using posted_bal [OF p(3) wf, of w] by simp
  then show ?thesis using p(1,2) assms(4) by (auto simp: post_bet_def current_betting_player_def)
qed

subsection \<open>Samples\<close>

lemma recharge_replay_reports_request_witness:
  "\<exists>s'. recharge_wallet (0x20, 0x21, 0x22) 0x80 9 demo_boss 5
       \<lparr>rq_amount = 1000, rq_reason = ''r'', rq_key = Some ''k''\<rparr>
       ((demo_site [demo_player] [])\<lparr>transfers := [demo_transfer 0x40 TRANSFER_RECHARGE (Some ''k'') None [] 0], entries := []\<rparr>)
     = (Inr \<lparr>rr_transfer_id = 0x40, rr_amount = 1000, idempotent_replay = True\<rparr>, s')"
proof -
  let ?t = "demo_transfer 0x40 TRANSFER_RECHARGE (Some ''k'') None [] 0"
  let ?s = "(demo_site [demo_player] [])\<lparr>transfers := [?t], entries := []\<rparr>"
  have "ledger_wf (demo_site [demo_player] [])" using demo_site_live_ok by (simp add: live_ok_def platform_wf)
  then have wf: "ledger_wf ?s" by (simp add: ledger_wf_def)
  have t: "tr_id ?t = 0x40" "idempotency_key ?t = Some ''k''" by (simp_all add: demo_transfer_def)
  have "resolve_user_wallet_id 5 (demo_site [demo_player] []) = Inr 1"
    by (simp add: resolve_user_wallet_id_def demo_site_def demo_live_db_def demo_db_def demo_ledger_def demo_account_def)
  then have w: "resolve_user_wallet_id 5 ?s = Inr 1" by (simp add: resolve_user_wallet_id_def)
  show ?thesis
    using recharge_replay_reports_request [OF wf _ t(2) _ _ w, where v = demo_player and i = "0x80" and now = 9
        and rq = "\<lparr>rq_amount = 1000, rq_reason = ''r'', rq_key = Some ''k''\<rparr>" and admin = demo_boss and ids = "(0x20, 0x21, 0x22)"]
    by (auto simp: demo_site_def demo_player_def t)
qed

definition banned_player :: user where
  "banned_player = demo_player\<lparr>banned_at := Some 1\<rparr>"

lemma banned_player_places_livebets_witness:
  "okE (\<lambda>(r, s'). \<exists>w m. 0 < m \<and> bal s' w = bal (demo_site [banned_player] []) w - m)
     (post_placed demo_limits (demo_client LIVEBETS_PENDING 25 JNull) (0x20, 0x21, 0x22) 10 5 0x77 None (demo_site [banned_player] []))"
proof -
  let ?p = "post_placed demo_limits (demo_client LIVEBETS_PENDING 25 JNull) (0x20, 0x21, 0x22) 10 5 0x77 None (demo_site [banned_player] [])"
  have "okE (\<lambda>(r, s'). applied r) ?p" by code_simp
  then obtain r s' where p: "?p = Inr (r, s')" "applied r" by (auto simp: okE_iff)
  have "us_id banned_player = 5" "banned_at banned_player \<noteq> None" by (simp_all add: banned_player_def demo_player_def)
  from banned_player_places_livebets [OF _ p(2) demo_site_live_ok this(2), of demo_limits] p(1) this(1)
  have "\<exists>w m. 0 < m \<and> bal s' w = bal (demo_site [banned_player] []) w - m" by metis
  then show ?thesis using p(1) by (simp add: okE_iff)
qed

definition demo_bet_site :: site_db where
  "demo_bet_site = \<lparr>accounts = accounts demo_bet_db, transfers = transfers demo_bet_db, entries = entries demo_bet_db,
     row_locks = [], audit_log = [], markets = markets demo_bet_db, market_groups = [], outcomes = outcomes demo_bet_db,
     odds_snapshots = [], bets = bets demo_bet_db, live_bets = [], users = [demo_player], refresh_tokens = []\<rparr>"

lemma demo_bet_site_ok: "platform_ok demo_bet_site"
proof -
  have b: "accounts demo_bet_site = accounts demo_bet_db" "transfers demo_bet_site = transfers demo_bet_db"
    "entries demo_bet_site = entries demo_bet_db" "bets demo_bet_site = bets demo_bet_db"
    by (simp_all add: demo_bet_site_def)
  then have "bal demo_bet_site = bal demo_bet_db" by (simp add: bal_def fun_eq_iff)
  then show ?thesis
    using demo_bet_db_ok b
    by (simp add: platform_ok_def books_ok_def house_seeded_def liability_ids_def bets_ok_def pool_ok_def
        liability_balance_def pending_bets_def ledger_wf_def reconciled_except_def double_entry_def)
qed

lemma closed_bet_exported_as_loss_witness:
  "okE (\<lambda>(cr, s'). \<exists>b. bets s' = [b] \<and> bet_pnl b = Inr (Some (- stake b)) \<and> 0 < cr_payout cr)
     (post_sell house_get_market (demo_gen 0x100) 20 0x50 demo_player demo_bet_site)"
proof -
  have "okE (\<lambda>(cr, s'). 0 < cr_payout cr \<and> length (bets s') = 1)
      (post_sell house_get_market (demo_gen 0x100) 20 0x50 demo_player demo_bet_site)"
    by code_simp
  then obtain cr s' where c: "post_sell house_get_market (demo_gen 0x100) 20 0x50 demo_player demo_bet_site = Inr (cr, s')"
    and n: "0 < cr_payout cr" "length (bets s') = 1"
    by (auto simp: okE_iff)
  obtain b where b: "filter (\<lambda>b. bet_id b = 0x50) (bets s') = [b]" "bet_pnl b = Inr (Some (- stake b))"
    using closed_bet_exported_as_loss [OF c demo_bet_site_ok] by blast
  obtain b1 where "bets s' = [b1]" using n(2) by (auto simp: length_Suc_conv)
  then have "bets s' = [b]" using b(1) by (simp split: if_splits)
  then show ?thesis using c n(1) b(2) by (simp add: okE_iff)
qed

end
