(* ===== verification/Kpi.thy ===== *)
theory Kpi
  imports Reversal Text
begin

text \<open>
  The dashboard figures of \<open>admin/kpi_service.py\<close>: sums and counts over the ledger, the bets, the markets
  and the audit log.  Timestamps are microseconds in UTC, which is also the time zone \<open>date_trunc\<close>
  truncates in.
\<close>

subsection \<open>House profit and loss\<close>

definition PNL_KINDS :: "string list" where
  "PNL_KINDS = [TRANSFER_SETTLE_LOSS, TRANSFER_REVERSE_LOSS, TRANSFER_SETTLE_WINNINGS, TRANSFER_REVERSE_WINNINGS]"

definition revenue_case :: "transfer \<Rightarrow> entry \<Rightarrow> rat" where
  "revenue_case t e =
     (if tr_kind t = TRANSFER_SETTLE_LOSS \<and> en_account e = HOUSE_REVENUE_ACCOUNT_ID \<and> direction e = Credit then amount e
      else if tr_kind t = TRANSFER_REVERSE_LOSS \<and> en_account e = HOUSE_REVENUE_ACCOUNT_ID \<and> direction e = Debit
        then - amount e
      else 0)"

definition expense_case :: "transfer \<Rightarrow> entry \<Rightarrow> rat" where
  "expense_case t e =
     (if tr_kind t = TRANSFER_SETTLE_WINNINGS \<and> en_account e = HOUSE_PROMO_ACCOUNT_ID \<and> direction e = Debit then amount e
      else if tr_kind t = TRANSFER_REVERSE_WINNINGS \<and> en_account e = HOUSE_PROMO_ACCOUNT_ID \<and> direction e = Credit
        then - amount e
      else 0)"

definition in_window :: "int option \<Rightarrow> int option \<Rightarrow> int \<Rightarrow> bool" where
  "in_window lo hi t \<longleftrightarrow> (case lo of None \<Rightarrow> True | Some l \<Rightarrow> l \<le> t) \<and> (case hi of None \<Rightarrow> True | Some h \<Rightarrow> t < h)"

definition pnl_rows :: "int option \<Rightarrow> int option \<Rightarrow> 'a ledger_scheme \<Rightarrow> (transfer \<times> entry) list" where
  "pnl_rows lo hi s = concat (map (\<lambda>e. map (\<lambda>t. (t, e))
       (filter (\<lambda>t. tr_id t = en_transfer e \<and> tr_kind t \<in> set PNL_KINDS) (transfers s)))
     (filter (\<lambda>e. in_window lo hi (en_created_at e)) (entries s)))"

definition house_pnl :: "int option \<Rightarrow> int option \<Rightarrow> 'a ledger_scheme \<Rightarrow> rat" where
  "house_pnl lo hi s = (\<Sum>(t, e) \<leftarrow> pnl_rows lo hi s. revenue_case t e) - (\<Sum>(t, e) \<leftarrow> pnl_rows lo hi s. expense_case t e)"

subsection \<open>Active users\<close>

text \<open>
  The regular expression on the actor, and the cast of a text to \<open>uuid\<close>: 16 pairs of hexadecimal
  digits, with an optional hyphen after every second pair.
\<close>

definition is_hex :: "char \<Rightarrow> bool" where
  "is_hex c \<longleftrightarrow> hex_val c \<noteq> None"

definition is_user_actor :: "string \<Rightarrow> bool" where
  "is_user_actor a \<longleftrightarrow> take 5 a = ''user:'' \<and> length a = 41 \<and> list_all (\<lambda>c. is_hex c \<or> c = CHR ''-'') (drop 5 a)"

fun pg_hex :: "nat \<Rightarrow> string \<Rightarrow> string option" where
  "pg_hex 0 r = (if r = [] then Some [] else None)"
| "pg_hex (Suc n) (a # b # r) =
     (if is_hex a \<and> is_hex b
      then map_option (\<lambda>h. a # b # h) (pg_hex n (if even n \<and> 0 < n \<and> take 1 r = ''-'' then tl r else r))
      else None)"
| "pg_hex (Suc n) r = None"

definition cast_uuid :: "string \<Rightarrow> uuid result" where
  "cast_uuid x = (case Option.bind (pg_hex 16 x) (hex_digits 0) of None \<Rightarrow> Inl DataError | Some n \<Rightarrow> Inr (of_nat n))"

definition HOUR :: int where
  "HOUR = 3600000000"

definition bettors :: "int \<Rightarrow> 'a db_scheme \<Rightarrow> uuid list" where
  "bettors lo s = map bet_user_id (filter (\<lambda>b. lo \<le> bet_created_at b) (bets s))"

definition login_rows :: "int \<Rightarrow> 'a db_scheme \<Rightarrow> audit_row list" where
  "login_rows lo s = filter (\<lambda>r. event_type r = ''auth.session_started'' \<and> lo \<le> occurred_at r
     \<and> is_user_actor (au_actor r)) (audit_log s)"

definition dau :: "int \<Rightarrow> int \<Rightarrow> 'a db_scheme \<Rightarrow> nat result" where
  "dau now hours s = (let lo = now - hours * HOUR in
     bindE (mapE (\<lambda>r. cast_uuid (drop 5 (au_actor r))) (login_rows lo s)) (\<lambda>logins.
     Inr (length (remdups (bettors lo s @ logins)))))"

subsection \<open>Markets and volume\<close>

definition active_markets :: "'a db_scheme \<Rightarrow> nat" where
  "active_markets s = length (filter (\<lambda>m. mk_status m = OPEN) (markets s))"

definition pending_resolutions :: "int \<Rightarrow> 'a db_scheme \<Rightarrow> nat" where
  "pending_resolutions now s =
     length (filter (\<lambda>m. deadline m < now \<and> mk_status m \<notin> {RESOLVED, CANCELLED, DRAFT}) (markets s))"

definition stake_volume :: "int \<Rightarrow> 'a db_scheme \<Rightarrow> rat" where
  "stake_volume lo s = sum_list (map stake (filter (\<lambda>b. lo \<le> bet_created_at b) (bets s)))"

definition volume_of_24h :: "int \<Rightarrow> 'a db_scheme \<Rightarrow> rat" where
  "volume_of_24h now s = stake_volume (now - 24 * HOUR) s"

definition trunc_day :: "int \<Rightarrow> int" where
  "trunc_day t = t - t mod (24 * HOUR)"

definition daily_volume_buckets :: "int \<Rightarrow> int \<Rightarrow> 'a db_scheme \<Rightarrow> (int \<times> rat) list" where
  "daily_volume_buckets now hours s =
     (let recent = filter (\<lambda>b. now - hours * HOUR \<le> bet_created_at b) (bets s);
          day = (\<lambda>b. trunc_day (bet_created_at b))
      in map (\<lambda>d. (d, sum_list (map stake (filter (\<lambda>b. day b = d) recent)))) (sort (remdups (map day recent))))"

definition window_to_hours :: "string \<Rightarrow> int result" where
  "window_to_hours w = (if w = ''24h'' then Inr 24 else if w = ''7d'' then Inr 168
     else if w = ''30d'' then Inr 720 else Inl KeyError)"

record kpi_aggregates =
  kpi_volume :: rat
  kpi_users :: nat
  kpi_active :: nat
  kpi_pending :: nat
  kpi_pnl_today :: rat
  kpi_pnl_cumulative :: rat
  kpi_buckets :: "(int \<times> rat) list"

definition get_kpis :: "int \<Rightarrow> string \<Rightarrow> 'a db_scheme \<Rightarrow> kpi_aggregates result" where
  "get_kpis now window s = bindE (window_to_hours window) (\<lambda>hours. bindE (dau now hours s) (\<lambda>active.
     Inr \<lparr>kpi_volume = volume_of_24h now s, kpi_users = active, kpi_active = active_markets s,
          kpi_pending = pending_resolutions now s, kpi_pnl_today = house_pnl (Some (trunc_day now)) (Some now) s,
          kpi_pnl_cumulative = house_pnl None None s, kpi_buckets = daily_volume_buckets now hours s\<rparr>))"

text \<open>The endpoint: the window defaults to \<open>24h\<close>; an unknown one is refused before the service runs.\<close>

definition get_dashboard_kpis :: "int \<Rightarrow> string option \<Rightarrow> 'a db_scheme \<Rightarrow> kpi_aggregates result" where
  "get_dashboard_kpis now window s = (let w = (case window of None \<Rightarrow> ''24h'' | Some w \<Rightarrow> w) in
     if w \<notin> {''24h'', ''7d'', ''30d''} then Inl (HTTPException 422) else get_kpis now w s)"

end
