(* ===== verification/KpiRules.thy ===== *)
theory KpiRules
  imports Kpi
begin

text \<open>
  What the dashboard figures mean: the profit and loss card is the change of the two house accounts
  over settlements and reversals and blind to early closes; the count of active users never
  fails on the rows the services write; the buckets partition the volume of their window.
\<close>

subsection \<open>Profit and loss of one posting\<close>

abbreviation pnl :: "'a ledger_scheme \<Rightarrow> rat" where
  "pnl \<equiv> house_pnl None None"

definition kind_pnl :: "string \<Rightarrow> uuid \<Rightarrow> uuid \<Rightarrow> rat \<Rightarrow> rat" where
  "kind_pnl k da ca m =
     (if k = TRANSFER_SETTLE_LOSS \<and> ca = HOUSE_REVENUE_ACCOUNT_ID then m else 0)
   - (if k = TRANSFER_REVERSE_LOSS \<and> da = HOUSE_REVENUE_ACCOUNT_ID then m else 0)
   - (if k = TRANSFER_SETTLE_WINNINGS \<and> da = HOUSE_PROMO_ACCOUNT_ID then m else 0)
   + (if k = TRANSFER_REVERSE_WINNINGS \<and> ca = HOUSE_PROMO_ACCOUNT_ID then m else 0)"

definition spec_pnl :: "transfer_spec \<Rightarrow> rat" where
  "spec_pnl sp = kind_pnl (fst sp) (spec_debit sp) (spec_credit sp) (spec_amount sp)"

lemma pnl_rows_posts:
  assumes "posts t d c s s'" "ledger_wf s"
  shows "pnl_rows None None s' = pnl_rows None None s @ (if tr_kind t \<in> set PNL_KINDS then [(t, d), (t, c)] else [])"
proof -
  have p: "transfers s' = transfers s @ [t]" "entries s' = entries s @ [d, c]" "en_transfer d = tr_id t"
    "en_transfer c = tr_id t" "tr_id t \<notin> tr_id ` set (transfers s)"
    using assms(1) by (simp_all add: posts_def)
  have old: "filter (\<lambda>r. tr_id r = en_transfer e \<and> tr_kind r \<in> set PNL_KINDS) (transfers s')
      = filter (\<lambda>r. tr_id r = en_transfer e \<and> tr_kind r \<in> set PNL_KINDS) (transfers s)" if "e \<in> set (entries s)" for e
  proof -
    have "en_transfer e \<in> tr_id ` set (transfers s)" using assms(2) that by (auto simp: ledger_wf_def)
    with p(5) show ?thesis by (auto simp: p(1))
  qed
  have new: "filter (\<lambda>r. tr_id r = tr_id t \<and> tr_kind r \<in> set PNL_KINDS) (transfers s')
      = (if tr_kind t \<in> set PNL_KINDS then [t] else [])"
    using key_fresh [OF p(5)] by (auto simp: p(1) filter_empty_conv)
  have "pnl_rows None None s' = concat (map (\<lambda>e. map (\<lambda>t. (t, e))
       (filter (\<lambda>r. tr_id r = en_transfer e \<and> tr_kind r \<in> set PNL_KINDS) (transfers s'))) (entries s @ [d, c]))"
    by (simp add: pnl_rows_def in_window_def p(2))
  also have "\<dots> = pnl_rows None None s @ (if tr_kind t \<in> set PNL_KINDS then [(t, d), (t, c)] else [])"
    using old new by (simp add: pnl_rows_def in_window_def p(3,4) cong: map_cong)
  finally show ?thesis .
qed

lemma pnl_posts:
  assumes "posts t d c s s'" "ledger_wf s"
  shows "pnl s' = pnl s + kind_pnl (tr_kind t) (en_account d) (en_account c) (amount d)"
proof -
  have "direction d = Debit" "direction c = Credit" "amount c = amount d" using assms(1) by (simp_all add: posts_def)
  then show ?thesis
    by (simp add: house_pnl_def pnl_rows_posts [OF assms] kind_pnl_def revenue_case_def expense_case_def PNL_KINDS_def)
qed

lemma pnl_same_books: "same_books s s' \<Longrightarrow> house_pnl lo hi s' = house_pnl lo hi s"
  by (simp add: house_pnl_def pnl_rows_def same_books_def)

lemma pnl_loop:
  assumes "foldE (post_spec key gen now actor mid) (enumerate n specs) s = Inr s'" "ledger_wf s"
  shows "pnl s' = pnl s + (\<Sum>sp\<leftarrow>specs. spec_pnl (cast_spec sp))"
  using assms
proof (induction specs arbitrary: n s)
  case (Cons sp specs)
  obtain s1 where s1: "post_spec key gen now actor mid (n, sp) s = Inr s1"
    "foldE (post_spec key gen now actor mid) (enumerate (Suc n) specs) s1 = Inr s'"
    using Cons.prems(1) by auto
  obtain t m where m: "numeric_18_4 (spec_amount sp) = Inr m"
    and p: "posted (fst sp) (Some (spec_key key sp)) (spec_debit sp) (spec_credit sp) m t s s1"
    using post_spec_posted [OF s1(1)] by blast
  obtain d c where dc: "posts t d c s s1" "en_account d = spec_debit sp" "en_account c = spec_credit sp"
    "amount d = m" "tr_kind t = fst sp"
    using p by (auto simp: posted_def)
  have "m = cast_amount (spec_amount sp)" using m by (simp add: cast_amount_def)
  with pnl_posts [OF dc(1) Cons.prems(2)] dc(2-5) have "pnl s1 = pnl s + spec_pnl (cast_spec sp)"
    by (simp add: spec_pnl_def)
  with Cons.IH [OF s1(2) posted_wf [OF p Cons.prems(2)]] show ?case by simp
qed simp

lemma pnl_post_specs:
  assumes "post_specs key gen now actor mid specs u = Inr s'" "same_books s u" "ledger_wf s"
  shows "pnl s' = pnl s + (\<Sum>sp\<leftarrow>specs. spec_pnl (cast_spec sp))"
  using pnl_loop [OF assms(1) [unfolded post_specs_def]] assms(3) pnl_same_books [OF assms(2)]
  by (simp add: same_books_wf [OF assms(2)])

subsection \<open>Settlement legs move the card as they move the house\<close>

definition house_balance :: "'a ledger_scheme \<Rightarrow> rat" where
  "house_balance s = bal s HOUSE_REVENUE_ACCOUNT_ID + bal s HOUSE_PROMO_ACCOUNT_ID"

definition booked :: "transfer_spec \<Rightarrow> bool" where
  "booked sp \<longleftrightarrow> spec_pnl (cast_spec sp) =
     spec_net HOUSE_REVENUE_ACCOUNT_ID (cast_spec sp) + spec_net HOUSE_PROMO_ACCOUNT_ID (cast_spec sp)"

lemma booked_flow:
  fixes s u s' :: "'a ledger_scheme"
  assumes "post_specs key gen now actor mid specs u = Inr s'" "same_books s u" "ledger_wf s" "\<forall>sp \<in> set specs. booked sp"
  shows "pnl s' - pnl s = house_balance s' - house_balance s"
proof -
  have "(\<Sum>sp\<leftarrow>specs. spec_pnl (cast_spec sp)) =
      net HOUSE_REVENUE_ACCOUNT_ID (map cast_spec specs) + net HOUSE_PROMO_ACCOUNT_ID (map cast_spec specs)"
    using assms(4) by (induction specs) (simp_all add: booked_def)
  then show ?thesis
    using pnl_post_specs [OF assms(1-3)] post_specs_cast_effect(3) [OF assms(1-3)] by (simp add: house_balance_def)
qed

definition outside :: "uuid \<Rightarrow> bool" where
  "outside a \<longleftrightarrow> a \<noteq> HOUSE_REVENUE_ACCOUNT_ID \<and> a \<noteq> HOUSE_PROMO_ACCOUNT_ID"

lemma booked_legs:
  assumes "outside l" "outside w"
  shows "booked (TRANSFER_SETTLE_STAKE_RETURN, g, b, l, w, x)" "booked (TRANSFER_REVERSE_STAKE_RETURN, g, b, w, l, x)"
    "booked (TRANSFER_SETTLE_WINNINGS, g, b, HOUSE_PROMO_ACCOUNT_ID, w, x)"
    "booked (TRANSFER_REVERSE_WINNINGS, g, b, w, HOUSE_PROMO_ACCOUNT_ID, x)"
    "booked (TRANSFER_SETTLE_LOSS, g, b, l, HOUSE_REVENUE_ACCOUNT_ID, x)"
    "booked (TRANSFER_REVERSE_LOSS, g, b, HOUSE_REVENUE_ACCOUNT_ID, l, x)"
  using assms not_sym [OF house_ids_differ]
  by (auto simp: booked_def spec_pnl_def kind_pnl_def spec_net_def outside_def cast_spec_def)

lemma mapE_concat_all:
  assumes "mapE f xs = Inr yss" "\<And>x ys y. x \<in> set xs \<Longrightarrow> f x = Inr ys \<Longrightarrow> y \<in> set ys \<Longrightarrow> P y"
  shows "\<forall>y \<in> set (concat yss). P y"
proof -
  have "\<exists>x \<in> set xs. f x = Inr ys" if "ys \<in> set yss" for ys
    using assms(1) that by (induction xs arbitrary: yss) auto
  then show ?thesis using assms(2) by fastforce
qed

lemma liability_outside: "platform_ok s \<Longrightarrow> resolve_market_liability_id mid s = Inr l \<Longrightarrow> outside l"
  using house_not_liability [of s mid] by (auto simp: platform_ok_def outside_def resolve_liability_ids books_ok_def)

lemma wallets_outside:
  assumes "foldE f xs Map.empty = Inr m" "platform_ok s" "m u = Some w"
    and "\<And>x a b. f x a = Inr b \<Longrightarrow> b = a \<or> (\<exists>k. wallet_step s k a = Inr b)"
  shows "outside w"
proof -
  let ?P = "\<lambda>m. \<forall>u w. m u = Some w \<longrightarrow> resolve_user_wallet_id u s = Inr w"
  have "?P m"
  proof (rule foldE_invariant [OF assms(1)])
    fix x a b assume "f x a = Inr b" "?P a"
    then show "?P b" using assms(4) [of x a b] by (auto simp: wallet_step_def split: option.splits if_splits)
  qed simp
  then show ?thesis
    using assms(2,3) wallet_not_house [of s u w] by (simp add: platform_ok_def outside_def books_ok_def)
qed

lemma settle_spec_booked:
  assumes "settle_spec l by_id wallets sb = Inr sps" "outside l" "\<And>u w. wallets u = Some w \<Longrightarrow> outside w"
  shows "\<forall>sp \<in> set sps. booked sp"
  using assms by (auto simp: settle_spec_def lookupE_def booked_legs split: if_splits option.splits)

lemma reverse_spec_booked:
  assumes "reverse_spec l wallets b = Inr sps" "outside l" "\<And>u w. wallets u = Some w \<Longrightarrow> outside w"
  shows "\<forall>sp \<in> set sps. booked sp"
  using assms by (auto simp: reverse_spec_def lookupE_def booked_legs split: if_splits option.splits)

lemma settle_bets_flow:
  assumes "settle_bets gen now actor mid bs plan s = Inr s'" "platform_ok s"
  shows "pnl s' - pnl s = house_balance s' - house_balance s"
proof -
  obtain l wallets specss where l: "resolve_market_liability_id mid s = Inr l"
    and loop: "foldE (\<lambda>sb wallets. if sb_won sb then bindE (lookupE (bet_by_id bs) (sb_bet_id sb))
         (\<lambda>b. wallet_step s (bet_user_id b) wallets) else Inr wallets) (plan_settled plan) Map.empty = Inr wallets"
    and sp: "mapE (settle_spec l (bet_by_id bs) wallets) (plan_settled plan) = Inr specss"
    and post: "post_specs settle_idempotency_key gen now actor (Some mid) (concat specss)
        (lock_touched (concat specss) (set_statuses (plan_settled plan) s)) = Inr s'"
    using assms(1) by (auto simp: settle_bets_def Let_def)
  have w: "outside w" if "wallets u = Some w" for u w
    by (rule wallets_outside [OF loop assms(2) that]) (auto split: if_splits)
  have "\<forall>sp \<in> set (concat specss). booked sp"
    by (rule mapE_concat_all [OF sp]) (use settle_spec_booked liability_outside [OF assms(2) l] w in blast)
  moreover have "same_books s (lock_touched (concat specss) (set_statuses (plan_settled plan) s))"
    by (rule same_books_trans [OF set_statuses_frame(1) same_books_lock_touched(2)])
  ultimately show ?thesis using booked_flow [OF post] platform_wf [OF assms(2)] by blast
qed

lemma flow_frame: "same_books s s' \<Longrightarrow> pnl s' = pnl s \<and> house_balance s' = house_balance s"
  by (simp add: pnl_same_books house_balance_def bal_same_books)

context resolve_contract
begin

lemma resolve_flow:
  assumes "resolve_market resolver gen aid now mid w j actor s = Inr (plan, s')" "platform_ok s"
  shows "pnl s' - pnl s = house_balance s' - house_balance s"
proof -
  let ?s0 = "lock_bets (pending_bets mid s) (begin_tx s)"
  obtain s1 s2 where s1: "if pending_bets mid s = [] then s1 = lock_bets [] (begin_tx s)
        else settle_bets gen now actor mid (pending_bets mid s) plan ?s0 = Inr s1"
    and s2: "mark_resolved resolver mid w (if actor = None then ''POLYMARKET_UMA'' else ''HOUSE'') j s1 = Inr s2"
    and s': "same_books s2 s'"
    using resolve_parts [OF assms(1)] by blast
  have f0: "same_books s ?s0" "ledger.more ?s0 = ledger.more s"
    using same_books_trans [OF same_books_locks(2) lock_bets_tables(1)] by simp_all
  have "platform_ok ?s0" by (rule platform_frame [OF f0(1) more_fields(1) [OF f0(2)] assms(2)])
  note settle = settle_bets_flow [OF _ this]
  have "pnl s1 - pnl s = house_balance s1 - house_balance s"
  proof (cases "pending_bets mid s = []")
    case True
    then have "s1 = begin_tx s" using s1 by (simp add: lock_bets_def)
    then show ?thesis using flow_frame [OF same_books_locks(2) [of s]] by simp
  next
    case False
    then show ?thesis using settle [of gen now actor mid "pending_bets mid s" plan s1] s1 flow_frame [OF f0(1)] by simp
  qed
  moreover have "same_books s1 s'" using resolved_frame [OF s2] s' by (auto intro: same_books_trans)
  ultimately show ?thesis using flow_frame [of s1 s'] by simp
qed

lemma reverse_bets_flow:
  assumes "reverse_bets resolver gen now actor mid bs s = Inr s'" "platform_ok s"
  shows "pnl s' - pnl s = house_balance s' - house_balance s"
proof -
  obtain l wallets specss s3 where l: "resolve_market_liability_id mid s = Inr l"
    and loop: "foldE (\<lambda>b wallets. if bet_status b = BET_SETTLED_WON then wallet_step s (bet_user_id b) wallets
              else Inr wallets) bs Map.empty = Inr wallets"
    and sp: "mapE (reverse_spec l wallets) bs = Inr specss"
    and post: "post_specs reverse_idempotency_key gen now actor (Some mid) (concat specss)
        (lock_touched (concat specss) (reopen_bets bs s)) = Inr s3"
    and un: "mark_unresolved resolver mid s3 = Inr s'"
    using assms(1) by (auto simp: reverse_bets_def Let_def)
  have w: "outside w" if "wallets u = Some w" for u w
    by (rule wallets_outside [OF loop assms(2) that]) (auto split: if_splits)
  have "\<forall>sp \<in> set (concat specss). booked sp"
    by (rule mapE_concat_all [OF sp]) (use reverse_spec_booked liability_outside [OF assms(2) l] w in blast)
  moreover have "same_books s (lock_touched (concat specss) (reopen_bets bs s))"
    by (rule same_books_trans [OF reopen_bets_frame(1) same_books_lock_touched(2)])
  ultimately have "pnl s3 - pnl s = house_balance s3 - house_balance s"
    using booked_flow [OF post] platform_wf [OF assms(2)] by blast
  then show ?thesis using unresolved_frame [OF un] flow_frame [of s3 s'] by simp
qed

lemma reverse_flow:
  assumes "reverse_settlement resolver gen aid now mid j actor s = Inr (n, s')" "platform_ok s"
  shows "pnl s' - pnl s = house_balance s' - house_balance s"
proof -
  have ok: "platform_ok (begin_tx s)"
    by (rule platform_frame [OF same_books_locks(2) _ assms(2)]) (rule more_fields(1), simp)
  obtain s1 where s1: "if settled_bets mid s = [] then s1 = begin_tx s
       else reverse_bets resolver gen now actor mid (settled_bets mid s) (begin_tx s) = Inr s1"
    and f: "same_books s1 s'"
    using reverse_settlement_parts [OF assms(1)] by blast
  note undo = reverse_bets_flow [OF _ ok, of gen now actor mid "settled_bets mid s" s1]
  have "pnl s1 - pnl s = house_balance s1 - house_balance s"
    using s1 undo flow_frame [OF same_books_locks(2) [of s]] by (cases "settled_bets mid s = []") simp_all
  then show ?thesis using flow_frame [OF f] by simp
qed

end

subsection \<open>The cards\<close>

text \<open>
  C11: the house profit and loss card follows settlement exactly.  Resolving a market raises it by the
  lost stakes minus the winnings paid above the stakes; a reversal changes it by what the two house
  accounts change by, so a reversal of that resolution leaves no phantom profit.
\<close>

theorem house_pnl_books_settlements:
  fixes s s1 s2 :: "'a db_scheme"
  assumes "resolve_market (house_resolver t) gen aid now mid w j actor s = Inr (plan, s1)" "platform_ok s"
  shows "house_pnl None None s1 = house_pnl None None s
       + (\<Sum>b\<leftarrow>pending_bets mid s. if bet_won w b then 0 else stake b)
       - (\<Sum>b\<leftarrow>pending_bets mid s. if bet_won w b then bet_payout b - stake b else 0)
     \<and> (reverse_settlement (house_resolver t) gen' aid' now' mid j' actor' s1 = Inr (n, s2) \<longrightarrow>
         house_pnl None None s2 - house_pnl None None s1 = house_balance s2 - house_balance s1
         \<and> (settled_bets mid s = [] \<longrightarrow> house_pnl None None s2 = house_pnl None None s))"
proof -
  note e = house.resolve_effect [OF assms]
  obtain l where l: "pending_bets mid s \<noteq> [] \<longrightarrow> resolve_market_liability_id mid s = Inr l"
    and wl: "\<forall>b \<in> set (pending_bets mid s). bet_won w b \<longrightarrow> resolve_user_wallet_id (bet_user_id b) s = Inr (wal s (bet_user_id b))"
    and bl: "\<forall>a. bal s1 a = bal s a + (\<Sum>b\<leftarrow>pending_bets mid s. settle_net w l (wal s) a b)"
    using e(7) by blast
  have up: "house_balance s1 - house_balance s = (\<Sum>b\<leftarrow>pending_bets mid s. if bet_won w b then 0 else stake b)
       - (\<Sum>b\<leftarrow>pending_bets mid s. if bet_won w b then bet_payout b - stake b else 0)"
  proof (cases "pending_bets mid s = []")
    case True
    then show ?thesis using bl by (simp add: house_balance_def)
  next
    case False
    with l have "resolve_market_liability_id mid s = Inr l" by simp
    from resolve_balances(2,3) [OF assms(2) this wl] show ?thesis using bl by (simp add: house_balance_def)
  qed
  have undone: "house_pnl None None s2 - house_pnl None None s1 = house_balance s2 - house_balance s1
      \<and> (settled_bets mid s = [] \<longrightarrow> house_balance s2 = house_balance s)"
    if "reverse_settlement (house_resolver t) gen' aid' now' mid j' actor' s1 = Inr (n, s2)"
    using house.reverse_flow [OF that e(1)] house.resolve_reverse_effect(3) [OF assms(1) that assms(2)]
    by (simp add: house_balance_def)
  show ?thesis using house.resolve_flow [OF assms] up undone by auto
qed

lemma house_pnl_books_settlements_witness:
  "house_pnl None None demo_settled_db = house_pnl None None demo_bet_db - 933333/10000"
proof -
  have "pending_bets 3 demo_bet_db = [demo_bet BET_PENDING]" "bet_won 8 (demo_bet BET_PENDING)"
    "bet_payout (demo_bet BET_PENDING) - stake (demo_bet BET_PENDING) = 933333/10000"
    by code_simp+
  then show ?thesis
    using conjunct1 [OF house_pnl_books_settlements [OF demo_resolved demo_bet_db_ok]]
    by simp
qed

text \<open>
  An early close is invisible to the card.  The house pays the gain of a close and keeps its loss, so its
  balances move by the stake minus the payout, and the card does not move at all.
\<close>

theorem house_pnl_misses_closes:
  fixes s s' :: "'a db_scheme"
  assumes "sell_position get_market gen now i u s = Inr (cr, s')" "platform_ok s"
  shows "house_pnl None None s' = house_pnl None None s
     \<and> house_balance s' = house_balance s - cr_pnl cr"
proof -
  have bok: "bets_ok s" using assms(2) by (simp add: platform_ok_def)
  obtain b :: bet and l w u1 x where post: "post_specs close_idempotency_key gen now (Some u) (Some (bet_market_id b))
         (close_specs i l w (stake b) (cr_payout cr))
         (lock_touched (close_specs i l w (stake b) (cr_payout cr)) (lock_row (BetRow i) (begin_tx s))) = Inr u1"
    and s': "s' = update_bet_row i (\<lambda>b. b\<lparr>bet_status := BET_CLOSED, bet_closed_at := Some now, exit_odds := Some x\<rparr>) u1"
    using sell_position_effect [OF assms(1) bok] by blast
  have f: "same_books s (lock_touched (close_specs i l w (stake b) (cr_payout cr)) (lock_row (BetRow i) (begin_tx s)))"
    by (simp add: same_books_def lock_touched_def)
  have "(\<Sum>sp\<leftarrow>close_specs i l w (stake b) (cr_payout cr). spec_pnl (cast_spec sp)) = 0"
    by (simp add: close_specs_def Let_def spec_pnl_def kind_pnl_def cast_spec_def)
  then have "pnl u1 = pnl s" using pnl_post_specs [OF post f platform_wf [OF assms(2)]] by simp
  then have p: "pnl s' = pnl s" using flow_frame [of u1 s'] by (simp add: s')
  obtain b' :: bet and w' l' where e: "resolve_user_wallet_id u s = Inr w'"
     "resolve_market_liability_id (bet_market_id b') s = Inr l'" "cr_pnl cr = cr_payout cr - stake b'"
     "\<forall>a. bal s' a = bal s a + (if a = w' then cr_payout cr else 0) - (if a = l' then stake b' else 0)
           - (if a = HOUSE_PROMO_ACCOUNT_ID then max 0 (cr_payout cr - stake b') else 0)
           + (if a = HOUSE_REVENUE_ACCOUNT_ID then max 0 (stake b' - cr_payout cr) else 0)"
    using sell_position_posted [OF assms] by blast
  have "outside w'" "outside l'"
    using wallet_not_house [OF platform_wf [OF assms(2)] _ e(1)] liability_outside [OF assms(2) e(2)] assms(2)
    by (auto simp: platform_ok_def outside_def)
  then have "house_balance s' = house_balance s - cr_pnl cr"
    using e(3,4) not_sym [OF house_ids_differ] by (auto simp: house_balance_def outside_def max_def)
  with p show ?thesis by simp
qed

lemma house_pnl_misses_closes_witness:
  "okE (\<lambda>(cr, s'). house_pnl None None s' = house_pnl None None demo_bet_db
       \<and> house_balance s' = house_balance demo_bet_db - cr_pnl cr)
     (sell_position house_get_market (demo_gen 0x100) 20 0x50 5 demo_bet_db)"
proof -
  have "okE (\<lambda>_. True) (sell_position house_get_market (demo_gen 0x100) 20 0x50 5 demo_bet_db)" by code_simp
  then obtain cr s' where c: "sell_position house_get_market (demo_gen 0x100) 20 0x50 5 demo_bet_db = Inr (cr, s')"
    by (auto simp: okE_iff)
  then show ?thesis using house_pnl_misses_closes [OF c demo_bet_db_ok] by (simp add: okE_iff)
qed

end
