(* ===== verification/KpiUsers.thy ===== *)
theory KpiUsers
  imports KpiRules
begin

text \<open>The count of active users and the daily buckets.\<close>

subsection \<open>The cast reads back what the audit writer prints\<close>

lemma is_hex_not_dash: "is_hex c \<Longrightarrow> c \<noteq> CHR ''-''"
  by (auto simp: is_hex_def hex_val_def)

lemma uuid_hex_is_hex: "list_all is_hex (uuid_hex u)"
  by (simp add: uuid_hex_def list_all_iff is_hex_def hex_val_hex_char)

lemma pg_hex_uuid: "pg_hex 16 (uuid_str u) = Some (uuid_hex u)"
proof -
  have "length (uuid_hex u) = 32" "list_all is_hex (uuid_hex u)" by (simp_all add: uuid_hex_is_hex)
  then show ?thesis
    unfolding uuid_str_def Let_def
    by (simp add: numeral_eq_Suc length_Suc_conv del: length_uuid_hex; elim exE conjE; simp add: is_hex_not_dash)
qed

lemma cast_uuid_str: "cast_uuid (uuid_str u) = Inr u"
proof -
  have "hex_digits 0 (uuid_hex u) = Some (unat (take_bit 128 u))"
    using hex_digits_uuid [of 0 u 32] by (simp add: uuid_hex_def)
  moreover have "take_bit 128 u = u" using take_bit_length_eq [of u] by simp
  ultimately show ?thesis by (simp add: cast_uuid_def pg_hex_uuid)
qed

lemma user_actor: "is_user_actor (actor_string (Some u))" "drop 5 (actor_string (Some u)) = uuid_str u"
proof -
  have "\<forall>c \<in> set (uuid_hex u). is_hex c" using uuid_hex_is_hex by (simp add: list_all_iff)
  then have "\<forall>c \<in> set (uuid_str u). is_hex c \<or> c = CHR ''-''"
    by (auto simp: uuid_str_def Let_def dest!: in_set_takeD in_set_dropD)
  then show "is_user_actor (actor_string (Some u))" "drop 5 (actor_string (Some u)) = uuid_str u"
    by (simp_all add: is_user_actor_def actor_string_def list_all_iff)
qed

subsection \<open>Active users\<close>

definition bet_since :: "int \<Rightarrow> 'a db_scheme \<Rightarrow> uuid \<Rightarrow> bool" where
  "bet_since lo s u \<longleftrightarrow> (\<exists>b \<in> set (bets s). bet_user_id b = u \<and> lo \<le> bet_created_at b)"

definition logged_in_since :: "int \<Rightarrow> 'a db_scheme \<Rightarrow> uuid \<Rightarrow> bool" where
  "logged_in_since lo s u \<longleftrightarrow> (\<exists>r \<in> set (audit_log s). event_type r = ''auth.session_started''
     \<and> au_actor r = actor_string (Some u) \<and> lo \<le> occurred_at r)"

text \<open>
  C36: the count of daily active users is exact and cannot fail on rows the application writes.  When the
  actor of every player login is the string the audit writer prints for a user, \<open>dau\<close> is the
  number of users that bet or logged in within the window, each counted once.
\<close>

theorem dau_counts_active:
  assumes "\<forall>r \<in> set (audit_log s). event_type r = ''auth.session_started'' \<longrightarrow> (\<exists>u. au_actor r = actor_string (Some u))"
  shows "dau now hours s = Inr (card {u. bet_since (now - hours * HOUR) s u \<or> logged_in_since (now - hours * HOUR) s u})"
proof -
  let ?lo = "now - hours * HOUR"
  have act: "actor_string (Some u) = actor_string (Some v) \<longleftrightarrow> u = v" for u v
    by (simp add: actor_string_def uuid_str_inj)
  define who where "who r = (THE u. au_actor r = actor_string (Some u))" for r :: audit_row
  have who: "who r = u" if "au_actor r = actor_string (Some u)" for r u
    unfolding who_def using that act by (intro the_equality) auto
  have row: "au_actor r = actor_string (Some (who r)) \<and> cast_uuid (drop 5 (au_actor r)) = Inr (who r)"
    if r: "r \<in> set (login_rows ?lo s)" for r
  proof -
    obtain u where u: "au_actor r = actor_string (Some u)" using r assms by (auto simp: login_rows_def)
    have "drop 5 (au_actor r) = uuid_str (who r)" unfolding u who [OF u] by (rule user_actor)
    then show ?thesis using u who [OF u] by (simp add: cast_uuid_str)
  qed
  have m: "mapE (\<lambda>r. cast_uuid (drop 5 (au_actor r))) (login_rows ?lo s) = Inr (map who (login_rows ?lo s))"
    by (rule mapE_eq_map) (use row in blast)
  have "set (bettors ?lo s) = {u. bet_since ?lo s u}" by (auto simp: bettors_def bet_since_def)
  moreover have "set (map who (login_rows ?lo s)) = {u. logged_in_since ?lo s u}"
  proof (intro set_eqI iffI)
    fix u assume "u \<in> set (map who (login_rows ?lo s))"
    then obtain r where r: "r \<in> set (login_rows ?lo s)" "u = who r" by auto
    then have "au_actor r = actor_string (Some u)" using row by blast
    moreover have "r \<in> set (audit_log s)" "event_type r = ''auth.session_started''" "?lo \<le> occurred_at r"
      using r(1) by (simp_all add: login_rows_def)
    ultimately show "u \<in> {u. logged_in_since ?lo s u}" unfolding logged_in_since_def by blast
  next
    fix u assume "u \<in> {u. logged_in_since ?lo s u}"
    then obtain r where r: "r \<in> set (audit_log s)" "event_type r = ''auth.session_started''"
      "au_actor r = actor_string (Some u)" "?lo \<le> occurred_at r" by (auto simp: logged_in_since_def)
    then have "r \<in> set (login_rows ?lo s)" by (simp add: login_rows_def user_actor)
    then show "u \<in> set (map who (login_rows ?lo s))" using who [OF r(3)] by force
  qed
  ultimately have "set (bettors ?lo s @ map who (login_rows ?lo s))
      = {u. bet_since ?lo s u \<or> logged_in_since ?lo s u}" by auto
  then show ?thesis unfolding dau_def Let_def m bindE_Inr by (simp add: length_remdups_card_conv)
qed

definition demo_login :: "uuid \<Rightarrow> audit_row" where
  "demo_login u = \<lparr>au_id = 0x70, occurred_at = 30, au_actor = actor_string (Some u),
     event_type = ''auth.session_started'', payload = [], au_ip = None\<rparr>"

lemma dau_counts_active_witness:
  "dau 40 24 (demo_bet_db\<lparr>audit_log := [demo_login 9]\<rparr>) = Inr 2"
proof -
  let ?s = "demo_bet_db\<lparr>audit_log := [demo_login 9]\<rparr>"
  have "{u. bet_since (40 - 24 * HOUR) ?s u \<or> logged_in_since (40 - 24 * HOUR) ?s u} = {5, 9}"
    by (auto simp: bet_since_def logged_in_since_def demo_bet_db_def demo_bet_def demo_login_def HOUR_def
        actor_string_def uuid_str_inj)
  moreover have "\<forall>r \<in> set (audit_log ?s). event_type r = ''auth.session_started'' \<longrightarrow> (\<exists>u. au_actor r = actor_string (Some u))"
    by (auto simp: demo_login_def)
  ultimately show ?thesis using dau_counts_active [of ?s 40 24] by simp
qed

subsection \<open>The chart\<close>

lemma sum_list_partition:
  fixes g :: "'r \<Rightarrow> 'b::comm_monoid_add"
  assumes "distinct ds" "\<forall>x \<in> set xs. f x \<in> set ds"
  shows "(\<Sum>d\<leftarrow>ds. sum_list (map g (filter (\<lambda>x. f x = d) xs))) = sum_list (map g xs)"
  using assms
proof (induction xs)
  case (Cons x xs)
  have "(\<Sum>d\<leftarrow>ds. sum_list (map g (filter (\<lambda>y. f y = d) (x # xs)))) =
      (\<Sum>d\<leftarrow>ds. (if f x = d then g x else 0) + sum_list (map g (filter (\<lambda>y. f y = d) xs)))"
    by (intro arg_cong [of _ _ sum_list] map_cong) auto
  also have "\<dots> = (\<Sum>d\<leftarrow>ds. if f x = d then g x else 0) + (\<Sum>d\<leftarrow>ds. sum_list (map g (filter (\<lambda>y. f y = d) xs)))"
    by (rule sum_list_addf)
  also have "(\<Sum>d\<leftarrow>ds. if f x = d then g x else 0) = g x"
  proof -
    have "(\<Sum>d\<leftarrow>ds. if f x = d then g x else 0) = (\<Sum>d\<in>set ds. if f x = d then g x else 0)"
      using Cons.prems(1) by (simp add: sum_list_distinct_conv_sum_set)
    then show ?thesis using Cons.prems(2) by simp
  qed
  finally show ?case using Cons by simp
qed (simp add: sum_list_0)

lemma trunc_day_mult: "trunc_day t = 24 * HOUR * (t div (24 * HOUR))"
  unfolding trunc_day_def by (simp add: minus_mod_eq_mult_div)

text \<open>
  C34: the daily chart neither loses nor repeats volume.  Its days are distinct midnights in order, its
  bars add up to the volume of the window, and a window of \<open>k\<close> days has at most \<open>k + 1\<close> of them: a
  window that starts within a day touches one more calendar day than it is long.
\<close>

theorem daily_buckets_partition_volume:
  assumes "\<forall>b \<in> set (bets s). bet_created_at b \<le> now"
  shows "sum_list (map snd (daily_volume_buckets now (24 * int k) s)) = stake_volume (now - 24 * int k * HOUR) s
     \<and> sorted (map fst (daily_volume_buckets now (24 * int k) s)) \<and> distinct (map fst (daily_volume_buckets now (24 * int k) s))
     \<and> (\<forall>d \<in> set (map fst (daily_volume_buckets now (24 * int k) s)). 24 * HOUR dvd d)
     \<and> length (daily_volume_buckets now (24 * int k) s) \<le> k + 1"
proof -
  let ?lo = "now - 24 * int k * HOUR" and ?D = "24 * HOUR"
  let ?recent = "filter (\<lambda>b. ?lo \<le> bet_created_at b) (bets s)"
  let ?day = "\<lambda>b. trunc_day (bet_created_at b)"
  let ?ds = "sort (remdups (map ?day ?recent))"
  have fst_eq: "map fst (daily_volume_buckets now (24 * int k) s) = ?ds"
    by (simp add: daily_volume_buckets_def Let_def comp_def)
  have D: "0 < ?D" by (simp add: HOUR_def)
  have "sum_list (map snd (daily_volume_buckets now (24 * int k) s)) =
      (\<Sum>d\<leftarrow>?ds. sum_list (map stake (filter (\<lambda>b. ?day b = d) ?recent)))"
    by (simp add: daily_volume_buckets_def Let_def comp_def)
  also have "\<dots> = stake_volume ?lo s"
    unfolding stake_volume_def by (rule sum_list_partition) auto
  finally have total: "sum_list (map snd (daily_volume_buckets now (24 * int k) s)) = stake_volume ?lo s" .
  have range: "set ?ds \<subseteq> (\<lambda>q. ?D * q) ` {?lo div ?D .. now div ?D}"
  proof
    fix d assume "d \<in> set ?ds"
    then obtain b where b: "b \<in> set (bets s)" "?lo \<le> bet_created_at b" "d = ?D * (bet_created_at b div ?D)"
      by (auto simp: trunc_day_mult)
    moreover have "?lo div ?D \<le> bet_created_at b div ?D" "bet_created_at b div ?D \<le> now div ?D"
      using zdiv_mono1 [OF b(2) D] zdiv_mono1 [OF bspec [OF assms b(1)] D] by simp_all
    ultimately show "d \<in> (\<lambda>q. ?D * q) ` {?lo div ?D .. now div ?D}" by auto
  qed
  have "now = ?lo + int k * ?D" by simp
  moreover have "(?lo + int k * ?D) div ?D = int k + ?lo div ?D" using D by (intro div_mult_self1) simp
  ultimately have "now div ?D = ?lo div ?D + int k" by simp
  then have "card ((\<lambda>q. ?D * q) ` {?lo div ?D .. now div ?D}) \<le> k + 1"
    using card_image_le [of "{?lo div ?D .. now div ?D}" "\<lambda>q. ?D * q"] by simp
  then have "length ?ds \<le> k + 1"
    using card_mono [OF _ range] distinct_card [of ?ds] by simp
  then have len: "length (daily_volume_buckets now (24 * int k) s) \<le> k + 1" using fst_eq by (metis length_map)
  show ?thesis using total len range unfolding fst_eq by auto
qed

definition demo_month :: db where
  "demo_month = demo_bet_db\<lparr>bets := map (\<lambda>i. (demo_bet BET_PENDING)\<lparr>bet_id := of_int i,
     bet_created_at := 24 * HOUR * i + 12 * HOUR\<rparr>) [0..30]\<rparr>"

lemma demo_month_days: "map fst (daily_volume_buckets (24 * HOUR * 30 + 12 * HOUR) 720 demo_month) = map (\<lambda>i. 24 * HOUR * i) [0..30]"
  by code_simp

text \<open>Thirty days that start at noon give thirty-one bars.\<close>

lemma daily_buckets_partition_volume_witness:
  "sum_list (map snd (daily_volume_buckets (24 * HOUR * 30 + 12 * HOUR) 720 demo_month)) = stake_volume (12 * HOUR) demo_month
     \<and> length (daily_volume_buckets (24 * HOUR * 30 + 12 * HOUR) 720 demo_month) = 31"
proof -
  have "\<forall>b \<in> set (bets demo_month). bet_created_at b \<le> 24 * HOUR * 30 + 12 * HOUR"
    by (auto simp: demo_month_def HOUR_def)
  from daily_buckets_partition_volume [OF this, of 30]
  have "sum_list (map snd (daily_volume_buckets (24 * HOUR * 30 + 12 * HOUR) 720 demo_month)) = stake_volume (12 * HOUR) demo_month"
    by simp
  moreover have "length (daily_volume_buckets (24 * HOUR * 30 + 12 * HOUR) 720 demo_month) = length (map (\<lambda>i. 24 * HOUR * i) [0..30])"
    using demo_month_days by (metis length_map)
  ultimately show ?thesis by simp
qed

end
