(* ===== verification/Console.thy ===== *)
theory Console
  imports Gates
begin

text \<open>
  The audit viewer (\<open>core/audit/router.py\<close>) and the branding of the tenant
  (\<open>branding/admin_router.py\<close>, \<open>router.py\<close>, \<open>repo.py\<close>).  \<open>console_db\<close> adds the branding table to the tables
  of the site.  The \<open>tenant_id\<close> and \<open>updated_at\<close> columns are left out, as in the other tables.
\<close>

subsection \<open>The audit viewer\<close>

definition KNOWN_EVENT_TYPES :: "string list" where
  "KNOWN_EVENT_TYPES = [''auth.player_registered'', ''auth.session_started'', ''auth.admin_login_started'',
     ''auth.admin_login_failed'', ''auth.session_revoked'', ''auth.password_reset'', ''auth.email_verified'',
     ''wallet.recharge'', ''wallet.reconciliation'', ''bet.placed'', ''market.created'', ''market.updated'',
     ''market.closed'', ''market.resolved'', ''settlement.completed'', ''settlement.reversed'', ''admin.user_banned'',
     ''admin.user_unbanned'', ''admin.branding_updated'']"

definition list_event_types :: "string list" where
  "list_event_types = KNOWN_EVENT_TYPES"

record audit_filter =
  af_event_type :: "string option"
  af_actor :: "string option"
  af_from :: "int option"
  af_to :: "int option"

text \<open>An absent and an empty text filter are both no filter.\<close>

definition audit_where :: "audit_filter \<Rightarrow> audit_row \<Rightarrow> bool" where
  "audit_where f r \<longleftrightarrow>
     (case af_event_type f of None \<Rightarrow> True | Some ty \<Rightarrow> ty = [] \<or> event_type r = ty)
   \<and> (case af_actor f of None \<Rightarrow> True | Some a \<Rightarrow> a = [] \<or> ilike (''%'' @ escape_like a @ ''%'') (au_actor r))
   \<and> (case af_from f of None \<Rightarrow> True | Some t \<Rightarrow> t \<le> occurred_at r)
   \<and> (case af_to f of None \<Rightarrow> True | Some t \<Rightarrow> occurred_at r \<le> t)"

text \<open>The page of items and the number of matching rows; an item repeats the columns of its row.\<close>

definition list_audit_log :: "audit_filter \<Rightarrow> nat \<Rightarrow> nat \<Rightarrow> 'a db_scheme \<Rightarrow> (audit_row list \<times> nat) result" where
  "list_audit_log f page page_size s =
     (if \<not> (1 \<le> page \<and> 1 \<le> page_size \<and> page_size \<le> 200) then Inl (HTTPException 422)
      else let base = filter (audit_where f) (audit_log s) in
        Inr (page_of page page_size (newest_first occurred_at au_id base), length base))"

subsection \<open>Branding\<close>

type_synonym bytes = "8 word list"

record tenant_config =
  tc_id :: uuid
  brand_name :: string
  primary_hex :: string
  secondary_hex :: string
  logo_bytes :: "bytes option"
  logo_content_type :: "string option"
  tc_created_at :: int

record console_db = site_db +
  tenant_configs :: "tenant_config list"

text \<open>\<open>ORDER BY created_at ASC LIMIT 1\<close>; rows of the same instant keep the order of the table.\<close>

definition load_singleton :: "'a console_db_scheme \<Rightarrow> tenant_config option" where
  "load_singleton s = (case sort_key tc_created_at (tenant_configs s) of [] \<Rightarrow> None | r # rs \<Rightarrow> Some r)"

definition logo_url_for :: "tenant_config \<Rightarrow> string option" where
  "logo_url_for r = (if logo_bytes r = None then None else Some ''/branding/logo'')"

record branding =
  br_name :: string
  br_primary :: string
  br_secondary :: string
  br_logo_url :: "string option"

definition branding_of :: "tenant_config \<Rightarrow> branding" where
  "branding_of r = \<lparr>br_name = brand_name r, br_primary = primary_hex r, br_secondary = secondary_hex r,
     br_logo_url = logo_url_for r\<rparr>"

definition get_branding_current :: "'a console_db_scheme \<Rightarrow> branding" where
  "get_branding_current s = (case load_singleton s of
     None \<Rightarrow> \<lparr>br_name = ''XPredict'', br_primary = ''#4f46e5'', br_secondary = ''#0ea5e9'', br_logo_url = None\<rparr>
   | Some r \<Rightarrow> branding_of r)"

text \<open>The body and its media type.\<close>

definition get_branding_logo :: "'a console_db_scheme \<Rightarrow> (bytes \<times> string) result" where
  "get_branding_logo s = (case load_singleton s of
     None \<Rightarrow> Inl (HTTPException 404)
   | Some r \<Rightarrow> (case logo_bytes r of
       None \<Rightarrow> Inl (HTTPException 404)
     | Some b \<Rightarrow> Inr (b, case logo_content_type r of None \<Rightarrow> ''application/octet-stream''
         | Some t \<Rightarrow> if t = [] then ''application/octet-stream'' else t)))"

definition get_tenant_config :: "'a console_db_scheme \<Rightarrow> branding result" where
  "get_tenant_config s = (case load_singleton s of None \<Rightarrow> Inl (HTTPException 404) | Some r \<Rightarrow> Inr (branding_of r))"

subsection \<open>Updating the branding\<close>

definition MAX_LOGO_BYTES :: nat where
  "MAX_LOGO_BYTES = 262144"

definition LOGO_ALLOWLIST :: "string list" where
  "LOGO_ALLOWLIST = [''image/png'', ''image/jpeg'', ''image/webp'', ''image/svg+xml'']"

definition PNG_MAGIC :: bytes where
  "PNG_MAGIC = [0x89, 0x50, 0x4E, 0x47, 0x0D, 0x0A, 0x1A, 0x0A]"

definition JPEG_MAGIC :: bytes where
  "JPEG_MAGIC = [0xFF, 0xD8, 0xFF]"

definition ascii_bytes :: "string \<Rightarrow> bytes" where
  "ascii_bytes t = map of_char t"

text \<open>\<open>data.startswith(p)\<close> and \<open>data[i:j]\<close>.\<close>

definition starts_with :: "bytes \<Rightarrow> bytes \<Rightarrow> bool" where
  "starts_with p b \<longleftrightarrow> take (length p) b = p"

definition slice :: "nat \<Rightarrow> nat \<Rightarrow> bytes \<Rightarrow> bytes" where
  "slice i j b = drop i (take j b)"

definition declared_type :: "string option \<Rightarrow> string" where
  "declared_type ct = lower (strip (takeWhile (\<lambda>c. c \<noteq> CHR '';'') (case ct of None \<Rightarrow> [] | Some t \<Rightarrow> t)))"

definition validate_logo :: "string option \<Rightarrow> bytes \<Rightarrow> string result" where
  "validate_logo ct b =
     (let t = declared_type ct in
      if t \<notin> set LOGO_ALLOWLIST then Inl (HTTPException 422)
      else if MAX_LOGO_BYTES < length b then Inl (HTTPException 422)
      else if t = ''image/png'' \<and> \<not> starts_with PNG_MAGIC b then Inl (HTTPException 422)
      else if t = ''image/jpeg'' \<and> \<not> starts_with JPEG_MAGIC b then Inl (HTTPException 422)
      else if t = ''image/webp'' \<and> \<not> (take 4 b = ascii_bytes ''RIFF'' \<and> slice 8 12 b = ascii_bytes ''WEBP'')
        then Inl (HTTPException 422)
      else Inr t)"

definition is_hex_digit :: "char \<Rightarrow> bool" where
  "is_hex_digit c \<longleftrightarrow> is_digit c \<or> char_in 97 102 c \<or> char_in 65 70 c"

text \<open>\<open>^#[0-9a-fA-F]{6}$\<close>; the \<open>$\<close> of pydantic's engine matches at the end only.\<close>

definition hex_color :: "string \<Rightarrow> bool" where
  "hex_color h \<longleftrightarrow> length h = 7 \<and> hd h = CHR ''#'' \<and> list_all is_hex_digit (tl h)"

record tenant_config_update =
  tu_name :: string
  tu_primary :: string
  tu_secondary :: string

definition valid_branding :: "tenant_config_update \<Rightarrow> bool" where
  "valid_branding b \<longleftrightarrow> 1 \<le> length (tu_name b) \<and> length (tu_name b) \<le> 120
     \<and> hex_color (tu_primary b) \<and> hex_color (tu_secondary b)"

text \<open>The upload is read up to one byte past the cap; an empty file counts as no logo.\<close>

definition read_logo :: "(string option \<times> bytes) option \<Rightarrow> (bytes \<times> string) option result" where
  "read_logo upload = (case upload of
     None \<Rightarrow> Inr None
   | Some (ct, body) \<Rightarrow>
       let b = take (MAX_LOGO_BYTES + 1) body in
       if MAX_LOGO_BYTES < length b then Inl (HTTPException 422)
       else if b = [] then Inr None
       else bindE (validate_logo ct b) (\<lambda>t. Inr (Some (b, t))))"

definition set_logo :: "(bytes \<times> string) option \<Rightarrow> tenant_config \<Rightarrow> tenant_config" where
  "set_logo logo r = (case logo of None \<Rightarrow> r | Some (b, t) \<Rightarrow> r\<lparr>logo_bytes := Some b, logo_content_type := Some t\<rparr>)"

definition update_tenant_config ::
  "uuid \<Rightarrow> uuid \<Rightarrow> int \<Rightarrow> user \<Rightarrow> tenant_config_update \<Rightarrow> (string option \<times> bytes) option
    \<Rightarrow> 'a console_db_scheme \<Rightarrow> (branding \<times> 'a console_db_scheme) result" where
  "update_tenant_config new_id audit_id now admin body upload s =
     (if \<not> valid_branding body then Inl (HTTPException 422)
      else bindE (read_logo upload) (\<lambda>logo.
        let edit = (\<lambda>r. set_logo logo (r\<lparr>brand_name := tu_name body, primary_hex := tu_primary body,
              secondary_hex := tu_secondary body\<rparr>));
            fresh = edit \<lparr>tc_id = new_id, brand_name = tu_name body, primary_hex = tu_primary body,
              secondary_hex = tu_secondary body, logo_bytes = None, logo_content_type = None, tc_created_at = now\<rparr>
        in bindE (case load_singleton s of
             None \<Rightarrow> Inr (fresh, s\<lparr>tenant_configs := tenant_configs s @ [fresh]\<rparr>)
           | Some r \<Rightarrow> Inr (edit r, s\<lparr>tenant_configs := update_where (\<lambda>v. tc_id v = tc_id r) edit (tenant_configs s)\<rparr>)) (\<lambda>(row, s).
        bindE (audit_record audit_id now (actor_string (Some (us_id admin))) ''admin.branding_updated''
          [(''brand_name'', JStr (tu_name body)), (''primary_hex'', JStr (tu_primary body)),
           (''secondary_hex'', JStr (tu_secondary body)), (''logo_changed'', JBool (logo \<noteq> None))] None s) (\<lambda>s.
        Inr (\<lparr>br_name = tu_name body, br_primary = tu_primary body, br_secondary = tu_secondary body,
          br_logo_url = (if logo_bytes row \<noteq> None then Some ''/branding/logo'' else None)\<rparr>, s)))))"

end
