(* ===== verification/ConsoleRules.thy ===== *)
theory ConsoleRules
  imports Console AdminRules
begin

text \<open>
  The properties of the operator console: the audit viewer shows the log completely and keeps
  showing it, the event types it offers miss the settlements, and the branding that was saved is the branding
  that is served.
\<close>

subsection \<open>The audit viewer\<close>

lemma newest_first_mset [simp]: "mset (newest_first t k rows) = mset rows"
  by (simp add: newest_first_def)

lemma newest_first_set [simp]: "set (newest_first t k rows) = set rows"
  by (metis newest_first_mset set_mset_mset)

lemma newest_first_length [simp]: "length (newest_first t k rows) = length rows"
  by (simp add: newest_first_def)

lemma newest_first_sorted: "sorted_wrt (\<lambda>a b. t b \<le> t a) (newest_first t k rows)"
proof -
  have "sorted_wrt (\<lambda>a b. t a \<le> t b) (sort_key t (sort_key k rows))"
    using sorted_sort_key [of t "sort_key k rows"] by (simp only: sorted_map)
  then show ?thesis by (simp add: newest_first_def sorted_wrt_rev)
qed

lemma list_audit_log_page:
  assumes "1 \<le> p" "1 \<le> n" "n \<le> 200"
  shows "list_audit_log f p n s = Inr (take n (drop ((p - 1) * n)
           (newest_first occurred_at au_id (filter (audit_where f) (audit_log s)))), length (filter (audit_where f) (audit_log s)))"
  using assms by (simp add: list_audit_log_def page_of_def Let_def)

text \<open>Every row of a list is on one of its pages.\<close>

lemma on_some_page:
  assumes "r \<in> set rows" "1 \<le> n"
  shows "\<exists>p \<ge> 1. r \<in> set (take n (drop ((p - 1) * n) rows))"
proof -
  obtain i where i: "i < length rows" "rows ! i = r" using assms(1) by (meson in_set_conv_nth)
  let ?d = "i div n * n"
  have "i mod n < n" using assms(2) by simp
  moreover have "?d + i mod n = i" by simp
  then have "?d \<le> length rows" "i mod n < length rows - ?d" using i(1) by linarith+
  moreover have "rows ! (?d + i mod n) = r" using i(2) by simp
  ultimately have "i mod n < length (take n (drop ?d rows))" "take n (drop ?d rows) ! (i mod n) = r" by simp_all
  then have "r \<in> set (take n (drop ((Suc (i div n) - 1) * n) rows))" by (metis diff_Suc_1 nth_mem)
  then show ?thesis by (metis le_add1 plus_1_eq_Suc)
qed


definition demo_audit_row :: audit_row where
  "demo_audit_row = \<lparr>au_id = 0x90, occurred_at = 3, au_actor = ''user:5'', event_type = ''wallet.recharge'', payload = [], au_ip = None\<rparr>"

definition demo_audited_db :: live_db where
  "demo_audited_db = demo_live_db\<lparr>audit_log := [demo_audit_row]\<rparr>"

lemma demo_audited_live_ok: "live_ok demo_audited_db"
proof (rule quiet_live_ok [OF quiet_aside [OF _ demo_live_ok] demo_live_ok])
  show "aside demo_live_db demo_audited_db"
    by (simp add: aside_def same_books_def audit_grows_def demo_audited_db_def demo_live_db_def)
qed


text \<open>
  No event type the viewer offers shows a settlement.  Resolving a market adds one row to the log, and
  under every type of the list the dropdown is filled from the viewer answers exactly as before.
\<close>

theorem settlement_missing_from_dropdown:
  assumes "resolve_market (house_resolver t) gen aid now mid w j actor s = Inr (plan, s')"
    and "af_event_type f \<in> Some ` set list_event_types"
  shows "list_audit_log f p n s' = list_audit_log f p n s \<and> length (audit_log s') = Suc (length (audit_log s))"
proof -
  obtain r where r: "audit_log s' = audit_log s @ [r]" "event_type r = ''settlement.resolved''"
    using resolve_rest(2) [OF assms(1)] by blast
  have "\<not> audit_where f r"
    using assms(2) r(2) by (auto simp: audit_where_def list_event_types_def KNOWN_EVENT_TYPES_def)
  then show ?thesis using r(1) by (simp add: list_audit_log_def)
qed

lemma settlement_missing_from_dropdown_witness:
  "list_audit_log \<lparr>af_event_type = Some ''settlement.completed'', af_actor = None, af_from = None, af_to = None\<rparr> 1 50 demo_settled_db
     = Inr ([], 0) \<and> length (audit_log demo_settled_db) = 1"
proof -
  have "audit_log demo_bet_db = []" by (simp add: demo_bet_db_def demo_db_def)
  then show ?thesis
    using settlement_missing_from_dropdown [OF demo_resolved,
        of "\<lparr>af_event_type = Some ''settlement.completed'', af_actor = None, af_from = None, af_to = None\<rparr>" 1 50]
    by (simp add: list_event_types_def KNOWN_EVENT_TYPES_def list_audit_log_def Let_def page_of_def newest_first_def)
qed

subsection \<open>Branding\<close>

definition branding_row_ok :: "tenant_config \<Rightarrow> bool" where
  "branding_row_ok r \<longleftrightarrow>
     valid_branding \<lparr>tu_name = brand_name r, tu_primary = primary_hex r, tu_secondary = secondary_hex r\<rparr>
   \<and> (case (logo_bytes r, logo_content_type r) of
        (None, None) \<Rightarrow> True
      | (Some b, Some t) \<Rightarrow> b \<noteq> [] \<and> length b \<le> MAX_LOGO_BYTES \<and> t \<in> set LOGO_ALLOWLIST
          \<and> (t = ''image/png'' \<longrightarrow> starts_with PNG_MAGIC b) \<and> (t = ''image/jpeg'' \<longrightarrow> starts_with JPEG_MAGIC b)
      | _ \<Rightarrow> False)"

definition branding_ok :: "'a console_db_scheme \<Rightarrow> bool" where
  "branding_ok s \<longleftrightarrow> length (tenant_configs s) \<le> 1 \<and> list_all branding_row_ok (tenant_configs s)"

text \<open>What a style sheet may contain: a hash sign and six hexadecimal digits.\<close>

definition css_color :: "string \<Rightarrow> bool" where
  "css_color h \<longleftrightarrow> length h = 7 \<and> list_all (\<lambda>c. c = CHR ''#'' \<or> is_hex_digit c) h"

lemma hex_css: "hex_color h \<Longrightarrow> css_color h"
  by (cases h) (auto simp: hex_color_def css_color_def list_all_iff)

lemma validate_logo_Inr:
  assumes "validate_logo ct b = Inr t"
  shows "length b \<le> MAX_LOGO_BYTES" "t \<in> set LOGO_ALLOWLIST"
    "t = ''image/png'' \<longrightarrow> starts_with PNG_MAGIC b" "t = ''image/jpeg'' \<longrightarrow> starts_with JPEG_MAGIC b"
  using assms by (auto simp: validate_logo_def Let_def split: if_splits)

lemma read_logo_Inr:
  assumes "read_logo upload = Inr (Some (b, t))"
  obtains ct where "upload = Some (ct, b)" "b \<noteq> []" "validate_logo ct b = Inr t"
proof -
  obtain ct body where u: "upload = Some (ct, body)"
    using assms by (cases upload) (auto simp: read_logo_def)
  have l: "length body \<le> MAX_LOGO_BYTES"
    using assms by (auto simp: u read_logo_def Let_def min_def not_less split: if_splits)
  then have "take (MAX_LOGO_BYTES + 1) body = body" by simp
  then have "b = body \<and> body \<noteq> [] \<and> validate_logo ct body = Inr t"
    using assms l by (auto simp: u read_logo_def Let_def split: if_splits)
  then show thesis using that [of ct] u by simp
qed

definition set_brand :: "tenant_config_update \<Rightarrow> (bytes \<times> string) option \<Rightarrow> tenant_config \<Rightarrow> tenant_config" where
  "set_brand body logo r = set_logo logo (r\<lparr>brand_name := tu_name body, primary_hex := tu_primary body, secondary_hex := tu_secondary body\<rparr>)"

lemma set_brand_fields [simp]:
  "brand_name (set_brand body logo r) = tu_name body" "primary_hex (set_brand body logo r) = tu_primary body"
  "secondary_hex (set_brand body logo r) = tu_secondary body" "tc_id (set_brand body logo r) = tc_id r"
  "logo_bytes (set_brand body logo r) = (case logo of None \<Rightarrow> logo_bytes r | Some (b, t) \<Rightarrow> Some b)"
  "logo_content_type (set_brand body logo r) = (case logo of None \<Rightarrow> logo_content_type r | Some (b, t) \<Rightarrow> Some t)"
  by (simp_all add: set_brand_def set_logo_def split: option.split prod.split)

lemma set_brand_ok:
  assumes "valid_branding body" "read_logo upload = Inr logo" "branding_row_ok r \<or> (logo_bytes r = None \<and> logo_content_type r = None)"
  shows "branding_row_ok (set_brand body logo r)"
proof (cases logo)
  case None
  then show ?thesis using assms by (auto simp: branding_row_ok_def valid_branding_def)
next
  case (Some bt)
  obtain b t where bt: "bt = (b, t)" by (cases bt)
  obtain ct where "b \<noteq> []" "validate_logo ct b = Inr t"
    by (rule read_logo_Inr [OF assms(2) [unfolded Some bt]])
  then show ?thesis
    using assms(1) validate_logo_Inr [of ct b t] by (simp add: branding_row_ok_def Some bt valid_branding_def)
qed

text \<open>The row an update leaves, in a table of at most one row.\<close>

lemma update_tenant_config_Inr:
  assumes "update_tenant_config i a now admin body upload s = Inr (resp, s')" "length (tenant_configs s) \<le> 1"
  obtains logo r where "valid_branding body" "read_logo upload = Inr logo"
    "tenant_configs s' = [set_brand body logo r]" "resp = branding_of (set_brand body logo r)"
    "tenant_configs s = [r] \<or> (tenant_configs s = [] \<and> logo_bytes r = None \<and> logo_content_type r = None)"
    "site_db.truncate s' = (site_db.truncate s)\<lparr>audit_log := audit_log s'\<rparr>"
    "map event_type (audit_log s') = map event_type (audit_log s) @ [''admin.branding_updated'']"
proof -
  obtain logo where v: "valid_branding body" "read_logo upload = Inr logo"
    using assms(1) by (auto simp: update_tenant_config_def split: if_splits)
  show thesis
  proof (cases "tenant_configs s")
    case Nil
    let ?r = "\<lparr>tc_id = i, brand_name = tu_name body, primary_hex = tu_primary body,
        secondary_hex = tu_secondary body, logo_bytes = None, logo_content_type = None, tc_created_at = now\<rparr>"
    have "tenant_configs s' = [set_brand body logo ?r] \<and> resp = branding_of (set_brand body logo ?r)
      \<and> site_db.truncate s' = (site_db.truncate s)\<lparr>audit_log := audit_log s'\<rparr>
      \<and> map event_type (audit_log s') = map event_type (audit_log s) @ [''admin.branding_updated'']"
      using assms(1) v Nil
      by (auto simp: update_tenant_config_def load_singleton_def Let_def audit_record_Inr branding_of_def logo_url_for_def
          set_brand_def [symmetric] site_db.defs)
    then show thesis using that [OF v] Nil by auto
  next
    case (Cons r rs)
    then have one: "tenant_configs s = [r]" using assms(2) by (cases rs) simp_all
    have "tenant_configs s' = [set_brand body logo r] \<and> resp = branding_of (set_brand body logo r)
      \<and> site_db.truncate s' = (site_db.truncate s)\<lparr>audit_log := audit_log s'\<rparr>
      \<and> map event_type (audit_log s') = map event_type (audit_log s) @ [''admin.branding_updated'']"
      using assms(1) v one
      by (auto simp: update_tenant_config_def load_singleton_def Let_def audit_record_Inr branding_of_def logo_url_for_def
          set_brand_def [symmetric] site_db.defs update_where_def)
    then show thesis using that [OF v] one by auto
  qed
qed

lemma singleton_row: "tenant_configs s = [r] \<Longrightarrow> load_singleton s = Some r"
  by (simp add: load_singleton_def)

lemma LOGO_type_nonempty: "t \<in> set LOGO_ALLOWLIST \<Longrightarrow> t \<noteq> []"
  by (auto simp: LOGO_ALLOWLIST_def)

text \<open>
  C22: The branding that is saved is the branding that is served, and it is safe.  An accepted update leaves
  one sound row (two hexadecimal colours without any character a style sheet could be broken out of,
  a logo of an allowed type under the cap with its magic bytes), answers what the public endpoint serves from
  then on, serves the uploaded logo or keeps the old one, and changes nothing else but one audit row.
\<close>

theorem saved_branding_is_served:
  assumes "branding_ok s" "update_tenant_config i a now admin body upload s = Inr (resp, s')"
  shows "branding_ok s' \<and> length (tenant_configs s') = 1 \<and> get_branding_current s' = resp \<and> get_tenant_config s' = Inr resp
     \<and> br_name resp = tu_name body \<and> br_primary resp = tu_primary body \<and> br_secondary resp = tu_secondary body
     \<and> css_color (br_primary resp) \<and> css_color (br_secondary resp)
     \<and> (case read_logo upload of Inl e \<Rightarrow> False
          | Inr None \<Rightarrow> get_branding_logo s' = get_branding_logo s
          | Inr (Some (b, t)) \<Rightarrow> get_branding_logo s' = Inr (b, t) \<and> t \<in> set LOGO_ALLOWLIST \<and> length b \<le> MAX_LOGO_BYTES)
     \<and> site_db.truncate s' = (site_db.truncate s)\<lparr>audit_log := audit_log s'\<rparr>
     \<and> map event_type (audit_log s') = map event_type (audit_log s) @ [''admin.branding_updated'']"
proof -
  have len: "length (tenant_configs s) \<le> 1" using assms(1) by (simp add: branding_ok_def)
  obtain logo r where u: "valid_branding body" "read_logo upload = Inr logo"
    "tenant_configs s' = [set_brand body logo r]" "resp = branding_of (set_brand body logo r)"
    "tenant_configs s = [r] \<or> (tenant_configs s = [] \<and> logo_bytes r = None \<and> logo_content_type r = None)"
    "site_db.truncate s' = (site_db.truncate s)\<lparr>audit_log := audit_log s'\<rparr>"
    "map event_type (audit_log s') = map event_type (audit_log s) @ [''admin.branding_updated'']"
    by (rule update_tenant_config_Inr [OF assms(2) len])
  note one = singleton_row [OF u(3)]
  have "branding_row_ok r \<or> (logo_bytes r = None \<and> logo_content_type r = None)"
    using u(5) assms(1) by (auto simp: branding_ok_def)
  from set_brand_ok [OF u(1,2) this] have ok: "branding_ok s'" by (simp add: branding_ok_def u(3))
  have logo: "case logo of None \<Rightarrow> get_branding_logo s' = get_branding_logo s
      | Some (b, t) \<Rightarrow> get_branding_logo s' = Inr (b, t) \<and> t \<in> set LOGO_ALLOWLIST \<and> length b \<le> MAX_LOGO_BYTES"
  proof (cases logo)
    case None
    then show ?thesis using u(5) one singleton_row [of s r] by (auto simp: get_branding_logo_def load_singleton_def split: option.split)
  next
    case (Some bt)
    obtain b t where bt: "bt = (b, t)" by (cases bt)
    obtain ct where "validate_logo ct b = Inr t" by (rule read_logo_Inr [OF u(2) [unfolded Some bt]])
    from validate_logo_Inr(1,2) [OF this] show ?thesis
      using LOGO_type_nonempty by (auto simp: get_branding_logo_def one Some bt)
  qed
  have "css_color (tu_primary body)" "css_color (tu_secondary body)" using u(1) hex_css by (auto simp: valid_branding_def)
  then show ?thesis
    using ok u(2,3,6,7) logo
    by (simp add: u(4) get_branding_current_def get_tenant_config_def one branding_of_def split: option.splits prod.splits)
qed

definition demo_console :: console_db where
  "demo_console = \<lparr>accounts = [], transfers = [], entries = [], row_locks = [], audit_log = [], markets = [], market_groups = [],
     outcomes = [], odds_snapshots = [], bets = [], live_bets = [], users = [], refresh_tokens = [], tenant_configs = []\<rparr>"

definition demo_brand :: tenant_config_update where
  "demo_brand = \<lparr>tu_name = ''Acme'', tu_primary = ''#00fF7a'', tu_secondary = ''#123456''\<rparr>"

definition demo_upload :: "(string option \<times> bytes) option" where
  "demo_upload = Some (Some ''Image/JPEG; q=1'', [0xFF, 0xD8, 0xFF, 0])"

lemma demo_upload_read: "read_logo demo_upload = Inr (Some ([0xFF, 0xD8, 0xFF, 0], ''image/jpeg''))"
proof -
  have "declared_type (Some ''Image/JPEG; q=1'') = ''image/jpeg''" by code_simp
  then show ?thesis
    by (simp add: demo_upload_def read_logo_def validate_logo_def MAX_LOGO_BYTES_def LOGO_ALLOWLIST_def starts_with_def JPEG_MAGIC_def)
qed

lemma demo_brand_accepted: "\<exists>resp s'. update_tenant_config 1 2 3 demo_player demo_brand demo_upload demo_console = Inr (resp, s')"
proof -
  have "valid_branding demo_brand" by code_simp
  then show ?thesis
    by (simp add: update_tenant_config_def demo_upload_read load_singleton_def demo_console_def Let_def audit_record_def)
qed

lemma saved_branding_is_served_witness:
  "\<exists>s'. get_branding_current s' = \<lparr>br_name = ''Acme'', br_primary = ''#00fF7a'', br_secondary = ''#123456'', br_logo_url = Some ''/branding/logo''\<rparr>
     \<and> get_branding_logo s' = Inr ([0xFF, 0xD8, 0xFF, 0], ''image/jpeg'') \<and> branding_ok (s' :: console_db)"
proof -
  obtain resp s' where u: "update_tenant_config 1 2 3 demo_player demo_brand demo_upload demo_console = Inr (resp, s')"
    using demo_brand_accepted by blast
  have "branding_ok demo_console" by (simp add: branding_ok_def demo_console_def)
  note t = saved_branding_is_served [OF this u, unfolded demo_upload_read]
  have g: "get_branding_logo s' = Inr ([0xFF, 0xD8, 0xFF, 0], ''image/jpeg'')" using t by simp
  then have "br_logo_url (get_branding_current s') = Some ''/branding/logo''"
    by (auto simp: get_branding_logo_def get_branding_current_def branding_of_def logo_url_for_def split: option.splits)
  then have "get_branding_current s' = \<lparr>br_name = ''Acme'', br_primary = ''#00fF7a'', br_secondary = ''#123456'', br_logo_url = Some ''/branding/logo''\<rparr>"
    using t by (cases resp) (simp add: demo_brand_def)
  then show ?thesis using g t by (intro exI [of _ s']) simp
qed

end
