(* ===== verification/Casino.thy ===== *)
theory Casino
  imports Csv
begin

text \<open>
  The casino catalogue (\<open>integrations/slotslaunch/service.py\<close>, \<open>client.py\<close>, \<open>schemas.py\<close>): the upstream
  answer is data, Redis a cache that may be out of reach, and the clock counts seconds.
\<close>

subsection \<open>JSON as Python reads it\<close>

datatype pyjson = PNull | PBool bool | PInt int | PFloat rat | PStr string | PList "pyjson list"
  | PDict "(string \<times> pyjson) list"

fun truthy :: "pyjson \<Rightarrow> bool" where
  "truthy PNull = False"
| "truthy (PBool b) = b"
| "truthy (PInt i) = (i \<noteq> 0)"
| "truthy (PFloat x) = (x \<noteq> 0)"
| "truthy (PStr t) = (t \<noteq> [])"
| "truthy (PList xs) = (xs \<noteq> [])"
| "truthy (PDict d) = (d \<noteq> [])"

text \<open>\<open>str(v)\<close>; \<open>rp\<close> is the text of a float, a list or a dict.\<close>

fun py_str :: "(pyjson \<Rightarrow> string) \<Rightarrow> pyjson \<Rightarrow> string" where
  "py_str rp PNull = ''None''"
| "py_str rp (PBool b) = (if b then ''True'' else ''False'')"
| "py_str rp (PInt i) = (if i < 0 then CHR ''-'' # digits (nat (- i)) else digits (nat i))"
| "py_str rp (PStr t) = t"
| "py_str rp v = rp v"

text \<open>\<open>d.get(k)\<close>; of a repeated key the last one counts.\<close>

definition py_get :: "(string \<times> pyjson) list \<Rightarrow> string \<Rightarrow> pyjson option" where
  "py_get d k = map_of (rev d) k"

subsection \<open>The catalogue\<close>

record casino_game =
  cg_id :: string
  cg_name :: string
  cg_provider :: "string option"
  cg_thumb :: "string option"
  iframe_url :: string

record casino_catalog =
  cc_active :: bool
  games :: "casino_game list"

definition INACTIVE_CATALOG :: casino_catalog where
  "INACTIVE_CATALOG = \<lparr>cc_active = False, games = []\<rparr>"

definition compose_iframe_url :: "string \<Rightarrow> string \<Rightarrow> string \<Rightarrow> string" where
  "compose_iframe_url api_base token game_id = api_base @ ''/iframe/'' @ game_id @ ''?token='' @ token"

definition opt_text :: "(pyjson \<Rightarrow> string) \<Rightarrow> pyjson option \<Rightarrow> string option" where
  "opt_text rp v = (case v of None \<Rightarrow> None | Some w \<Rightarrow> if truthy w then Some (py_str rp w) else None)"

definition casino_item :: "(pyjson \<Rightarrow> string) \<Rightarrow> string \<Rightarrow> string \<Rightarrow> (string \<times> pyjson) list \<Rightarrow> casino_game result" where
  "casino_item rp api_base token item = (case py_get item ''id'' of
     None \<Rightarrow> Inl KeyError
   | Some v \<Rightarrow> let i = py_str rp v in
       Inr \<lparr>cg_id = i, cg_name = (case opt_text rp (py_get item ''name'') of None \<Rightarrow> [] | Some n \<Rightarrow> n),
         cg_provider = opt_text rp (py_get item ''provider''), cg_thumb = opt_text rp (py_get item ''thumb''),
         iframe_url = compose_iframe_url api_base token i\<rparr>)"

definition dict_items :: "pyjson list \<Rightarrow> (string \<times> pyjson) list list" where
  "dict_items xs = concat (map (\<lambda>x. case x of PDict d \<Rightarrow> [d] | _ \<Rightarrow> []) xs)"

definition normalize_catalog :: "(pyjson \<Rightarrow> string) \<Rightarrow> string \<Rightarrow> string \<Rightarrow> (string \<times> pyjson) list \<Rightarrow> casino_catalog result" where
  "normalize_catalog rp api_base token raw = (case py_get raw ''data'' of
     Some (PList xs) \<Rightarrow> bindE (mapE (casino_item rp api_base token) (dict_items xs)) (\<lambda>gs. Inr \<lparr>cc_active = True, games = gs\<rparr>)
   | _ \<Rightarrow> Inr \<lparr>cc_active = True, games = []\<rparr>)"

subsection \<open>Fetching\<close>

text \<open>\<open>fetch_games\<close>: at most three attempts; only transient failures are retried.\<close>

fun retry :: "nat \<Rightarrow> (nat \<Rightarrow> 'r result) \<Rightarrow> 'r result" where
  "retry 0 attempt = attempt 0"
| "retry (Suc n) attempt = (case attempt 0 of
     Inl NetworkError \<Rightarrow> retry n (\<lambda>k. attempt (Suc k)) | r \<Rightarrow> r)"

definition fetch_games :: "(nat \<Rightarrow> pyjson result) \<Rightarrow> pyjson result" where
  "fetch_games attempt = retry 2 attempt"

record casino_settings =
  cs_repr :: "pyjson \<Rightarrow> string"
  cs_token :: "string option"
  cs_api_base :: string
  cs_ttl :: int

text \<open>What one request meets: the time, whether Redis answers a read and a write, and the upstream.\<close>

record casino_request =
  cq_now :: int
  cq_read_up :: bool
  cq_write_up :: bool
  cq_attempt :: "nat \<Rightarrow> pyjson result"

type_synonym casino_cache = "(casino_catalog \<times> int) option"

definition read_cache :: "casino_request \<Rightarrow> casino_cache \<Rightarrow> casino_catalog option" where
  "read_cache q c = (if \<not> cq_read_up q then None
     else case c of None \<Rightarrow> None | Some (cat, expires) \<Rightarrow> if cq_now q < expires then Some cat else None)"

text \<open>Redis refuses a time to live that is not positive; the refusal is swallowed.\<close>

definition write_cache :: "casino_settings \<Rightarrow> casino_request \<Rightarrow> casino_catalog \<Rightarrow> casino_cache \<Rightarrow> casino_cache" where
  "write_cache st q cat c = (if cq_write_up q \<and> 0 < cs_ttl st then Some (cat, cq_now q + cs_ttl st) else c)"

definition casino_catalog_of :: "casino_settings \<Rightarrow> pyjson result \<Rightarrow> casino_catalog result" where
  "casino_catalog_of st fetched = bindE fetched (\<lambda>raw. case raw of
     PDict d \<Rightarrow> if ''error'' \<in> fst ` set d then Inr INACTIVE_CATALOG
       else normalize_catalog (cs_repr st) (cs_api_base st) (case cs_token st of None \<Rightarrow> [] | Some t \<Rightarrow> t) d
   | _ \<Rightarrow> Inr INACTIVE_CATALOG)"

definition get_casino_catalog ::
  "casino_settings \<Rightarrow> casino_request \<Rightarrow> casino_cache \<Rightarrow> casino_catalog \<times> casino_cache" where
  "get_casino_catalog st q c =
     (if cs_token st = None \<or> cs_token st = Some [] then (INACTIVE_CATALOG, c)
      else case read_cache q c of
        Some cat \<Rightarrow> (cat, c)
      | None \<Rightarrow> (case casino_catalog_of st (fetch_games (cq_attempt q)) of
          Inl e \<Rightarrow> (INACTIVE_CATALOG, c)
        | Inr cat \<Rightarrow> if cc_active cat then (cat, write_cache st q cat c) else (cat, c)))"

fun serve_casino :: "casino_settings \<Rightarrow> casino_request list \<Rightarrow> casino_cache \<Rightarrow> casino_catalog list" where
  "serve_casino st [] c = []"
| "serve_casino st (q # qs) c = (case get_casino_catalog st q c of (cat, c') \<Rightarrow> cat # serve_casino st qs c')"

subsection \<open>Every active catalogue is recent\<close>

text \<open>The answer of a request that fetches, when it is active.\<close>

definition fetched_by :: "casino_settings \<Rightarrow> casino_request \<Rightarrow> casino_catalog \<Rightarrow> bool" where
  "fetched_by st q cat \<longleftrightarrow> casino_catalog_of st (fetch_games (cq_attempt q)) = Inr cat"

definition launchable :: "casino_settings \<Rightarrow> casino_game \<Rightarrow> bool" where
  "launchable st g \<longleftrightarrow> (case cs_token st of None \<Rightarrow> False
     | Some t \<Rightarrow> t \<noteq> [] \<and> iframe_url g = compose_iframe_url (cs_api_base st) t (cg_id g))"

lemma casino_item_launchable:
  "casino_item rp base t item = Inr g \<Longrightarrow> iframe_url g = compose_iframe_url base t (cg_id g)"
  by (auto simp: casino_item_def Let_def split: option.splits)

lemma mapE_all: "mapE f xs = Inr ys \<Longrightarrow> (\<And>x y. f x = Inr y \<Longrightarrow> P y) \<Longrightarrow> \<forall>y \<in> set ys. P y"
  by (induction xs arbitrary: ys) auto

lemma normalize_catalog_Inr:
  assumes "normalize_catalog rp base t d = Inr cat"
  shows "cc_active cat" "\<forall>g \<in> set (games cat). iframe_url g = compose_iframe_url base t (cg_id g)"
proof -
  from assms consider "cat = \<lparr>cc_active = True, games = []\<rparr>"
    | xs where "bindE (mapE (casino_item rp base t) (dict_items xs)) (\<lambda>gs. Inr \<lparr>cc_active = True, games = gs\<rparr>) = Inr cat"
    unfolding normalize_catalog_def by (cases "py_get d ''data''") (auto split: pyjson.splits)
  then have "cc_active cat \<and> (\<forall>g \<in> set (games cat). iframe_url g = compose_iframe_url base t (cg_id g))"
  proof cases
    case (2 xs)
    then obtain gs where gs: "mapE (casino_item rp base t) (dict_items xs) = Inr gs" "cat = \<lparr>cc_active = True, games = gs\<rparr>" by auto
    have "\<forall>g \<in> set gs. iframe_url g = compose_iframe_url base t (cg_id g)"
      by (rule mapE_all [OF gs(1)]) (rule casino_item_launchable)
    with gs(2) show ?thesis by simp
  qed simp
  then show "cc_active cat" "\<forall>g \<in> set (games cat). iframe_url g = compose_iframe_url base t (cg_id g)" by simp_all
qed

lemma fetched_by_cases:
  assumes "fetched_by st q cat"
  obtains (inactive) "cat = INACTIVE_CATALOG"
  | (active) rp d where "normalize_catalog rp (cs_api_base st) (case cs_token st of None \<Rightarrow> [] | Some t \<Rightarrow> t) d = Inr cat"
proof -
  obtain raw where raw: "fetch_games (cq_attempt q) = Inr raw"
    using assms unfolding fetched_by_def casino_catalog_of_def by (auto simp del: bindE_eq_Inr simp: bindE_def split: sum.splits)
  show ?thesis
  proof (cases raw)
    case (PDict d)
    then show ?thesis
      using assms raw inactive active [of "cs_repr st" d] unfolding fetched_by_def casino_catalog_of_def
      by (cases "''error'' \<in> fst ` set d") (simp_all del: bindE_eq_Inr)
  qed (use assms raw inactive in \<open>simp_all add: fetched_by_def casino_catalog_of_def del: bindE_eq_Inr\<close>)
qed

lemma fetched_launchable:
  assumes "fetched_by st q cat" "cs_token st \<noteq> None" "cs_token st \<noteq> Some []"
  shows "\<forall>g \<in> set (games cat). launchable st g"
  using assms(1)
proof (cases rule: fetched_by_cases)
  case (active rp d)
  show ?thesis using normalize_catalog_Inr(2) [OF active] assms(2,3) by (auto simp: launchable_def)
qed (simp add: INACTIVE_CATALOG_def)

text \<open>What the cache holds was fetched by one of the requests served so far, and is active.\<close>

definition cache_from :: "casino_settings \<Rightarrow> casino_request list \<Rightarrow> casino_cache \<Rightarrow> bool" where
  "cache_from st past c = (case c of None \<Rightarrow> True | Some (cat, expires) \<Rightarrow>
     \<exists>q \<in> set past. fetched_by st q cat \<and> cc_active cat \<and> expires = cq_now q + cs_ttl st)"

definition recent_answer :: "casino_settings \<Rightarrow> casino_request list \<Rightarrow> casino_request \<Rightarrow> casino_catalog \<Rightarrow> bool" where
  "recent_answer st past q cat \<longleftrightarrow> cat = INACTIVE_CATALOG
     \<or> (cc_active cat \<and> list_all (launchable st) (games cat)
        \<and> (fetched_by st q cat \<or> (\<exists>p \<in> set past. fetched_by st p cat \<and> cq_now q < cq_now p + cs_ttl st)))"

lemma inactive_fetch: "fetched_by st q cat \<Longrightarrow> \<not> cc_active cat \<Longrightarrow> cat = INACTIVE_CATALOG"
  by (erule fetched_by_cases) (auto dest: normalize_catalog_Inr(1))

lemma get_casino_catalog_recent:
  assumes "cache_from st past c" "get_casino_catalog st q c = (cat, c')"
  shows "recent_answer st past q cat \<and> cache_from st (past @ [q]) c'"
proof -
  note T = fetched_launchable [of st _ cat]
  have keep: "cache_from st (past @ [q]) c" using assms(1) by (auto simp: cache_from_def split: option.splits)
  show ?thesis
  proof (cases "cs_token st = None \<or> cs_token st = Some []")
    case True
    then have "cat = INACTIVE_CATALOG" "c' = c" using assms(2) by (auto simp: get_casino_catalog_def)
    with keep show ?thesis by (simp add: recent_answer_def)
  next
    case False
    show ?thesis
    proof (cases "read_cache q c")
      case (Some hit)
      then have e: "cat = hit" "c' = c" using assms(2) False by (auto simp: get_casino_catalog_def)
      obtain ex where c: "c = Some (hit, ex)" "cq_now q < ex"
        using Some by (auto simp: read_cache_def split: option.splits if_splits)
      then obtain p where "p \<in> set past" "fetched_by st p hit" "cc_active hit" "ex = cq_now p + cs_ttl st"
        using assms(1) by (auto simp: cache_from_def)
      then show ?thesis using e c keep T False by (auto simp: recent_answer_def list_all_iff)
    next
      case None
      show ?thesis
      proof (cases "casino_catalog_of st (fetch_games (cq_attempt q))")
        case (Inl ex)
        then have "cat = INACTIVE_CATALOG" "c' = c" using assms(2) False None by (auto simp: get_casino_catalog_def)
        with keep show ?thesis by (simp add: recent_answer_def)
      next
        case (Inr got)
        then have g: "fetched_by st q got" by (simp add: fetched_by_def)
        have e: "cat = got" "c' = (if cc_active got then write_cache st q got c else c)"
          using assms(2) False None Inr by (auto simp: get_casino_catalog_def split: if_splits)
        then show ?thesis
          using g inactive_fetch [OF g] T [of q] False keep
          by (auto simp: recent_answer_def list_all_iff write_cache_def cache_from_def)
      qed
    qed
  qed
qed

lemma serve_casino_recent:
  "cache_from st past c \<Longrightarrow> i < length qs \<Longrightarrow>
     recent_answer st (past @ take i qs) (qs ! i) (serve_casino st qs c ! i)"
proof (induction qs arbitrary: past c i)
  case (Cons q qs)
  obtain cat c' where g: "get_casino_catalog st q c = (cat, c')" by (rule prod.exhaust)
  note r = get_casino_catalog_recent [OF Cons.prems(1) g]
  show ?case
  proof (cases i)
    case 0 then show ?thesis using r g by simp
  next
    case (Suc j)
    then show ?thesis using Cons.IH [OF conjunct2 [OF r], of j] Cons.prems(2) g by simp
  qed
qed simp

lemma length_serve_casino [simp]: "length (serve_casino st qs c) = length qs"
  by (induction qs arbitrary: c) (auto split: prod.split)

text \<open>
  C38: Every answer of the casino endpoint is the inactive catalogue or an active one that this request
  fetched itself or an earlier request fetched less than the time to live before, whatever Redis and
  the upstream do; an inactive answer is never cached, and every game of an active one has its
  launch address.
\<close>

theorem casino_answers_recent:
  assumes "i < length qs"
  shows "length (serve_casino st qs None) = length qs
    \<and> recent_answer st (take i qs) (qs ! i) (serve_casino st qs None ! i)"
  using serve_casino_recent [of st "[]" None i qs] assms by (simp add: cache_from_def)

definition demo_casino :: casino_settings where
  "demo_casino = \<lparr>cs_repr = (\<lambda>v. []), cs_token = Some ''tok'', cs_api_base = ''https://s'', cs_ttl = 60\<rparr>"

definition demo_casino_requests :: "casino_request list" where
  "demo_casino_requests =
     [\<lparr>cq_now = 0, cq_read_up = True, cq_write_up = True,
       cq_attempt = (\<lambda>k. if k = 0 then Inl NetworkError else Inr (PDict [(''data'', PList [PDict [(''id'', PInt 7)], PNull])]))\<rparr>,
      \<lparr>cq_now = 59, cq_read_up = True, cq_write_up = True, cq_attempt = (\<lambda>k. Inl NetworkError)\<rparr>,
      \<lparr>cq_now = 60, cq_read_up = True, cq_write_up = True, cq_attempt = (\<lambda>k. Inl NetworkError)\<rparr>]"

lemma demo_casino_answers:
  "map (\<lambda>c. map iframe_url (games c)) (serve_casino demo_casino demo_casino_requests None)
     = [[''https://s/iframe/7?token=tok''], [''https://s/iframe/7?token=tok''], []]"
  by code_simp

lemma casino_answers_recent_witness:
  "recent_answer demo_casino (take 1 demo_casino_requests) (demo_casino_requests ! 1) (serve_casino demo_casino demo_casino_requests None ! 1)
     \<and> map iframe_url (games (serve_casino demo_casino demo_casino_requests None ! 1)) = [''https://s/iframe/7?token=tok'']"
proof -
  have l: "1 < length demo_casino_requests" by (simp add: demo_casino_requests_def)
  have "map iframe_url (games (serve_casino demo_casino demo_casino_requests None ! 1))
      = map (\<lambda>c. map iframe_url (games c)) (serve_casino demo_casino demo_casino_requests None) ! 1"
    using l by simp
  then show ?thesis using casino_answers_recent [OF l, of demo_casino] by (simp only: demo_casino_answers) simp
qed

end
