(* ===== verification/SeedData.thy ===== *)
theory SeedData
  imports Gates
begin

text \<open>
  The data of the demo seed (\<open>bin/seed_demo.py\<close>): the configuration, the names, ladders and
  templates, and the deterministic specifications built from them.  The counts of a configuration are
  natural numbers; negative ones are left out.
\<close>

subsection \<open>Configuration and constants\<close>

definition DEMO_EMAIL_DOMAIN :: string where
  "DEMO_EMAIL_DOMAIN = ''demo.xpredict''"

definition SIGNUP_BONUS :: rat where
  "SIGNUP_BONUS = 1000"

definition DEMO_USER_PASSWORD :: string where
  "DEMO_USER_PASSWORD = ''Demo-Player-Pass-1!''"

definition RECHARGE_LADDERS :: "rat list list" where
  "RECHARGE_LADDERS = [[], [500], [250, 750]]"

definition DISPLAY_NAMES :: "string list" where
  "DISPLAY_NAMES = [''Alice Nguyen'', ''Bob Martins'', ''Carol Dasilva'', ''Dave Okafor'', ''Erin Haddad'', ''Frank Moreau'', ''Grace Liang'', ''Heidi Brandt'', ''Ivan Petrov'', ''Judy Almeida'', ''Karl Vogt'', ''Lena Sorensen'']"

definition FEATURED_CATEGORIES :: "string list" where
  "FEATURED_CATEGORIES = [''Politics'', ''Sports'', ''Crypto'', ''Pop Culture'', ''Economy'', ''Tech'', ''World'']"

text \<open>\<open>settings.POLYMARKET_CATEGORIES\<close>: name, slug and tag.\<close>

definition POLYMARKET_CATEGORIES :: "(string \<times> string \<times> string) list" where
  "POLYMARKET_CATEGORIES = [(''Politics'', ''politics'', ''2''), (''Sports'', ''sports'', ''1''), (''Crypto'', ''crypto'', ''21''),
     (''Pop Culture'', ''pop-culture'', ''596''), (''Economy'', ''economy'', ''100328''), (''Tech'', ''tech'', ''1401''),
     (''World'', ''world'', ''101970'')]"

definition CATEGORY_CANONICAL_MAP :: "(string \<times> string) list" where
  "CATEGORY_CANONICAL_MAP = [(''Space'', ''World''), (''Climate'', ''World''), (''Entertainment'', ''Pop Culture''), (''Commodities'', ''Economy''), (''Finance'', ''Economy'')]"

definition canonical_category :: "string \<Rightarrow> string" where
  "canonical_category c = (case map_of CATEGORY_CANONICAL_MAP c of None \<Rightarrow> c | Some d \<Rightarrow> d)"

definition featured_match_canonical :: "(string \<times> string \<times> string) list \<Rightarrow> bool" where
  "featured_match_canonical cats \<longleftrightarrow> set FEATURED_CATEGORIES = set (map fst cats)"

record seed_config =
  n_users :: nat
  n_markets :: nat
  n_resolved_markets :: nat
  n_events :: nat
  email_domain :: string

definition default_config :: seed_config where
  "default_config = \<lparr>n_users = 10, n_markets = 15, n_resolved_markets = 4, n_events = 7, email_domain = DEMO_EMAIL_DOMAIN\<rparr>"

subsection \<open>Players\<close>

record demo_user_spec =
  du_email :: string
  du_name :: string
  du_bonus :: rat
  du_recharges :: "rat list"

definition expected_balance :: "demo_user_spec \<Rightarrow> rat" where
  "expected_balance d = du_bonus d + sum_list (du_recharges d)"

text \<open>\<open>f"{i:02d}"\<close>.\<close>

definition two_digits :: "nat \<Rightarrow> string" where
  "two_digits i = (if i < 10 then CHR ''0'' # digits i else digits i)"

definition build_user_specs :: "seed_config \<Rightarrow> demo_user_spec list" where
  "build_user_specs cfg = map (\<lambda>i. \<lparr>du_email = ''demo-user-'' @ two_digits i @ ''@'' @ email_domain cfg,
       du_name = DISPLAY_NAMES ! (i mod length DISPLAY_NAMES), du_bonus = SIGNUP_BONUS,
       du_recharges = RECHARGE_LADDERS ! (i mod length RECHARGE_LADDERS)\<rparr>) [0..<n_users cfg]"

definition demo_admin_email :: "seed_config \<Rightarrow> string" where
  "demo_admin_email cfg = ''demo-admin@'' @ email_domain cfg"

subsection \<open>Markets\<close>

text \<open>Question, criteria, category, initial YES odds and days to the deadline.\<close>

definition MARKET_TEMPLATES :: "(string \<times> string \<times> string \<times> rat \<times> int) list" where
  "MARKET_TEMPLATES = [
    (''Will Bitcoin close above $100,000 by the deadline?'',
     ''Resolves YES if the BTC/USD daily close on a major exchange is above $100,000 on or before the deadline.'',
     ''Crypto'', 62 / 100, 45),
    (''Will the central bank cut interest rates at its next meeting?'',
     ''Resolves YES if the policy rate is lowered at the next scheduled meeting per the official statement.'',
     ''Economy'', 55 / 100, 30),
    (''Will a crewed lunar flyby launch this year?'',
     ''Resolves YES if a crewed mission performs a lunar flyby on or before the deadline, per the operator's confirmation.'',
     ''Space'', 28 / 100, 120),
    (''Will the home team win the national championship final?'',
     ''Resolves YES if the home team is the official champion of the final.'',
     ''Sports'', 48 / 100, 21),
    (''Will a major lab release a model topping the public leaderboard?'',
     ''Resolves YES if a new model takes the #1 spot on the agreed public benchmark leaderboard before the deadline.'',
     ''Tech'', 70 / 100, 60),
    (''Will this season set a new monthly temperature record?'',
     ''Resolves YES if an official agency reports a record monthly global mean temperature within the window.'',
     ''Climate'', 66 / 100, 40),
    (''Will the incumbent party win the upcoming election?'',
     ''Resolves YES if the incumbent party wins per the certified result.'',
     ''Politics'', 52 / 100, 90),
    (''Will Ethereum set a new all-time high this year?'',
     ''Resolves YES if ETH/USD prints a new all-time high on a major exchange before the deadline.'',
     ''Crypto'', 34 / 100, 75),
    (''Will the summer blockbuster gross over $1B worldwide?'',
     ''Resolves YES if reported worldwide box office exceeds $1B before the deadline.'',
     ''Entertainment'', 40 / 100, 50),
    (''Will unemployment fall below 4% in the next report?'',
     ''Resolves YES if the headline unemployment rate is below 4.0% in the next official jobs report.'',
     ''Economy'', 45 / 100, 25),
    (''Will the new flagship phone ship on-device AI features?'',
     ''Resolves YES if the announced flagship ships with the advertised on-device AI features by the deadline.'',
     ''Tech'', 58 / 100, 35),
    (''Will the league MVP be a first-time winner this season?'',
     ''Resolves YES if the official MVP has never previously won the award.'',
     ''Sports'', 50 / 100, 28),
    (''Will oil close above $90 a barrel by month end?'',
     ''Resolves YES if the front-month crude benchmark settles above $90 on the last trading day of the month.'',
     ''Commodities'', 43 / 100, 18),
    (''Will a Category 5 hurricane form this season?'',
     ''Resolves YES if an official agency classifies any storm as Category 5 within the window.'',
     ''Climate'', 37 / 100, 70),
    (''Will the tech IPO price above its target range?'',
     ''Resolves YES if the final IPO price is above the stated target range.'',
     ''Finance'', 60 / 100, 33),
    (''Will the streaming series top the global chart three weeks running?'',
     ''Resolves YES if the series holds the #1 global chart spot for three consecutive weeks before the deadline.'',
     ''Entertainment'', 31 / 100, 22),
    (''Will the central bank hold rates steady through the period?'',
     ''Resolves YES if the policy rate is unchanged at every scheduled meeting within the window.'',
     ''Economy'', 47 / 100, 110),
    (''Will the rover confirm subsurface water at its new site?'',
     ''Resolves YES if the mission team officially confirms subsurface water at the new site before the deadline.'',
     ''Space'', 36 / 100, 95)]"

record demo_market_spec =
  dm_question :: string
  dm_criteria :: string
  dm_category :: string
  dm_odds :: rat
  dm_offset_days :: int
  dm_resolve_to :: "string option"

definition build_market_specs :: "seed_config \<Rightarrow> demo_market_spec list" where
  "build_market_specs cfg = map (\<lambda>i.
     let n = length MARKET_TEMPLATES; n_resolved = min (n_resolved_markets cfg) (n_markets cfg) in
     case MARKET_TEMPLATES ! (i mod n) of (q, crit, cat, p, offset) \<Rightarrow>
       \<lparr>dm_question = (if n \<le> i then q @ '' (Round '' @ digits (i div n + 1) @ '')'' else q),
        dm_criteria = crit, dm_category = canonical_category cat, dm_odds = p, dm_offset_days = offset,
        dm_resolve_to = (if i < n_resolved then Some (if i mod 2 = 0 then ''YES'' else ''NO'') else None)\<rparr>)
     [0..<n_markets cfg]"

subsection \<open>Bets\<close>

definition BET_STAKES :: "rat list" where
  "BET_STAKES = [25, 50, 40, 60, 30]"

record bet_spec =
  bs_user_index :: nat
  bs_market_index :: nat
  bs_side :: string
  bs_stake :: rat

text \<open>\<open>None\<close> stands for the \<open>ZeroDivisionError\<close> of \<open>% cfg.n_users\<close>.\<close>

definition build_bet_specs :: "seed_config \<Rightarrow> bet_spec list option" where
  "build_bet_specs cfg =
     (let n = length (build_market_specs cfg) in
      if n_users cfg = 0 \<and> n \<noteq> 0 then None
      else Some (concat (map (\<lambda>j. map (\<lambda>k. \<lparr>bs_user_index = (j + k) mod n_users cfg, bs_market_index = j,
          bs_side = (if k mod 2 = 0 then ''YES'' else ''NO''),
          bs_stake = BET_STAKES ! ((j + k) mod length BET_STAKES)\<rparr>) [0..<4 + j mod 4]) [0..<n])))"

subsection \<open>Events\<close>

record demo_event_spec =
  ev_slug :: string
  ev_title :: string
  ev_category :: string
  ev_criteria :: string
  ev_offset_days :: int
  ev_outcomes :: "(string \<times> rat) list"
  target_state :: string
  winner_index :: "nat option"

definition EVENT_TEMPLATES :: "demo_event_spec list" where
  "EVENT_TEMPLATES = [
    \<lparr>ev_slug = ''demo-evt-00-politics-senate'',
     ev_title = ''Which party controls the Senate after the next election?'', ev_category = ''Politics'',
     ev_criteria = ''Resolves to the party holding a majority of seats per the certified result; the winning outcome settles YES and the others NO.'',
     ev_offset_days = 60,
     ev_outcomes = [(''Democrats'', 46 / 100), (''Republicans'', 52 / 100), (''Independent caucus'', 7 / 100)],
     target_state = ''resolved'', winner_index = Some 1\<rparr>,
    \<lparr>ev_slug = ''demo-evt-01-sports-ucl'',
     ev_title = ''Which club will win the Champions League?'', ev_category = ''Sports'',
     ev_criteria = ''Resolves to the club lifting the trophy in the final; eliminated clubs settle NO as the bracket progresses.'',
     ev_offset_days = 45,
     ev_outcomes = [(''Real Madrid'', 30 / 100), (''Manchester City'', 28 / 100), (''Bayern Munich'', 18 / 100), (''Paris Saint-Germain'', 14 / 100), (''Arsenal'', 12 / 100), (''Inter'', 9 / 100)],
     target_state = ''partially_resolved'', winner_index = Some 2\<rparr>,
    \<lparr>ev_slug = ''demo-evt-02-economy-rate-cut'',
     ev_title = ''In which quarter will the central bank first cut its policy rate?'', ev_category = ''Economy'',
     ev_criteria = ''Resolves to the quarter of the first rate cut; if the bank holds rates all year the event voids (every outcome settles NO).'',
     ev_offset_days = 120,
     ev_outcomes = [(''Q1'', 15 / 100), (''Q2'', 30 / 100), (''Q3'', 28 / 100), (''Q4'', 20 / 100)],
     target_state = ''void'', winner_index = None\<rparr>,
    \<lparr>ev_slug = ''demo-evt-03-crypto-top-return'',
     ev_title = ''Which asset posts the highest return this year?'', ev_category = ''Crypto'',
     ev_criteria = ''Resolves to the asset with the highest year-to-date return per a major index.'',
     ev_offset_days = 200,
     ev_outcomes = [(''Bitcoin'', 34 / 100), (''Ethereum'', 26 / 100), (''Solana'', 22 / 100), (''XRP'', 10 / 100), (''Dogecoin'', 8 / 100)],
     target_state = ''open'', winner_index = None\<rparr>,
    \<lparr>ev_slug = ''demo-evt-04-pop-culture-aoty'',
     ev_title = ''Who will win Album of the Year?'', ev_category = ''Pop Culture'',
     ev_criteria = ''Resolves to the artist awarded Album of the Year at the official ceremony.'',
     ev_offset_days = 120,
     ev_outcomes = [(''Taylor Swift'', 32 / 100), (''Billie Eilish'', 22 / 100), (''SZA'', 20 / 100), (''Olivia Rodrigo'', 16 / 100), (''Kendrick Lamar'', 14 / 100)],
     target_state = ''open'', winner_index = None\<rparr>,
    \<lparr>ev_slug = ''demo-evt-05-tech-frontier-model'',
     ev_title = ''Which lab ships the next frontier model first?'', ev_category = ''Tech'',
     ev_criteria = ''Resolves to the first lab to publicly release a model topping the agreed benchmark.'',
     ev_offset_days = 180,
     ev_outcomes = [(''OpenAI'', 30 / 100), (''Google DeepMind'', 26 / 100), (''Anthropic'', 24 / 100), (''Meta'', 12 / 100), (''xAI'', 10 / 100)],
     target_state = ''open'', winner_index = None\<rparr>,
    \<lparr>ev_slug = ''demo-evt-06-world-olympics-host'',
     ev_title = ''Which city will host the 2036 Summer Olympics?'', ev_category = ''World'',
     ev_criteria = ''Resolves to the city awarded the Games by the official selection committee.'',
     ev_offset_days = 800,
     ev_outcomes = [(''Istanbul'', 30 / 100), (''Doha'', 28 / 100), (''Jakarta'', 22 / 100), (''Santiago'', 18 / 100)],
     target_state = ''open'', winner_index = None\<rparr>]"

definition build_event_specs :: "seed_config \<Rightarrow> demo_event_spec list" where
  "build_event_specs cfg = take (n_events cfg) EVENT_TEMPLATES"

definition event_slug :: "demo_event_spec \<Rightarrow> seed_config \<Rightarrow> string" where
  "event_slug spec cfg = (if email_domain cfg = DEMO_EMAIL_DOMAIN then ev_slug spec
     else ev_slug spec @ ''--'' @ str_replace_char (CHR ''.'') ''-'' (email_domain cfg))"

end
