(* ===== verification/Seed.thy ===== *)
theory Seed
  imports SeedData
begin

text \<open>
  The operator scripts: \<open>bin/seed_demo.py\<close> (\<open>seed_demo\<close>, \<open>reset_demo\<close>, \<open>main\<close>) and
  \<open>bin/create_admin.py\<close>.  Each service call runs in a transaction of its own, so a step returns its
  result or exception together with what was committed by then.
\<close>

subsection \<open>Scripts\<close>

datatype seed_exn = AlreadySeeded | ZeroDivisionError | IndexError | Failed exn

type_synonym ('s, 'y) run = "'s \<Rightarrow> (seed_exn + 'y) \<times> 's"

text \<open>One transaction: committed on success, rolled back on an exception.\<close>

definition tx :: "('s \<Rightarrow> ('y \<times> 's) result) \<Rightarrow> ('s, 'y) run" where
  "tx f s = (case f s of Inl e \<Rightarrow> (Inl (Failed e), s) | Inr (y, s') \<Rightarrow> (Inr y, s'))"

definition give :: "seed_exn + 'y \<Rightarrow> ('s, 'y) run" where
  "give r s = (r, s)"

definition andS :: "('s, 'y) run \<Rightarrow> ('y \<Rightarrow> ('s, 'z) run) \<Rightarrow> ('s, 'z) run" where
  "andS m k s = (case m s of (Inl e, s') \<Rightarrow> (Inl e, s') | (Inr y, s') \<Rightarrow> k y s')"

fun eachS :: "('x \<Rightarrow> ('s, 'y) run) \<Rightarrow> 'x list \<Rightarrow> ('s, 'y list) run" where
  "eachS f [] s = (Inr [], s)"
| "eachS f (x # xs) s = andS (f x) (\<lambda>y. andS (eachS f xs) (\<lambda>ys. give (Inr (y # ys)))) s"

text \<open>A loop inside one transaction.\<close>

fun eachE :: "('x \<Rightarrow> 's \<Rightarrow> ('y \<times> 's) result) \<Rightarrow> 'x list \<Rightarrow> 's \<Rightarrow> ('y list \<times> 's) result" where
  "eachE f [] s = Inr ([], s)"
| "eachE f (x # xs) s = bindE (f x s) (\<lambda>(y, s). bindE (eachE f xs s) (\<lambda>(ys, s). Inr (y # ys, s)))"

text \<open>A \<open>ValidationError\<close> of pydantic is a \<open>ValueError\<close>.\<close>

definition validated :: "'y result \<Rightarrow> 'y result" where
  "validated r = (case r of Inl e \<Rightarrow> Inl (ValueError ''validation error'') | Inr y \<Rightarrow> Inr y)"

definition days :: "int \<Rightarrow> int" where
  "days n = n * 86400000000"

subsection \<open>What a run draws\<close>

text \<open>
  Fresh identifiers and clock readings, by position.  \<open>sd_hash\<close> is the password hasher, \<open>sd_slugify\<close> the
  slug library, \<open>sd_collate\<close> the order of texts in the database and \<open>sd_walk\<close> the floating-point
  expression of \<open>_odds_walk\<close> (base, series, step) before it is clamped and rounded.
\<close>

record user_draw =
  ud_user :: uuid
  ud_wallet :: uuid
  ud_bonus :: post_ids
  ud_recharge :: "nat \<Rightarrow> post_ids"
  ud_now :: int

record market_draw =
  md_slugs :: "(uuid \<times> uuid) list"
  md_ids :: create_ids
  md_now :: int

record bet_draw =
  bd_account :: uuid
  bd_bet :: uuid
  bd_ids :: post_ids
  bd_now :: int

record event_draw =
  ed_slugs :: "(uuid \<times> uuid) list"
  ed_kids :: "nat \<Rightarrow> event_child_ids"
  ed_audit :: uuid
  ed_now :: int

record seed_env =
  sd_hash :: "string \<Rightarrow> string"
  sd_slugify :: "string \<Rightarrow> string"
  sd_collate :: "string \<Rightarrow> rat"
  sd_walk :: "rat \<Rightarrow> nat \<Rightarrow> nat \<Rightarrow> rat"
  sd_limits :: "rat \<times> rat"
  sd_users :: "nat \<Rightarrow> user_draw"
  sd_admin :: "uuid \<times> int"
  sd_markets :: "nat \<Rightarrow> market_draw"
  sd_snapshot :: "nat \<Rightarrow> uuid"
  sd_now :: int
  sd_bets :: "nat \<Rightarrow> bet_draw"
  sd_event_bets :: "nat \<Rightarrow> bet_draw"
  sd_settle :: "uuid \<Rightarrow> child_ids"
  sd_events :: "nat \<Rightarrow> event_draw"
  sd_event_audit :: "nat \<Rightarrow> uuid \<times> int"

subsection \<open>Players\<close>

record seeded_user =
  su_id :: uuid
  su_email :: string
  su_name :: string

definition seed_user_row :: "uuid \<Rightarrow> string \<Rightarrow> string \<Rightarrow> string option \<Rightarrow> bool \<Rightarrow> int \<Rightarrow> user" where
  "seed_user_row i email hashed name superuser now =
     \<lparr>us_id = i, us_email = email, hashed_password = hashed, is_active = True, is_superuser = superuser,
      is_verified = True, display_name = name, banned_at = None, us_created_at = now, token_version = 0\<rparr>"

definition user_by_email :: "string \<Rightarrow> 'a site_db_scheme \<Rightarrow> user option result" where
  "user_by_email email s = scalar_one_or_none (filter (\<lambda>u. us_email u = email) (users s))"

definition ensure_user_with_wallet ::
  "(string \<Rightarrow> string) \<Rightarrow> user_draw \<Rightarrow> demo_user_spec \<Rightarrow> ('a site_db_scheme, uuid) run" where
  "ensure_user_with_wallet hasher d spec s = (case user_by_email (du_email spec) s of
     Inl e \<Rightarrow> (Inl (Failed e), s)
   | Inr (Some u) \<Rightarrow> (Inr (us_id u), s)
   | Inr None \<Rightarrow> tx (\<lambda>s.
       bindE (insert_user (seed_user_row (ud_user d) (du_email spec) (hasher DEMO_USER_PASSWORD)
                (Some (du_name spec)) False (ud_now d)) (begin_tx s)) (\<lambda>s.
       bindE (create_wallet (ud_wallet d) (ud_user d) s) (\<lambda>(w, s). Inr (ud_user d, s)))) s)"

definition recharge_key :: "uuid \<Rightarrow> nat \<Rightarrow> string" where
  "recharge_key u i = ''demo-recharge:'' @ uuid_str u @ '':'' @ digits i"

definition fund_wallet :: "user_draw \<Rightarrow> uuid \<Rightarrow> demo_user_spec \<Rightarrow> ('a site_db_scheme, transfer list) run" where
  "fund_wallet d u spec =
     andS (tx (grant_signup_bonus (ud_bonus d) (ud_now d) u (du_bonus spec))) (\<lambda>t.
     eachS (\<lambda>(i, amt). tx (recharge (ud_recharge d i) (ud_now d) u amt ''demo_recharge'' (recharge_key u i) PROVIDER_HOUSE))
       (List.enumerate 0 (du_recharges spec)))"

definition seed_user :: "seed_env \<Rightarrow> nat \<times> demo_user_spec \<Rightarrow> ('a site_db_scheme, seeded_user) run" where
  "seed_user env x = (case x of (i, spec) \<Rightarrow>
     andS (ensure_user_with_wallet (sd_hash env) (sd_users env i) spec) (\<lambda>u.
     andS (fund_wallet (sd_users env i) u spec) (\<lambda>ts.
     give (Inr \<lparr>su_id = u, su_email = du_email spec, su_name = du_name spec\<rparr>))))"

definition seed_users :: "seed_env \<Rightarrow> seed_config \<Rightarrow> ('a site_db_scheme, seeded_user list) run" where
  "seed_users env cfg = eachS (seed_user env) (List.enumerate 0 (build_user_specs cfg))"

definition ensure_demo_admin :: "seed_env \<Rightarrow> seed_config \<Rightarrow> ('a site_db_scheme, uuid) run" where
  "ensure_demo_admin env cfg s = (case user_by_email (demo_admin_email cfg) s of
     Inl e \<Rightarrow> (Inl (Failed e), s)
   | Inr (Some u) \<Rightarrow> (Inr (us_id u), s)
   | Inr None \<Rightarrow> (case sd_admin env of (i, now) \<Rightarrow> tx (\<lambda>s.
       bindE (insert_user (seed_user_row i (demo_admin_email cfg) (sd_hash env DEMO_USER_PASSWORD) None True now)
         (begin_tx s)) (\<lambda>s. Inr (i, s))) s))"

subsection \<open>Markets and their history\<close>

record seeded_market =
  sm_id :: uuid
  sm_slug :: string
  sm_question :: string
  sm_yes :: uuid
  sm_no :: uuid
  sm_odds :: rat
  sm_resolve_to :: "string option"

definition winning_outcome :: "seeded_market \<Rightarrow> uuid option" where
  "winning_outcome m = (if sm_resolve_to m = Some ''YES'' then Some (sm_yes m)
     else if sm_resolve_to m = Some ''NO'' then Some (sm_no m) else None)"

text \<open>\<open>next(\<dots>)\<close> without a match raises \<open>StopIteration\<close>, a \<open>RuntimeError\<close> inside a coroutine.\<close>

definition yes_no_ids :: "uuid \<Rightarrow> 'a db_scheme \<Rightarrow> seed_exn + (uuid \<times> uuid)" where
  "yes_no_ids mid s =
     (let rows = filter (\<lambda>oc. oc_market_id oc = mid) (outcomes s) in
      case (List.find (\<lambda>oc. is_yes (label oc)) rows, List.find (\<lambda>oc. map ascii_upper (label oc) = ''NO'') rows) of
        (Some y, Some n) \<Rightarrow> Inr (oc_id y, oc_id n)
      | _ \<Rightarrow> Inl (Failed RuntimeError))"

definition seed_market ::
  "seed_env \<Rightarrow> uuid \<Rightarrow> nat \<times> demo_market_spec \<Rightarrow> 'a site_db_scheme
    \<Rightarrow> ((market \<times> demo_market_spec) \<times> 'a site_db_scheme) result" where
  "seed_market env admin x s = (case x of (i, spec) \<Rightarrow>
     let d = sd_markets env i in
     bindE (validated (validate_create (md_now d)
       \<lparr>mc_question = dm_question spec, mc_criteria = dm_criteria spec, mc_deadline = md_now d + days (dm_offset_days spec),
        mc_odds_yes = dm_odds spec, mc_category = Some (dm_category spec), mc_min_stake = None, mc_max_stake = None\<rparr>)) (\<lambda>body.
     bindE (create_market (sd_slugify env) (md_slugs d) (md_ids d) (md_now d) admin body None s) (\<lambda>(m, s).
     Inr ((m, spec), s))))"

definition read_back_market :: "market \<times> demo_market_spec \<Rightarrow> ('a site_db_scheme, seeded_market) run" where
  "read_back_market x s = (case x of (m, spec) \<Rightarrow> case yes_no_ids (mk_id m) s of
     Inl e \<Rightarrow> (Inl e, s)
   | Inr (y, n) \<Rightarrow> (Inr \<lparr>sm_id = mk_id m, sm_slug = mk_slug m, sm_question = dm_question spec, sm_yes = y, sm_no = n,
        sm_odds = dm_odds spec, sm_resolve_to = dm_resolve_to spec\<rparr>, s))"

definition seed_markets :: "seed_env \<Rightarrow> seed_config \<Rightarrow> ('a site_db_scheme, seeded_market list) run" where
  "seed_markets env cfg =
     andS (ensure_demo_admin env cfg) (\<lambda>admin.
     andS (tx (\<lambda>s. if get_user admin s = None then Inl RuntimeError
         else eachE (seed_market env admin) (List.enumerate 0 (build_market_specs cfg)) (begin_tx s))) (\<lambda>created.
     eachS read_back_market created))"

definition HISTORY_STEPS :: nat where
  "HISTORY_STEPS = 30 * 24 div 3"

definition odds_walk :: "seed_env \<Rightarrow> rat \<Rightarrow> nat \<Rightarrow> nat \<Rightarrow> rat" where
  "odds_walk env base seed step = format_odds (min (98 / 100) (max (2 / 100) (sd_walk env base seed step)))"

definition history_rows :: "seed_env \<Rightarrow> seeded_market list \<Rightarrow> (uuid \<times> uuid \<times> rat \<times> int) list" where
  "history_rows env ms = concat (map (\<lambda>(seed, m). concat (map (\<lambda>step.
       let taken = sd_now env - 3 * 3600000000 * int (HISTORY_STEPS - step);
           yes = odds_walk env (sm_odds m) seed step
       in [(sm_id m, sm_yes m, yes, taken), (sm_id m, sm_no m, 1 - yes, taken)]) [0..<HISTORY_STEPS])) (List.enumerate 0 ms))"

definition seed_odds_history :: "seed_env \<Rightarrow> seeded_market list \<Rightarrow> ('a site_db_scheme, nat) run" where
  "seed_odds_history env ms =
     (let rows = history_rows env ms in
      if rows = [] then give (Inr 0)
      else tx (\<lambda>s. bindE (foldE (\<lambda>(i, mid, oid, p, taken). insert_snapshot (new_snapshot (sd_snapshot env i) mid oid p taken))
             (List.enumerate 0 rows) (begin_tx s)) (\<lambda>s. Inr (length rows, s))))"

subsection \<open>Bets and resolutions\<close>

definition bet_run :: "seed_env \<Rightarrow> bet_draw \<Rightarrow> uuid \<Rightarrow> uuid \<Rightarrow> uuid \<Rightarrow> rat \<Rightarrow> ('a site_db_scheme, bet) run" where
  "bet_run env d u mid oid stk s =
     (case place_bet (sd_limits env) house_get_market (bd_account d) (bd_bet d) (bd_ids d) (bd_now d) u mid oid stk s of
        (Inl e, s') \<Rightarrow> (Inl (Failed e), s') | (Inr b, s') \<Rightarrow> (Inr b, s'))"

definition seed_bet :: "seed_env \<Rightarrow> seeded_user list \<Rightarrow> seeded_market list \<Rightarrow> nat \<times> bet_spec \<Rightarrow> ('a site_db_scheme, bet) run" where
  "seed_bet env us ms x = (case x of (i, spec) \<Rightarrow>
     if length us \<le> bs_user_index spec \<or> length ms \<le> bs_market_index spec then give (Inl IndexError)
     else let u = us ! bs_user_index spec; m = ms ! bs_market_index spec in
       bet_run env (sd_bets env i) (su_id u) (sm_id m) (if bs_side spec = ''YES'' then sm_yes m else sm_no m) (bs_stake spec))"

definition seed_bets ::
  "seed_env \<Rightarrow> seed_config \<Rightarrow> seeded_user list \<Rightarrow> seeded_market list \<Rightarrow> ('a site_db_scheme, nat) run" where
  "seed_bets env cfg us ms = (case build_bet_specs cfg of
     None \<Rightarrow> give (Inl ZeroDivisionError)
   | Some specs \<Rightarrow> andS (eachS (seed_bet env us ms) (List.enumerate 0 specs)) (\<lambda>bs. give (Inr (length bs))))"

definition resolve_run ::
  "seed_env \<Rightarrow> uuid \<Rightarrow> uuid \<Rightarrow> string \<Rightarrow> uuid \<Rightarrow> ('a site_db_scheme, settlement_plan) run" where
  "resolve_run env mid winner j admin = (case sd_settle env mid of (gen, audit_id, now, t) \<Rightarrow>
     tx (resolve_market (house_resolver t) gen audit_id now mid winner j (Some admin)))"

definition seed_resolutions :: "seed_env \<Rightarrow> seed_config \<Rightarrow> seeded_market list \<Rightarrow> ('a site_db_scheme, nat) run" where
  "seed_resolutions env cfg ms =
     andS (ensure_demo_admin env cfg) (\<lambda>admin.
     andS (eachS (\<lambda>m. resolve_run env (sm_id m) (the (winning_outcome m))
         (''Demo resolution: '' @ the (sm_resolve_to m) @ '' per the official source.'') admin)
       (filter (\<lambda>m. winning_outcome m \<noteq> None) ms)) (\<lambda>ps. give (Inr (length ps))))"

subsection \<open>Events\<close>

text \<open>The title and the category of the event, which no step reads, are left out.\<close>

record seeded_event =
  se_group :: uuid
  se_slug :: string
  se_target :: string
  se_children :: "seeded_market list"
  designated :: "seeded_market option"

definition read_back_child :: "demo_event_spec \<Rightarrow> market \<Rightarrow> ('a site_db_scheme, string \<times> seeded_market) run" where
  "read_back_child spec m s = (case yes_no_ids (mk_id m) s of
     Inl e \<Rightarrow> (Inl e, s)
   | Inr (y, n) \<Rightarrow> (case group_item_title m of None \<Rightarrow> (Inl (Failed KeyError), s)
      | Some l \<Rightarrow> (case map_of (rev (ev_outcomes spec)) l of None \<Rightarrow> (Inl (Failed KeyError), s)
         | Some odds \<Rightarrow> (Inr (l, \<lparr>sm_id = mk_id m, sm_slug = mk_slug m, sm_question = question m, sm_yes = y, sm_no = n,
              sm_odds = odds, sm_resolve_to = None\<rparr>), s))))"

definition event_children_rows :: "(string \<Rightarrow> rat) \<Rightarrow> uuid \<Rightarrow> 'a db_scheme \<Rightarrow> market list" where
  "event_children_rows collate g s =
     order_by (\<lambda>m. map_option collate (group_item_title m)) True (filter (\<lambda>m. group_id m = Some g) (markets s))"

definition designated_child :: "demo_event_spec \<Rightarrow> (string \<times> seeded_market) list \<Rightarrow> seed_exn + seeded_market option" where
  "designated_child spec kids = (case winner_index spec of
     None \<Rightarrow> Inr None
   | Some w \<Rightarrow> if length (ev_outcomes spec) \<le> w then Inl IndexError
       else case map_of (rev kids) (fst (ev_outcomes spec ! w)) of None \<Rightarrow> Inl (Failed KeyError) | Some m \<Rightarrow> Inr (Some m))"

definition seed_event ::
  "seed_env \<Rightarrow> seed_config \<Rightarrow> uuid \<Rightarrow> nat \<times> demo_event_spec \<Rightarrow> ('a site_db_scheme, seeded_event) run" where
  "seed_event env cfg admin x = (case x of (i, spec) \<Rightarrow>
     let d = sd_events env i; slug = event_slug spec cfg in
     andS (tx (\<lambda>s. bindE (validated (validate_create_event (ed_now d)
         \<lparr>ce_title = ev_title spec, ce_category = Some (ev_category spec), ce_deadline = ed_now d + days (ev_offset_days spec),
          ce_criteria = Some (ev_criteria spec), ce_slug = Some slug,
          ce_outcomes = map (\<lambda>(l, p). \<lparr>oi_label = l, oi_odds = p\<rparr>) (ev_outcomes spec)\<rparr>)) (\<lambda>body.
       create_house_event (sd_slugify env) (ed_slugs d) (ed_kids d) (ed_audit d) (ed_now d) admin body s))) (\<lambda>g.
     andS (\<lambda>s. eachS (read_back_child spec) (event_children_rows (sd_collate env) (mg_id g) s) s) (\<lambda>kids.
     andS (give (designated_child spec kids)) (\<lambda>chosen.
     give (Inr \<lparr>se_group = mg_id g, se_slug = slug, se_target = target_state spec, se_children = map snd kids,
        designated = chosen\<rparr>)))))"

definition seed_events :: "seed_env \<Rightarrow> seed_config \<Rightarrow> ('a site_db_scheme, seeded_event list) run" where
  "seed_events env cfg =
     (if build_event_specs cfg = [] then give (Inr [])
      else andS (ensure_demo_admin env cfg) (\<lambda>admin.
        eachS (seed_event env cfg admin) (List.enumerate 0 (build_event_specs cfg))))"

text \<open>The bets of the events: child, its position, and the side (0 for YES), in the order of the loops.\<close>

definition event_bet_rows :: "seeded_event list \<Rightarrow> (seeded_market \<times> nat \<times> nat) list" where
  "event_bet_rows es = concat (map (\<lambda>e. concat (map (\<lambda>(c, m). [(m, c, 0), (m, c, 1)]) (List.enumerate 0 (se_children e)))) es)"

definition seed_event_bet :: "seed_env \<Rightarrow> seeded_user list \<Rightarrow> nat \<times> seeded_market \<times> nat \<times> nat \<Rightarrow> ('a site_db_scheme, bet) run" where
  "seed_event_bet env us x = (case x of (cursor, m, child_index, side_index) \<Rightarrow>
     bet_run env (sd_event_bets env cursor) (su_id (us ! (cursor mod length us))) (sm_id m)
       (if side_index = 0 then sm_yes m else sm_no m) (BET_STAKES ! ((child_index + side_index) mod length BET_STAKES)))"

definition seed_event_bets :: "seed_env \<Rightarrow> seeded_user list \<Rightarrow> seeded_event list \<Rightarrow> ('a site_db_scheme, nat) run" where
  "seed_event_bets env us es =
     (if us = [] \<or> es = [] then give (Inr 0)
      else andS (eachS (seed_event_bet env us) (List.enumerate 0 (event_bet_rows es))) (\<lambda>bs. give (Inr (length bs))))"

text \<open>\<open>resolve_event\<close> and \<open>void_event\<close> commit child by child before they raise.\<close>

definition event_run :: "'a event_outcome \<Rightarrow> (seed_exn + unit) \<times> 'a db_scheme" where
  "event_run x = (case x of (Inl e, s) \<Rightarrow> (Inl (Failed e), s) | (Inr r, s) \<Rightarrow> (Inr (), s))"

definition advance_event :: "seed_env \<Rightarrow> uuid \<Rightarrow> nat \<times> seeded_event \<Rightarrow> ('a site_db_scheme, unit) run" where
  "advance_event env admin x s = (case x of (i, e) \<Rightarrow> case sd_event_audit env i of (audit_id, now) \<Rightarrow>
     if se_target e = ''void'' then event_run (void_event (sd_settle env) audit_id now (se_group e)
         ''Demo void: the event was cancelled with no winning outcome (every outcome settles NO).'' (Some admin) s)
     else if se_target e \<in> {''resolved'', ''partially_resolved''} then
       (case designated e of
          None \<Rightarrow> (Inl (Failed RuntimeError), s)
        | Some m \<Rightarrow>
           if se_target e = ''resolved'' then event_run (resolve_event (sd_settle env) audit_id now (se_group e) (sm_yes m)
              (''Demo resolution: '' @ [CHR 39] @ sm_question m @ [CHR 39] @ '' settled YES per the official source.'') (Some admin) s)
           else andS (resolve_run env (sm_id m) (sm_no m)
              ''Demo partial: this outcome was eliminated; the remaining outcomes stay open.'' admin) (\<lambda>p. give (Inr ())) s)
     else (Inr (), s))"

definition seed_event_resolutions :: "seed_env \<Rightarrow> seed_config \<Rightarrow> seeded_event list \<Rightarrow> ('a site_db_scheme, nat) run" where
  "seed_event_resolutions env cfg es =
     (if es = [] then give (Inr 0)
      else andS (ensure_demo_admin env cfg) (\<lambda>admin.
        andS (eachS (advance_event env admin) (List.enumerate 0 (filter (\<lambda>e. se_target e \<noteq> ''open'') es))) (\<lambda>rs.
        give (Inr (length rs)))))"

subsection \<open>Reset\<close>

definition HOUSE_PROMO_OPENING_BALANCE :: rat where
  "HOUSE_PROMO_OPENING_BALANCE = 1000000000"

definition house_account :: "uuid \<Rightarrow> string \<Rightarrow> rat \<Rightarrow> account" where
  "house_account i kind opening_balance = \<lparr>acc_id = i, owner_type = OWNER_SYSTEM, owner_id = None, acc_kind = kind,
     currency = PLAY_USD, balance = opening_balance, version = 0\<rparr>"

text \<open>
  \<open>TRUNCATE \<dots> CASCADE\<close> empties the listed tables and \<open>refresh_tokens\<close>, which refers to users; the mirror
  of live-bets has no foreign key and is not listed.
\<close>

definition reset_demo :: "'a site_db_scheme \<Rightarrow> 'a site_db_scheme" where
  "reset_demo s = s\<lparr>users := [], refresh_tokens := [], transfers := [], entries := [], row_locks := [],
     markets := [], market_groups := [], outcomes := [], odds_snapshots := [], bets := [], audit_log := [],
     accounts := [house_account HOUSE_PROMO_ACCOUNT_ID KIND_HOUSE_PROMO HOUSE_PROMO_OPENING_BALANCE,
       house_account HOUSE_REVENUE_ACCOUNT_ID KIND_HOUSE_REVENUE 0]\<rparr>"

subsection \<open>The seed and its command line\<close>

record seed_result =
  sr_users :: nat
  sr_markets :: nat
  sr_snapshots :: nat
  sr_bets :: nat
  sr_resolutions :: nat
  sr_events :: nat
  sr_event_bets :: nat
  sr_event_resolutions :: nat
  open_market_slugs :: "string list"

definition is_already_seeded :: "seed_config \<Rightarrow> ('a site_db_scheme, bool) run" where
  "is_already_seeded cfg s = (case user_by_email (demo_admin_email cfg) s of
     Inl e \<Rightarrow> (Inl (Failed e), s) | Inr found \<Rightarrow> (Inr (found \<noteq> None), s))"

definition seed_demo ::
  "seed_env \<Rightarrow> (string \<times> string \<times> string) list \<Rightarrow> seed_config \<Rightarrow> ('a site_db_scheme, seed_result) run" where
  "seed_demo env cats cfg =
     andS (is_already_seeded cfg) (\<lambda>seeded.
     if seeded then give (Inl AlreadySeeded)
     else if \<not> featured_match_canonical cats then give (Inl (Failed RuntimeError))
     else andS (seed_users env cfg) (\<lambda>us. andS (seed_markets env cfg) (\<lambda>ms. andS (seed_events env cfg) (\<lambda>es.
       andS (seed_odds_history env (ms @ concat (map se_children es))) (\<lambda>snapshots.
       andS (seed_bets env cfg us ms) (\<lambda>bets. andS (seed_event_bets env us es) (\<lambda>event_bets.
       andS (seed_resolutions env cfg ms) (\<lambda>resolved. andS (seed_event_resolutions env cfg es) (\<lambda>advanced.
       give (Inr \<lparr>sr_users = length us, sr_markets = length ms, sr_snapshots = snapshots, sr_bets = bets,
         sr_resolutions = resolved, sr_events = length es, sr_event_bets = event_bets, sr_event_resolutions = advanced,
         open_market_slugs = map sm_slug (filter (\<lambda>m. sm_resolve_to m = None) ms)\<rparr>))))))))))"

text \<open>\<open>main\<close>: the exit code, and the counts of \<open>verify_integrity\<close> where it prints them.\<close>

definition seed_main ::
  "seed_env \<Rightarrow> (string \<times> string \<times> string) list \<Rightarrow> string list \<Rightarrow> seed_config option
    \<Rightarrow> ('a site_db_scheme, nat \<times> (nat \<times> nat) option) run" where
  "seed_main env cats args cfg s =
     (let cfg = (case cfg of None \<Rightarrow> default_config | Some c \<Rightarrow> c) in
      if ''--reset'' \<in> set args then
        andS (seed_demo env cats cfg) (\<lambda>r s. (Inr (0, Some (reconcile_with_session s)), s)) (reset_demo s)
      else case seed_demo env cats cfg s of
        (Inl AlreadySeeded, s') \<Rightarrow> (Inr (1, None), s')
      | (Inl e, s') \<Rightarrow> (Inl e, s')
      | (Inr r, s') \<Rightarrow> (Inr (0, Some (reconcile_with_session s')), s'))"

subsection \<open>\<open>create_admin\<close>\<close>

definition create_admin ::
  "(string \<Rightarrow> string) \<Rightarrow> uuid \<Rightarrow> int \<Rightarrow> string option \<Rightarrow> string option \<Rightarrow> ('a site_db_scheme, nat) run" where
  "create_admin hasher i now email password s = (case (email, password) of
     (Some (c # cs), Some (p # ps)) \<Rightarrow>
       (case user_by_email (c # cs) s of
          Inl e \<Rightarrow> (Inl (Failed e), s)
        | Inr (Some u) \<Rightarrow> (Inr 0, s)
        | Inr None \<Rightarrow> tx (\<lambda>s. bindE (insert_user (seed_user_row i (c # cs) (hasher (p # ps)) None True now) (begin_tx s))
            (\<lambda>s. Inr (0, s))) s)
   | _ \<Rightarrow> (Inr 1, s))"

end
