(* ===== verification/SeedRules.thy ===== *)
theory SeedRules
  imports Seed AdminRules
begin

text \<open>
  The properties of the operator scripts.  \<open>seed_services\<close> is what the seed relies on: the services, the
  inserts of users and the writes beside the books keep an invariant.  Every step of the seed then
  keeps it, whatever fails on the way; the invariant of the platform and the absence of the
  live-bets escrow account are two such invariants.
\<close>

subsection \<open>Runs and what they keep\<close>

definition keeps :: "('s \<Rightarrow> bool) \<Rightarrow> ('s, 'y) run \<Rightarrow> bool" where
  "keeps P m \<longleftrightarrow> (\<forall>s. P s \<longrightarrow> P (snd (m s)))"

named_theorems run_keeps \<open>runs that keep an invariant\<close>

lemma keepsI: "(\<And>s r s'. m s = (r, s') \<Longrightarrow> P s \<Longrightarrow> P s') \<Longrightarrow> keeps P m"
  by (metis keeps_def prod.collapse)

lemma keepsD: "keeps P m \<Longrightarrow> m s = (r, s') \<Longrightarrow> P s \<Longrightarrow> P s'"
  by (metis keeps_def snd_conv)

lemma keeps_give [run_keeps]: "keeps P (give r)"
  by (simp add: keeps_def give_def)

lemma keeps_tx: "(\<And>s y s'. f s = Inr (y, s') \<Longrightarrow> P s \<Longrightarrow> P s') \<Longrightarrow> keeps P (tx f)"
  by (auto simp: keeps_def tx_def split: sum.split)

lemma keeps_andS [run_keeps]: "keeps P m \<Longrightarrow> (\<And>y. keeps P (k y)) \<Longrightarrow> keeps P (andS m k)"
  unfolding keeps_def andS_def by (auto split: prod.split sum.split)

lemma keeps_eachS [run_keeps]: "(\<And>x. keeps P (f x)) \<Longrightarrow> keeps P (eachS f xs)"
proof (induction xs)
  case (Cons x xs)
  have "eachS f (x # xs) = andS (f x) (\<lambda>y. andS (eachS f xs) (\<lambda>ys. give (Inr (y # ys))))" by (simp add: fun_eq_iff)
  then show ?case using Cons by (simp add: run_keeps)
qed (simp add: keeps_def)

lemma eachE_invariant:
  "eachE f xs s = Inr (ys, t) \<Longrightarrow> P s \<Longrightarrow> (\<And>x u y v. f x u = Inr (y, v) \<Longrightarrow> P u \<Longrightarrow> P v) \<Longrightarrow> P t"
proof (induction xs arbitrary: s ys)
  case (Cons x xs)
  then obtain y u zs where "f x s = Inr (y, u)" "eachE f xs u = Inr (zs, t)" by auto
  with Cons show ?case by blast
qed simp

lemma validated_Inr [simp]: "validated r = Inr y \<longleftrightarrow> r = Inr y"
  by (simp add: validated_def split: sum.split)

definition draws_fresh :: "(uuid \<Rightarrow> bool) \<Rightarrow> seed_env \<Rightarrow> bool" where
  "draws_fresh fresh env \<longleftrightarrow> (\<forall>i. fresh (ud_wallet (sd_users env i)) \<and> fresh (bd_account (sd_bets env i))
     \<and> fresh (bd_account (sd_event_bets env i)))"

subsection \<open>What the seed relies on\<close>

locale seed_services =
  fixes P :: "'a site_db_scheme \<Rightarrow> bool" and fresh :: "uuid \<Rightarrow> bool"
  assumes user_keeps: "insert_user v s = Inr s' \<Longrightarrow> P s \<Longrightarrow> P s'"
    and aside_keeps: "aside s s' \<Longrightarrow> P s \<Longrightarrow> P s'"
    and wallet_keeps: "create_wallet i u s = Inr (a, s') \<Longrightarrow> fresh i \<Longrightarrow> P s \<Longrightarrow> P s'"
    and bonus_keeps: "grant_signup_bonus ids now u amt s = Inr (t, s') \<Longrightarrow> P s \<Longrightarrow> P s'"
    and recharge_keeps: "recharge ids now u amt reason key prov s = Inr (t, s') \<Longrightarrow> P s \<Longrightarrow> P s'"
    and bet_keeps: "place_bet limits house_get_market na nb ids now u mid oc stk s = (r, s') \<Longrightarrow> fresh na \<Longrightarrow> P s \<Longrightarrow> P s'"
    and resolve_keeps: "resolve_market (house_resolver rt) gen aid now mid w j actor s = Inr (plan, s') \<Longrightarrow> P s \<Longrightarrow> P s'"
begin

lemma begin_keeps: "P s \<Longrightarrow> P (begin_tx s)"
  by (rule aside_keeps [OF aside_rows(1)])

lemma tx_insert_user: "keeps P (tx (\<lambda>s. bindE (insert_user v (begin_tx s)) (\<lambda>s. Inr (i, s))))"
  by (rule keeps_tx) (auto intro: user_keeps begin_keeps)

lemma ensure_user:
  assumes "fresh (ud_wallet d)"
  shows "keeps P (ensure_user_with_wallet h d spec)"
proof -
  have t: "keeps P (tx (\<lambda>s. bindE (insert_user v (begin_tx s)) (\<lambda>s.
       bindE (create_wallet (ud_wallet d) (ud_user d) s) (\<lambda>(w, s). Inr (ud_user d, s)))))" for v
    by (rule keeps_tx) (auto dest: user_keeps [OF _ begin_keeps] wallet_keeps [OF _ assms])
  show ?thesis
    by (rule keepsI) (auto simp: ensure_user_with_wallet_def dest: keepsD [OF t] split: sum.splits option.splits)
qed

lemma fund: "keeps P (fund_wallet d u spec)"
  unfolding fund_wallet_def
  by (intro keeps_andS keeps_eachS keeps_tx) (auto split: prod.split intro!: keeps_tx intro: bonus_keeps recharge_keeps)

lemma users_kept:
  assumes "draws_fresh fresh env"
  shows "keeps P (seed_users env cfg)"
proof -
  have "keeps P (seed_user env (i, spec))" for i spec
    using assms by (simp add: seed_user_def run_keeps fund ensure_user draws_fresh_def)
  then show ?thesis unfolding seed_users_def by (intro keeps_eachS) auto
qed

lemma admin_kept: "keeps P (ensure_demo_admin env cfg)"
  by (rule keepsI) (auto simp: ensure_demo_admin_def dest: keepsD [OF tx_insert_user] split: sum.splits option.splits prod.splits)

lemma reads_kept: "keeps P (read_back_market x)" "keeps P (read_back_child spec m)"
  by (auto simp: keeps_def read_back_market_def read_back_child_def split: prod.split sum.split option.split)

lemma markets_kept: "keeps P (seed_markets env cfg)"
proof -
  have m: "P u \<Longrightarrow> seed_market env admin x u = Inr (y, v) \<Longrightarrow> P v" for admin x y and u v :: "'a site_db_scheme"
    by (cases x) (auto simp: seed_market_def Let_def intro: aside_keeps aside_create_market)
  have "keeps P (tx (\<lambda>s. if get_user admin s = None then Inl RuntimeError
         else eachE (seed_market env admin) xs (begin_tx s)))" for admin xs
    by (rule keeps_tx) (auto split: if_splits intro: eachE_invariant [where P = P] begin_keeps m)
  then show ?thesis unfolding seed_markets_def by (intro keeps_andS keeps_eachS admin_kept reads_kept)
qed

lemma history_kept: "keeps P (seed_odds_history env ms)"
proof -
  have "keeps P (tx (\<lambda>s. bindE (foldE (\<lambda>(i, mid, oid, p, taken). insert_snapshot (new_snapshot (sd_snapshot env i) mid oid p taken))
             rows (begin_tx s)) (\<lambda>s. Inr (n, s))))" for rows and n :: nat
    by (rule keeps_tx)
      (auto intro!: begin_keeps elim!: foldE_invariant [where P = P] intro: aside_keeps dest: aside_inserts(3) split: prod.splits)
  then show ?thesis by (simp add: seed_odds_history_def Let_def keeps_give)
qed

lemma bet_kept: "fresh (bd_account d) \<Longrightarrow> keeps P (bet_run env d u mid oc stk)"
  by (rule keepsI) (auto simp: bet_run_def dest: bet_keeps split: prod.splits sum.splits)

lemma bets_kept:
  assumes "draws_fresh fresh env"
  shows "keeps P (seed_bets env cfg us ms)"
proof -
  have "keeps P (seed_bet env us ms (i, spec))" for i spec
    using assms by (simp add: seed_bet_def Let_def keeps_give bet_kept draws_fresh_def)
  then show ?thesis by (auto simp: seed_bets_def run_keeps split: option.split intro!: keeps_andS keeps_eachS keeps_give)
qed

lemma event_bets_kept:
  assumes "draws_fresh fresh env"
  shows "keeps P (seed_event_bets env us es)"
proof -
  have "keeps P (seed_event_bet env us x)" for x
    using assms by (cases x) (simp add: seed_event_bet_def bet_kept draws_fresh_def)
  then show ?thesis by (simp add: seed_event_bets_def run_keeps)
qed

lemma resolve_kept: "keeps P (resolve_run env mid w j admin)"
  by (auto simp: resolve_run_def split: prod.split intro!: keeps_tx intro: resolve_keeps)

lemma resolutions_kept: "keeps P (seed_resolutions env cfg ms)"
  by (simp add: seed_resolutions_def run_keeps admin_kept resolve_kept)

lemma event_kept: "keeps P (seed_event env cfg admin x)"
proof -
  obtain i spec where x: "x = (i, spec)" by (cases x)
  have t: "keeps P (tx (\<lambda>s. bindE (validated (validate_create_event now b)) (\<lambda>body.
       create_house_event slugify draws kids aid now admin body s)))" for slugify draws kids aid now b
  proof (rule keeps_tx)
    fix s y s' assume a: "bindE (validated (validate_create_event now b)) (\<lambda>body.
       create_house_event slugify draws kids aid now admin body s) = Inr (y, s')" and "P s"
    then have "post_event slugify draws kids aid now admin b s = Inr (y, s')" by (auto simp: post_event_def)
    then show "P s'" using aside_keeps aside_post_event \<open>P s\<close> by blast
  qed
  have r: "keeps P (\<lambda>s. eachS (read_back_child spec) (rows s) s)" for spec rows
    using keeps_eachS [of P "read_back_child spec"] reads_kept(2) unfolding keeps_def by blast
  show ?thesis unfolding seed_event_def x Let_def prod.case by (intro keeps_andS t r keeps_give)
qed

lemma events_kept: "keeps P (seed_events env cfg)"
  by (simp add: seed_events_def run_keeps admin_kept event_kept)

lemma children_kept: "settle_children ids cs j actor s = (failed, s') \<Longrightarrow> P s \<Longrightarrow> P s'"
proof (induction cs arbitrary: s failed)
  case (Cons c cs)
  obtain mid w where c: "c = (mid, w)" by (cases c)
  obtain gen aid now t where i: "ids mid = (gen, aid, now, t)" by (cases "ids mid") auto
  show ?case
  proof (cases "resolve_market (house_resolver t) gen aid now mid w j actor s")
    case (Inl e) then show ?thesis using Cons by (auto simp: c i split: prod.splits)
  next
    case (Inr y)
    obtain plan u where "y = (plan, u)" by (cases y)
    with Inr have u: "resolve_market (house_resolver t) gen aid now mid w j actor s = Inr (plan, u)" by simp
    then show ?thesis using Cons.IH [of u] Cons.prems resolve_keeps [OF u] by (simp add: c i)
  qed
qed simp

lemma finish_kept: "finish_event aid now ty gid w n j actor (failed, s) = (r, s') \<Longrightarrow> P s \<Longrightarrow> P s'"
  by (auto simp: finish_event_def intro: aside_keeps dest: aside_event_audit split: sum.splits)

lemma event_settle_kept:
  "resolve_event ids aid now gid w j actor s = (r, s') \<Longrightarrow> P s \<Longrightarrow> P s'"
  "void_event ids aid now gid j actor s = (r, s') \<Longrightarrow> P s \<Longrightarrow> P s'"
  unfolding resolve_event_def void_event_def
  by (auto split: sum.splits) (metis children_kept finish_kept prod.collapse)+

lemma event_run_kept: "event_run (r, s) = (r', s') \<Longrightarrow> s' = s"
  by (cases r) (simp_all add: event_run_def)

lemma advance_kept: "keeps P (advance_event env admin x)"
proof (rule keepsI)
  fix s r s' assume a: "advance_event env admin x s = (r, s')" and s: "P s"
  obtain i e where x: "x = (i, e)" by (cases x)
  obtain aid now where d: "sd_event_audit env i = (aid, now)" by (cases "sd_event_audit env i")
  have ev: "P s'" if "event_run y = (r, s')" "P (snd y)" for y
    using that event_run_kept [of "fst y" "snd y"] by simp
  have res: "P (snd (resolve_event ids aid now gid w j actor s))" "P (snd (void_event ids aid now gid j actor s))" for ids gid w j actor
    using event_settle_kept s by (metis prod.collapse)+
  have part: "keeps P (andS (resolve_run env mid w j admin) (\<lambda>p. give (Inr ())))" for mid w j
    by (intro keeps_andS resolve_kept keeps_give)
  show "P s'"
    using a s by (auto simp: advance_event_def x d intro: ev [OF _ res(1)] ev [OF _ res(2)] dest: keepsD [OF part]
        split: if_splits option.splits)
qed

lemma event_resolutions_kept: "keeps P (seed_event_resolutions env cfg es)"
  by (simp add: seed_event_resolutions_def run_keeps admin_kept advance_kept)

lemma already_kept: "keeps P (is_already_seeded cfg)"
  by (simp add: keeps_def is_already_seeded_def split: sum.split)

lemma seed_kept:
  assumes "draws_fresh fresh env"
  shows "keeps P (seed_demo env cats cfg)"
  unfolding seed_demo_def
  by (auto intro!: keeps_andS keeps_give already_kept users_kept markets_kept events_kept history_kept bets_kept event_bets_kept
      resolutions_kept event_resolutions_kept assms)

lemma main_kept:
  assumes "draws_fresh fresh env" "''--reset'' \<in> set args \<Longrightarrow> P (reset_demo s)" "''--reset'' \<notin> set args \<Longrightarrow> P s"
  shows "P (snd (seed_main env cats args cfg s))"
proof -
  let ?c = "case cfg of None \<Rightarrow> default_config | Some c \<Rightarrow> c"
  have k: "keeps P (andS (seed_demo env cats ?c) (\<lambda>r s. (Inr (0 :: nat, Some (reconcile_with_session s)), s)))"
    by (intro keeps_andS seed_kept assms(1)) (simp add: keeps_def)
  have k0: "P u \<Longrightarrow> P (snd (seed_demo env cats ?c u))" for u using seed_kept [OF assms(1)] by (simp add: keeps_def)
  show ?thesis
  proof (cases "''--reset'' \<in> set args")
    case True
    then show ?thesis using k assms(2) by (simp add: seed_main_def Let_def keeps_def)
  next
    case False
    obtain r s' where r: "seed_demo env cats ?c s = (r, s')" by (rule prod.exhaust)
    then have "P s'" using k0 [of s] assms(3) False by simp
    then show ?thesis using False r by (auto simp: seed_main_def Let_def split: sum.split seed_exn.split)
  qed
qed

end

subsection \<open>The platform stays sound\<close>

lemma fund_kept:
  fixes s s' :: "'a db_scheme"
  assumes "or_existing key s (fund_from_house ids now kind key u amt r s) = Inr (t, s')" "platform_ok s"
  shows "platform_ok s' \<and> map acct_key (accounts s') = map acct_key (accounts s) \<and> db.more s' = db.more s"
  using or_existing_Inr [OF assms(1)]
proof (elim disjE conjE)
  assume f: "fund_from_house ids now kind key u amt r s = Inr (t, s')"
  have wf: "ledger_wf s" "house_seeded s" using assms(2) by (simp_all add: platform_ok_def platform_wf)
  obtain w m where w: "resolve_user_wallet_id u s = Inr w" and p: "posted kind (Some key) HOUSE_PROMO_ACCOUNT_ID w m t s s'"
    using fund_from_house_Inr [OF f] by blast
  note more = fund_from_house_more [OF f]
  have "platform_ok s'"
  proof (rule platform_neutral [OF assms(2) _ posted_transfers(2) [OF p],
        where f = "\<lambda>a. (if a = w then m else 0) - (if a = HOUSE_PROMO_ACCOUNT_ID then m else 0)"])
    show "ledger_steps s s'" using posted_step [OF p] by blast
    show "bets s' = bets s" by (rule more_fields(1) [OF more])
    show "(if v = w then m else 0) - (if v = HOUSE_PROMO_ACCOUNT_ID then m else 0) = 0" if "v \<in> set (liability_ids j s)" for v j
      using that house_not_liability [OF wf] wallet_not_liability [OF wf(1) w] by auto
  qed (use posted_bal [OF p wf(1)] in auto)
  then show ?thesis using posted_transfers(2) [OF p] more_rest [OF more] by simp
qed (use assms(2) in simp)

lemma bonus_kept:
  fixes s s' :: "'a db_scheme"
  assumes "grant_signup_bonus ids now u amt s = Inr (t, s') \<or> recharge ids now u amt reason key prov s = Inr (t, s')" "platform_ok s"
  shows "platform_ok s' \<and> map acct_key (accounts s') = map acct_key (accounts s) \<and> db.more s' = db.more s"
  using assms(1) by (elim disjE) (auto simp: grant_signup_bonus_def recharge_def dest: fund_kept [OF _ assms(2)] split: if_splits)

lemma insert_user_frame:
  assumes "insert_user v s = Inr s'"
  shows "same_books s s'" "bets s' = bets s" "live_bets s' = live_bets s" "users s' = users s @ [v]"
    "us_email v \<notin> us_email ` set (users s)"
  using assms by (auto simp: insert_user_def same_books_def split: if_splits)

interpretation sound: seed_services "platform_ok :: 'a site_db_scheme \<Rightarrow> bool" "\<lambda>_. True"
proof
  fix s s' :: "'a site_db_scheme"
  show "insert_user v s = Inr s' \<Longrightarrow> platform_ok s \<Longrightarrow> platform_ok s'" for v
    by (blast dest: insert_user_frame intro: platform_frame)
  show "aside s s' \<Longrightarrow> platform_ok s \<Longrightarrow> platform_ok s'" by (auto simp: aside_def intro: platform_frame)
  show "create_wallet i u s = Inr (a, s') \<Longrightarrow> platform_ok s \<Longrightarrow> platform_ok s'" for i u a
    using quiet_wallet [of i u s a s'] by (simp add: quiet_def)
  show "grant_signup_bonus ids now u amt s = Inr (t, s') \<Longrightarrow> platform_ok s \<Longrightarrow> platform_ok s'"
    "recharge ids now u amt reason key prov s = Inr (t, s') \<Longrightarrow> platform_ok s \<Longrightarrow> platform_ok s'" for ids now u amt t reason key prov
    using bonus_kept [of ids now u amt s t s' reason key prov] by simp_all
  show "place_bet limits house_get_market na nb ids now u mid oc stk s = (r, s') \<Longrightarrow> platform_ok s \<Longrightarrow> platform_ok s'"
    for limits na nb ids now u mid oc stk r by (rule place_bet_platform)
  show "resolve_market (house_resolver rt) gen aid now mid w j actor s = Inr (plan, s') \<Longrightarrow> platform_ok s \<Longrightarrow> platform_ok s'"
    for rt gen aid now mid w j actor plan by (rule house.resolve_effect(1))
qed

lemma reset_sound: "platform_ok (reset_demo s)"
  by (simp add: reset_demo_def house_account_def platform_ok_def books_ok_def ledger_wf_def double_entry_def reconciled_except_def
      house_seeded_def liability_ids_def is_liability_of_def pool_ok_def liability_balance_def pending_bets_def bets_ok_def
      HOUSE_PROMO_ACCOUNT_ID_def HOUSE_REVENUE_ACCOUNT_ID_def HOUSE_PROMO_OPENING_BALANCE_def is_money_def drift_def ledger_sum_def)

lemma sound_no_drift:
  assumes "platform_ok s"
  shows "snd (reconcile_with_session s) = 0"
  using assms by (auto simp: reconcile_counts_drifts platform_ok_def books_ok_def reconciled_except_def filter_empty_conv)

text \<open>
  C13: the demo seed always leaves sound books.  Run with \<open>--reset\<close> on any state, or without it on a sound
  one, whatever configuration, identifiers and times it draws and whichever of its hundreds of
  transactions fails, the seed ends in a state where the platform invariant holds and no account
  drifts from its entries; the integrity line it prints, when it gets there, reads \<open>drift=0\<close>.
\<close>

theorem demo_seed_reconciles:
  assumes "''--reset'' \<in> set args \<or> platform_ok s" "seed_main env cats args cfg s = (r, s')"
  shows "platform_ok s' \<and> snd (reconcile_with_session s') = 0
     \<and> (case r of Inr (code, Some (checked, drifted)) \<Rightarrow> code = 0 \<and> drifted = 0 | Inr (code, None) \<Rightarrow> code = 1 | Inl e \<Rightarrow> True)"
proof -
  have "platform_ok (snd (seed_main env cats args cfg s))"
    by (rule sound.main_kept) (use assms(1) reset_sound in \<open>auto simp: draws_fresh_def\<close>)
  then have ok: "platform_ok s'" by (simp add: assms(2))
  have "case r of Inr (code, Some (checked, drifted)) \<Rightarrow> code = 0 \<and> (checked, drifted) = reconcile_with_session s'
      | Inr (code, None) \<Rightarrow> code = 1 | Inl e \<Rightarrow> True"
    using assms(2) by (auto simp: seed_main_def Let_def andS_def split: if_splits prod.splits sum.splits seed_exn.splits)
  then show ?thesis using ok sound_no_drift [OF ok] by (auto split: sum.splits prod.splits option.splits)
qed

subsection \<open>A reset loses the live-bets escrow account\<close>

definition escrow_lost :: "live_bet list \<Rightarrow> 'a live_db_scheme \<Rightarrow> bool" where
  "escrow_lost ms s \<longleftrightarrow> platform_ok s \<and> LIVEBETS_ESCROW_ACCOUNT_ID \<notin> acc_id ` set (accounts s) \<and> live_bets s = ms"

lemma ids_of_keys: "map acct_key (accounts s') = map acct_key (accounts s) \<Longrightarrow> map acc_id (accounts s') = map acc_id (accounts s)"
proof -
  assume "map acct_key (accounts s') = map acct_key (accounts s)"
  then have "map fst (map acct_key (accounts s')) = map fst (map acct_key (accounts s))" by simp
  then show ?thesis by (simp add: acct_key_def comp_def)
qed

lemma escrow_lost_keys:
  assumes "escrow_lost ms s" "platform_ok s'" "map acct_key (accounts s') = map acct_key (accounts s)" "live_bets s' = live_bets s"
  shows "escrow_lost ms s'"
proof -
  have "acc_id ` set (accounts s') = acc_id ` set (accounts s)"
    using arg_cong [OF ids_of_keys [OF assms(3)], of set] by simp
  then show ?thesis using assms by (simp add: escrow_lost_def)
qed

lemma more_live_bets: "db.more s' = db.more s \<Longrightarrow> live_bets s' = live_bets (s :: 'a live_db_scheme)"
  by (cases s; cases s'; simp)

lemma ensure_ids:
  assumes "ensure_market_liability_account i mid s = Inr (l, s1)"
  shows "acc_id ` set (accounts s1) \<subseteq> insert i (acc_id ` set (accounts s))"
  using assms by (auto simp: ensure_market_liability_account_def Let_def insert_account_def begin_tx_def split: option.splits if_splits)

lemma place_bet_ids:
  fixes s s' :: "'a live_db_scheme"
  assumes "place_bet limits get_market na nb ids now u mid oc stk s = (r, s')" "platform_ok s"
  shows "acc_id ` set (accounts s') \<subseteq> insert na (acc_id ` set (accounts s)) \<and> live_bets s' = live_bets s"
  using assms(1)
proof (cases rule: place_bet_cases)
  case (tx m chosen l s1)
  have "\<forall>k. length (liability_ids k s) \<le> 1" using assms(2) by (simp add: platform_ok_def)
  note e = more_live_bets [OF more_rest [OF ensure_effect(4) [OF tx(5) this]]] ensure_ids [OF tx(5)]
  show ?thesis
  proof (cases "place_bet_tx nb ids now u mid chosen stk l s1")
    case (Inl x) then show ?thesis using tx(8) e by auto
  next
    case (Inr bs)
    obtain b where b: "place_bet_tx nb ids now u mid chosen stk l s1 = Inr (b, s')" using Inr tx(8) by (cases bs) simp
    obtain w m' t where p: "posted TRANSFER_BET_PLACED None w l m' t s1 s'" using place_bet_tx_effect [OF b] by blast
    have "acc_id ` set (accounts s') = acc_id ` set (accounts s1)"
      using arg_cong [OF ids_of_keys [OF posted_transfers(2) [OF p]], of set] by simp
    then show ?thesis using e more_live_bets [OF place_bet_tx_rest(1) [OF b]] by simp
  qed
qed auto

interpretation lost: seed_services "escrow_lost ms :: 'a site_db_scheme \<Rightarrow> bool" "\<lambda>i. i \<noteq> LIVEBETS_ESCROW_ACCOUNT_ID" for ms
proof
  fix s s' :: "'a site_db_scheme"
  show "insert_user v s = Inr s' \<Longrightarrow> escrow_lost ms s \<Longrightarrow> escrow_lost ms s'" for v
    using insert_user_frame [of v s s'] platform_frame [of s s'] by (simp add: escrow_lost_def same_books_def)
  show "aside s s' \<Longrightarrow> escrow_lost ms s \<Longrightarrow> escrow_lost ms s'"
    using more_live_bets [of s' s] platform_frame [of s s'] by (simp add: escrow_lost_def same_books_def aside_def)
  show "escrow_lost ms s'" if c: "create_wallet i u s = Inr (a, s')" "i \<noteq> LIVEBETS_ESCROW_ACCOUNT_ID" "escrow_lost ms s" for i u a
  proof -
    have "platform_ok s'" using quiet_wallet [OF c(1)] c(3) by (simp add: quiet_def escrow_lost_def)
    then show ?thesis using c by (auto simp: escrow_lost_def create_wallet_def insert_account_def Let_def split: if_splits)
  qed
  show "grant_signup_bonus ids now u amt s = Inr (t, s') \<Longrightarrow> escrow_lost ms s \<Longrightarrow> escrow_lost ms s'"
    "recharge ids now u amt reason key prov s = Inr (t, s') \<Longrightarrow> escrow_lost ms s \<Longrightarrow> escrow_lost ms s'" for ids now u amt t reason key prov
    using bonus_kept [of ids now u amt s t s' reason key prov] more_live_bets [of s' s] escrow_lost_keys [of ms s s']
    by (simp_all add: escrow_lost_def)
  show "escrow_lost ms s'" if "place_bet limits house_get_market na nb ids now u mid oc stk s = (r, s')"
    "na \<noteq> LIVEBETS_ESCROW_ACCOUNT_ID" "escrow_lost ms s" for limits na nb ids now u mid oc stk r
    using that place_bet_ids [OF that(1)] place_bet_platform [OF that(1)] by (auto simp: escrow_lost_def)
  show "escrow_lost ms s'" if r: "resolve_market (house_resolver rt) gen aid now mid w j actor s = Inr (plan, s')" "escrow_lost ms s"
    for rt gen aid now mid w j actor plan
  proof -
    have ok: "platform_ok s" using r(2) by (simp add: escrow_lost_def)
    show ?thesis
      by (rule escrow_lost_keys [OF r(2) house.resolve_effect(1,6) [OF r(1) ok] more_live_bets [OF resolve_rest(1) [OF r(1)]]])
  qed
qed

lemma reset_loses_escrow: "escrow_lost (live_bets s) (reset_demo s)"
  using reset_sound [of s]
  by (simp add: escrow_lost_def) (simp add: reset_demo_def house_account_def LIVEBETS_ESCROW_ACCOUNT_ID_def
      HOUSE_PROMO_ACCOUNT_ID_def HOUSE_REVENUE_ACCOUNT_ID_def)

lemma no_escrow_no_placement:
  fixes s s' :: "'a live_db_scheme"
  assumes "record_placed limits client ids now u b tid s = Inr (mr, s')" "LIVEBETS_ESCROW_ACCOUNT_ID \<notin> acc_id ` set (accounts s)"
  shows "\<not> applied mr"
proof -
  obtain v where "placed_tx ids now u b tid v s = Inr (mr, s')" by (rule record_placed_Inr [OF assms(1)])
  then show ?thesis
  proof (cases rule: placed_tx_cases)
    case (posted w m tr)
    then have "LIVEBETS_ESCROW_ACCOUNT_ID \<in> acc_id ` set (accounts s)" by (auto simp: posted_def posts_def)
    with assms(2) show ?thesis ..
  qed
qed


subsection \<open>Seeding the players again\<close>

text \<open>What further activity of wallets and registrations does to the site.\<close>

definition site_grows :: "'a site_db_scheme \<Rightarrow> 'a site_db_scheme \<Rightarrow> bool" where
  "site_grows s s' \<longleftrightarrow> ledger_steps s s' \<and> (\<exists>xs. users s' = users s @ xs)
     \<and> (distinct (map us_email (users s)) \<longrightarrow> distinct (map us_email (users s')))
     \<and> (\<forall>u. has_wallet u s \<longrightarrow> has_wallet u s')"

lemma site_grows_refl [simp]: "site_grows s s"
  by (simp add: site_grows_def)

lemma site_grows_trans: "site_grows s t \<Longrightarrow> site_grows t u \<Longrightarrow> site_grows s u"
  unfolding site_grows_def using ledger_steps_trans by fastforce

lemma site_grows_begin: "site_grows s (begin_tx s)"
proof -
  have "users (begin_tx s) = users s" by (simp add: begin_tx_def)
  moreover have "map acct_key (accounts (begin_tx s)) = map acct_key (accounts s)" by (simp add: begin_tx_def)
  ultimately show ?thesis using ledger_steps_frame [OF same_books_locks(2)] has_wallet_keys [of "begin_tx s" s] by (simp add: site_grows_def)
qed

lemma more_users: "db.more s' = db.more s \<Longrightarrow> users s' = users (s :: 'a site_db_scheme)"
  by (cases s; cases s'; simp)

lemma insert_user_grows: "insert_user v s = Inr s' \<Longrightarrow> site_grows s s'"
proof -
  assume i: "insert_user v s = Inr s'"
  note f = insert_user_frame [OF i]
  have "map acct_key (accounts s') = map acct_key (accounts s)" using f(1) by (simp add: same_books_def)
  then show ?thesis using f(4,5) ledger_steps_frame [OF f(1)] has_wallet_keys [of s' s] by (auto simp: site_grows_def)
qed

lemma create_wallet_grows:
  assumes "create_wallet i u s = Inr (a, s')"
  shows "site_grows s s'"
proof -
  have "users s' = users s" using assms by (auto simp: create_wallet_def insert_account_def Let_def split: if_splits)
  moreover have "has_wallet v s \<Longrightarrow> has_wallet v s'" for v using has_wallet_created [OF assms] by (cases "v = u") simp_all
  ultimately show ?thesis using create_wallet_steps [OF assms] by (simp add: site_grows_def)
qed

definition has_key :: "string \<Rightarrow> 'a ledger_scheme \<Rightarrow> bool" where
  "has_key k s \<longleftrightarrow> (\<exists>t \<in> set (transfers s). idempotency_key t = Some k)"

lemma has_key_grows: "has_key k s \<Longrightarrow> ledger_wf s \<Longrightarrow> site_grows s s' \<Longrightarrow> has_key k s'"
  unfolding has_key_def site_grows_def using steps_keep_transfers by blast

lemma fund_grows:
  fixes s s' :: "'a site_db_scheme"
  assumes "or_existing key s (fund_from_house ids now kind key u amt r s) = Inr (t, s')"
  shows "site_grows s s' \<and> has_wallet u s \<and> has_key key s'"
proof -
  have key: "has_key key s'" using or_existing_new [OF assms] by (auto simp: has_key_def)
  from or_existing_Inr [OF assms] show ?thesis
  proof (elim disjE conjE)
    assume f: "fund_from_house ids now kind key u amt r s = Inr (t, s')"
    obtain w m where w: "resolve_user_wallet_id u s = Inr w" and p: "posted kind (Some key) HOUSE_PROMO_ACCOUNT_ID w m t s s'"
      using fund_from_house_Inr [OF f] by blast
    have "users s' = users s" by (rule more_users [OF more_rest [OF fund_from_house_more [OF f]]])
    then have "site_grows s s'"
      using posted_step [OF p] has_wallet_keys [OF posted_transfers(2) [OF p]] by (auto simp: site_grows_def)
    then show ?thesis using key w by (auto simp: has_wallet_def)
  next
    assume f: "fund_from_house ids now kind key u amt r s = Inl (IntegrityError UniqueViolation)" and e: "s' = s"
    have one: "bindE (scalar_one xs) (\<lambda>a. Inr (acc_id a)) \<noteq> Inl (IntegrityError UniqueViolation)" for xs :: "account list"
      by (cases xs rule: scalar_one.cases) simp_all
    have "resolve_user_wallet_id u (begin_tx s) \<noteq> Inl (IntegrityError UniqueViolation)"
      unfolding resolve_user_wallet_id_def by (rule one)
    then obtain w where "resolve_user_wallet_id u (begin_tx s) = Inr w"
      using f by (cases "resolve_user_wallet_id u (begin_tx s)") (auto simp: fund_from_house_def Let_def)
    then have "has_wallet u s" using resolve_frame [of "begin_tx s" s] by (auto simp: has_wallet_def begin_tx_def)
    then show ?thesis using e key by simp
  qed
qed

lemma bonus_grows:
  "grant_signup_bonus ids now u amt s = Inr (t, s') \<Longrightarrow> site_grows s s' \<and> has_wallet u s \<and> has_key (signup_bonus_key u) s'"
  "recharge ids now u amt reason key prov s = Inr (t, s') \<Longrightarrow> site_grows s s' \<and> has_wallet u s \<and> has_key key s'"
  unfolding grant_signup_bonus_def recharge_def by (auto dest: fund_grows split: if_splits)

text \<open>Runs that only grow the site, establishing something stable for each element.\<close>

lemma andS_Inr: "andS m k s = (Inr y, s') \<longleftrightarrow> (\<exists>x t. m s = (Inr x, t) \<and> k x t = (Inr y, s'))"
  by (auto simp: andS_def split: prod.split sum.split)

lemma tx_Inr: "tx f s = (Inr y, s') \<longleftrightarrow> f s = Inr (y, s')"
  by (auto simp: tx_def split: sum.split)

lemma eachS_grows:
  assumes "eachS f xs s = (Inr ys, s')" "ledger_wf s"
    and "\<And>x u y v. x \<in> set xs \<Longrightarrow> f x u = (Inr y, v) \<Longrightarrow> ledger_wf u \<Longrightarrow> site_grows u v \<and> Q x y v"
    and "\<And>x y u v. Q x y u \<Longrightarrow> ledger_wf u \<Longrightarrow> site_grows u v \<Longrightarrow> Q x y v"
  shows "site_grows s s' \<and> list_all2 (\<lambda>x y. Q x y s') xs ys"
  using assms(1-3)
proof (induction xs arbitrary: s ys)
  case (Cons x xs)
  then obtain y t zs where x: "f x s = (Inr y, t)" and xs: "eachS f xs t = (Inr zs, s')" and ys: "ys = y # zs"
    by (auto simp: andS_Inr give_def)
  have q: "site_grows s t" "Q x y t" using Cons.prems(3) [OF _ x Cons.prems(2)] by auto
  have wf: "ledger_wf t" using q(1) Cons.prems(2) steps_wf by (auto simp: site_grows_def)
  have "site_grows t s' \<and> list_all2 (\<lambda>x y. Q x y s') xs zs" by (rule Cons.IH [OF xs wf Cons.prems(3)]) auto
  then show ?case using q assms(4) [OF q(2) wf] site_grows_trans ys by auto
qed (simp add: give_def)

lemma eachS_noop: "list_all2 (\<lambda>x y. f x s = (Inr y, s)) xs ys \<Longrightarrow> eachS f xs s = (Inr ys, s)"
  by (induction xs ys rule: list_all2_induct) (simp_all add: andS_def give_def)

definition player_seeded :: "demo_user_spec \<Rightarrow> uuid \<Rightarrow> 'a site_db_scheme \<Rightarrow> bool" where
  "player_seeded spec u s \<longleftrightarrow> (\<exists>v \<in> set (users s). us_email v = du_email spec \<and> us_id v = u) \<and> has_wallet u s
     \<and> has_key (signup_bonus_key u) s \<and> (\<forall>i < length (du_recharges spec). has_key (recharge_key u i) s)"

lemma player_seeded_grows: "player_seeded spec u s \<Longrightarrow> ledger_wf s \<Longrightarrow> site_grows s s' \<Longrightarrow> player_seeded spec u s'"
  unfolding player_seeded_def by (auto intro: has_key_grows) (auto simp: site_grows_def)

lemma ensure_grows:
  assumes "ensure_user_with_wallet h d spec s = (Inr u, s')"
  shows "site_grows s s' \<and> (\<exists>v \<in> set (users s'). us_email v = du_email spec \<and> us_id v = u)"
proof (cases "user_by_email (du_email spec) s")
  case (Inl e) then show ?thesis using assms by (simp add: ensure_user_with_wallet_def)
next
  case (Inr found)
  show ?thesis
  proof (cases found)
    case None
    obtain s1 w v where i: "insert_user v (begin_tx s) = Inr s1" "us_email v = du_email spec" "us_id v = ud_user d"
      and w: "create_wallet (ud_wallet d) (ud_user d) s1 = Inr (w, s')" and u: "u = ud_user d"
      using assms Inr None by (auto simp: ensure_user_with_wallet_def tx_Inr seed_user_row_def)
    have g: "site_grows s s'" "users s' = users s1"
      using site_grows_trans [OF site_grows_trans [OF site_grows_begin insert_user_grows [OF i(1)]] create_wallet_grows [OF w]] w
      by (auto simp: create_wallet_def insert_account_def Let_def split: if_splits)
    then show ?thesis using insert_user_frame(4) [OF i(1)] i(2,3) u by simp
  next
    case (Some v)
    then have "us_email v = du_email spec" "v \<in> set (users s)"
      using Inr by (auto simp: user_by_email_def scalar_one_or_none_Inr filter_eq_Cons_iff)
    then show ?thesis using assms Inr Some by (auto simp: ensure_user_with_wallet_def)
  qed
qed

lemma fund_wallet_grows:
  fixes s s' :: "'a site_db_scheme"
  assumes "fund_wallet d u spec s = (Inr ts, s')" "ledger_wf s"
  shows "site_grows s s' \<and> has_wallet u s' \<and> has_key (signup_bonus_key u) s' \<and> (\<forall>i < length (du_recharges spec). has_key (recharge_key u i) s')"
proof -
  obtain t s1 where b: "grant_signup_bonus (ud_bonus d) (ud_now d) u (du_bonus spec) s = Inr (t, s1)"
    and r: "eachS (\<lambda>(i, amt). tx (recharge (ud_recharge d i) (ud_now d) u amt ''demo_recharge'' (recharge_key u i) PROVIDER_HOUSE))
       (List.enumerate 0 (du_recharges spec)) s1 = (Inr ts, s')"
    using assms(1) by (auto simp: fund_wallet_def andS_Inr tx_Inr)
  have g1: "site_grows s s1" "has_wallet u s" "has_key (signup_bonus_key u) s1"
    using bonus_grows(1) [OF b] by simp_all
  have wf1: "ledger_wf s1" using g1(1) assms(2) steps_wf by (auto simp: site_grows_def)
  have l: "site_grows s1 s' \<and> list_all2 (\<lambda>x y. has_key (recharge_key u (fst x)) s') (List.enumerate 0 (du_recharges spec)) ts"
  proof (rule eachS_grows [OF r wf1])
    fix x y and v w :: "'a site_db_scheme"
    assume "(case x of (i, amt) \<Rightarrow> tx (recharge (ud_recharge d i) (ud_now d) u amt ''demo_recharge'' (recharge_key u i) PROVIDER_HOUSE)) v = (Inr y, w)"
    then show "site_grows v w \<and> has_key (recharge_key u (fst x)) w"
      by (cases x) (auto simp: tx_Inr dest: bonus_grows(2))
  qed (rule has_key_grows)
  have "has_key (recharge_key u i) s'" if "i < length (du_recharges spec)" for i
    using list_all2_nthD [OF conjunct2 [OF l], of i] that by (simp add: nth_enumerate_eq)
  moreover have g: "site_grows s s'" using site_grows_trans [OF g1(1)] l by blast
  moreover have "has_wallet u s'" using g g1(2) by (simp add: site_grows_def)
  ultimately show ?thesis using has_key_grows [OF g1(3) wf1] l by blast
qed

lemma seed_user_grows:
  assumes "seed_user env (i, spec) s = (Inr y, s')" "ledger_wf s"
  shows "site_grows s s' \<and> player_seeded spec (su_id y) s' \<and> su_email y = du_email spec \<and> su_name y = du_name spec"
proof -
  obtain u s1 ts where e: "ensure_user_with_wallet (sd_hash env) (sd_users env i) spec s = (Inr u, s1)"
    and f: "fund_wallet (sd_users env i) u spec s1 = (Inr ts, s')"
    and y: "y = \<lparr>su_id = u, su_email = du_email spec, su_name = du_name spec\<rparr>"
    using assms(1) by (auto simp: seed_user_def andS_Inr give_def)
  note g = ensure_grows [OF e]
  have wf: "ledger_wf s1" using g assms(2) steps_wf by (auto simp: site_grows_def)
  note h = fund_wallet_grows [OF f wf]
  have "\<exists>v \<in> set (users s'). us_email v = du_email spec \<and> us_id v = u" using g h by (auto simp: site_grows_def)
  then show ?thesis using g h site_grows_trans y by (auto simp: player_seeded_def)
qed

lemma replay_noop:
  assumes "ledger_wf s" "has_wallet u s" "has_key key s"
  shows "\<exists>t. or_existing key s (fund_from_house ids now kind key u amt r s) = Inr (t, s)"
proof -
  obtain w t where "resolve_user_wallet_id u s = Inr w" "t \<in> set (transfers s)" "idempotency_key t = Some key"
    using assms(2,3) by (auto simp: has_wallet_def has_key_def)
  then show ?thesis using fund_from_house_replay or_existing_replay [OF assms(1)] by metis
qed

lemma seed_user_noop:
  assumes "player_seeded spec (su_id y) s" "su_email y = du_email spec" "su_name y = du_name spec"
    and "ledger_wf s" "distinct (map us_email (users s))" "0 < du_bonus spec" "\<forall>r \<in> set (du_recharges spec). 0 < r"
  shows "seed_user env (i, spec) s = (Inr y, s)"
proof -
  let ?u = "su_id y"
  obtain v where v: "v \<in> set (users s)" "us_email v = du_email spec" "us_id v = ?u"
    and w: "has_wallet ?u s" and k: "has_key (signup_bonus_key ?u) s" "\<forall>i < length (du_recharges spec). has_key (recharge_key ?u i) s"
    using assms(1) by (auto simp: player_seeded_def)
  have "filter (\<lambda>v. us_email v = du_email spec) (users s) = [v]"
    using filter_key_distinct [OF assms(5) v(1)] v(2) by simp
  then have e: "ensure_user_with_wallet h d spec s = (Inr ?u, s)" for h d
    using v(3) by (simp add: ensure_user_with_wallet_def user_by_email_def)
  have b: "\<exists>t. grant_signup_bonus ids now ?u (du_bonus spec) s = Inr (t, s)" for ids now
    using replay_noop [OF assms(4) w k(1)] assms(6) by (simp add: grant_signup_bonus_def)
  have "\<exists>ts. eachS (\<lambda>(i, amt). tx (recharge (rid i) now ?u amt ''demo_recharge'' (recharge_key ?u i) PROVIDER_HOUSE))
       (List.enumerate 0 (du_recharges spec)) s = (Inr ts, s)" for rid now
  proof -
    have "\<exists>t. (case x of (i, amt) \<Rightarrow> tx (recharge (rid i) now ?u amt ''demo_recharge'' (recharge_key ?u i) PROVIDER_HOUSE)) s = (Inr t, s)"
      if x: "x \<in> set (List.enumerate 0 (du_recharges spec))" for x
    proof -
      obtain i where i: "i < length (du_recharges spec)" "x = (i, du_recharges spec ! i)"
        using x by (auto simp: in_set_enumerate_eq)
      then have "0 < du_recharges spec ! i" "has_key (recharge_key ?u i) s" using assms(7) k(2) by auto
      with replay_noop [OF assms(4) w, of "recharge_key ?u i"] show ?thesis by (simp add: i(2) recharge_def tx_Inr)
    qed
    from bchoice [OF ballI [OF this]] obtain g where
      "\<forall>x \<in> set (List.enumerate 0 (du_recharges spec)).
         (case x of (i, amt) \<Rightarrow> tx (recharge (rid i) now ?u amt ''demo_recharge'' (recharge_key ?u i) PROVIDER_HOUSE)) s = (Inr (g x), s)" ..
    then show ?thesis
      by (intro exI [of _ "map g (List.enumerate 0 (du_recharges spec))"] eachS_noop) (simp add: list.rel_map list.rel_refl_strong)
  qed
  note r = this
  obtain t ts where "grant_signup_bonus (ud_bonus (sd_users env i)) (ud_now (sd_users env i)) ?u (du_bonus spec) s = Inr (t, s)"
    "eachS (\<lambda>(k, amt). tx (recharge (ud_recharge (sd_users env i) k) (ud_now (sd_users env i)) ?u amt ''demo_recharge'' (recharge_key ?u k) PROVIDER_HOUSE))
       (List.enumerate 0 (du_recharges spec)) s = (Inr ts, s)"
    using b r by blast
  then show ?thesis
    using assms(2,3) by (cases y) (simp add: seed_user_def fund_wallet_def andS_def tx_def e give_def)
qed

lemma user_specs_positive:
  assumes "spec \<in> set (build_user_specs cfg)"
  shows "0 < du_bonus spec" "\<forall>r \<in> set (du_recharges spec). 0 < r"
proof -
  obtain i where i: "du_bonus spec = SIGNUP_BONUS" "du_recharges spec = RECHARGE_LADDERS ! (i mod length RECHARGE_LADDERS)"
    using assms by (auto simp: build_user_specs_def)
  have "list_all (list_all (\<lambda>r. 0 < r)) RECHARGE_LADDERS" by (simp add: RECHARGE_LADDERS_def)
  moreover have "RECHARGE_LADDERS ! (i mod length RECHARGE_LADDERS) \<in> set RECHARGE_LADDERS" by (rule nth_mem) (simp add: RECHARGE_LADDERS_def)
  ultimately show "0 < du_bonus spec" "\<forall>r \<in> set (du_recharges spec). 0 < r"
    using i by (auto simp: SIGNUP_BONUS_def list_all_iff)
qed

text \<open>
  C24: Seeding the players is idempotent.  Once it has gone through, and after any further registrations
  and wallet activity, running it again (with other identifiers, another hash and other times) answers
  the same players and changes nothing: no second user, wallet, bonus or recharge.
\<close>

theorem seed_users_rerun_is_noop:
  assumes "seed_users env cfg s = (Inr us, s1)" "ledger_wf s" "distinct (map us_email (users s))" "site_grows s1 s2"
  shows "seed_users env' cfg s2 = (Inr us, s2)"
proof -
  let ?Q = "\<lambda>x y s. player_seeded (snd x) (su_id y) s \<and> su_email y = du_email (snd x) \<and> su_name y = du_name (snd x)"
  let ?xs = "List.enumerate 0 (build_user_specs cfg)"
  have "site_grows s s1 \<and> list_all2 (\<lambda>x y. ?Q x y s1) ?xs us"
  proof (rule eachS_grows [OF assms(1) [unfolded seed_users_def] assms(2)])
    show "site_grows u v \<and> ?Q x y v" if "seed_user env x u = (Inr y, v)" "ledger_wf u" for x y and u v :: "'a site_db_scheme"
      using that seed_user_grows [of env "fst x" "snd x" u y v] by simp
    show "?Q x y v" if "?Q x y u" "ledger_wf u" "site_grows u v" for x y and u v :: "'a site_db_scheme"
      using that player_seeded_grows by blast
  qed
  then have g: "site_grows s s1" and q: "list_all2 (\<lambda>x y. ?Q x y s1) ?xs us" by blast+
  have wf1: "ledger_wf s1" using g assms(2) steps_wf by (auto simp: site_grows_def)
  have wf2: "ledger_wf s2" and d2: "distinct (map us_email (users s2))"
    using assms(3,4) g wf1 steps_wf by (auto simp: site_grows_def)
  have "list_all2 (\<lambda>x y. seed_user env' x s2 = (Inr y, s2)) ?xs us"
  proof (rule list.rel_mono_strong [OF q])
    fix x y assume "x \<in> set ?xs" "y \<in> set us" and y: "?Q x y s1"
    then have "snd x \<in> set (build_user_specs cfg)"
      using nth_mem [of "fst x" "build_user_specs cfg"] by (simp add: in_set_enumerate_eq)
    note pos = user_specs_positive [OF this]
    have "player_seeded (snd x) (su_id y) s2" using y player_seeded_grows wf1 assms(4) by blast
    then show "seed_user env' x s2 = (Inr y, s2)"
      using y seed_user_noop [OF _ _ _ wf2 d2 pos, of y env' "fst x"] by simp
  qed
  then show ?thesis unfolding seed_users_def by (rule eachS_noop)
qed

subsection \<open>Concrete runs\<close>

text \<open>Two sets of draws, for two players; the remaining identifiers do not matter to the examples.\<close>

definition demo_user_draw :: "uuid \<Rightarrow> user_draw" where
  "demo_user_draw u = \<lparr>ud_user = u, ud_wallet = u + 1, ud_bonus = (u + 2, u + 3, u + 4),
     ud_recharge = (\<lambda>j. if j = 0 then (u + 5, u + 6, u + 7) else (u + 8, u + 9, u + 10)), ud_now = 7\<rparr>"

definition demo_bet_draw :: bet_draw where
  "demo_bet_draw = \<lparr>bd_account = 0x700, bd_bet = 0x701, bd_ids = (0x702, 0x703, 0x704), bd_now = 7\<rparr>"

definition demo_env_at :: "uuid \<Rightarrow> uuid \<Rightarrow> seed_env" where
  "demo_env_at u v = \<lparr>sd_hash = (\<lambda>p. ''h''), sd_slugify = id, sd_collate = (\<lambda>l. of_nat (length l)), sd_walk = (\<lambda>b seed k. b),
     sd_limits = (1, 100000), sd_users = (\<lambda>i. demo_user_draw (if i = 0 then u else v)), sd_admin = (0x500, 7),
     sd_markets = (\<lambda>i. \<lparr>md_slugs = [(0x800, 0x801)], md_ids = (0x802, 0x803, 0x804, 0x805, 0x806), md_now = 7\<rparr>),
     sd_snapshot = of_nat, sd_now = 7, sd_bets = (\<lambda>i. demo_bet_draw), sd_event_bets = (\<lambda>i. demo_bet_draw),
     sd_settle = (\<lambda>m. (\<lambda>k. (0x900, 0x901, 0x902), 0x903, 7, 7)),
     sd_events = (\<lambda>i. \<lparr>ed_slugs = [(0x910, 0x911)], ed_kids = (\<lambda>k. (0x912, 0x913, 0x914, 0x915)), ed_audit = 0x916, ed_now = 7\<rparr>),
     sd_event_audit = (\<lambda>i. (0x917, 7))\<rparr>"

definition one_player :: seed_config where
  "one_player = default_config\<lparr>n_users := 1\<rparr>"

definition first_player :: demo_user_spec where
  "first_player = \<lparr>du_email = ''demo-user-00@demo.xpredict'', du_name = ''Alice Nguyen'', du_bonus = 1000, du_recharges = []\<rparr>"

definition first_site :: site_db where
  "first_site = (demo_site [seed_user_row 0x20 ''demo-user-00@demo.xpredict'' ''h'' (Some ''Alice Nguyen'') False 7] [])
     \<lparr>accounts := accounts demo_live_db @ [\<lparr>acc_id = 0x21, owner_type = OWNER_USER, owner_id = Some 0x20,
        acc_kind = KIND_USER_WALLET, currency = PLAY_USD, balance = 0, version = 0\<rparr>]\<rparr>"

lemma first_player_ensured:
  "fst (ensure_user_with_wallet (\<lambda>p. ''h'') (demo_user_draw 0x20) first_player (demo_site [] [])) = Inr 0x20"
  "snd (ensure_user_with_wallet (\<lambda>p. ''h'') (demo_user_draw 0x20) first_player (demo_site [] [])) = first_site"
  by code_simp+

lemma demo_player_seeded:
  obtains s1 where "seed_users (demo_env_at 0x20 0x40) one_player (demo_site [] [])
      = (Inr [\<lparr>su_id = 0x20, su_email = ''demo-user-00@demo.xpredict'', su_name = ''Alice Nguyen''\<rparr>], s1)" "bal s1 0x21 = 1000"
proof -
  have specs: "build_user_specs one_player = [first_player]" by code_simp
  have e: "ensure_user_with_wallet (\<lambda>p. ''h'') (demo_user_draw 0x20) first_player (demo_site [] []) = (Inr 0x20, first_site)"
    using first_player_ensured by (simp add: prod_eq_iff)
  have "okE (\<lambda>(t, s). bal s 0x21 = 1000) (grant_signup_bonus (0x22, 0x23, 0x24) 7 0x20 1000 first_site)" by code_simp
  then obtain t s1 where g: "grant_signup_bonus (0x22, 0x23, 0x24) 7 0x20 1000 first_site = Inr (t, s1)" "bal s1 0x21 = 1000"
    by (auto simp: okE_iff)
  have "seed_user (demo_env_at 0x20 0x40) (0, first_player) (demo_site [] [])
      = (Inr \<lparr>su_id = 0x20, su_email = ''demo-user-00@demo.xpredict'', su_name = ''Alice Nguyen''\<rparr>, s1)"
    using e g(1) by (simp add: seed_user_def fund_wallet_def andS_def tx_def give_def demo_env_at_def demo_user_draw_def first_player_def)
  then show thesis using that g(2) by (simp add: seed_users_def specs andS_def give_def)
qed

lemma demo_seed_reconciles_witness:
  "snd (reconcile_with_session (snd (seed_main (demo_env_at 0x20 0x40) POLYMARKET_CATEGORIES [''--reset''] None (demo_site [demo_player] [])))) = 0"
proof -
  obtain r s' where m: "seed_main (demo_env_at 0x20 0x40) POLYMARKET_CATEGORIES [''--reset''] None (demo_site [demo_player] []) = (r, s')"
    by (rule prod.exhaust)
  show ?thesis using demo_seed_reconciles [OF _ m] by (simp add: m)
qed


lemma seed_users_rerun_is_noop_witness:
  "\<exists>us s1. seed_users (demo_env_at 0x20 0x40) one_player (demo_site [] []) = (Inr us, s1)
     \<and> seed_users (demo_env_at 0x60 0x80) one_player s1 = (Inr us, s1) \<and> length us = 1 \<and> bal s1 0x21 = 1000"
proof -
  obtain us s1 where r: "seed_users (demo_env_at 0x20 0x40) one_player (demo_site [] []) = (Inr us, s1)" "length us = 1" "bal s1 0x21 = 1000"
    by (rule demo_player_seeded) simp
  have "ledger_wf (demo_site [] [])" using demo_site_live_ok by (simp add: live_ok_def platform_wf)
  moreover have "distinct (map us_email (users (demo_site [] [])))" by (simp add: demo_site_def)
  ultimately have "seed_users (demo_env_at 0x60 0x80) one_player s1 = (Inr us, s1)"
    using seed_users_rerun_is_noop [OF r(1)] by simp
  with r show ?thesis by blast
qed

end
