(* ===== verification/Scrub.thy ===== *)
theory Scrub
  imports Casino Search
begin

text \<open>
  The scrubber of the log (\<open>core/logging.py\<close>): every event passes \<open>scrub_secrets\<close> before it is rendered.
  An event is a JSON value; the values Python adds to those (tuples, objects) pass unchanged.
\<close>

definition SCRUB_KEYS :: "string list" where
  "SCRUB_KEYS = [''password'', ''password_hash'', ''session_signing_key'', ''admin_token'', ''sentry_dsn'', ''api_key'',
     ''secret'', ''xp_session'']"

definition secret_key :: "string \<Rightarrow> bool" where
  "secret_key k \<longleftrightarrow> lower k \<in> set SCRUB_KEYS"

fun scrub_recursive :: "pyjson \<Rightarrow> pyjson" where
  "scrub_recursive (PDict d) = PDict (map (\<lambda>(k, v). (k, if secret_key k then PStr ''***'' else scrub_recursive v)) d)"
| "scrub_recursive (PList xs) = PList (map scrub_recursive xs)"
| "scrub_recursive v = v"

definition scrub_secrets :: "(string \<times> pyjson) list \<Rightarrow> (string \<times> pyjson) list" where
  "scrub_secrets event = (case scrub_recursive (PDict event) of PDict d \<Rightarrow> d | _ \<Rightarrow> [])"

subsection \<open>What the log shows\<close>

datatype access = Key string | Index nat

fun at_path :: "pyjson \<Rightarrow> access list \<Rightarrow> pyjson option" where
  "at_path v [] = Some v"
| "at_path (PDict d) (Key k # p) = (case py_get d k of None \<Rightarrow> None | Some v \<Rightarrow> at_path v p)"
| "at_path (PList xs) (Index i # p) = (if i < length xs then at_path (xs ! i) p else None)"
| "at_path v (a # p) = None"

fun secret_access :: "access \<Rightarrow> bool" where
  "secret_access (Key k) = secret_key k"
| "secret_access (Index i) = False"

lemma map_of_map_key: "map_of (map (\<lambda>(k, v). (k, h k v)) d) k = map_option (h k) (map_of d k)"
  by (induction d) auto

lemma py_get_map: "py_get (map (\<lambda>(k, v). (k, h k v)) d) k = map_option (h k) (py_get d k)"
  by (simp add: py_get_def rev_map map_of_map_key)

text \<open>The value a path leads to in a scrubbed event, by the first secret key on the path.\<close>

lemma at_path_scrub:
  "at_path (scrub_recursive v) p =
     (case dropWhile (\<lambda>a. \<not> secret_access a) p of
        [] \<Rightarrow> map_option scrub_recursive (at_path v p)
      | a # q \<Rightarrow> if q = [] \<and> at_path v p \<noteq> None then Some (PStr ''***'') else None)"
proof (induction v p rule: at_path.induct)
  case (2 d k p)
  show ?case
  proof (cases "py_get d k")
    case None then show ?thesis by (auto simp: py_get_map split: list.split)
  next
    case (Some v)
    show ?thesis
    proof (cases "secret_key k")
      case True
      then show ?thesis using Some by (cases p) (auto simp: py_get_map)
    next
      case False
      have "at_path (scrub_recursive (PDict d)) (Key k # p) = at_path (scrub_recursive v) p"
        "at_path (PDict d) (Key k # p) = at_path v p"
        "dropWhile (\<lambda>a. \<not> secret_access a) (Key k # p) = dropWhile (\<lambda>a. \<not> secret_access a) p"
        using Some False by (simp_all add: py_get_map)
      then show ?thesis using 2 [OF Some] by (simp only:)
    qed
  qed
next
  case (3 xs i p)
  show ?case
  proof (cases "i < length xs")
    case True
    have "at_path (scrub_recursive (PList xs)) (Index i # p) = at_path (scrub_recursive (xs ! i)) p"
      "at_path (PList xs) (Index i # p) = at_path (xs ! i) p"
      "dropWhile (\<lambda>a. \<not> secret_access a) (Index i # p) = dropWhile (\<lambda>a. \<not> secret_access a) p" using True by simp_all
    then show ?thesis using 3 [OF True] by (simp only:)
  qed (auto split: list.split)
qed (auto split: list.split)

lemma scrub_idem [simp]: "scrub_recursive (scrub_recursive v) = scrub_recursive v"
  by (induction v rule: scrub_recursive.induct) auto

text \<open>
  What the log shows of an event is decided by the keys on the way to it.  A value under a secret key, at
  whatever depth and in whatever case the key is spelled, is shown as three stars with nothing
  below; a value with no secret key above it is shown as it is, scrubbed below; a scrubbed event is
  its own scrubbing.
\<close>

theorem log_shows_no_secret:
  "at_path (PDict (scrub_secrets event)) p =
     (case dropWhile (\<lambda>a. \<not> secret_access a) p of
        [] \<Rightarrow> map_option scrub_recursive (at_path (PDict event) p)
      | a # q \<Rightarrow> if q = [] \<and> at_path (PDict event) p \<noteq> None then Some (PStr ''***'') else None)
   \<and> scrub_secrets (scrub_secrets event) = scrub_secrets event"
proof -
  have e: "PDict (scrub_secrets event) = scrub_recursive (PDict event)" for event by (simp add: scrub_secrets_def)
  have "PDict (scrub_secrets (scrub_secrets event)) = PDict (scrub_secrets event)" by (simp only: e scrub_idem)
  then have twice: "scrub_secrets (scrub_secrets event) = scrub_secrets event" by (simp only: pyjson.inject)
  show ?thesis by (intro conjI twice, unfold e) (rule at_path_scrub)
qed

text \<open>A secret under any other key is logged as it is.\<close>

lemma token_is_logged: "scrub_secrets [(''token'', PStr t)] = [(''token'', PStr t)]"
proof -
  have "\<not> secret_key ''token''" by code_simp
  then show ?thesis by (simp add: scrub_secrets_def)
qed

end
