(* ===== verification/Spec2Isabelle.thy ===== *)
theory Spec2Isabelle
  imports MarketViews Locks GammaReplay RealtimeRules CatalogRules GateRules KpiUsers
    ConsoleRules Casino SeedRules Scrub
begin

text \<open>
  XPredict is a play-money prediction market: users hold a wallet in a double-entry ledger, bet on
  the outcomes of markets, may close a bet early at the live price, and are paid when an operator
  or the Polymarket mirror resolves the market.  This library models the back end under
  \<open>src/backend/app\<close> and the operator scripts of \<open>src/backend/bin\<close>.

  \<^bold>\<open>State.\<close>  A state is a record of tables, each a list of rows in insertion order: \<open>ledger\<close>
  (\<open>accounts\<close>, \<open>transfers\<close>, \<open>entries\<close>, and the row locks the running transaction holds) extended by
  \<open>db\<close> (audit log, markets, groups, outcomes, snapshots, bets).  A database constraint is a branch
  of the insert or update that meets it.  A transaction is a function that yields
  \<open>Inl\<close> an exception, in which case it rolled back and the caller keeps the old state, or \<open>Inr\<close> a
  result and the committed state.  Identifiers drawn with \<open>uuid4()\<close> and the transaction time are
  arguments.  The code the services reach through a port (\<open>MarketReadPort\<close>, \<open>MarketResolvePort\<close>)
  is a parameter; the adapters of the repository are its interpretations.

  \<^bold>\<open>Numbers.\<close>  A \<open>Decimal\<close> is a rational; \<open>dec_add\<close>, \<open>dec_mul\<close>, \<open>dec_div\<close> round to the 28 digits of the
  default context, \<open>numeric_18_4\<close> and \<open>numeric_8_6\<close> are the casts to the money and odds columns.

  \<^bold>\<open>Theories.\<close>
  \<^item> \<open>Prelude\<close>: identifiers, exceptions, the result monad, table lemmas.
  \<^item> \<open>Money\<close>, \<open>Payout\<close>, \<open>Portfolio\<close>: \<open>db/types.py\<close>, \<open>settlement/payout.py\<close>, \<open>settlement/plan.py\<close>,
    \<open>bets/portfolio.py\<close>, with the exactness of every quotient the code rounds.
  \<^item> \<open>Ledger\<close>, \<open>Books\<close>, \<open>Wallet\<close>: \<open>wallet/models.py\<close>, \<open>wallet/service.py\<close>, \<open>wallet/reconcile.py\<close>.  \<open>Books\<close>
    has the abstract ledger, a step relation whose only steps open an empty account or post a
    balanced transfer, the locale \<open>ledger_invariant\<close> of predicates such steps preserve, and its
    interpretations (double entry, reconciled balances, constant money supply, append-only
    history); every wallet operation is shown to be a sequence of such steps.
  \<^item> \<open>Database\<close>: rows and constraints of \<open>markets/models.py\<close>, \<open>bets/models.py\<close>, \<open>core/audit\<close>.
  \<^item> \<open>Specs\<close>, \<open>Bets\<close>, \<open>Pool\<close>, \<open>Close\<close>: \<open>bets/service.py\<close>.  \<open>platform_ok\<close> is the invariant of the platform:
    the books balance, the house accounts are seeded, each market's liability account holds exactly
    the stakes of its pending bets.
  \<^item> \<open>Settlement\<close>, \<open>Settling\<close>, \<open>Settled\<close>, \<open>Reversal\<close>: \<open>settlement/service.py\<close> and \<open>settlement/adapters.py\<close>.
    The locale \<open>resolve_contract\<close> is what settlement relies on in the resolve port.
  \<^item> \<open>Markets\<close>, \<open>MarketRules\<close>, \<open>MarketViews\<close>: \<open>markets/service.py\<close>, \<open>markets/schemas.py\<close> and the
    endpoints of \<open>markets/router.py\<close>: creating, editing and closing house markets, what they keep of
    the catalog, and the lists and the price history the players read.
  \<^item> \<open>Events\<close>, \<open>EventRules\<close>, \<open>EventEdits\<close>: \<open>settlement/event_service.py\<close>, \<open>event_schemas.py\<close>,
    \<open>event_router.py\<close>.  An event operation runs one transaction per child, so it returns its result
    or exception together with the state committed by then.
  \<^item> \<open>Text\<close>, \<open>LiveBets\<close>, \<open>LiveBetsRules\<close>: \<open>integrations/livebets\<close>.  The answer of the external service
    is a parameter; \<open>Text\<close> has the parsers of decimals and identifiers it goes through.
  \<^item> \<open>Gamma\<close>, \<open>GammaTasks\<close>, \<open>GammaRules\<close>, \<open>GammaReplay\<close>: \<open>integrations/polymarket\<close> and \<open>settlement/router.py\<close>.  The
    answers of Gamma, already validated, are parameters.  The locale \<open>mirror_writes\<close> is the interface of
    the adapter's writes; what its interpretations preserve, every poll preserves.
  \<^item> \<open>Search\<close>, \<open>Catalog\<close>, \<open>CatalogRules\<close>: \<open>catalog/service.py\<close> and \<open>catalog/router.py\<close> over the market tables.
    \<open>LIKE\<close> is a recursive matcher; the Redis cache is a map with expiry whose reads and writes may fail.
  \<^item> \<open>Realtime\<close>, \<open>RealtimeRules\<close>: \<open>realtime\<close>.  The coroutines interleave as an inductive step relation over
    the socket registry; the subscriber loop is a partial function over the events it waits for.
  \<^item> \<open>Auth\<close>, \<open>AuthRules\<close>: \<open>auth\<close>.  \<open>site_db\<close> adds the users and their refresh tokens to the state;
    \<open>sessions_grow\<close> is what every operation keeps of the sessions: a revoked or outdated token stays so.
  \<^item> \<open>Csv\<close>, \<open>Admin\<close>, \<open>AdminRules\<close>: \<open>admin/csv_export.py\<close>, \<open>admin/service.py\<close> and its routers.  A query is a
    function of the tables; a reader of CSV files is the reference for the writer.
  \<^item> \<open>Kpi\<close>, \<open>KpiRules\<close>, \<open>KpiUsers\<close>: \<open>admin/kpi_service.py\<close>.  \<open>booked\<close> says of a settlement leg that it moves
    the profit card by what it moves the house accounts; every leg of a resolution or reversal is.
  \<^item> \<open>Gates\<close>, \<open>GateRules\<close>: \<open>bets/router.py\<close>, \<open>wallet/router.py\<close>, \<open>wallet/admin_router.py\<close>, with the bans they enforce.
  \<^item> \<open>Console\<close>, \<open>ConsoleRules\<close>: \<open>core/audit/router.py\<close> and \<open>branding\<close>.  The audit viewer answers with a page of the
    log; \<open>console_db\<close> adds the branding row to the tables of the site.
  \<^item> \<open>Casino\<close>: \<open>integrations/slotslaunch\<close>.  The upstream answer is a JSON value, Redis a cache that may fail at each call.
  \<^item> \<open>Scrub\<close>: \<open>core/logging.py\<close>, the masking of secrets in log events.
  \<^item> \<open>SeedData\<close>, \<open>Seed\<close>, \<open>SeedRules\<close>: \<open>bin/seed_demo.py\<close> and \<open>bin/create_admin.py\<close>.  A script is a sequence of
    transactions of the services, so a step returns its result or exception with the state committed by
    then.  The locale \<open>seed_services\<close> has the laws of the services a seed calls; what its interpretations
    preserve (\<open>sound\<close>: the platform invariant, \<open>lost\<close>: a missing escrow account), every seed preserves.
  \<^item> \<open>Aside\<close>, \<open>Platform\<close>: the components together.  \<open>platform_step\<close> is one committed operation of any of them, with
    all its parameters free; \<open>live_ok\<close> is the invariant every step keeps, and \<open>audit_grows\<close> says that no step
    loses a row of the audit log.  Event settlement is a
    sequence of such steps.
  \<^item> \<open>Locks\<close>: the order of the account locks a transaction takes, and the deadlocks it excludes.

  \<^bold>\<open>Bounds.\<close>  No fuel is used: a loop of the modelled code is a fold over a finite list, a countdown of
  retries or, where it may not end, a partial function.  Where a
  theorem bounds a sum by \<open>10 ^ 21\<close>, that is what a 28-digit decimal holds exactly at four decimals.

  \<^bold>\<open>Not modelled.\<close>  Real concurrency (locks are a trace), the \<open>tenant_id\<close> and \<open>updated_at\<close> columns, text
  length limits, logging, floating-point arithmetic (the odds walk of the seed is a parameter, rounded as the code
  rounds it), and the components the manifest lists as such: the application shell, the source
  linter, the migrations and the planning spikes are wiring, build-time tools or throw-away
  experiments, and the user interface is TypeScript.
\<close>

end
